(* ===== verification/Prelude.thy ===== *)
theory Prelude
  imports Main
begin

text \<open>
  Shared vocabulary of the development.

  Python values: a \<open>str\<close> is the list of its code points (\<open>pystr\<close>), an \<open>int\<close> is an
  \<open>int\<close>, a timestamp is an \<open>int\<close> counting microseconds (the resolution of \<open>datetime\<close>).
  The ASCII literals of the source are written \<open>U ''...''\<close>.

  SQL: a table is the list of its rows in rowid order.  \<open>UPDATE ... SET f WHERE p\<close> is
  \<open>sql_update p f\<close>, its \<open>rowcount\<close> is \<open>sql_count p\<close>, and a single-row query is \<open>find p\<close>.
  The lemmas about these three operations carry the database proofs of all components.
\<close>

named_theorems db_simps \<open>definitions of statements and guards to unfold over a table\<close>

section \<open>Python values\<close>

type_synonym pystr = "nat list"
type_synonym time = int

definition U :: "string \<Rightarrow> pystr" where
  "U s = map of_char s"

definition seconds :: "int \<Rightarrow> time" where
  "seconds s = s * 1000000"

text \<open>\<open>bool(x)\<close> for an optional string: \<open>None\<close> and the empty string are false.\<close>

fun truthy :: "pystr option \<Rightarrow> bool" where
  "truthy None = False"
| "truthy (Some s) = (s \<noteq> [])"

text \<open>The slices \<open>s[-n:]\<close> (for \<open>n > 0\<close>) and \<open>s[:n]\<close>.\<close>

definition py_last :: "nat \<Rightarrow> 'a list \<Rightarrow> 'a list" where
  "py_last n s = drop (length s - n) s"

lemma length_py_last [simp]: "length (py_last n s) = min n (length s)"
  by (simp add: py_last_def)

lemma py_last_short: "length s \<le> n \<Longrightarrow> py_last n s = s"
  by (simp add: py_last_def)

lemma truthy_iff: "truthy x \<longleftrightarrow> (\<exists>c cs. x = Some (c # cs))"
  by (cases x) (auto simp: neq_Nil_conv)

text \<open>
  Sequencing of computations that may raise: \<open>and_then r f\<close> goes on with the value of \<open>r\<close>, and
  \<open>guard_raise b e\<close> is \<open>if b: raise e\<close>.
\<close>

fun and_then :: "'e + 'a \<Rightarrow> ('a \<Rightarrow> 'e + 'b) \<Rightarrow> 'e + 'b" where
  "and_then (Inl e) f = Inl e"
| "and_then (Inr x) f = f x"

definition guard_raise :: "bool \<Rightarrow> 'e \<Rightarrow> 'e + unit" where
  "guard_raise b e = (if b then Inl e else Inr ())"

fun map_raise :: "('a \<Rightarrow> 'e + 'b) \<Rightarrow> 'a list \<Rightarrow> 'e + 'b list" where
  "map_raise f [] = Inr []"
| "map_raise f (x # xs) = and_then (f x) (\<lambda>y. and_then (map_raise f xs) (\<lambda>ys. Inr (y # ys)))"

lemma guard_raise_simps [simp]:
  "guard_raise True e = Inl e" "guard_raise False e = Inr ()"
  "guard_raise b e = Inr u \<longleftrightarrow> \<not> b" "guard_raise b e = Inl e' \<longleftrightarrow> b \<and> e = e'"
  by (auto simp: guard_raise_def)

lemma and_then_Inr: "and_then r f = Inr y \<longleftrightarrow> (\<exists>x. r = Inr x \<and> f x = Inr y)"
  by (cases r) auto

lemma and_then_Inl: "and_then r f = Inl e \<longleftrightarrow> r = Inl e \<or> (\<exists>x. r = Inr x \<and> f x = Inl e)"
  by (cases r) auto

lemma map_raise_Inr:
  "map_raise f xs = Inr ys \<longleftrightarrow> list_all2 (\<lambda>x y. f x = Inr y) xs ys"
  by (induction xs arbitrary: ys) (auto simp: and_then_Inr list_all2_Cons1)

lemma map_raise_Inl: "map_raise f xs = Inl e \<Longrightarrow> \<exists>x \<in> set xs. f x = Inl e"
  by (induction xs) (auto simp: and_then_Inl)

text \<open>The errors a computation may raise, by rules that follow its shape.\<close>

definition raises_only :: "('e \<Rightarrow> bool) \<Rightarrow> 'e + 'a \<Rightarrow> bool" where
  "raises_only P r = (case r of Inl e \<Rightarrow> P e | Inr _ \<Rightarrow> True)"

lemma raises_only_simps [simp]:
  "raises_only P (Inl e) = P e" "raises_only P (Inr x)"
  "raises_only P (guard_raise b e) = (b \<longrightarrow> P e)"
  by (simp_all add: raises_only_def guard_raise_def)

lemma raises_only_bind [intro]:
  "raises_only P r \<Longrightarrow> (\<And>x. r = Inr x \<Longrightarrow> raises_only P (f x)) \<Longrightarrow> raises_only P (and_then r f)"
  by (cases r) simp_all

lemma raises_only_if [intro]:
  "(b \<Longrightarrow> raises_only P x) \<Longrightarrow> (\<not> b \<Longrightarrow> raises_only P y) \<Longrightarrow> raises_only P (if b then x else y)"
  by simp

lemma raises_onlyD: "raises_only P r \<Longrightarrow> r = Inl e \<Longrightarrow> P e"
  by simp

lemma raises_only_mono: "raises_only P r \<Longrightarrow> (\<And>e. P e \<Longrightarrow> Q e) \<Longrightarrow> raises_only Q r"
  by (cases r) auto

section \<open>Tables\<close>

definition sql_update :: "('r \<Rightarrow> bool) \<Rightarrow> ('r \<Rightarrow> 'r) \<Rightarrow> 'r list \<Rightarrow> 'r list" where
  "sql_update p f rows = map (\<lambda>r. if p r then f r else r) rows"

definition sql_count :: "('r \<Rightarrow> bool) \<Rightarrow> 'r list \<Rightarrow> nat" where
  "sql_count p rows = length (filter p rows)"

text \<open>The primary key SQLite gives to an inserted row: one more than the largest in use.\<close>

definition fresh_id :: "int list \<Rightarrow> int" where
  "fresh_id ids = 1 + foldr max ids 0"

lemma sql_update_simps [simp]:
  "sql_update p f [] = []"
  "sql_update p f (r # rs) = (if p r then f r else r) # sql_update p f rs"
  by (simp_all add: sql_update_def)

lemma sql_count_simps [simp]:
  "sql_count p [] = 0"
  "sql_count p (r # rs) = (if p r then Suc (sql_count p rs) else sql_count p rs)"
  by (simp_all add: sql_count_def)

lemma length_sql_update [simp]: "length (sql_update p f rows) = length rows"
  by (simp add: sql_update_def)

lemma set_sql_update: "set (sql_update p f rows) = (\<lambda>r. if p r then f r else r) ` set rows"
  by (auto simp: sql_update_def)

lemma sql_update_id: "(\<And>r. r \<in> set rows \<Longrightarrow> p r \<Longrightarrow> f r = r) \<Longrightarrow> sql_update p f rows = rows"
  by (induction rows) auto

lemma sql_update_none: "sql_count p rows = 0 \<Longrightarrow> sql_update p f rows = rows"
  by (induction rows) (auto split: if_splits)

lemma sql_update_cong:
  "(\<And>r. r \<in> set rows \<Longrightarrow> p r = q r) \<Longrightarrow> (\<And>r. r \<in> set rows \<Longrightarrow> q r \<Longrightarrow> f r = g r) \<Longrightarrow>
    sql_update p f rows = sql_update q g rows"
  by (induction rows) auto

lemma map_sql_update:
  "(\<And>r. p r \<Longrightarrow> key (f r) = key r) \<Longrightarrow> map key (sql_update p f rows) = map key rows"
  by (induction rows) auto

lemma sql_count_0_iff: "sql_count p rows = 0 \<longleftrightarrow> (\<forall>r \<in> set rows. \<not> p r)"
  by (induction rows) auto

lemma sql_count_append [simp]: "sql_count p (xs @ ys) = sql_count p xs + sql_count p ys"
  by (simp add: sql_count_def)

lemma sql_count_mono:
  "(\<And>r. r \<in> set rows \<Longrightarrow> p r \<Longrightarrow> q r) \<Longrightarrow> sql_count p rows \<le> sql_count q rows"
  by (induction rows) (auto simp: le_SucI)

lemma sql_count_update_le:
  assumes "\<And>r. r \<in> set rows \<Longrightarrow> p r \<Longrightarrow> q (f r) \<Longrightarrow> q r"
  shows "sql_count q (sql_update p f rows) \<le> sql_count q rows"
  using assms by (induction rows) (auto simp: le_SucI)

subsection \<open>Tables with a key\<close>

text \<open>
  With distinct keys a statement whose condition fixes the key touches at most one row; the
  lemmas below turn its row count into membership and its update into a replacement.
\<close>

lemma key_unique:
  "distinct (map key rows) \<Longrightarrow> r \<in> set rows \<Longrightarrow> s \<in> set rows \<Longrightarrow> key r = key s \<Longrightarrow> r = s"
  by (induction rows) (auto simp: rev_image_eqI)

lemma sql_count_key_le:
  assumes "distinct (map key rows)" "\<And>r. p r \<Longrightarrow> key r = k"
  shows "sql_count p rows \<le> 1"
  using assms
proof (induction rows)
  case (Cons r rows)
  have "p r \<Longrightarrow> sql_count p rows = 0"
    using Cons.prems by (force simp: sql_count_0_iff)
  with Cons show ?case by auto
qed simp

lemma sql_count_key_iff:
  assumes "distinct (map key rows)" "\<And>r. p r \<Longrightarrow> key r = k"
  shows "sql_count p rows = 1 \<longleftrightarrow> (\<exists>r \<in> set rows. p r)"
proof -
  have "sql_count p rows \<le> 1" using assms by (rule sql_count_key_le)
  moreover have "sql_count p rows = 0 \<longleftrightarrow> \<not> (\<exists>r \<in> set rows. p r)"
    by (auto simp: sql_count_0_iff)
  ultimately show ?thesis by linarith
qed

lemma find_key_Some:
  assumes "distinct (map key rows)" "r \<in> set rows" "p r" "\<And>r. p r \<Longrightarrow> key r = k"
  shows "find p rows = Some r"
  using assms(1,2)
proof (induction rows)
  case (Cons s rows)
  then show ?case
    using assms(3,4) by (cases "p s") (auto simp: rev_image_eqI)
qed simp

lemma find_SomeD: "find p rows = Some r \<Longrightarrow> r \<in> set rows \<and> p r"
  by (induction rows) (auto split: if_splits)

lemma find_None_count: "find p rows = None \<longleftrightarrow> sql_count p rows = 0"
  by (induction rows) auto

lemma fresh_id_gt: "i \<in> set ids \<Longrightarrow> i < fresh_id ids"
  unfolding fresh_id_def by (induction ids) (auto simp: max_def)

lemma fresh_id_notin [simp]: "fresh_id ids \<notin> set ids"
  using fresh_id_gt by blast

lemma fresh_id_pos: "0 < fresh_id ids"
proof -
  have "0 \<le> foldr max ids 0" by (induction ids) (auto simp: max_def)
  then show ?thesis by (simp add: fresh_id_def)
qed

section \<open>First occurrences\<close>

text \<open>
  The loop over a list with a \<open>seen\<close> set that keeps the first element of each key
  (\<open>deduplicate_findings\<close>, \<open>_unique_findings\<close>, \<open>dict.fromkeys\<close>).
\<close>

fun dedupe_by :: "('a \<Rightarrow> 'k) \<Rightarrow> 'k list \<Rightarrow> 'a list \<Rightarrow> 'a list" where
  "dedupe_by key seen [] = []"
| "dedupe_by key seen (x # xs) =
     (if key x \<in> set seen then dedupe_by key seen xs
      else x # dedupe_by key (key x # seen) xs)"

lemma set_dedupe_by_subset: "set (dedupe_by key seen xs) \<subseteq> set xs"
  by (induction key seen xs rule: dedupe_by.induct) auto

lemma dedupe_by_unseen: "y \<in> set (dedupe_by key seen xs) \<Longrightarrow> key y \<notin> set seen"
  by (induction key seen xs rule: dedupe_by.induct) (auto split: if_splits)

lemma distinct_dedupe_by: "distinct (map key (dedupe_by key seen xs))"
proof (induction key seen xs rule: dedupe_by.induct)
  case (2 key seen x xs)
  then show ?case by (auto dest: dedupe_by_unseen)
qed simp

lemma keys_dedupe_by: "key ` set (dedupe_by key seen xs) = key ` set xs - set seen"
  by (induction key seen xs rule: dedupe_by.induct) auto

lemma length_dedupe_by: "length (dedupe_by key seen xs) \<le> length xs"
  by (induction key seen xs rule: dedupe_by.induct) auto

lemma dedupe_by_Nil_iff: "dedupe_by key [] xs = [] \<longleftrightarrow> xs = []"
  by (cases xs) auto

end
