(* ===== verification/Exceptions.thy ===== *)
theory Exceptions
  imports Prelude
begin

text \<open>
  The exception classes the modelled code raises and tests with \<open>isinstance\<close>
  (\<open>coderus/forge/errors.py\<close>, \<open>forge/registry.py\<close>, \<open>processes.py\<close>, \<open>workflow\<close>,
  \<open>application/errors.py\<close>, \<open>pr_review\<close>, \<open>model_proxy/broker.py\<close> and the builtins above them)
  and the classification of task failures (\<open>coderus/tasks/error_codes.py\<close>).

  \<open>bases\<close> is the class hierarchy as the \<open>class\<close> statements declare it; \<open>issubclass\<close> searches it.
  Builtin and library classes list only the ancestors the program can name.
\<close>

section \<open>The class hierarchy\<close>

datatype exc_class =
    BaseException | Exception | CancelledError | ValueError | RuntimeError | OSError
  | TimeoutError | ConnectionError | KeyError | AttributeError | TypeError | IntegrityError
  | ExceptionGroup | ValidationError
  | ForgeError | InvalidForgeInput | ForgeRemoteError | ProviderError | InvalidProviderUrl
  | ProviderNotConfiguredError | ProviderRemoteError | PublisherError | UnsupportedPublisher
  | InvalidPublisherInput | RegisteredForkMismatch | GitPushError | PublisherRemoteError
  | ForkNotReady | ForgeNotConfigured
  | CommandTimedOut | CommandOutputLimitExceeded | CommandResourceLimitExceeded
  | RetryableAgentError | ClaimLost | TaskCancelled | DeveloperReportError | ReviewerResultError
  | CommandError | NotFound | Forbidden | Conflict | SyncFailed
  | PRReviewError | ReviewAgentFailure | ReviewUpstreamFailure | PRClaimLost
  | ReviewOutputError | PRWorkspaceError | GitNetworkError | RevisionChanged
  | BaseRevisionChanged | LeaseRejected | FileExistsError

fun bases :: "exc_class \<Rightarrow> exc_class list" where
  "bases BaseException = []"
| "bases Exception = [BaseException]"
| "bases CancelledError = [BaseException]"
| "bases ExceptionGroup = [Exception]"
| "bases ValidationError = [ValueError]"
| "bases TimeoutError = [OSError]"
| "bases ConnectionError = [OSError]"
| "bases InvalidForgeInput = [ForgeError, ValueError]"
| "bases ForgeRemoteError = [ForgeError]"
| "bases ProviderError = [ForgeError]"
| "bases InvalidProviderUrl = [InvalidForgeInput, ProviderError]"
| "bases ProviderNotConfiguredError = [ProviderError]"
| "bases ProviderRemoteError = [ForgeRemoteError, ProviderError]"
| "bases PublisherError = [ForgeError]"
| "bases UnsupportedPublisher = [PublisherError]"
| "bases InvalidPublisherInput = [InvalidForgeInput, PublisherError]"
| "bases RegisteredForkMismatch = [PublisherError]"
| "bases GitPushError = [PublisherError]"
| "bases PublisherRemoteError = [ForgeRemoteError, PublisherError]"
| "bases ForkNotReady = [PublisherRemoteError]"
| "bases ForgeNotConfigured = [ForgeError, ValueError]"
| "bases CommandTimedOut = [RuntimeError]"
| "bases CommandOutputLimitExceeded = [RuntimeError]"
| "bases CommandResourceLimitExceeded = [RuntimeError]"
| "bases RetryableAgentError = [RuntimeError]"
| "bases DeveloperReportError = [ValueError]"
| "bases ReviewerResultError = [ValueError]"
| "bases NotFound = [CommandError]"
| "bases Forbidden = [CommandError]"
| "bases Conflict = [CommandError]"
| "bases SyncFailed = [CommandError]"
| "bases PRReviewError = [RuntimeError]"
| "bases ReviewAgentFailure = [PRReviewError]"
| "bases ReviewUpstreamFailure = [PRReviewError]"
| "bases ReviewOutputError = [ValueError]"
| "bases PRWorkspaceError = [RuntimeError]"
| "bases GitNetworkError = [PRWorkspaceError]"
| "bases RevisionChanged = [PRWorkspaceError]"
| "bases FileExistsError = [OSError]"
| "bases BaseRevisionChanged = [RevisionChanged]"
| "bases _ = [Exception]"

text \<open>\<open>type(exc).__name__\<close>.\<close>

fun class_name :: "exc_class \<Rightarrow> pystr" where
  "class_name BaseException = U ''BaseException''"
| "class_name Exception = U ''Exception''"
| "class_name CancelledError = U ''CancelledError''"
| "class_name ValueError = U ''ValueError''"
| "class_name RuntimeError = U ''RuntimeError''"
| "class_name OSError = U ''OSError''"
| "class_name TimeoutError = U ''TimeoutError''"
| "class_name ConnectionError = U ''ConnectionError''"
| "class_name KeyError = U ''KeyError''"
| "class_name AttributeError = U ''AttributeError''"
| "class_name TypeError = U ''TypeError''"
| "class_name IntegrityError = U ''IntegrityError''"
| "class_name ExceptionGroup = U ''ExceptionGroup''"
| "class_name ValidationError = U ''ValidationError''"
| "class_name ForgeError = U ''ForgeError''"
| "class_name InvalidForgeInput = U ''InvalidForgeInput''"
| "class_name ForgeRemoteError = U ''ForgeRemoteError''"
| "class_name ProviderError = U ''ProviderError''"
| "class_name InvalidProviderUrl = U ''InvalidProviderUrl''"
| "class_name ProviderNotConfiguredError = U ''ProviderNotConfiguredError''"
| "class_name ProviderRemoteError = U ''ProviderRemoteError''"
| "class_name PublisherError = U ''PublisherError''"
| "class_name UnsupportedPublisher = U ''UnsupportedPublisher''"
| "class_name InvalidPublisherInput = U ''InvalidPublisherInput''"
| "class_name RegisteredForkMismatch = U ''RegisteredForkMismatch''"
| "class_name GitPushError = U ''GitPushError''"
| "class_name PublisherRemoteError = U ''PublisherRemoteError''"
| "class_name ForkNotReady = U ''ForkNotReady''"
| "class_name ForgeNotConfigured = U ''ForgeNotConfigured''"
| "class_name CommandTimedOut = U ''CommandTimedOut''"
| "class_name CommandOutputLimitExceeded = U ''CommandOutputLimitExceeded''"
| "class_name CommandResourceLimitExceeded = U ''CommandResourceLimitExceeded''"
| "class_name RetryableAgentError = U ''RetryableAgentError''"
| "class_name ClaimLost = U ''ClaimLost''"
| "class_name TaskCancelled = U ''TaskCancelled''"
| "class_name DeveloperReportError = U ''DeveloperReportError''"
| "class_name ReviewerResultError = U ''ReviewerResultError''"
| "class_name CommandError = U ''CommandError''"
| "class_name NotFound = U ''NotFound''"
| "class_name Forbidden = U ''Forbidden''"
| "class_name Conflict = U ''Conflict''"
| "class_name SyncFailed = U ''SyncFailed''"
| "class_name PRReviewError = U ''PRReviewError''"
| "class_name ReviewAgentFailure = U ''ReviewAgentFailure''"
| "class_name ReviewUpstreamFailure = U ''ReviewUpstreamFailure''"
| "class_name PRClaimLost = U ''_ClaimLost''"
| "class_name ReviewOutputError = U ''ReviewOutputError''"
| "class_name PRWorkspaceError = U ''PRWorkspaceError''"
| "class_name GitNetworkError = U ''GitNetworkError''"
| "class_name RevisionChanged = U ''RevisionChanged''"
| "class_name FileExistsError = U ''FileExistsError''"
| "class_name BaseRevisionChanged = U ''BaseRevisionChanged''"
| "class_name LeaseRejected = U ''LeaseRejected''"

text \<open>
  \<open>issubclass c d\<close> looks for \<open>d\<close> among the ancestors of \<open>c\<close>.  The longest chain of the hierarchy
  has six classes, so a search of depth 8 is exhaustive (\<open>issubclass_iff\<close> below).
\<close>

fun ancestor_within :: "nat \<Rightarrow> exc_class \<Rightarrow> exc_class \<Rightarrow> bool" where
  "ancestor_within 0 c d = (c = d)"
| "ancestor_within (Suc n) c d = (c = d \<or> list_ex (\<lambda>b. ancestor_within n b d) (bases c))"

definition issubclass :: "exc_class \<Rightarrow> exc_class \<Rightarrow> bool" where
  "issubclass c d = ancestor_within 8 c d"

fun exc_depth :: "exc_class \<Rightarrow> nat" where
  "exc_depth BaseException = 0"
| "exc_depth Exception = 1"
| "exc_depth CancelledError = 1"
| "exc_depth ProviderError = 3"
| "exc_depth ForgeRemoteError = 3"
| "exc_depth InvalidForgeInput = 3"
| "exc_depth PublisherError = 3"
| "exc_depth InvalidProviderUrl = 4"
| "exc_depth InvalidPublisherInput = 4"
| "exc_depth ProviderRemoteError = 4"
| "exc_depth PublisherRemoteError = 4"
| "exc_depth ProviderNotConfiguredError = 4"
| "exc_depth UnsupportedPublisher = 4"
| "exc_depth RegisteredForkMismatch = 4"
| "exc_depth GitPushError = 4"
| "exc_depth ForkNotReady = 5"
| "exc_depth ReviewAgentFailure = 4"
| "exc_depth ReviewUpstreamFailure = 4"
| "exc_depth GitNetworkError = 4"
| "exc_depth RevisionChanged = 4"
| "exc_depth FileExistsError = 3"
| "exc_depth BaseRevisionChanged = 5"
| "exc_depth c = (if bases c = [Exception] then 2 else 3)"

lemma bases_depth: "b \<in> set (bases c) \<Longrightarrow> exc_depth b < exc_depth c"
  by (cases c) auto

lemma exc_depth_le: "exc_depth c \<le> 5"
  by (cases c) auto

lemma ancestor_within_complete:
  "(\<lambda>x y. y \<in> set (bases x))\<^sup>*\<^sup>* c d \<Longrightarrow> exc_depth c \<le> n \<Longrightarrow> ancestor_within n c d"
proof (induction n arbitrary: c)
  case 0
  then show ?case by (metis bases_depth ancestor_within.simps(1) converse_rtranclpE le_zero_eq not_less0)
next
  case (Suc n)
  show ?case
  proof (cases "c = d")
    case False
    with Suc.prems(1) obtain b where b: "b \<in> set (bases c)" "(\<lambda>x y. y \<in> set (bases x))\<^sup>*\<^sup>* b d"
      by (metis converse_rtranclpE)
    with Suc.prems(2) have "exc_depth b \<le> n" using bases_depth by fastforce
    with b Suc.IH have "ancestor_within n b d" by blast
    with b(1) show ?thesis by (auto simp: list_ex_iff)
  qed simp
qed

lemma ancestor_within_sound:
  "ancestor_within n c d \<Longrightarrow> (\<lambda>x y. y \<in> set (bases x))\<^sup>*\<^sup>* c d"
  by (induction n arbitrary: c) (auto simp: list_ex_iff intro: converse_rtranclp_into_rtranclp)

lemma issubclass_iff: "issubclass c d \<longleftrightarrow> (\<lambda>x y. y \<in> set (bases x))\<^sup>*\<^sup>* c d"
proof -
  have "exc_depth c \<le> 8" using exc_depth_le [of c] by simp
  then show ?thesis
    unfolding issubclass_def
    using ancestor_within_complete ancestor_within_sound by blast
qed

lemma issubclass_refl [simp]: "issubclass c c"
  by (simp add: issubclass_iff)

lemma issubclass_trans: "issubclass a b \<Longrightarrow> issubclass b c \<Longrightarrow> issubclass a c"
  by (simp add: issubclass_iff)

lemma issubclass_eval [code_unfold]:
  "issubclass c d = (c = d \<or> list_ex (\<lambda>b. ancestor_within 7 b d) (bases c))"
  by (simp add: issubclass_def numeral_eq_Suc)

section \<open>Exception objects\<close>

text \<open>
  An exception object: its class, \<open>str(exc)\<close>, and the attribute \<open>status_code\<close> where the class
  sets one (\<open>getattr(exc, 'status_code', None)\<close>).
\<close>

record pyexc =
  exc_cls :: exc_class
  exc_str :: pystr
  exc_status_code :: "int option"

definition raise_exc :: "exc_class \<Rightarrow> pystr \<Rightarrow> pyexc" where
  "raise_exc c msg = \<lparr>exc_cls = c, exc_str = msg, exc_status_code = None\<rparr>"

definition isinstance :: "pyexc \<Rightarrow> exc_class \<Rightarrow> bool" where
  "isinstance e c = issubclass (exc_cls e) c"

lemma raise_exc_simps [simp]:
  "exc_cls (raise_exc c m) = c" "exc_str (raise_exc c m) = m"
  "exc_status_code (raise_exc c m) = None"
  by (simp_all add: raise_exc_def)

lemma isinstance_raise [simp]: "isinstance (raise_exc c m) d = issubclass c d"
  by (simp add: isinstance_def)

section \<open>Task error codes (tasks/error\_codes.py)\<close>

datatype task_error_code =
    INVALID_INPUT | FORGE_AUTH_FAILED | UPSTREAM_UNAVAILABLE | REPOSITORY_BUILD_FAILED
  | AGENT_OUTPUT_INVALID | TESTS_FAILED | RESOURCE_LIMIT_EXCEEDED | EXECUTOR_INTERRUPTED
  | SIDE_EFFECT_UNKNOWN | INTERNAL_ERROR

text \<open>The class attribute \<open>error_code\<close>, looked up along the (here linear) method resolution order.\<close>

fun declared_code :: "exc_class \<Rightarrow> task_error_code option" where
  "declared_code PRReviewError = Some INVALID_INPUT"
| "declared_code ReviewAgentFailure = Some INTERNAL_ERROR"
| "declared_code ReviewUpstreamFailure = Some UPSTREAM_UNAVAILABLE"
| "declared_code ReviewOutputError = Some AGENT_OUTPUT_INVALID"
| "declared_code _ = None"

definition classify_exception :: "pyexc \<Rightarrow> task_error_code" where
  "classify_exception e =
     (case declared_code (exc_cls e) of
        Some c \<Rightarrow> c
      | None \<Rightarrow>
          if isinstance e ForgeNotConfigured then FORGE_AUTH_FAILED
          else if isinstance e InvalidForgeInput then INVALID_INPUT
          else if isinstance e ForgeRemoteError then
            (if exc_status_code e \<in> {Some 401, Some 403} then FORGE_AUTH_FAILED
             else UPSTREAM_UNAVAILABLE)
          else if isinstance e GitPushError then UPSTREAM_UNAVAILABLE
          else if isinstance e CommandResourceLimitExceeded \<or> isinstance e CommandOutputLimitExceeded
            then RESOURCE_LIMIT_EXCEEDED
          else if isinstance e TimeoutError then SIDE_EFFECT_UNKNOWN
          else if isinstance e ConnectionError then UPSTREAM_UNAVAILABLE
          else if isinstance e ValueError then INVALID_INPUT
          else INTERNAL_ERROR)"

end
