(* ===== verification/Py_Str.thy ===== *)
theory Py_Str
  imports Prelude "HOL-Library.Sublist"
begin

text \<open>
  The string methods of Python the modelled code uses, over lists of code points: \<open>strip\<close>,
  \<open>splitlines\<close>, \<open>split\<close> and \<open>join\<close> on one separator character, prefixes and suffixes.
\<close>

section \<open>strip\<close>

text \<open>The code points for which \<open>str.isspace\<close> holds.\<close>

definition isspace :: "nat \<Rightarrow> bool" where
  "isspace c = (9 \<le> c \<and> c \<le> 13 \<or> 28 \<le> c \<and> c \<le> 32 \<or> c = 133 \<or> c = 160 \<or> c = 5760
     \<or> 8192 \<le> c \<and> c \<le> 8202 \<or> c = 8232 \<or> c = 8233 \<or> c = 8239 \<or> c = 8287 \<or> c = 12288)"

definition lstrip :: "pystr \<Rightarrow> pystr" where
  "lstrip s = dropWhile isspace s"

definition rstrip :: "pystr \<Rightarrow> pystr" where
  "rstrip s = rev (dropWhile isspace (rev s))"

definition strip :: "pystr \<Rightarrow> pystr" where
  "strip s = rstrip (lstrip s)"

lemma hd_dropWhile_not: "dropWhile p xs \<noteq> [] \<Longrightarrow> \<not> p (hd (dropWhile p xs))"
  by (induction xs) auto

lemma rstrip_prefix: "\<exists>w. s = rstrip s @ w \<and> list_all isspace w"
proof -
  have "rev s = takeWhile isspace (rev s) @ dropWhile isspace (rev s)" by simp
  then have "s = rstrip s @ rev (takeWhile isspace (rev s))"
    unfolding rstrip_def by (metis rev_append rev_rev_ident)
  moreover have "list_all isspace (rev (takeWhile isspace (rev s)))"
    by (auto simp: list_all_iff dest: set_takeWhileD)
  ultimately show ?thesis by blast
qed

lemma last_rstrip: "rstrip s \<noteq> [] \<Longrightarrow> \<not> isspace (last (rstrip s))"
  unfolding rstrip_def by (simp add: last_rev hd_dropWhile_not)

lemma hd_strip: "strip s \<noteq> [] \<Longrightarrow> \<not> isspace (hd (strip s))"
proof -
  assume ne: "strip s \<noteq> []"
  obtain w where "lstrip s = strip s @ w" using rstrip_prefix [of "lstrip s"] unfolding strip_def by blast
  with ne have "hd (strip s) = hd (lstrip s)" "lstrip s \<noteq> []" by auto
  then show ?thesis unfolding lstrip_def using hd_dropWhile_not [of isspace s] by simp
qed

lemma lstrip_id: "s = [] \<or> \<not> isspace (hd s) \<Longrightarrow> lstrip s = s"
  by (cases s) (auto simp: lstrip_def)

lemma rstrip_id: "s = [] \<or> \<not> isspace (last s) \<Longrightarrow> rstrip s = s"
  by (cases s rule: rev_cases) (auto simp: rstrip_def)

lemma strip_idem [simp]: "strip (strip s) = strip s"
proof -
  have "lstrip (strip s) = strip s" using hd_strip [of s] by (intro lstrip_id) blast
  moreover have "rstrip (strip s) = strip s"
    using last_rstrip [of "lstrip s"] by (intro rstrip_id) (auto simp: strip_def)
  ultimately show ?thesis by (simp add: strip_def)
qed

lemma strip_Nil [simp]: "strip [] = []"
  by (simp add: strip_def lstrip_def rstrip_def)

lemma length_strip: "length (strip s) \<le> length s"
proof -
  have "length (rstrip t) \<le> length t" for t
    using length_dropWhile_le [of isspace "rev t"] by (simp add: rstrip_def)
  then show ?thesis
    unfolding strip_def using length_dropWhile_le [of isspace s] by (metis lstrip_def order_trans)
qed

section \<open>splitlines\<close>

text \<open>The line boundaries of \<open>str.splitlines\<close>; a carriage return with a line feed is one boundary.\<close>

definition line_break :: "nat \<Rightarrow> bool" where
  "line_break c = (10 \<le> c \<and> c \<le> 13 \<or> 28 \<le> c \<and> c \<le> 30 \<or> c = 133 \<or> c = 8232 \<or> c = 8233)"

definition drop_lf :: "pystr \<Rightarrow> pystr" where
  "drop_lf s = (if s \<noteq> [] \<and> hd s = 10 then tl s else s)"

lemma length_drop_lf: "length (drop_lf s) \<le> length s"
  by (simp add: drop_lf_def)

function splitlines_acc :: "pystr \<Rightarrow> pystr \<Rightarrow> pystr list" where
  "splitlines_acc line [] = (if line = [] then [] else [rev line])"
| "splitlines_acc line (c # cs) =
     (if c = 13 then rev line # splitlines_acc [] (drop_lf cs)
      else if line_break c then rev line # splitlines_acc [] cs
      else splitlines_acc (c # line) cs)"
  by pat_completeness auto

termination
  by (relation "measure (\<lambda>(_, s). length s)") (auto simp: length_drop_lf le_imp_less_Suc)

definition splitlines :: "pystr \<Rightarrow> pystr list" where
  "splitlines s = splitlines_acc [] s"

lemma splitlines_acc_no_breaks:
  "l \<in> set (splitlines_acc line s) \<Longrightarrow> list_all (\<lambda>c. \<not> line_break c) line \<Longrightarrow>
     list_all (\<lambda>c. \<not> line_break c) l"
proof (induction line s rule: splitlines_acc.induct)
  case (1 line)
  then show ?case by (simp add: list_all_iff split: if_splits)
next
  case (2 line c cs)
  consider "c = 13" | "c \<noteq> 13" "line_break c" | "c \<noteq> 13" "\<not> line_break c" by blast
  then show ?case
  proof cases
    case 1
    with 2(1,4,5) show ?thesis by (auto simp: list_all_iff)
  next
    case b: 2
    with 2(2,4,5) show ?thesis by (auto simp: list_all_iff)
  next
    case 3
    with 2(3,4,5) show ?thesis by simp
  qed
qed

lemma splitlines_no_breaks: "l \<in> set (splitlines s) \<Longrightarrow> list_all (\<lambda>c. \<not> line_break c) l"
  unfolding splitlines_def by (drule splitlines_acc_no_breaks) simp_all

section \<open>split and join on one character\<close>

fun split_on :: "nat \<Rightarrow> pystr \<Rightarrow> pystr list" where
  "split_on sep [] = [[]]"
| "split_on sep (c # cs) =
     (if c = sep then [] # split_on sep cs
      else case split_on sep cs of w # ws \<Rightarrow> (c # w) # ws | [] \<Rightarrow> [[c]])"

fun join_with :: "pystr \<Rightarrow> pystr list \<Rightarrow> pystr" where
  "join_with sep [] = []"
| "join_with sep [w] = w"
| "join_with sep (w # v # vs) = w @ sep @ join_with sep (v # vs)"

lemma split_on_not_Nil [simp]: "split_on sep s \<noteq> []"
  by (induction s) (auto split: list.splits)

lemma join_split [simp]: "join_with [sep] (split_on sep s) = s"
proof (induction s)
  case (Cons c cs)
  obtain w ws where w: "split_on sep cs = w # ws" by (cases "split_on sep cs") auto
  with Cons show ?case by (cases ws) auto
qed simp

lemma split_on_no_sep: "w \<in> set (split_on sep s) \<Longrightarrow> sep \<notin> set w"
  by (induction s arbitrary: w) (auto split: list.splits if_splits)

lemma split_on_notin: "sep \<notin> set w \<Longrightarrow> split_on sep w = [w]"
  by (induction w) auto

lemma split_on_append: "sep \<notin> set w \<Longrightarrow> split_on sep (w @ sep # r) = w # split_on sep r"
  by (induction w) auto

lemma split_join:
  "ws \<noteq> [] \<Longrightarrow> \<forall>w \<in> set ws. sep \<notin> set w \<Longrightarrow> split_on sep (join_with [sep] ws) = ws"
proof (induction ws)
  case (Cons w ws)
  then show ?case by (cases ws) (simp_all add: split_on_notin split_on_append)
qed simp

section \<open>Decimal numbers\<close>

text \<open>\<open>str(n)\<close> for an \<open>int\<close>.\<close>

fun nat_str :: "nat \<Rightarrow> pystr" where
  "nat_str n = (if n < 10 then [48 + n] else nat_str (n div 10) @ [48 + n mod 10])"

declare nat_str.simps [simp del]

definition int_str :: "int \<Rightarrow> pystr" where
  "int_str i = (if i < 0 then 45 # nat_str (nat (- i)) else nat_str (nat i))"

text \<open>\<open>int(s)\<close> on ASCII digits.\<close>

definition nat_of_str :: "pystr \<Rightarrow> nat" where
  "nat_of_str s = foldl (\<lambda>n c. 10 * n + (c - 48)) 0 s"

lemma nat_str_digits: "\<forall>c \<in> set (nat_str n). 48 \<le> c \<and> c \<le> 57"
proof (induction n rule: nat_str.induct)
  case (1 n)
  have "n mod 10 \<le> 9" by (simp add: Suc_leI [of _ 9, simplified])
  with 1 show ?case by (subst nat_str.simps) (auto simp: ball_Un)
qed

lemma nat_of_nat_str [simp]: "nat_of_str (nat_str n) = n"
proof (induction n rule: nat_str.induct)
  case (1 n)
  show ?case
  proof (cases "n < 10")
    case True
    then show ?thesis by (simp add: nat_str.simps nat_of_str_def)
  next
    case False
    with 1 have "nat_of_str (nat_str (n div 10)) = n div 10" by blast
    with False show ?thesis by (subst nat_str.simps) (simp add: nat_of_str_def)
  qed
qed

lemma nat_str_inject [simp]: "nat_str m = nat_str n \<longleftrightarrow> m = n"
  by (metis nat_of_nat_str)

section \<open>Prefixes and suffixes\<close>

definition startswith :: "pystr \<Rightarrow> pystr \<Rightarrow> bool" where
  "startswith s p = (take (length p) s = p)"

definition endswith :: "pystr \<Rightarrow> pystr \<Rightarrow> bool" where
  "endswith s p = startswith (rev s) (rev p)"

definition removeprefix :: "pystr \<Rightarrow> pystr \<Rightarrow> pystr" where
  "removeprefix s p = (if startswith s p then drop (length p) s else s)"

definition removesuffix :: "pystr \<Rightarrow> pystr \<Rightarrow> pystr" where
  "removesuffix s p = (if p \<noteq> [] \<and> endswith s p then take (length s - length p) s else s)"

lemma startswith_iff: "startswith s p \<longleftrightarrow> (\<exists>r. s = p @ r)"
  unfolding startswith_def by (metis append_eq_conv_conj append_take_drop_id)

lemma endswith_iff: "endswith s p \<longleftrightarrow> (\<exists>r. s = r @ p)"
  unfolding endswith_def startswith_iff by (metis rev_append rev_rev_ident)

lemma removeprefix_append [simp]: "removeprefix (p @ s) p = s"
  by (auto simp: removeprefix_def startswith_iff)

text \<open>\<open>p in s\<close> for strings.\<close>

definition contains_str :: "pystr \<Rightarrow> pystr \<Rightarrow> bool" where
  "contains_str p s = list_ex (\<lambda>t. startswith t p) (suffixes s)"

lemma contains_str_iff: "contains_str p s \<longleftrightarrow> (\<exists>l r. s = l @ p @ r)"
  unfolding contains_str_def list_ex_iff set_suffixes_eq suffix_def startswith_iff by blast

end
