(* ===== verification/Json.thy ===== *)
theory Json
  imports Py_Str
begin

text \<open>
  JSON values as Python holds them after \<open>json.loads\<close>, and the library functions on them.

  A \<open>dict\<close> is the list of its items in insertion order, with distinct keys; a \<open>float\<close> is kept as its
  \<open>repr\<close>.  The functions of the \<open>json\<close> module and of pydantic's error rendering are the fields of a
  record \<open>pylib\<close>, an argument of the definitions that call them.
\<close>

datatype json =
    JNull | JBool bool | JInt int | JFloat pystr | JStr pystr | JList "json list"
  | JObj "(pystr \<times> json) list"

text \<open>\<open>d.get(key)\<close> and \<open>d.get(key, default)\<close>.\<close>

definition dict_get :: "(pystr \<times> json) list \<Rightarrow> pystr \<Rightarrow> json option" where
  "dict_get d k = map_of d k"

definition dict_get_default :: "(pystr \<times> json) list \<Rightarrow> pystr \<Rightarrow> json \<Rightarrow> json" where
  "dict_get_default d k v = (case map_of d k of None \<Rightarrow> v | Some x \<Rightarrow> x)"

text \<open>
  \<open>loads\<close>: \<open>None\<close> stands for \<open>JSONDecodeError\<close>.  \<open>dumps\<close> is \<open>json.dumps(.., ensure_ascii=False,
  sort_keys=True)\<close>, \<open>dumps_plain\<close> the same without \<open>sort_keys\<close>, \<open>dumps_pretty\<close> with \<open>indent=2\<close>
  instead.  \<open>repr_of\<close> is \<open>str\<close> of a value that is not a string, \<open>invalid_text\<close> the text of the
  \<open>ValidationError\<close> for a payload.
\<close>

record pylib =
  loads :: "pystr \<Rightarrow> json option"
  dumps :: "json \<Rightarrow> pystr"
  dumps_plain :: "json \<Rightarrow> pystr"
  dumps_pretty :: "json \<Rightarrow> pystr"
  repr_of :: "json \<Rightarrow> pystr"
  invalid_text :: "json \<Rightarrow> pystr"

text \<open>\<open>str(value)\<close>.\<close>

fun py_str :: "pylib \<Rightarrow> json \<Rightarrow> pystr" where
  "py_str lib (JStr s) = s"
| "py_str lib v = repr_of lib v"

text \<open>A library for evaluating examples: it decodes the texts it is given.\<close>

definition table_lib :: "(pystr \<times> json) list \<Rightarrow> pylib" where
  "table_lib table = \<lparr>loads = map_of table, dumps = (\<lambda>_. []), dumps_plain = (\<lambda>_. []), dumps_pretty = (\<lambda>_. []), repr_of = (\<lambda>_. []),
     invalid_text = (\<lambda>_. [])\<rparr>"

end
