(* ===== verification/Schema.thy ===== *)
theory Schema
  imports Exceptions Json
begin

text \<open>
  The persistent state: the tables of \<open>coderus/models.py\<close> that the task workflow reads and
  writes, the status vocabularies of \<open>coderus/tasks/statuses.py\<close>, and the partial unique index
  \<open>uq_active_task_per_issue\<close>.  Columns that no modelled operation touches (password hashes,
  encrypted credentials, chat settings) are left out.
\<close>

section \<open>Status vocabularies\<close>

datatype task_status =
    Queued | Preparing | DeveloperWorking | Reviewing | DeveloperRevising | Sealing | Publishing
  | AwaitingHumanReview | Completed | Closed | Dismissed | Failed | Cancelled
  | ManualIntervention | Cancelling

definition RUNNING_TASK_STATES :: "task_status list" where
  "RUNNING_TASK_STATES =
     [Preparing, DeveloperWorking, Reviewing, DeveloperRevising, Sealing, Publishing]"

definition TERMINAL_TASK_STATES :: "task_status list" where
  "TERMINAL_TASK_STATES =
     [Completed, Closed, Dismissed, Failed, Cancelled, ManualIntervention]"

abbreviation running :: "task_status \<Rightarrow> bool" where
  "running s \<equiv> s \<in> set RUNNING_TASK_STATES"

abbreviation terminal :: "task_status \<Rightarrow> bool" where
  "terminal s \<equiv> s \<in> set TERMINAL_TASK_STATES"

lemmas status_sets = RUNNING_TASK_STATES_def TERMINAL_TASK_STATES_def

lemma running_iff:
  "running s \<longleftrightarrow> s = Preparing \<or> s = DeveloperWorking \<or> s = Reviewing \<or> s = DeveloperRevising
     \<or> s = Sealing \<or> s = Publishing"
  by (auto simp: status_sets)

lemma terminal_iff:
  "terminal s \<longleftrightarrow> s = Completed \<or> s = Closed \<or> s = Dismissed \<or> s = Failed \<or> s = Cancelled
     \<or> s = ManualIntervention"
  by (auto simp: status_sets)

lemma running_not_terminal: "running s \<Longrightarrow> \<not> terminal s"
  by (auto simp: status_sets)

text \<open>The failure codes of a task: the ten error codes and the documented special ones.\<close>

datatype failure_code =
    ErrorCode task_error_code
  | DeveloperReportInvalid | ManagerRestarted | WorkerInterrupted
  | PublishExisting | PrFeedbackRevision

datatype provider = Github | Gitcode

datatype user_role = RoleUser | RoleAdmin

datatype issue_state = IssueOpen | IssueClosed

datatype triage_state = Discovered | Dispatched | Ignored

datatype sync_status = SyncIdle | SyncRunning | SyncSucceeded | SyncHasFailed

datatype actor = ActorSystem | ActorScheduler | ActorRecovery | ActorOrchestrator | ActorPublisher

datatype agent_role = Developer | ReviewerA | ReviewerB | PrReviewer

datatype run_status = RunRunning | RunSucceeded | RunFailed | RunCancelled | RunTimedOut | RunInterrupted

section \<open>Rows\<close>

record user =
  us_id :: int
  us_role :: user_role
  us_is_active :: bool
  us_username :: pystr

record repository =
  rp_id :: int
  rp_provider :: provider
  rp_owner :: pystr
  rp_name :: pystr
  rp_canonical_url :: pystr
  rp_default_branch :: pystr
  rp_fork_owner :: "pystr option"
  rp_fork_url :: "pystr option"
  rp_created_by :: int
  rp_is_enabled :: bool
  rp_sync_status :: sync_status
  rp_sync_started_at :: "time option"
  rp_last_synced_at :: "time option"
  rp_sync_cursor_updated_at :: "time option"
  rp_last_sync_error :: "pystr option"

record issue =
  is_id :: int
  is_repository_id :: int
  is_external_id :: pystr
  is_number :: int
  is_title :: pystr
  is_body :: pystr
  is_labels :: "pystr list"
  is_state :: issue_state
  is_source_url :: "pystr option"
  is_source_updated_at :: "time option"
  is_triage_state :: triage_state
  is_ignored_by :: "int option"
  is_ignored_reason :: "pystr option"
  is_ignored_at :: "time option"

record task =
  tk_id :: int
  tk_issue_id :: int
  tk_created_by :: int
  tk_status :: task_status
  tk_priority :: int
  tk_instructions :: pystr
  tk_base_commit_sha :: "pystr option"
  tk_branch_name :: "pystr option"
  tk_workspace_path :: "pystr option"
  tk_fixed_patch_path :: "pystr option"
  tk_reviewed_tree_sha :: "pystr option"
  tk_commit_sha :: "pystr option"
  tk_pr_url :: "pystr option"
  tk_pr_number :: "int option"
  tk_pr_state :: "pystr option"
  tk_pr_status_error :: "pystr option"
  tk_pr_status_checked_at :: "time option"
  tk_failure_code :: "failure_code option"
  tk_failure_summary :: "pystr option"
  tk_claim_token :: "pystr option"
  tk_claim_expires_at :: "time option"
  tk_publication_key :: "pystr option"
  tk_publication_started_at :: "time option"
  tk_contract_version :: int
  tk_created_at :: time
  tk_started_at :: "time option"
  tk_finished_at :: "time option"

record task_transition =
  tr_task_id :: int
  tr_from_status :: task_status
  tr_to_status :: task_status
  tr_actor :: actor
  tr_contract_version :: int

record model_usage =
  mu_request_count :: int
  mu_output_bytes :: int

text \<open>The six sections of a developer report (\<open>workflow/developer_report.py\<close>).\<close>

record developer_report =
  dr_problem_description :: pystr
  dr_problem_reproduction :: pystr
  dr_solution :: pystr
  dr_change_validation :: pystr
  dr_regression_tests :: pystr
  dr_remaining_issues :: pystr

record structured_result =
  sr_stdout :: "pystr option"
  sr_developer_report :: "developer_report option"
  sr_model_usage :: "model_usage option"

record agent_run =
  ar_id :: int
  ar_task_id :: int
  ar_role :: agent_role
  ar_attempt :: int
  ar_status :: run_status
  ar_started_at :: "time option"
  ar_finished_at :: "time option"
  ar_exit_code :: "int option"
  ar_structured_result :: "structured_result option"
  ar_error_summary :: "pystr option"

datatype decision = Approve | ChangesRequested

record finding =
  fi_severity :: pystr
  fi_message :: pystr
  fi_extra :: "(pystr \<times> json) list"

record review =
  rv_task_id :: int
  rv_role :: agent_role
  rv_decision :: decision
  rv_findings :: "finding list"
  rv_blocking_count :: int
  rv_contract_version :: int

record pr_feedback =
  fb_id :: int
  fb_task_id :: int
  fb_provider_id :: pystr
  fb_kind :: pystr
  fb_author :: pystr
  fb_author_association :: pystr
  fb_body :: pystr
  fb_url :: pystr
  fb_path :: "pystr option"
  fb_line :: "int option"
  fb_selected_at :: "time option"
  fb_processed_at :: "time option"

record db =
  users :: "user list"
  repositories :: "repository list"
  issues :: "issue list"
  tasks :: "task list"
  transitions :: "task_transition list"
  agent_runs :: "agent_run list"
  reviews :: "review list"
  feedback :: "pr_feedback list"

text \<open>
  A task as \<open>INSERT\<close> leaves it when only issue, creator and instructions are given: the column
  defaults of the model, everything else \<open>NULL\<close>.
\<close>

definition new_task :: "int \<Rightarrow> int \<Rightarrow> int \<Rightarrow> pystr \<Rightarrow> time \<Rightarrow> task" where
  "new_task i issue_id creator instructions now =
     \<lparr>tk_id = i, tk_issue_id = issue_id, tk_created_by = creator, tk_status = Queued,
      tk_priority = 0, tk_instructions = instructions, tk_base_commit_sha = None,
      tk_branch_name = None, tk_workspace_path = None, tk_fixed_patch_path = None,
      tk_reviewed_tree_sha = None, tk_commit_sha = None, tk_pr_url = None, tk_pr_number = None,
      tk_pr_state = None, tk_pr_status_error = None, tk_pr_status_checked_at = None,
      tk_failure_code = None, tk_failure_summary = None, tk_claim_token = None,
      tk_claim_expires_at = None, tk_publication_key = None, tk_publication_started_at = None,
      tk_contract_version = 1, tk_created_at = now, tk_started_at = None, tk_finished_at = None\<rparr>"

definition empty_db :: db where
  "empty_db = \<lparr>users = [], repositories = [], issues = [], tasks = [], transitions = [],
     agent_runs = [], reviews = [], feedback = []\<rparr>"

section \<open>Keys and the unique index\<close>

definition active_tasks :: "task list \<Rightarrow> task list" where
  "active_tasks ts = filter (\<lambda>t. \<not> terminal (tk_status t)) ts"

text \<open>\<open>uq_active_task_per_issue\<close>: no two non-terminal tasks share their issue.\<close>

definition active_index_ok :: "task list \<Rightarrow> bool" where
  "active_index_ok ts = distinct (map tk_issue_id (active_tasks ts))"

definition get_task :: "int \<Rightarrow> db \<Rightarrow> task option" where
  "get_task i db = find (\<lambda>t. tk_id t = i) (tasks db)"

definition get_user :: "int \<Rightarrow> db \<Rightarrow> user option" where
  "get_user i db = find (\<lambda>u. us_id u = i) (users db)"

definition get_issue_row :: "int \<Rightarrow> db \<Rightarrow> issue option" where
  "get_issue_row i db = find (\<lambda>r. is_id r = i) (issues db)"

definition get_repository :: "int \<Rightarrow> db \<Rightarrow> repository option" where
  "get_repository i db = find (\<lambda>r. rp_id r = i) (repositories db)"

definition keys_ok :: "db \<Rightarrow> bool" where
  "keys_ok db \<longleftrightarrow> distinct (map tk_id (tasks db)) \<and> distinct (map is_id (issues db))
     \<and> distinct (map us_id (users db)) \<and> distinct (map rp_id (repositories db))
     \<and> distinct (map ar_id (agent_runs db)) \<and> distinct (map fb_id (feedback db))"

lemma get_task_iff:
  "distinct (map tk_id (tasks db)) \<Longrightarrow>
     get_task i db = Some t \<longleftrightarrow> t \<in> set (tasks db) \<and> tk_id t = i"
  unfolding get_task_def
  by (auto dest: find_SomeD intro: find_key_Some [where key = tk_id])

lemma get_task_None: "get_task i db = None \<longleftrightarrow> i \<notin> tk_id ` set (tasks db)"
  by (auto simp: get_task_def find_None_count sql_count_0_iff)

lemma get_task_SomeD: "get_task i db = Some t \<Longrightarrow> t \<in> set (tasks db) \<and> tk_id t = i"
  unfolding get_task_def by (drule find_SomeD) simp

lemma active_index_ok_Nil [simp]: "active_index_ok []"
  by (simp add: active_index_ok_def active_tasks_def)

lemma active_index_ok_iff:
  assumes "distinct (map tk_id ts)"
  shows "active_index_ok ts \<longleftrightarrow>
    (\<forall>t \<in> set ts. \<forall>u \<in> set ts. \<not> terminal (tk_status t) \<longrightarrow> \<not> terminal (tk_status u) \<longrightarrow>
        tk_issue_id t = tk_issue_id u \<longrightarrow> tk_id t = tk_id u)"
proof -
  have d: "distinct ts" and inj: "inj_on tk_id (set ts)"
    using assms by (simp_all add: distinct_map)
  have "active_index_ok ts \<longleftrightarrow> inj_on tk_issue_id {t \<in> set ts. \<not> terminal (tk_status t)}"
    using d by (simp add: active_index_ok_def active_tasks_def distinct_map)
  also have "\<dots> \<longleftrightarrow> (\<forall>t \<in> set ts. \<forall>u \<in> set ts. \<not> terminal (tk_status t) \<longrightarrow>
      \<not> terminal (tk_status u) \<longrightarrow> tk_issue_id t = tk_issue_id u \<longrightarrow> t = u)"
    unfolding inj_on_def by blast
  also have "\<dots> \<longleftrightarrow> (\<forall>t \<in> set ts. \<forall>u \<in> set ts. \<not> terminal (tk_status t) \<longrightarrow>
      \<not> terminal (tk_status u) \<longrightarrow> tk_issue_id t = tk_issue_id u \<longrightarrow> tk_id t = tk_id u)"
    using inj unfolding inj_on_def by metis
  finally show ?thesis .
qed

end
