(* ===== verification/Agent_Output.thy ===== *)
theory Agent_Output
  imports Schema
begin

text \<open>
  What the workflow reads from an Agent's output: the final message of a Codex event stream
  (\<open>workflow/agent_stage.py\<close>), the six-section developer report (\<open>workflow/developer_report.py\<close>), the
  reviewer result (\<open>workflow/reviewer_result.py\<close>) and the findings of a review
  (\<open>workflow/review_cycle.py\<close>).  Pydantic's checks are written out for the declared fields.
\<close>

section \<open>final\_message\<close>

text \<open>
  \<open>event.get\<close> and \<open>item.get\<close> on a value that is not a \<open>dict\<close> raise \<open>AttributeError\<close>.
\<close>

definition attribute_error :: pyexc where
  "attribute_error = raise_exc AttributeError []"

definition agent_text :: "pylib \<Rightarrow> (pystr \<times> json) list \<Rightarrow> pyexc + pystr option" where
  "agent_text lib event =
     (if dict_get event (U ''type'') \<noteq> Some (JStr (U ''item.completed'')) then Inr None
      else case dict_get_default event (U ''item'') (JObj []) of
        JObj item \<Rightarrow>
          Inr (if dict_get item (U ''type'') = Some (JStr (U ''agent_message''))
               then Some (py_str lib (dict_get_default item (U ''text'') (JStr []))) else None)
      | _ \<Rightarrow> Inl attribute_error)"

fun last_agent_text :: "pylib \<Rightarrow> pystr \<Rightarrow> pystr list \<Rightarrow> pyexc + pystr" where
  "last_agent_text lib message [] = Inr message"
| "last_agent_text lib message (line # lines) =
     (case loads lib line of
        None \<Rightarrow> last_agent_text lib message lines
      | Some (JObj event) \<Rightarrow>
          (case agent_text lib event of
             Inl e \<Rightarrow> Inl e
           | Inr None \<Rightarrow> last_agent_text lib message lines
           | Inr (Some text) \<Rightarrow> last_agent_text lib text lines)
      | Some _ \<Rightarrow> Inl attribute_error)"

definition final_message :: "pylib \<Rightarrow> pystr \<Rightarrow> pyexc + pystr" where
  "final_message lib stdout =
     (case last_agent_text lib [] (splitlines stdout) of
        Inl e \<Rightarrow> Inl e
      | Inr message \<Rightarrow> Inr (if message = [] then py_last 8000 stdout else message))"

section \<open>Developer reports\<close>

definition is_cjk :: "nat \<Rightarrow> bool" where
  "is_cjk c = (19968 \<le> c \<and> c \<le> 40959)"

definition chinese_text :: "json \<Rightarrow> pystr option" where
  "chinese_text v =
     (case v of
        JStr s \<Rightarrow> (let t = strip s in if t \<noteq> [] \<and> list_ex is_cjk t then Some t else None)
      | _ \<Rightarrow> None)"

definition report_fields :: "pystr list" where
  "report_fields = [U ''problem_description'', U ''problem_reproduction'', U ''solution'',
     U ''change_validation'', U ''regression_tests'', U ''remaining_issues'']"

definition report_text :: "(pystr \<times> json) list \<Rightarrow> pystr \<Rightarrow> pystr option" where
  "report_text payload field = Option.bind (dict_get payload field) chinese_text"

definition validate_report :: "(pystr \<times> json) list \<Rightarrow> developer_report option" where
  "validate_report payload =
     (if \<not> list_all (\<lambda>kv. fst kv \<in> set report_fields) payload then None
      else case map (report_text payload) report_fields of
        [Some pd, Some pr, Some so, Some cv, Some rt, Some ri] \<Rightarrow>
          Some \<lparr>dr_problem_description = pd, dr_problem_reproduction = pr, dr_solution = so,
                dr_change_validation = cv, dr_regression_tests = rt, dr_remaining_issues = ri\<rparr>
      | _ \<Rightarrow> None)"

definition MSG_REPORT_NOT_JSON :: pystr where \<comment> \<open>the developer report is not valid JSON\<close>
  "MSG_REPORT_NOT_JSON = [24320, 21457, 32, 65, 103, 101, 110, 116, 32, 25253, 21578, 19981, 26159,
   26377, 25928, 32, 74, 83, 79, 78]"

definition MSG_REPORT_NOT_OBJECT :: pystr where \<comment> \<open>the developer report must be a JSON object\<close>
  "MSG_REPORT_NOT_OBJECT = [24320, 21457, 32, 65, 103, 101, 110, 116, 32, 25253, 21578, 24517,
   39035, 26159, 32, 74, 83, 79, 78, 32, 23545, 35937]"

definition MSG_REPORT_INVALID :: pystr where \<comment> \<open>the report does not match the six-section contract\<close>
  "MSG_REPORT_INVALID = [24320, 21457, 32, 65, 103, 101, 110, 116, 32, 25253, 21578, 19981, 31526,
   21512, 20845, 27573, 24335, 22865, 32422, 65306]"

definition parse_developer_report :: "pylib \<Rightarrow> pystr \<Rightarrow> pyexc + developer_report" where
  "parse_developer_report lib text =
     (case loads lib text of
        None \<Rightarrow> Inl (raise_exc DeveloperReportError MSG_REPORT_NOT_JSON)
      | Some (JObj payload) \<Rightarrow>
          (case validate_report payload of
             None \<Rightarrow> Inl (raise_exc DeveloperReportError
                      (MSG_REPORT_INVALID @ invalid_text lib (JObj payload)))
           | Some report \<Rightarrow> Inr report)
      | Some _ \<Rightarrow> Inl (raise_exc DeveloperReportError MSG_REPORT_NOT_OBJECT))"

text \<open>\<open>developer_report.model_dump()\<close>, and the stored payload read back by the publisher.\<close>

definition report_dump :: "developer_report \<Rightarrow> (pystr \<times> json) list" where
  "report_dump r = zip report_fields (map JStr [dr_problem_description r, dr_problem_reproduction r,
     dr_solution r, dr_change_validation r, dr_regression_tests r, dr_remaining_issues r])"

definition report_sections :: "developer_report \<Rightarrow> (pystr \<times> pystr) list" where
  "report_sections r =
     [([49, 46, 32, 38382, 39064, 25551, 36848], dr_problem_description r),
      ([50, 46, 32, 38382, 39064, 22797, 29616], dr_problem_reproduction r),
      ([51, 46, 32, 20462, 25913, 26041, 26696], dr_solution r),
      ([52, 46, 32, 20462, 25913, 39564, 35777], dr_change_validation r),
      ([53, 46, 32, 27979, 35797, 22238, 24402], dr_regression_tests r),
      ([54, 46, 32, 36951, 30041, 38382, 39064], dr_remaining_issues r)]"

definition render_developer_report :: "developer_report \<Rightarrow> pystr" where
  "render_developer_report r =
     join_with [10, 10] (map (\<lambda>(heading, body). U ''### '' @ heading @ [10] @ body) (report_sections r))"

section \<open>Reviewer results\<close>

definition REVIEWER_CONTRACT_VERSION :: int where
  "REVIEWER_CONTRACT_VERSION = 1"

definition severities :: "pystr list" where
  "severities = [U ''critical'', U ''high'', U ''medium'', U ''low'']"

text \<open>
  \<open>ReviewerFinding\<close>: the length bounds are checked before the message is stripped; other keys are
  kept as extra fields.
\<close>

definition str_field :: "(pystr \<times> json) list \<Rightarrow> pystr \<Rightarrow> pystr option" where
  "str_field d k = (case dict_get d k of Some (JStr s) \<Rightarrow> Some s | _ \<Rightarrow> None)"

definition validate_finding :: "json \<Rightarrow> finding option" where
  "validate_finding v =
     (case v of
        JObj d \<Rightarrow>
          (case (str_field d (U ''severity''), str_field d (U ''message'')) of
             (Some sev, Some msg) \<Rightarrow>
               if sev \<in> set severities \<and> 1 \<le> length msg \<and> length msg \<le> 4000
               then Some \<lparr>fi_severity = sev, fi_message = strip msg,
                          fi_extra = filter (\<lambda>kv. fst kv \<noteq> U ''severity'' \<and> fst kv \<noteq> U ''message'') d\<rparr>
               else None
           | _ \<Rightarrow> None)
      | _ \<Rightarrow> None)"

fun validate_all :: "json list \<Rightarrow> finding list option" where
  "validate_all [] = Some []"
| "validate_all (v # vs) =
     (case (validate_finding v, validate_all vs) of
        (Some f, Some fs) \<Rightarrow> Some (f # fs) | _ \<Rightarrow> None)"

definition decision_of :: "json \<Rightarrow> decision option" where
  "decision_of v =
     (if v = JStr (U ''approve'') then Some Approve
      else if v = JStr (U ''changes_requested'') then Some ChangesRequested else None)"

definition validate_reviewer_result :: "(pystr \<times> json) list \<Rightarrow> (decision \<times> finding list) option" where
  "validate_reviewer_result d =
     (if \<not> list_all (\<lambda>kv. fst kv \<in> {U ''contract_version'', U ''decision'', U ''findings''}) d
         \<or> dict_get_default d (U ''contract_version'') (JInt 1) \<noteq> JInt REVIEWER_CONTRACT_VERSION
      then None
      else case (Option.bind (dict_get d (U ''decision'')) decision_of, dict_get d (U ''findings'')) of
        (Some dec, Some (JList vs)) \<Rightarrow>
          (case validate_all vs of
             None \<Rightarrow> None
           | Some fs \<Rightarrow>
               if dec = Approve \<and> fs \<noteq> [] then None
               else if dec = ChangesRequested \<and> fs = [] then None
               else Some (dec, fs))
      | _ \<Rightarrow> None)"

definition MSG_RESULT_NOT_JSON :: pystr where \<comment> \<open>the review result is not valid JSON\<close>
  "MSG_RESULT_NOT_JSON = [26816, 35270, 32467, 26524, 19981, 26159, 26377, 25928, 32, 74, 83, 79, 78]"

definition MSG_RESULT_NOT_OBJECT :: pystr where \<comment> \<open>the review result must be a JSON object\<close>
  "MSG_RESULT_NOT_OBJECT = [26816, 35270, 32467, 26524, 24517, 39035, 26159, 32, 74, 83, 79, 78, 32,
   23545, 35937]"

definition MSG_RESULT_CONTRACT :: pystr where \<comment> \<open>the review result does not match the contract\<close>
  "MSG_RESULT_CONTRACT = [26816, 35270, 32467, 26524, 19981, 31526, 21512, 29256, 26412, 21270, 22865, 32422]"

definition parse_reviewer_result :: "pylib \<Rightarrow> pystr \<Rightarrow> pyexc + (decision \<times> finding list)" where
  "parse_reviewer_result lib text =
     (case loads lib text of
        None \<Rightarrow> Inl (raise_exc ReviewerResultError MSG_RESULT_NOT_JSON)
      | Some (JObj payload) \<Rightarrow>
          (case validate_reviewer_result payload of
             None \<Rightarrow> Inl (raise_exc ReviewerResultError MSG_RESULT_CONTRACT)
           | Some r \<Rightarrow> Inr r)
      | Some _ \<Rightarrow> Inl (raise_exc ReviewerResultError MSG_RESULT_NOT_OBJECT))"

definition review_result :: "pylib \<Rightarrow> pystr \<Rightarrow> pyexc + (decision \<times> finding list)" where
  "review_result lib stdout =
     (case final_message lib stdout of
        Inl e \<Rightarrow> Inl e
      | Inr message \<Rightarrow>
          (case parse_reviewer_result lib (strip message) of
             Inl e \<Rightarrow>
               if isinstance e ReviewerResultError
               then Inr (ChangesRequested,
                      [\<lparr>fi_severity = U ''high'', fi_message = MSG_RESULT_CONTRACT, fi_extra = []\<rparr>])
               else Inl e
           | Inr r \<Rightarrow> Inr r))"

definition finding_dump :: "finding \<Rightarrow> json" where
  "finding_dump f = JObj ((U ''severity'', JStr (fi_severity f)) #
     (U ''message'', JStr (fi_message f)) # fi_extra f)"

definition deduplicate_findings :: "pylib \<Rightarrow> finding list \<Rightarrow> finding list" where
  "deduplicate_findings lib fs = dedupe_by (\<lambda>f. dumps lib (finding_dump f)) [] fs"

section \<open>The event stream\<close>

text \<open>The reference reading of a stream: which lines are readable events, and their agent messages.\<close>

definition event_ok :: "pylib \<Rightarrow> pystr \<Rightarrow> bool" where
  "event_ok lib line =
     (case loads lib line of
        None \<Rightarrow> True
      | Some (JObj event) \<Rightarrow> agent_text lib event \<noteq> Inl attribute_error
      | Some _ \<Rightarrow> False)"

definition message_of :: "pylib \<Rightarrow> pystr \<Rightarrow> pystr option" where
  "message_of lib line =
     (case loads lib line of
        Some (JObj event) \<Rightarrow> (case agent_text lib event of Inr m \<Rightarrow> m | Inl _ \<Rightarrow> None)
      | _ \<Rightarrow> None)"

lemma agent_text_Inl: "agent_text lib event = Inl e \<Longrightarrow> e = attribute_error"
  by (auto simp: agent_text_def split: if_splits json.splits)

lemma last_agent_text_Cons:
  "last_agent_text lib message (line # lines) =
     (if event_ok lib line
      then last_agent_text lib (case message_of lib line of None \<Rightarrow> message | Some t \<Rightarrow> t) lines
      else Inl attribute_error)"
  by (auto simp: event_ok_def message_of_def dest: agent_text_Inl
      split: option.splits json.splits sum.splits)

lemma map_filter_Cons:
  "List.map_filter f (x # xs) = (case f x of None \<Rightarrow> List.map_filter f xs | Some y \<Rightarrow> y # List.map_filter f xs)"
  by (simp add: List.map_filter_def split: option.split)

lemma last_agent_text_eq:
  "last_agent_text lib message lines =
     (if list_all (event_ok lib) lines
      then Inr (case List.map_filter (message_of lib) lines of [] \<Rightarrow> message | ts \<Rightarrow> last ts)
      else Inl attribute_error)"
proof (induction lines arbitrary: message)
  case (Cons line lines)
  show ?case
    unfolding last_agent_text_Cons Cons.IH map_filter_Cons
    by (auto split: option.splits list.splits)
qed (simp add: List.map_filter_def)


text \<open>A single bare JSON number in the output is enough to fail the stage.\<close>

lemma final_message_number_line:
  "final_message (table_lib [(U ''42'', JInt 42)]) (U ''42'') = Inl attribute_error"
  by code_simp

section \<open>Reports\<close>

lemma chinese_text_strip:
  "chinese_text v = Some t \<Longrightarrow> t \<noteq> [] \<and> strip t = t \<and> list_ex is_cjk t \<and> chinese_text (JStr t) = Some t"
  by (auto simp: chinese_text_def Let_def split: json.splits if_splits)

lemma report_fields_distinct: "distinct report_fields"
  by code_simp

lemma list6: "length xs = 6 \<Longrightarrow> \<exists>a b c d e f. xs = [a, b, c, d, e, f]"
  by (auto simp: numeral_eq_Suc length_Suc_conv)

lemma validate_report_SomeD:
  assumes "validate_report payload = Some r"
  shows "map (report_text payload) report_fields = map Some [dr_problem_description r,
      dr_problem_reproduction r, dr_solution r, dr_change_validation r, dr_regression_tests r,
      dr_remaining_issues r]"
  using assms
  by (auto simp: validate_report_def split: if_splits list.splits option.splits)

lemma report_dump_get:
  "map (dict_get (report_dump r)) report_fields = map (Some \<circ> JStr) [dr_problem_description r,
      dr_problem_reproduction r, dr_solution r, dr_change_validation r, dr_regression_tests r,
      dr_remaining_issues r]"
  by (simp add: report_dump_def dict_get_def report_fields_def U_def)

lemma report_text_dump:
  "\<forall>t \<in> set [dr_problem_description r, dr_problem_reproduction r, dr_solution r,
      dr_change_validation r, dr_regression_tests r, dr_remaining_issues r]. chinese_text (JStr t) = Some t \<Longrightarrow>
    validate_report (report_dump r) = Some r"
  using report_dump_get [of r]
  by (auto simp: validate_report_def report_text_def list_all_iff report_fields_def report_dump_def)

text \<open>
  C8: the report contract and its round trip.  Every section of an accepted report is a stripped,
  non-empty text with a Chinese character, and the stored dump of the report is accepted again as the
  same report, which is what publication of an existing task relies on.
\<close>

theorem developer_report_roundtrip:
  assumes "parse_developer_report lib raw = Inr r"
    and "loads lib stored = Some (JObj (report_dump r))"
  shows "(\<forall>(h, body) \<in> set (report_sections r). body \<noteq> [] \<and> strip body = body \<and> list_ex is_cjk body)
    \<and> parse_developer_report lib stored = Inr r"
proof -
  let ?ts = "[dr_problem_description r, dr_problem_reproduction r, dr_solution r,
      dr_change_validation r, dr_regression_tests r, dr_remaining_issues r]"
  obtain payload where "validate_report payload = Some r"
    using assms(1) by (auto simp: parse_developer_report_def split: option.splits json.splits)
  from validate_report_SomeD [OF this]
  have "\<forall>t \<in> set ?ts. \<exists>f. report_text payload f = Some t"
    by (auto simp: report_fields_def)
  then have texts: "\<forall>t \<in> set ?ts. \<exists>v. chinese_text v = Some t"
    unfolding report_text_def by (metis bind_eq_Some_conv)
  have ok: "t \<noteq> [] \<and> strip t = t \<and> list_ex is_cjk t \<and> chinese_text (JStr t) = Some t" if t: "t \<in> set ?ts" for t
  proof -
    obtain v where "chinese_text v = Some t" using bspec [OF texts t] by blast
    then show ?thesis by (rule chinese_text_strip)
  qed
  have "validate_report (report_dump r) = Some r" using ok by (intro report_text_dump) blast
  moreover have "\<forall>(h, body) \<in> set (report_sections r). body \<noteq> [] \<and> strip body = body \<and> list_ex is_cjk body"
    using ok by (simp add: report_sections_def)
  ultimately show ?thesis using assms(2) by (simp add: parse_developer_report_def)
qed

definition sample_report :: developer_report where
  "sample_report = \<lparr>dr_problem_description = [25913], dr_problem_reproduction = [25913],
     dr_solution = [25913], dr_change_validation = [25913], dr_regression_tests = [25913],
     dr_remaining_issues = [25913]\<rparr>"

theorem developer_report_roundtrip_witness:
  "parse_developer_report (table_lib [([1], JObj (report_dump sample_report))]) [1] = Inr sample_report"
proof -
  have "validate_report (report_dump sample_report) = Some sample_report"
    by (rule report_text_dump)
      (simp add: sample_report_def chinese_text_def strip_def lstrip_def rstrip_def isspace_def is_cjk_def)
  then show ?thesis
    by - (rule developer_report_roundtrip [where raw = "[1]", THEN conjunct2];
      simp add: parse_developer_report_def table_lib_def)
qed

section \<open>Reviews\<close>

lemma validate_finding_severity:
  "validate_finding v = Some f \<Longrightarrow> fi_severity f \<in> set severities"
  by (cases v) (auto simp: validate_finding_def split: option.splits if_splits)

lemma validate_all_severity:
  "validate_all vs = Some fs \<Longrightarrow> \<forall>f \<in> set fs. fi_severity f \<in> set severities"
proof (induction vs arbitrary: fs)
  case (Cons v vs)
  then obtain f gs where "validate_finding v = Some f" "validate_all vs = Some gs" "fs = f # gs"
    by (auto split: option.splits)
  with Cons.IH validate_finding_severity show ?case by simp
qed simp

lemma validate_reviewer_result_SomeD:
  "validate_reviewer_result d = Some (dec, fs) \<Longrightarrow>
     (dec = Approve \<longleftrightarrow> fs = []) \<and> (\<forall>f \<in> set fs. fi_severity f \<in> set severities)"
  unfolding validate_reviewer_result_def
  by (cases "dict_get d (U ''findings'')"; cases dec)
    (auto split: if_splits option.splits json.split_asm dest!: validate_all_severity)

lemma parse_reviewer_result_Inl:
  "parse_reviewer_result lib text = Inl e \<Longrightarrow> isinstance e ReviewerResultError"
  by (auto simp: parse_reviewer_result_def split: option.splits json.splits)

lemma parse_reviewer_result_Inr:
  "parse_reviewer_result lib text = Inr (dec, fs) \<Longrightarrow>
     (dec = Approve \<longleftrightarrow> fs = []) \<and> (\<forall>f \<in> set fs. fi_severity f \<in> set severities)"
  by (auto simp: parse_reviewer_result_def split: option.splits json.splits
      dest: validate_reviewer_result_SomeD)


lemma deduplicate_findings_facts:
  "distinct (map (\<lambda>f. dumps lib (finding_dump f)) (deduplicate_findings lib fs))"
  "set (deduplicate_findings lib fs) \<subseteq> set fs"
  "(\<lambda>f. dumps lib (finding_dump f)) ` set (deduplicate_findings lib fs) = (\<lambda>f. dumps lib (finding_dump f)) ` set fs"
  "deduplicate_findings lib fs = [] \<longleftrightarrow> fs = []"
  unfolding deduplicate_findings_def
  by (rule distinct_dedupe_by, rule set_dedupe_by_subset, simp add: keys_dedupe_by,
      simp add: dedupe_by_Nil_iff)

end
