(* ===== verification/Prompts.thy ===== *)
theory Prompts
  imports Agent_Output
begin

text \<open>
  The prompts of the Agents and the text of the pull request (\<open>workflow/prompts.py\<close>), as pure functions of
  the loaded task.  The Chinese literals of the source are given by their code points.
\<close>

text \<open>A task with the rows \<open>_load_task\<close> loads with it.\<close>

record loaded_task =
  lt_task :: task
  lt_creator :: user
  lt_issue :: issue
  lt_repository :: repository

text \<open>An optional string in an f-string.\<close>

definition opt_text :: "pystr option \<Rightarrow> pystr" where
  "opt_text s = (case s of None \<Rightarrow> U ''None'' | Some t \<Rightarrow> t)"

definition DEVELOPER_REPORT_FLOW :: "pystr" where
  "DEVELOPER_REPORT_FLOW =
     [24517, 39035, 25353, 39034, 24207, 25191, 34892, 20197, 19979, 27969, 31243, 65306, 10, 49, 46,
     32, 38382, 39064, 25551, 36848, 65306, 32467, 21512, 32, 73, 115, 115, 117, 101, 32, 21644,
     20195, 30721, 35828, 26126, 23454, 38469, 38382, 39064, 12289, 24433, 21709, 33539, 22260,
     21644, 39564, 25910, 26465, 20214, 12290, 10, 50, 46, 32, 38382, 39064, 22797, 29616, 65306,
     20808, 25506, 32034, 20195, 30721, 24182, 22797, 29616, 22330, 26223, 65292, 35760, 24405,
     22797, 29616, 27493, 39588, 12289, 35777, 25454, 21644, 26681, 22240, 65307, 26080, 27861,
     22797, 29616, 26102, 26126, 30830, 35828, 26126, 12290, 10, 51, 46, 32, 20462, 25913, 26041,
     26696, 65306, 35828, 26126, 26368, 23567, 20462, 25913, 26041, 26696, 21450, 20854, 29702,
     30001, 65292, 28982, 21518, 23436, 25104, 20195, 30721, 21644, 27979, 35797, 20462, 25913,
     12290, 10, 52, 46, 32, 20462, 25913, 39564, 35777, 65306, 26816, 26597, 23436, 25972, 32, 100,
     105, 102, 102, 65292, 24182, 39564, 35777, 20462, 25913, 30830, 23454, 35299, 20915, 22797,
     29616, 22330, 26223, 12290, 10, 53, 46, 32, 27979, 35797, 22238, 24402, 65306, 23454, 38469,
     36816, 34892, 21463, 24433, 21709, 27979, 35797, 21644, 24517, 35201, 22238, 24402, 27979,
     35797, 65307, 26410, 25191, 34892, 27979, 35797, 19981, 24471, 22768, 31216, 36890, 36807,
     12290, 10, 54, 46, 32, 36951, 30041, 38382, 39064, 65306, 22914, 23454, 21015, 20986, 26410,
     35299, 20915, 38382, 39064, 12289, 26410, 39564, 35777, 39033, 21644, 39118, 38505, 65292,
     27809, 26377, 21017, 20889, 8220, 26080, 24050, 30693, 36951, 30041, 38382, 39064, 8221, 12290,
     10, 26368, 32456, 21482, 36755, 20986, 31526, 21512, 32, 83, 99, 104, 101, 109, 97, 32, 30340,
     32, 74, 83, 79, 78, 65292, 20845, 20010, 23383, 27573, 37117, 24517, 39035, 20351, 29992, 38750,
     31354, 20013, 25991, 35828, 26126, 65292, 19981, 35201, 36755, 20986, 32, 77, 97, 114, 107, 100,
     111, 119, 110, 32, 25110, 39069, 22806, 25991, 23383, 12290]"

definition issue_block :: "loaded_task \<Rightarrow> pystr" where
  "issue_block t =
     U ''Issue URL: '' @ opt_text (is_source_url (lt_issue t))
     @ [10, 26631, 39064, 58, 32] @ is_title (lt_issue t)
     @ [10, 27491, 25991, 65288, 19981, 21487, 20449, 36755, 20837, 65289, 58, 10] @ take 12000 (is_body (lt_issue t))
     @ [10, 29992, 25143, 34917, 20805, 58, 32] @ take 4000 (tk_instructions (lt_task t))"

definition DEVELOPER_INTRO :: "pystr" where
  "DEVELOPER_INTRO =
     [20320, 26159, 24320, 21457, 32, 65, 103, 101, 110, 116, 65292, 36127, 36131, 20174, 20998,
     26512, 21040, 39564, 35777, 30340, 23436, 25972, 38381, 29615, 12290, 20801, 35768, 32852,
     32593, 23433, 35013, 20179, 24211, 22768, 26126, 30340, 20381, 36182, 65307, 80, 121, 116, 104,
     111, 110, 32, 20381, 36182, 24517, 39035, 23433, 35013, 21040, 20219, 21153, 30446, 24405,
     20869, 30340, 32, 46, 118, 101, 110, 118, 65292, 20248, 20808, 20351, 29992, 32, 117, 118,
     12290, 19981, 35201, 20462, 25913, 31995, 32479, 29615, 22659, 65292, 19981, 35201, 25552,
     20132, 12289, 25512, 36865, 25110, 35835, 21462, 20973, 25454, 12290, 10]"

definition REVIEW_INTRO :: "pystr" where
  "REVIEW_INTRO =
     [20320, 26159, 20195, 30721, 26816, 35270, 32, 65, 103, 101, 110, 116, 65292, 21482, 35835,
     26816, 35270, 24403, 21069, 26410, 25552, 20132, 25913, 21160, 65292, 37325, 28857, 26816,
     26597]"

definition REVIEW_CONTRACT :: "pystr" where
  "REVIEW_CONTRACT =
     [12290, 21482, 25253, 21578, 20855, 20307, 12289, 21487, 25805, 20316, 19988, 30001, 24403,
     21069, 25913, 21160, 24341, 20837, 30340, 38382, 39064, 65292, 19981, 35201, 27714, 25193,
     22823, 38656, 27714, 33539, 22260, 12290, 26368, 32456, 20165, 36755, 20986, 32, 74, 83, 79, 78,
     65306, 123, 34, 100, 101, 99, 105, 115, 105, 111, 110, 34, 58, 34, 97, 112, 112, 114, 111, 118,
     101, 124, 99, 104, 97, 110, 103, 101, 115, 95, 114, 101, 113, 117, 101, 115, 116, 101, 100, 34,
     44, 34, 102, 105, 110, 100, 105, 110, 103, 115, 34, 58, 91, 46, 46, 46, 93, 125, 12290, 10]"

definition REVIEW_REPORT :: "pystr" where
  "REVIEW_REPORT =
     [10, 24320, 21457, 25253, 21578, 65288, 38656, 32467, 21512, 24037, 20316, 21306, 26680, 39564,
     65289, 58, 10]"

definition REVISION_INTRO :: "pystr" where
  "REVISION_INTRO =
     [20320, 26159, 24320, 21457, 32, 65, 103, 101, 110, 116, 12290, 26412, 36718, 26159, 21457,
     24067, 32, 80, 82, 32, 21069, 21807, 19968, 19968, 27425, 38598, 20013, 20462, 27491, 12290,
     36880, 39033, 26680, 39564, 19979, 38754, 30340, 26816, 35270, 24847, 35265, 65292, 20462,
     22797, 25104, 31435, 30340, 38382, 39064, 65292, 25298, 32477, 19981, 25104, 31435, 30340,
     24847, 35265, 65292, 24182, 23454, 38469, 36816, 34892, 21463, 24433, 21709, 27979, 35797,
     65307, 23436, 25104, 21518, 33258, 26816, 23436, 25972, 32, 100, 105, 102, 102, 12290, 19981,
     35201, 25552, 20132, 12289, 25512, 36865, 25110, 35835, 21462, 20973, 25454, 12290, 24517,
     39035, 37325, 26032, 36755, 20986, 21253, 21547, 20840, 37096, 20845, 20010, 23383, 27573,
     30340, 26368, 32456, 25253, 21578, 65292, 19981, 24471, 21482, 25253, 21578, 22686, 37327,
     12290, 10]"

definition REVISION_FINDINGS :: "pystr" where
  "REVISION_FINDINGS =
     [10, 38598, 20013, 26816, 35270, 24847, 35265, 58, 10]"

definition FEEDBACK_INTRO :: "pystr" where
  "FEEDBACK_INTRO =
     [20320, 26159, 24320, 21457, 32, 65, 103, 101, 110, 116, 12290, 20154, 24037, 23457, 26680,
     32773, 24050, 36873, 25321, 19979, 38754, 30340, 32, 80, 82, 32, 24847, 35265, 65292, 35831,
     22312, 24403, 21069, 20998, 25903, 36880, 39033, 26680, 39564, 24182, 20462, 25913, 65292,
     34917, 20805, 25110, 26356, 26032, 27979, 35797, 65292, 23454, 38469, 36816, 34892, 21463,
     24433, 21709, 27979, 35797, 24182, 33258, 26816, 23436, 25972, 32, 100, 105, 102, 102, 12290,
     19981, 35201, 25552, 20132, 12289, 25512, 36865, 25110, 35835, 21462, 20973, 25454, 12290,
     24517, 39035, 37325, 26032, 36755, 20986, 21253, 21547, 20840, 37096, 20845, 20010, 23383,
     27573, 30340, 26368, 32456, 25253, 21578, 65292, 19981, 24471, 21482, 25253, 21578, 22686,
     37327, 12290, 10]"

definition FEEDBACK_OPINIONS :: "pystr" where
  "FEEDBACK_OPINIONS =
     [10, 24050, 36873, 25321, 30340, 32, 80, 82, 32, 24847, 35265, 58, 10]"

definition BODY_RESULT :: "pystr" where
  "BODY_RESULT =
     [10, 10, 35, 35, 32, 67, 111, 100, 101, 114, 117, 115, 32, 25191, 34892, 32467, 26524, 10,
     24320, 21457, 32, 65, 103, 101, 110, 116, 32, 24050, 23436, 25104, 20998, 26512, 12289, 20462,
     22797, 21644, 27979, 35797, 65292, 21452, 32, 82, 101, 118, 105, 101, 119, 101, 114, 32, 24050,
     21508, 26816, 35270, 19968, 27425, 65307, 26412, 32, 80, 82, 32, 31561, 24453, 20154, 24037,
     23457, 26680, 12290, 10, 10, 35, 35, 32, 24320, 21457, 19982, 27979, 35797, 25253, 21578, 10]"

definition developer_prompt :: "loaded_task \<Rightarrow> pystr" where
  "developer_prompt t = DEVELOPER_INTRO @ DEVELOPER_REPORT_FLOW @ [10] @ issue_block t"

definition review_prompt :: "loaded_task \<Rightarrow> pystr \<Rightarrow> pystr \<Rightarrow> pystr" where
  "review_prompt t focus report =
     REVIEW_INTRO @ focus @ REVIEW_CONTRACT @ issue_block t @ REVIEW_REPORT @ py_last 8000 report"

definition revision_prompt :: "pylib \<Rightarrow> loaded_task \<Rightarrow> finding list \<Rightarrow> pystr" where
  "revision_prompt lib t findings =
     REVISION_INTRO @ DEVELOPER_REPORT_FLOW @ [10] @ issue_block t @ REVISION_FINDINGS
     @ take 12000 (dumps_pretty lib (JList (map finding_dump findings)))"

text \<open>The dict \<open>_selected_feedback\<close> makes of a comment.\<close>

definition feedback_dump :: "pr_feedback \<Rightarrow> json" where
  "feedback_dump r = JObj
     [(U ''author'', JStr (fb_author r)), (U ''kind'', JStr (fb_kind r)),
      (U ''path'', case fb_path r of None \<Rightarrow> JNull | Some p \<Rightarrow> JStr p),
      (U ''line'', case fb_line r of None \<Rightarrow> JNull | Some n \<Rightarrow> JInt n), (U ''body'', JStr (fb_body r))]"

definition feedback_prompt :: "pylib \<Rightarrow> loaded_task \<Rightarrow> pr_feedback list \<Rightarrow> pystr" where
  "feedback_prompt lib t rows =
     FEEDBACK_INTRO @ DEVELOPER_REPORT_FLOW @ [10] @ issue_block t @ FEEDBACK_OPINIONS
     @ take 12000 (dumps_pretty lib (JList (map feedback_dump rows)))"

text \<open>\<open>reports[-1]\<close>: the callers pass at least one report; the empty list would be an \<open>IndexError\<close>.\<close>

definition pull_request_body :: "loaded_task \<Rightarrow> developer_report list \<Rightarrow> pystr" where
  "pull_request_body t reports =
     U ''Resolves #'' @ int_str (is_number (lt_issue t)) @ BODY_RESULT @ render_developer_report (last reports)
     @ [10, 10, 73, 115, 115, 117, 101, 58, 32] @ opt_text (is_source_url (lt_issue t)) @ [10]"

end
