(* ===== verification/Io.thy ===== *)
theory Io
  imports Exceptions
begin

text \<open>
  Coroutines as computations: a computation runs on a state and ends with a value or with an exception.  An
  \<open>await\<close> is a computation like any other; what the rest of the program does meanwhile is part of the state
  change of the awaited call.  \<open>triple P m Q E\<close> is the Hoare triple with a postcondition for the normal exit
  and one for exceptions; the rules after it carry the proofs about the workflow.
\<close>

type_synonym ('s, 'a) io = "'s \<Rightarrow> (pyexc + 'a) \<times> 's"

definition ret :: "'a \<Rightarrow> ('s, 'a) io" where
  "ret x s = (Inr x, s)"

definition throw :: "pyexc \<Rightarrow> ('s, 'a) io" where
  "throw e s = (Inl e, s)"

definition seq :: "('s, 'a) io \<Rightarrow> ('a \<Rightarrow> ('s, 'b) io) \<Rightarrow> ('s, 'b) io" where
  "seq m f s = (case m s of (Inl e, s') \<Rightarrow> (Inl e, s') | (Inr x, s') \<Rightarrow> f x s')"

definition lift :: "pyexc + 'a \<Rightarrow> ('s, 'a) io" where
  "lift r s = (r, s)"

definition guard_io :: "bool \<Rightarrow> pyexc \<Rightarrow> ('s, unit) io" where
  "guard_io b e = (if b then throw e else ret ())"

text \<open>\<open>try: m except ... as e: h\<close>, where \<open>h\<close> raises again what it does not handle, and \<open>try: m finally: f\<close>.\<close>

definition catch :: "('s, 'a) io \<Rightarrow> (pyexc \<Rightarrow> ('s, 'a) io) \<Rightarrow> ('s, 'a) io" where
  "catch m h s = (case m s of (Inl e, s') \<Rightarrow> h e s' | (Inr x, s') \<Rightarrow> (Inr x, s'))"

definition finally_do :: "('s, 'a) io \<Rightarrow> ('s, unit) io \<Rightarrow> ('s, 'a) io" where
  "finally_do m f s = (case m s of (r, s') \<Rightarrow> (case f s' of (Inl e, s'') \<Rightarrow> (Inl e, s'') | (Inr _, s'') \<Rightarrow> (r, s'')))"

definition triple :: "('s \<Rightarrow> bool) \<Rightarrow> ('s, 'a) io \<Rightarrow> ('a \<Rightarrow> 's \<Rightarrow> bool) \<Rightarrow> (pyexc \<Rightarrow> 's \<Rightarrow> bool) \<Rightarrow> bool" where
  "triple P m Q E \<longleftrightarrow> (\<forall>s. P s \<longrightarrow> (case m s of (Inl e, s') \<Rightarrow> E e s' | (Inr x, s') \<Rightarrow> Q x s'))"

lemma tripleI:
  "(\<And>s e s'. P s \<Longrightarrow> m s = (Inl e, s') \<Longrightarrow> E e s') \<Longrightarrow> (\<And>s x s'. P s \<Longrightarrow> m s = (Inr x, s') \<Longrightarrow> Q x s') \<Longrightarrow> triple P m Q E"
  by (auto simp: triple_def split: prod.split sum.split)

lemma tripleD:
  assumes "triple P m Q E" "P s"
  shows "m s = (Inl e, s') \<Longrightarrow> E e s'" "m s = (Inr x, s') \<Longrightarrow> Q x s'"
  using assms by (auto simp: triple_def split: prod.splits sum.splits)

lemma triple_weaken:
  assumes "triple P m Q E" "\<And>s. P' s \<Longrightarrow> P s" "\<And>x s. Q x s \<Longrightarrow> Q' x s" "\<And>e s. E e s \<Longrightarrow> E' e s"
  shows "triple P' m Q' E'"
  by (rule tripleI) (blast intro: assms(2-) tripleD [OF assms(1)])+

lemma triple_post: "triple P m Q E \<Longrightarrow> (\<And>x s. Q x s \<Longrightarrow> Q' x s) \<Longrightarrow> triple P m Q' E"
  by (erule triple_weaken)

lemma triple_exc: "triple P m Q E \<Longrightarrow> (\<And>e s. E e s \<Longrightarrow> E' e s) \<Longrightarrow> triple P m Q E'"
  by (erule triple_weaken)

lemma triple_pre: "triple P m Q E \<Longrightarrow> (\<And>s. P' s \<Longrightarrow> P s) \<Longrightarrow> triple P' m Q E"
  by (erule triple_weaken)

lemma triple_ret: "(\<And>s. P s \<Longrightarrow> Q x s) \<Longrightarrow> triple P (ret x) Q E"
  by (simp add: triple_def ret_def)

lemma triple_throw: "(\<And>s. P s \<Longrightarrow> E e s) \<Longrightarrow> triple P (throw e) Q E"
  by (simp add: triple_def throw_def)

lemma triple_lift:
  "(\<And>s x. P s \<Longrightarrow> r = Inr x \<Longrightarrow> Q x s) \<Longrightarrow> (\<And>s e. P s \<Longrightarrow> r = Inl e \<Longrightarrow> E e s) \<Longrightarrow> triple P (lift r) Q E"
  by (auto simp: triple_def lift_def split: sum.split)

lemma triple_guard:
  "(\<And>s. P s \<Longrightarrow> \<not> b \<Longrightarrow> Q () s) \<Longrightarrow> (\<And>s. P s \<Longrightarrow> b \<Longrightarrow> E e s) \<Longrightarrow> triple P (guard_io b e) Q E"
  by (auto simp: triple_def guard_io_def ret_def throw_def)

lemma triple_seq:
  assumes "triple P m R E" "\<And>x. triple (R x) (f x) Q E"
  shows "triple P (seq m f) Q E"
  unfolding triple_def
proof (intro allI impI)
  fix s assume "P s"
  obtain r s' where m: "m s = (r, s')" by (cases "m s")
  show "case seq m f s of (Inl e, s') \<Rightarrow> E e s' | (Inr x, s') \<Rightarrow> Q x s'"
  proof (cases r)
    case (Inl e)
    with m \<open>P s\<close> assms(1) show ?thesis by (auto simp: triple_def seq_def)
  next
    case (Inr x)
    with m \<open>P s\<close> assms(1) have "R x s'" by (auto simp: triple_def)
    with assms(2) [of x] m Inr show ?thesis by (auto simp: triple_def seq_def)
  qed
qed

lemma triple_catch:
  assumes "triple P m Q R" "\<And>e. triple (R e) (h e) Q E"
  shows "triple P (catch m h) Q E"
  unfolding triple_def
proof (intro allI impI)
  fix s assume "P s"
  obtain r s' where m: "m s = (r, s')" by (cases "m s")
  show "case catch m h s of (Inl e, s') \<Rightarrow> E e s' | (Inr x, s') \<Rightarrow> Q x s'"
  proof (cases r)
    case (Inl e)
    with m \<open>P s\<close> assms(1) have "R e s'" by (auto simp: triple_def)
    with assms(2) [of e] m Inl show ?thesis by (auto simp: triple_def catch_def)
  next
    case (Inr x)
    with m \<open>P s\<close> assms(1) show ?thesis by (auto simp: triple_def catch_def)
  qed
qed

lemma triple_finally:
  assumes "triple P m Q E" "\<And>x. triple (Q x) f (\<lambda>_. Q' x) E'" "\<And>e. triple (E e) f (\<lambda>_. E' e) E'"
  shows "triple P (finally_do m f) Q' E'"
  unfolding triple_def
proof (intro allI impI)
  fix s assume "P s"
  obtain r s' where m: "m s = (r, s')" by (cases "m s")
  show "case finally_do m f s of (Inl e, s') \<Rightarrow> E' e s' | (Inr x, s') \<Rightarrow> Q' x s'"
  proof (cases r)
    case (Inl e)
    with m \<open>P s\<close> assms(1) have "E e s'" by (auto simp: triple_def)
    with assms(3) [of e] m Inl show ?thesis
      by (auto simp: triple_def finally_do_def split: prod.splits sum.splits)
  next
    case (Inr x)
    with m \<open>P s\<close> assms(1) have "Q x s'" by (auto simp: triple_def)
    with assms(2) [of x] m Inr show ?thesis
      by (auto simp: triple_def finally_do_def split: prod.splits sum.splits)
  qed
qed

lemma triple_if: "(b \<Longrightarrow> triple P m Q E) \<Longrightarrow> (\<not> b \<Longrightarrow> triple P n Q E) \<Longrightarrow> triple P (if b then m else n) Q E"
  by simp

text \<open>Normal ends of composed computations, and equality of computations.\<close>

lemma seq_Inr: "seq m f s = (Inr y, s') \<longleftrightarrow> (\<exists>x t. m s = (Inr x, t) \<and> f x t = (Inr y, s'))"
  by (auto simp: seq_def split: prod.split sum.split)

lemma lift_Inr: "lift r s = (Inr y, s') \<longleftrightarrow> r = Inr y \<and> s' = s"
  by (auto simp: lift_def)

lemma guard_Inr: "guard_io b e s = (Inr y, s') \<longleftrightarrow> \<not> b \<and> s' = s"
  by (auto simp: guard_io_def throw_def ret_def)

lemma seq_guard: "seq (guard_io b e) f = (if b then throw e else f ())"
  by (rule ext) (simp add: guard_io_def seq_def throw_def ret_def)

lemma seq_ext: "(\<And>x. f x = g x) \<Longrightarrow> seq m f = seq m g"
  by (simp add: fun_eq_iff seq_def split: prod.split sum.split)

lemma if_ext: "(b \<Longrightarrow> x = x') \<Longrightarrow> (\<not> b \<Longrightarrow> y = y') \<Longrightarrow> (if b then x else y) = (if b then x' else y')"
  by simp

lemma seq_lift: "seq (lift r) f = (case r of Inl e \<Rightarrow> throw e | Inr x \<Rightarrow> f x)"
  by (rule ext) (simp add: seq_def lift_def throw_def split: sum.split)

lemma ret_Inr: "ret x s = (Inr y, s') \<longleftrightarrow> y = x \<and> s' = s"
  by (auto simp: ret_def)

lemma throw_Inr: "throw e s \<noteq> (Inr y, s')"
  by (simp add: throw_def)

lemma catch_throw_Inr: "catch m (\<lambda>e. throw (h e)) s = (Inr y, s') \<longleftrightarrow> m s = (Inr y, s')"
  by (auto simp: catch_def throw_def split: prod.split sum.split)

lemma seq_cong_at: "(\<And>x t. m s = (Inr x, t) \<Longrightarrow> f x t = g x t) \<Longrightarrow> seq m f s = seq m g s"
  by (simp add: seq_def split: prod.split sum.split)

lemmas io_Inr = seq_Inr lift_Inr guard_Inr ret_Inr throw_Inr catch_throw_Inr

end
