(* ===== verification/Runner_Protocol.thy ===== *)
theory Runner_Protocol
  imports Io Schema Py_Str Complex_Main "HOL-Library.Sublist"
begin

text \<open>
  The interface of the Agent runners (\<open>coderus/runner/protocol.py\<close>) and the two wrappers the workflow puts
  around a runner (\<open>coderus/workflow/limited_runner.py\<close>): retries of transient start failures and the limit
  on concurrent Agents.  Seconds are rationals.
\<close>

section \<open>Jobs\<close>

datatype stage = StageDevelop | StageReviewCorrectness | StageReviewSecurity | StagePrReview | StageRevise

fun stage_value :: "stage \<Rightarrow> pystr" where
  "stage_value StageDevelop = U ''develop''"
| "stage_value StageReviewCorrectness = U ''review_correctness''"
| "stage_value StageReviewSecurity = U ''review_security''"
| "stage_value StagePrReview = U ''pr_review''"
| "stage_value StageRevise = U ''revise''"

fun role_value :: "agent_role \<Rightarrow> pystr" where
  "role_value Developer = U ''developer''"
| "role_value ReviewerA = U ''reviewer_a''"
| "role_value ReviewerB = U ''reviewer_b''"
| "role_value PrReviewer = U ''pr_reviewer''"

definition read_only :: "agent_role \<Rightarrow> bool" where
  "read_only r = (r \<noteq> Developer)"

fun STAGE_ROLES :: "stage \<Rightarrow> agent_role" where
  "STAGE_ROLES StageDevelop = Developer"
| "STAGE_ROLES StageReviewCorrectness = ReviewerA"
| "STAGE_ROLES StageReviewSecurity = ReviewerB"
| "STAGE_ROLES StagePrReview = PrReviewer"
| "STAGE_ROLES StageRevise = Developer"

datatype job_status = JobSucceeded | JobFailed | JobTimedOut | JobCancelled

record job_spec =
  js_job_id :: pystr
  js_stage :: stage
  js_role :: agent_role
  js_workspace :: pystr
  js_prompt :: pystr
  js_timeout_seconds :: rat
  js_max_output_bytes :: int
  js_output_schema :: "pystr option"
  js_session_id :: "pystr option"
  js_review_base :: "pystr option"
  js_proxy_token :: "pystr option"

record job_result =
  jr_job_id :: pystr
  jr_status :: job_status
  jr_exit_code :: "int option"
  jr_stdout :: pystr
  jr_stderr :: pystr
  jr_output_truncated :: bool
  jr_duration_seconds :: rat

definition job_spec :: "job_spec \<Rightarrow> pyexc + job_spec" where
  "job_spec s =
     (if js_job_id s = [] then Inl (raise_exc ValueError (U ''job_id must not be empty''))
      else if STAGE_ROLES (js_stage s) \<noteq> js_role s
        then Inl (raise_exc ValueError (U ''role '' @ role_value (js_role s) @ U '' does not match stage ''
               @ stage_value (js_stage s)))
      else if js_stage s = StagePrReview \<and> \<not> truthy (js_review_base s)
        then Inl (raise_exc ValueError (U ''review_base is required for PR review jobs''))
      else if js_stage s = StagePrReview \<and> js_session_id s \<noteq> None
        then Inl (raise_exc ValueError (U ''session_id is not supported for PR review jobs''))
      else if js_stage s \<noteq> StagePrReview \<and> js_review_base s \<noteq> None
        then Inl (raise_exc ValueError (U ''review_base is only supported for PR review jobs''))
      else if js_timeout_seconds s \<le> 0 then Inl (raise_exc ValueError (U ''timeout_seconds must be positive''))
      else if js_max_output_bytes s \<le> 0 then Inl (raise_exc ValueError (U ''max_output_bytes must be positive''))
      else Inr s)"

section \<open>Retries\<close>

text \<open>
  \<open>for retry in range(max_retries + 1)\<close>.  A retryable failure before the last round restores the checkpoint
  and sleeps \<open>initial_backoff * 2^retry\<close>; every other outcome leaves the loop.
\<close>

function retry_from :: "('s, 'a) io \<Rightarrow> ('s, unit) io \<Rightarrow> (rat \<Rightarrow> ('s, unit) io) \<Rightarrow> nat \<Rightarrow> rat \<Rightarrow> nat \<Rightarrow> ('s, 'a) io" where
  "retry_from operation restore sleep max_retries backoff retry s =
     (if max_retries < retry then (Inl (raise_exc RuntimeError (U ''unreachable'')), s)
      else case operation s of
        (Inr x, s1) \<Rightarrow> (Inr x, s1)
      | (Inl e, s1) \<Rightarrow>
          if \<not> isinstance e RetryableAgentError \<or> retry = max_retries then (Inl e, s1)
          else case restore s1 of
            (Inl e', s2) \<Rightarrow> (Inl e', s2)
          | (Inr _, s2) \<Rightarrow>
              (case sleep (backoff * 2 ^ retry) s2 of
                 (Inl e', s3) \<Rightarrow> (Inl e', s3)
               | (Inr _, s3) \<Rightarrow> retry_from operation restore sleep max_retries backoff (retry + 1) s3))"
  by pat_completeness auto
termination
  by (relation "measure (\<lambda>(operation, restore, sleep, max_retries, backoff, retry, s). max_retries + 1 - retry)") auto

declare retry_from.simps [simp del]

definition retry_agent_operation ::
  "('s, 'a) io \<Rightarrow> ('s, unit) io \<Rightarrow> (rat \<Rightarrow> ('s, unit) io) \<Rightarrow> int \<Rightarrow> rat \<Rightarrow> ('s, 'a) io" where
  "retry_agent_operation operation restore sleep max_retries backoff s =
     (if \<not> (0 \<le> max_retries \<and> max_retries \<le> 2)
        then (Inl (raise_exc ValueError (U ''max_retries must be between 0 and 2'')), s)
      else if backoff < 0
        then (Inl (raise_exc ValueError (U ''initial_backoff_seconds must not be negative'')), s)
      else retry_from operation restore sleep (nat max_retries) backoff 0 s)"


text \<open>What a loop did: its calls in order.  \<open>logged\<close> notes a call when it returns or raises.\<close>

datatype retry_event = Attempt | Restore | Sleep rat

definition logged :: "retry_event \<Rightarrow> ('s, 'a) io \<Rightarrow> ('s \<times> retry_event list, 'a) io" where
  "logged ev m s = (case m (fst s) of (r, s') \<Rightarrow> (r, s', snd s @ [ev]))"

definition retry_round :: "rat \<Rightarrow> nat \<Rightarrow> retry_event list" where
  "retry_round backoff j = [Attempt, Restore, Sleep (backoff * 2 ^ j)]"

text \<open>The longest log from a given round on.\<close>

definition retry_plan :: "rat \<Rightarrow> nat \<Rightarrow> nat \<Rightarrow> retry_event list" where
  "retry_plan backoff j max_retries = concat (map (retry_round backoff) [j ..< max_retries]) @ [Attempt]"

lemma retry_plan_step:
  "j < n \<Longrightarrow> retry_plan b j n = retry_round b j @ retry_plan b (j + 1) n"
  by (simp add: retry_plan_def upt_conv_Cons)

definition retry_result :: "(pyexc + 'a) \<Rightarrow> retry_event list \<Rightarrow> nat \<Rightarrow> bool" where
  "retry_result r events attempts =
     (case r of
        Inl e \<Rightarrow> last events = Attempt \<longrightarrow> isinstance e RetryableAgentError
                   \<longrightarrow> length (filter (\<lambda>ev. ev = Attempt) events) = attempts
      | Inr _ \<Rightarrow> last events = Attempt)"

lemma retry_from_log:
  assumes "retry_from (logged Attempt op) (logged Restore rs) (\<lambda>d. logged (Sleep d) (sl d)) n b j (s, l) = (r, s', l')"
    "j \<le> n"
  shows "\<exists>ev. l' = l @ ev \<and> ev \<noteq> [] \<and> prefix ev (retry_plan b j n) \<and> retry_result r ev (n + 1 - j)"
  using assms
proof (induction "n - j" arbitrary: j s l)
  case 0
  then have j: "j = n" by simp
  obtain r1 s1 where op: "op s = (r1, s1)" by (cases "op s")
  from 0(2) [unfolded j retry_from.simps [of "logged Attempt op" _ _ n b n]]
  have "l' = l @ [Attempt] \<and> r = r1"
    by (auto simp: logged_def op split: sum.splits if_splits)
  then show ?case
    by (intro exI [of _ "[Attempt]"]) (simp add: j retry_plan_def retry_result_def split: sum.split)
next
  case (Suc k)
  then have j: "j < n" "k = n - (j + 1)" "j + 1 \<le> n" by auto
  obtain r1 s1 where op: "op s = (r1, s1)" by (cases "op s")
  obtain r2 s2 where rs: "rs s1 = (r2, s2)" by (cases "rs s1")
  obtain r3 s3 where sl: "sl (b * 2 ^ j) s2 = (r3, s3)" by (cases "sl (b * 2 ^ j) s2")
  note eq = Suc.prems(1) [unfolded retry_from.simps [of "logged Attempt op" _ _ n b j]]
  show ?case
  proof (cases "\<exists>e u v. r1 = Inl e \<and> isinstance e RetryableAgentError \<and> r2 = Inr u \<and> r3 = Inr v")
    case True
    then have "retry_from (logged Attempt op) (logged Restore rs) (\<lambda>d. logged (Sleep d) (sl d)) n b (j + 1)
        (s3, l @ retry_round b j) = (r, s', l')"
      using eq j by (auto simp: logged_def op rs sl retry_round_def)
    from Suc.hyps(1) [OF j(2) this j(3)] obtain ev where ev: "l' = (l @ retry_round b j) @ ev" "ev \<noteq> []"
      "prefix ev (retry_plan b (j + 1) n)" "retry_result r ev (n + 1 - (j + 1))" by blast
    have "retry_result r (retry_round b j @ ev) (n + 1 - j)"
      using ev(2,4) j(1) by (auto simp: retry_result_def retry_round_def split: sum.splits)
    with ev j(1) show ?thesis
      by (intro exI [of _ "retry_round b j @ ev"]) (auto simp: retry_plan_step)
  next
    case False
    have plan: "retry_plan b j n = [Attempt, Restore, Sleep (b * 2 ^ j)] @ retry_plan b (j + 1) n"
      by (simp add: retry_plan_step [OF j(1)] retry_round_def)
    from eq j(1) False have "\<exists>ev \<in> {[Attempt], [Attempt, Restore], [Attempt, Restore, Sleep (b * 2 ^ j)]}.
        l' = l @ ev \<and> retry_result r ev (n + 1 - j)"
      by (auto simp: logged_def op rs sl retry_result_def split: prod.splits sum.splits if_splits)
    then show ?thesis unfolding plan by auto
  qed
qed

text \<open>
  C32: retrying an Agent operation terminates, whatever the operation does: it is called at most
  \<open>max_retries + 1\<close> times and at least once, between two calls the checkpoint is restored and the loop sleeps
  \<open>backoff * 2^j\<close> (so at most three times the initial backoff in all), a result is only that of the last
  call, and a transient error of the operation is passed on only when all attempts are used up.  Limits
  outside 0 to 2 and negative delays are refused before anything is called.
\<close>

theorem retries_terminate:
  assumes "retry_agent_operation (logged Attempt operation) (logged Restore restore)
             (\<lambda>d. logged (Sleep d) (sleep d)) max_retries backoff (s, []) = (r, s', events)"
  shows "if 0 \<le> max_retries \<and> max_retries \<le> 2 \<and> 0 \<le> backoff
    then events \<noteq> [] \<and> prefix events (retry_plan backoff 0 (nat max_retries))
      \<and> length (filter (\<lambda>ev. ev = Attempt) events) \<le> nat max_retries + 1
      \<and> sum_list (map (\<lambda>ev. case ev of Sleep d \<Rightarrow> d | _ \<Rightarrow> 0) events) \<le> 3 * backoff
      \<and> retry_result r events (nat max_retries + 1)
    else events = [] \<and> s' = s \<and> (\<exists>m. r = Inl (raise_exc ValueError m))"
proof (cases "0 \<le> max_retries \<and> max_retries \<le> 2 \<and> 0 \<le> backoff")
  case True
  then have run: "retry_from (logged Attempt operation) (logged Restore restore) (\<lambda>d. logged (Sleep d) (sleep d))
      (nat max_retries) backoff 0 (s, []) = (r, s', events)"
    using assms by (simp add: retry_agent_operation_def)
  note log = retry_from_log [OF run]
  let ?plan = "retry_plan backoff 0 (nat max_retries)"
  obtain rest where rest: "?plan = events @ rest" using log by (auto simp: prefix_def)
  have "[0 ..< nat max_retries] = [] \<and> max_retries = 0 \<or> [0 ..< nat max_retries] = [0] \<and> max_retries = 1
      \<or> [0 ..< nat max_retries] = [0, 1] \<and> max_retries = 2"
  proof -
    have "max_retries = 0 \<or> max_retries = 1 \<or> max_retries = 2" using True by auto
    moreover have "[0 ..< 2] = [0, 1 :: nat]" by (simp add: numeral_2_eq_2)
    ultimately show ?thesis by (elim disjE) simp_all
  qed
  then have attempts: "length (filter (\<lambda>ev. ev = Attempt) ?plan) = nat max_retries + 1"
    and sleeps: "sum_list (map (\<lambda>ev. case ev of Sleep d \<Rightarrow> d | _ \<Rightarrow> 0) ?plan) \<le> 3 * backoff"
    and ok: "list_all (\<lambda>ev. case ev of Sleep d \<Rightarrow> 0 \<le> d | _ \<Rightarrow> True) ?plan"
    using True by (auto simp: retry_plan_def retry_round_def)
  have "0 \<le> sum_list (map (\<lambda>ev. case ev of Sleep d \<Rightarrow> d | _ \<Rightarrow> 0) rest)"
    using ok unfolding rest by (intro sum_list_nonneg) (auto simp: list_all_iff split: retry_event.splits)
  with True log attempts sleeps show ?thesis unfolding rest by auto
qed (use assms in \<open>auto simp: retry_agent_operation_def split: if_splits\<close>)

theorem retries_terminate_witness:
  "\<exists>events. fst (retry_agent_operation (logged Attempt (throw (raise_exc RetryableAgentError []))) (logged Restore (ret ()))
      (\<lambda>d. logged (Sleep d) (ret ())) 2 (1 / 4) ((), [])) = (Inl (raise_exc RetryableAgentError []) :: pyexc + unit)
    \<and> prefix events (retry_plan (1 / 4) 0 2) \<and> length (filter (\<lambda>ev. ev = Attempt) events) \<le> 3"
proof -
  let ?run = "retry_agent_operation (logged Attempt (throw (raise_exc RetryableAgentError []))) (logged Restore (ret ()))
      (\<lambda>d. logged (Sleep d) (ret ())) 2 (1 / 4) ((), []) :: (pyexc + unit) \<times> unit \<times> retry_event list"
  let ?from = "retry_from (logged Attempt (throw (raise_exc RetryableAgentError []))) (logged Restore (ret ()))
      (\<lambda>d. logged (Sleep d) (ret ())) 2 (1 / 4) :: nat \<Rightarrow> (unit \<times> retry_event list, unit) io"
  have retryable: "isinstance (raise_exc RetryableAgentError m) RetryableAgentError" for m
    by (simp add: issubclass_iff)
  have again: "?from n s = ?from (n + 1) (fst s, snd s @ retry_round (1 / 4) n)" if "n < 2" for n s
    using that retryable by (subst retry_from.simps) (simp add: logged_def throw_def ret_def retry_round_def)
  have final: "fst (?from 2 s) = Inl (raise_exc RetryableAgentError [])" for s
    by (subst retry_from.simps) (simp add: logged_def throw_def)
  have r: "fst ?run = Inl (raise_exc RetryableAgentError [])"
    using again [of 0] again [of 1] final by (simp add: retry_agent_operation_def numeral_2_eq_2)
  obtain r' u events where run: "?run = (r', u, events)" by (metis prod_cases3)
  from retries_terminate [OF this] have "prefix events (retry_plan (1 / 4) 0 2)"
      "length (filter (\<lambda>ev. ev = Attempt) events) \<le> 3" by auto
  with r show ?thesis by blast
qed

end
