(* ===== verification/Task_State.thy ===== *)
theory Task_State
  imports Schema
begin

text \<open>
  \<open>coderus/workflow/task_state.py\<close>: the compare-and-set on a task's status with its audit row, and
  the claim of a queued task under the global and per-user limits.

  The two SQL statements of \<open>cas_task_status\<close> are separate definitions (\<open>cas_select\<close>, \<open>cas_apply\<close>),
  because other connections may commit between them; \<open>cas_task_status\<close> is their composition on one
  state.  \<open>secrets.token_urlsafe\<close> and the clock are the arguments \<open>token\<close> and \<open>now\<close>.
\<close>

definition TASK_CONTRACT_VERSION :: int where
  "TASK_CONTRACT_VERSION = 1"

section \<open>Column updates\<close>

text \<open>The \<open>updates\<close> mapping of column names to values, one constructor per column the callers pass.\<close>

datatype column_value =
    SetClaimToken "pystr option"
  | SetClaimExpiresAt "time option"
  | SetFailureCode "failure_code option"
  | SetFailureSummary "pystr option"
  | SetFinishedAt "time option"
  | SetPrUrl "pystr option"
  | SetPrNumber "int option"
  | SetPrState "pystr option"
  | SetPrStatusError "pystr option"
  | SetPrStatusCheckedAt "time option"
  | SetPublicationKey "pystr option"
  | SetPublicationStartedAt "time option"

fun set_column :: "column_value \<Rightarrow> task \<Rightarrow> task" where
  "set_column (SetClaimToken v) t = t\<lparr>tk_claim_token := v\<rparr>"
| "set_column (SetClaimExpiresAt v) t = t\<lparr>tk_claim_expires_at := v\<rparr>"
| "set_column (SetFailureCode v) t = t\<lparr>tk_failure_code := v\<rparr>"
| "set_column (SetFailureSummary v) t = t\<lparr>tk_failure_summary := v\<rparr>"
| "set_column (SetFinishedAt v) t = t\<lparr>tk_finished_at := v\<rparr>"
| "set_column (SetPrUrl v) t = t\<lparr>tk_pr_url := v\<rparr>"
| "set_column (SetPrNumber v) t = t\<lparr>tk_pr_number := v\<rparr>"
| "set_column (SetPrState v) t = t\<lparr>tk_pr_state := v\<rparr>"
| "set_column (SetPrStatusError v) t = t\<lparr>tk_pr_status_error := v\<rparr>"
| "set_column (SetPrStatusCheckedAt v) t = t\<lparr>tk_pr_status_checked_at := v\<rparr>"
| "set_column (SetPublicationKey v) t = t\<lparr>tk_publication_key := v\<rparr>"
| "set_column (SetPublicationStartedAt v) t = t\<lparr>tk_publication_started_at := v\<rparr>"

definition apply_updates :: "column_value list \<Rightarrow> task \<Rightarrow> task" where
  "apply_updates us t = fold set_column us t"

text \<open>No update list writes the identity, ownership, status or commit of a row.\<close>

lemma set_column_frame [simp]:
  "tk_id (set_column c t) = tk_id t" "tk_issue_id (set_column c t) = tk_issue_id t"
  "tk_created_by (set_column c t) = tk_created_by t" "tk_status (set_column c t) = tk_status t"
  "tk_commit_sha (set_column c t) = tk_commit_sha t"
  "tk_workspace_path (set_column c t) = tk_workspace_path t"
  "tk_branch_name (set_column c t) = tk_branch_name t"
  "tk_contract_version (set_column c t) = tk_contract_version t"
  by (cases c; simp)+

lemma apply_updates_frame [simp]:
  "tk_id (apply_updates us t) = tk_id t" "tk_issue_id (apply_updates us t) = tk_issue_id t"
  "tk_created_by (apply_updates us t) = tk_created_by t"
  "tk_status (apply_updates us t) = tk_status t"
  "tk_commit_sha (apply_updates us t) = tk_commit_sha t"
  "tk_workspace_path (apply_updates us t) = tk_workspace_path t"
  "tk_branch_name (apply_updates us t) = tk_branch_name t"
  "tk_contract_version (apply_updates us t) = tk_contract_version t"
  unfolding apply_updates_def by (induction us arbitrary: t) auto

lemma apply_updates_Nil [simp]: "apply_updates [] t = t"
  by (simp add: apply_updates_def)

lemma apply_updates_Cons [simp]: "apply_updates (u # us) t = apply_updates us (set_column u t)"
  by (simp add: apply_updates_def)

fun writes_token :: "column_value \<Rightarrow> bool" where
  "writes_token (SetClaimToken _) = True"
| "writes_token _ = False"

lemma apply_updates_keeps_token:
  "\<not> list_ex writes_token us \<Longrightarrow> tk_claim_token (apply_updates us t) = tk_claim_token t"
proof (induction us arbitrary: t)
  case (Cons u us)
  then show ?case by (cases u) auto
qed simp

section \<open>Statements on the task table\<close>

text \<open>
  An \<open>UPDATE\<close> of the task table: the row count, or the \<open>IntegrityError\<close> of the partial unique
  index with the table left alone.
\<close>

definition update_tasks :: "(task \<Rightarrow> bool) \<Rightarrow> (task \<Rightarrow> task) \<Rightarrow> db \<Rightarrow> (pyexc + nat) \<times> db" where
  "update_tasks p f db =
     (let rows = sql_update p f (tasks db) in
      if active_index_ok rows then (Inr (sql_count p (tasks db)), db\<lparr>tasks := rows\<rparr>)
      else (Inl (raise_exc IntegrityError []), db))"

definition log_transition ::
  "int \<Rightarrow> task_status \<Rightarrow> task_status \<Rightarrow> actor \<Rightarrow> int \<Rightarrow> db \<Rightarrow> db" where
  "log_transition i old new a version db =
     db\<lparr>transitions := transitions db @
          [\<lparr>tr_task_id = i, tr_from_status = old, tr_to_status = new, tr_actor = a,
            tr_contract_version = (if version = 0 then TASK_CONTRACT_VERSION else version)\<rparr>]\<rparr>"

section \<open>cas\_task\_status\<close>

definition claim_matches :: "pystr option \<Rightarrow> task \<Rightarrow> bool" where
  "claim_matches claim t = (claim \<noteq> None \<longrightarrow> tk_claim_token t = claim)"

definition cas_select ::
  "int \<Rightarrow> task_status list \<Rightarrow> pystr option \<Rightarrow> db \<Rightarrow> (task_status \<times> int) option" where
  "cas_select i expected claim db =
     map_option (\<lambda>t. (tk_status t, tk_contract_version t))
       (find (\<lambda>t. tk_id t = i \<and> tk_status t \<in> set expected \<and> claim_matches claim t) (tasks db))"

definition cas_apply ::
  "int \<Rightarrow> task_status \<times> int \<Rightarrow> task_status \<Rightarrow> column_value list \<Rightarrow> pystr option \<Rightarrow> actor
    \<Rightarrow> db \<Rightarrow> (pyexc + bool) \<times> db" where
  "cas_apply i current new us claim a db =
     (case update_tasks
             (\<lambda>t. tk_id t = i \<and> tk_status t = fst current \<and> claim_matches claim t)
             (\<lambda>t. apply_updates us (t\<lparr>tk_status := new\<rparr>)) db of
        (Inl e, db') \<Rightarrow> (Inl e, db')
      | (Inr n, db') \<Rightarrow>
          if n \<noteq> 1 then (Inr False, db')
          else (Inr True, log_transition i (fst current) new a (snd current) db'))"

definition cas_task_status ::
  "int \<Rightarrow> task_status list \<Rightarrow> task_status \<Rightarrow> column_value list \<Rightarrow> pystr option \<Rightarrow> actor
    \<Rightarrow> db \<Rightarrow> (pyexc + bool) \<times> db" where
  "cas_task_status i expected new us claim a db =
     (if expected = [] then (Inl (raise_exc ValueError (U ''expected task statuses must not be empty'')), db)
      else case cas_select i expected claim db of
             None \<Rightarrow> (Inr False, db)
           | Some current \<Rightarrow> cas_apply i current new us claim a db)"

text \<open>The effect of a successful compare-and-set, as one state update.\<close>

definition replace_task :: "int \<Rightarrow> (task \<Rightarrow> task) \<Rightarrow> db \<Rightarrow> db" where
  "replace_task i f db = db\<lparr>tasks := sql_update (\<lambda>t. tk_id t = i) f (tasks db)\<rparr>"

definition move_task :: "task \<Rightarrow> task_status \<Rightarrow> column_value list \<Rightarrow> actor \<Rightarrow> db \<Rightarrow> db" where
  "move_task t new us a db =
     log_transition (tk_id t) (tk_status t) new a (tk_contract_version t)
       (replace_task (tk_id t) (\<lambda>u. apply_updates us (u\<lparr>tk_status := new\<rparr>)) db)"

section \<open>claim\_queued\_task\<close>

definition running_count :: "db \<Rightarrow> int" where
  "running_count db = int (sql_count (\<lambda>t. running (tk_status t)) (tasks db))"

definition user_running_count :: "int \<Rightarrow> db \<Rightarrow> int" where
  "user_running_count u db =
     int (sql_count (\<lambda>t. running (tk_status t) \<and> tk_created_by t = u) (tasks db))"

definition claim_row :: "pystr \<Rightarrow> int \<Rightarrow> time \<Rightarrow> task \<Rightarrow> task" where
  "claim_row token lease_seconds now t =
     t\<lparr>tk_status := Preparing, tk_claim_token := Some token,
       tk_claim_expires_at := Some (now + seconds lease_seconds),
       tk_started_at := (case tk_started_at t of None \<Rightarrow> Some now | Some s \<Rightarrow> Some s),
       tk_finished_at := None\<rparr>"

definition claim_queued_task ::
  "int \<Rightarrow> int \<Rightarrow> int \<Rightarrow> int \<Rightarrow> pystr \<Rightarrow> time \<Rightarrow> db \<Rightarrow> (pyexc + pystr option) \<times> db" where
  "claim_queued_task i global_limit per_user_limit lease_seconds token now db =
     (case update_tasks
             (\<lambda>t. tk_id t = i \<and> tk_status t = Queued \<and> running_count db < global_limit
                  \<and> user_running_count (tk_created_by t) db < per_user_limit)
             (claim_row token lease_seconds now) db of
        (Inl e, db') \<Rightarrow> (Inl e, db')
      | (Inr n, db') \<Rightarrow>
          if n \<noteq> 1 then (Inr None, db')
          else (Inr (Some token),
                log_transition i Queued Preparing ActorScheduler
                  (case get_task i db' of None \<Rightarrow> 0 | Some t \<Rightarrow> tk_contract_version t) db'))"

section \<open>Frames\<close>

lemma replace_task_frame [simp]:
  "users (replace_task i f db) = users db" "repositories (replace_task i f db) = repositories db"
  "issues (replace_task i f db) = issues db" "transitions (replace_task i f db) = transitions db"
  "agent_runs (replace_task i f db) = agent_runs db" "reviews (replace_task i f db) = reviews db"
  "feedback (replace_task i f db) = feedback db"
  "tasks (replace_task i f db) = sql_update (\<lambda>t. tk_id t = i) f (tasks db)"
  by (simp_all add: replace_task_def)

lemma log_transition_frame [simp]:
  "users (log_transition i s s' a v db) = users db"
  "repositories (log_transition i s s' a v db) = repositories db"
  "issues (log_transition i s s' a v db) = issues db"
  "tasks (log_transition i s s' a v db) = tasks db"
  "agent_runs (log_transition i s s' a v db) = agent_runs db"
  "reviews (log_transition i s s' a v db) = reviews db"
  "feedback (log_transition i s s' a v db) = feedback db"
  "get_task j (log_transition i s s' a v db) = get_task j db"
  by (simp_all add: log_transition_def get_task_def)

lemma transitions_log_transition:
  "transitions (log_transition i old new a v db) = transitions db @
     [\<lparr>tr_task_id = i, tr_from_status = old, tr_to_status = new, tr_actor = a,
       tr_contract_version = (if v = 0 then TASK_CONTRACT_VERSION else v)\<rparr>]"
  by (simp add: log_transition_def)

lemma find_sql_update:
  "(\<And>r. key (f r) = key r) \<Longrightarrow>
     find (\<lambda>r. key r = j) (sql_update (\<lambda>r. key r = i) f rows)
       = map_option (\<lambda>r. if key r = i then f r else r) (find (\<lambda>r. key r = j) rows)"
  by (induction rows) auto

lemma get_task_replace:
  "(\<And>t. tk_id (f t) = tk_id t) \<Longrightarrow>
     get_task j (replace_task i f db)
       = (if j = i then map_option f (get_task i db) else get_task j db)"
proof -
  assume f: "\<And>t. tk_id (f t) = tk_id t"
  have "get_task j (replace_task i f db)
      = map_option (\<lambda>t. if tk_id t = i then f t else t) (get_task j db)"
    using find_sql_update [of tk_id f, OF f] by (simp add: get_task_def)
  then show ?thesis
    by (auto simp: map_option_case dest: get_task_SomeD split: option.splits)
qed

lemma move_task_frame [simp]:
  "users (move_task t new us a db) = users db"
  "repositories (move_task t new us a db) = repositories db"
  "issues (move_task t new us a db) = issues db"
  "agent_runs (move_task t new us a db) = agent_runs db"
  "reviews (move_task t new us a db) = reviews db"
  "feedback (move_task t new us a db) = feedback db"
  by (simp_all add: move_task_def)

lemma tasks_move_task:
  "tasks (move_task t new us a db)
     = sql_update (\<lambda>u. tk_id u = tk_id t) (\<lambda>u. apply_updates us (u\<lparr>tk_status := new\<rparr>)) (tasks db)"
  by (simp add: move_task_def)

lemma transitions_move_task:
  "transitions (move_task t new us a db) = transitions db @
     [\<lparr>tr_task_id = tk_id t, tr_from_status = tk_status t, tr_to_status = new, tr_actor = a,
       tr_contract_version = (if tk_contract_version t = 0 then TASK_CONTRACT_VERSION
                              else tk_contract_version t)\<rparr>]"
  by (simp add: move_task_def log_transition_def)

lemma get_task_move:
  "get_task j (move_task t new us a db)
     = (if j = tk_id t
        then map_option (\<lambda>u. apply_updates us (u\<lparr>tk_status := new\<rparr>)) (get_task j db)
        else get_task j db)"
  unfolding move_task_def by (simp add: get_task_replace)

lemma map_id_sql_update_task [simp]:
  "(\<And>t. tk_id (f t) = tk_id t) \<Longrightarrow> map tk_id (sql_update p f ts) = map tk_id ts"
  by (rule map_sql_update)

section \<open>The compare-and-set as one guarded move\<close>

lemma update_tasks_key:
  assumes d: "distinct (map tk_id (tasks db))"
    and t: "get_task i db = Some t" "q t"
  shows "update_tasks (\<lambda>u. tk_id u = i \<and> q u) f db =
    (if active_index_ok (tasks (replace_task i f db)) then (Inr 1, replace_task i f db)
     else (Inl (raise_exc IntegrityError []), db))"
proof -
  have mem: "t \<in> set (tasks db)" "tk_id t = i"
    using d t by (simp_all add: get_task_iff)
  have "sql_count (\<lambda>u. tk_id u = i \<and> q u) (tasks db) = 1"
    using mem t(2) d by (subst sql_count_key_iff [where key = tk_id and k = i]) auto
  moreover have "sql_update (\<lambda>u. tk_id u = i \<and> q u) f (tasks db)
      = sql_update (\<lambda>u. tk_id u = i) f (tasks db)"
    using mem t(2) d key_unique [of tk_id "tasks db"] by (intro sql_update_cong) auto
  ultimately show ?thesis
    by (simp add: update_tasks_def replace_task_def Let_def)
qed

lemma update_tasks_miss:
  assumes "\<And>t. t \<in> set (tasks db) \<Longrightarrow> \<not> p t" "active_index_ok (tasks db)"
  shows "update_tasks p f db = (Inr 0, db)"
proof -
  have "sql_count p (tasks db) = 0" using assms(1) by (simp add: sql_count_0_iff)
  then show ?thesis using assms(2) by (simp add: update_tasks_def sql_update_none)
qed

definition store_ok :: "db \<Rightarrow> bool" where
  "store_ok db \<longleftrightarrow> keys_ok db \<and> active_index_ok (tasks db)"

lemma store_okD:
  "store_ok db \<Longrightarrow> distinct (map tk_id (tasks db))" "store_ok db \<Longrightarrow> active_index_ok (tasks db)"
  "store_ok db \<Longrightarrow> keys_ok db"
  by (simp_all add: store_ok_def keys_ok_def)

lemma cas_select_eq:
  assumes d: "distinct (map tk_id (tasks db))"
  shows "cas_select i expected claim db =
    (case get_task i db of
       Some t \<Rightarrow> if tk_status t \<in> set expected \<and> claim_matches claim t
                 then Some (tk_status t, tk_contract_version t) else None
     | None \<Rightarrow> None)"
proof (cases "\<exists>t \<in> set (tasks db). tk_id t = i \<and> tk_status t \<in> set expected \<and> claim_matches claim t")
  case True
  then obtain t where t: "t \<in> set (tasks db)" "tk_id t = i" "tk_status t \<in> set expected"
    "claim_matches claim t" by blast
  moreover from t have "find (\<lambda>t. tk_id t = i \<and> tk_status t \<in> set expected \<and> claim_matches claim t)
      (tasks db) = Some t"
    by (intro find_key_Some [OF d]) auto
  moreover from t have "get_task i db = Some t" using d by (simp add: get_task_iff)
  ultimately show ?thesis by (simp add: cas_select_def)
next
  case False
  then have "find (\<lambda>t. tk_id t = i \<and> tk_status t \<in> set expected \<and> claim_matches claim t) (tasks db) = None"
    by (simp add: find_None_iff)
  with False show ?thesis
    by (auto simp: cas_select_def dest!: get_task_SomeD split: option.splits)
qed

lemma cas_task_status_eq:
  assumes "store_ok db" and ne: "expected \<noteq> []"
  shows "cas_task_status i expected new us claim a db =
    (case get_task i db of
       None \<Rightarrow> (Inr False, db)
     | Some t \<Rightarrow>
         if tk_status t \<in> set expected \<and> claim_matches claim t then
           (if active_index_ok (tasks (move_task t new us a db)) then (Inr True, move_task t new us a db)
            else (Inl (raise_exc IntegrityError []), db))
         else (Inr False, db))"
proof -
  have d: "distinct (map tk_id (tasks db))" using assms(1) by (rule store_okD)
  show ?thesis
  proof (cases "get_task i db")
    case (Some t)
    have i: "tk_id t = i" using Some by (auto dest: get_task_SomeD)
    have "update_tasks (\<lambda>u. tk_id u = i \<and> tk_status u = tk_status t \<and> claim_matches claim u) f db =
      (if active_index_ok (tasks (replace_task i f db)) then (Inr 1, replace_task i f db)
       else (Inl (raise_exc IntegrityError []), db))" if "claim_matches claim t" for f
      using update_tasks_key [OF d Some, of "\<lambda>u. tk_status u = tk_status t \<and> claim_matches claim u"] that
      by simp
    with Some i ne show ?thesis
      by (simp add: cas_task_status_def cas_select_eq [OF d] cas_apply_def move_task_def)
  qed (simp add: cas_task_status_def ne cas_select_eq [OF d])
qed

lemma cas_task_status_empty:
  "cas_task_status i [] new us claim a db =
     (Inl (raise_exc ValueError (U ''expected task statuses must not be empty'')), db)"
  by (simp add: cas_task_status_def)

text \<open>
  The case rule all callers use: either nothing changed, or the row with key \<open>i\<close> had an expected
  status and a matching claim and was moved.
\<close>

lemma cas_task_status_cases:
  assumes "store_ok db" "cas_task_status i expected new us claim a db = (r, db')"
  obtains (kept) "db' = db" "r \<noteq> Inr True"
  | (moved) t where "get_task i db = Some t" "tk_status t \<in> set expected" "claim_matches claim t"
      "db' = move_task t new us a db" "active_index_ok (tasks db')" "r = Inr True"
proof (cases "expected = []")
  case True
  with assms(2) show ?thesis by (intro kept) (auto simp: cas_task_status_empty)
next
  case False
  with assms have "db' = db \<and> r \<noteq> Inr True \<or> (\<exists>t. get_task i db = Some t \<and>
      tk_status t \<in> set expected \<and> claim_matches claim t \<and> db' = move_task t new us a db \<and>
      active_index_ok (tasks db') \<and> r = Inr True)"
    by (auto simp: cas_task_status_eq split: option.splits if_splits)
  then show ?thesis using kept moved by blast
qed

section \<open>The unique index under a move\<close>

lemma active_index_ok_replace:
  assumes d: "distinct (map tk_id ts)" and ok: "active_index_ok ts"
    and f: "\<And>t. tk_id (f t) = tk_id t" "\<And>t. tk_issue_id (f t) = tk_issue_id t"
    and live: "\<And>t. t \<in> set ts \<Longrightarrow> tk_id t = i \<Longrightarrow> \<not> terminal (tk_status (f t)) \<Longrightarrow>
        \<not> terminal (tk_status t)"
  shows "active_index_ok (sql_update (\<lambda>t. tk_id t = i) f ts)"
proof -
  have origin: "\<exists>t. t \<in> set ts \<and> tk_id u = tk_id t \<and> tk_issue_id u = tk_issue_id t \<and>
      (\<not> terminal (tk_status u) \<longrightarrow> \<not> terminal (tk_status t))"
    if "u \<in> set (sql_update (\<lambda>t. tk_id t = i) f ts)" for u
    using that f live by (auto simp: set_sql_update split: if_splits)
  have d': "distinct (map tk_id (sql_update (\<lambda>t. tk_id t = i) f ts))"
    using d f by simp
  show ?thesis
    unfolding active_index_ok_iff [OF d']
  proof (intro ballI impI)
    fix u v
    assume uv: "u \<in> set (sql_update (\<lambda>t. tk_id t = i) f ts)" "v \<in> set (sql_update (\<lambda>t. tk_id t = i) f ts)"
      "\<not> terminal (tk_status u)" "\<not> terminal (tk_status v)" "tk_issue_id u = tk_issue_id v"
    obtain t where t: "t \<in> set ts" "tk_id u = tk_id t" "tk_issue_id u = tk_issue_id t"
      "\<not> terminal (tk_status t)"
      using origin [OF uv(1)] uv(3) by auto
    obtain w where w: "w \<in> set ts" "tk_id v = tk_id w" "tk_issue_id v = tk_issue_id w"
      "\<not> terminal (tk_status w)"
      using origin [OF uv(2)] uv(4) by auto
    have "tk_issue_id t = tk_issue_id w"
      unfolding t(3) [symmetric] w(3) [symmetric] by (rule uv(5))
    then have "tk_id t = tk_id w"
      by (rule ok [unfolded active_index_ok_iff [OF d], rule_format, OF t(1) w(1) t(4) w(4)])
    then show "tk_id u = tk_id v" unfolding t(2) w(2) .
  qed
qed

lemma active_index_ok_move:
  assumes "store_ok db" "get_task i db = Some t" "terminal new \<or> \<not> terminal (tk_status t)"
  shows "active_index_ok (tasks (move_task t new us a db))"
proof -
  have "tk_id t = i" using assms(2) by (auto dest: get_task_SomeD)
  moreover have "u = t" if "u \<in> set (tasks db)" "tk_id u = tk_id t" for u
    using that assms(1,2) \<open>tk_id t = i\<close> by (metis get_task_iff option.inject store_okD(1))
  ultimately show ?thesis
    using assms by (auto intro!: active_index_ok_replace simp: store_okD tasks_move_task)
qed

lemma store_ok_move:
  assumes "store_ok db" "active_index_ok (tasks (move_task t new us a db))"
  shows "store_ok (move_task t new us a db)"
  using assms by (simp add: store_ok_def keys_ok_def tasks_move_task)

section \<open>Claims respect the limits\<close>

lemma claim_row_frame [simp]:
  "tk_id (claim_row k s n t) = tk_id t" "tk_issue_id (claim_row k s n t) = tk_issue_id t"
  "tk_created_by (claim_row k s n t) = tk_created_by t"
  "tk_status (claim_row k s n t) = Preparing"
  "tk_claim_token (claim_row k s n t) = Some k"
  "tk_commit_sha (claim_row k s n t) = tk_commit_sha t"
  "tk_contract_version (claim_row k s n t) = tk_contract_version t"
  "tk_failure_code (claim_row k s n t) = tk_failure_code t"
  by (simp_all add: claim_row_def)

definition claim_task :: "task \<Rightarrow> pystr \<Rightarrow> int \<Rightarrow> time \<Rightarrow> db \<Rightarrow> db" where
  "claim_task t token lease_seconds now db =
     log_transition (tk_id t) Queued Preparing ActorScheduler (tk_contract_version t)
       (replace_task (tk_id t) (claim_row token lease_seconds now) db)"

lemma claim_task_frame [simp]:
  "users (claim_task t k ls now db) = users db"
  "repositories (claim_task t k ls now db) = repositories db"
  "issues (claim_task t k ls now db) = issues db"
  "agent_runs (claim_task t k ls now db) = agent_runs db"
  "reviews (claim_task t k ls now db) = reviews db"
  "feedback (claim_task t k ls now db) = feedback db"
  "tasks (claim_task t k ls now db)
     = sql_update (\<lambda>u. tk_id u = tk_id t) (claim_row k ls now) (tasks db)"
  by (simp_all add: claim_task_def)

lemma claim_queued_task_eq:
  assumes "store_ok db"
  shows "claim_queued_task i gl ul ls token now db =
    (case get_task i db of
       None \<Rightarrow> (Inr None, db)
     | Some t \<Rightarrow>
         if tk_status t = Queued \<and> running_count db < gl
            \<and> user_running_count (tk_created_by t) db < ul
         then (Inr (Some token), claim_task t token ls now db) else (Inr None, db))"
proof -
  let ?q = "\<lambda>t. tk_status t = Queued \<and> running_count db < gl
            \<and> user_running_count (tk_created_by t) db < ul"
  have d: "distinct (map tk_id (tasks db))" and ok: "active_index_ok (tasks db)"
    using assms by (simp_all add: store_okD)
  show ?thesis
  proof (cases "\<exists>t. get_task i db = Some t \<and> ?q t")
    case True
    then obtain t where t: "get_task i db = Some t" "?q t" by blast
    have i: "tk_id t = i" using t(1) by (auto dest: get_task_SomeD)
    have same: "u = t" if "u \<in> set (tasks db)" "tk_id u = i" for u
      using that t(1) d by (metis get_task_iff option.inject)
    have ok': "active_index_ok (tasks (replace_task i (claim_row token ls now) db))"
      using d ok t(2) by (auto intro!: active_index_ok_replace simp: status_sets dest!: same)
    have get: "get_task i (replace_task i (claim_row token ls now) db)
        = Some (claim_row token ls now t)"
      using t(1) by (simp add: get_task_replace)
    show ?thesis
      using update_tasks_key [OF d t(1), of ?q] t ok' get i
      by (simp add: claim_queued_task_def claim_task_def)
  next
    case False
    then have "update_tasks (\<lambda>t. tk_id t = i \<and> ?q t) (claim_row token ls now) db = (Inr 0, db)"
      using d ok by (intro update_tasks_miss) (auto simp: get_task_iff)
    with False show ?thesis
      by (auto simp: claim_queued_task_def split: option.splits)
  qed
qed

lemma claim_queued_task_cases:
  assumes "store_ok db" "claim_queued_task i gl ul ls token now db = (r, db')"
  obtains (kept) "db' = db" "r = Inr None"
  | (claimed) t where "get_task i db = Some t" "tk_status t = Queued" "running_count db < gl"
      "user_running_count (tk_created_by t) db < ul" "db' = claim_task t token ls now db"
      "r = Inr (Some token)"
proof -
  from assms(2) have "db' = db \<and> r = Inr None \<or> (\<exists>t. get_task i db = Some t \<and>
      tk_status t = Queued \<and> running_count db < gl \<and> user_running_count (tk_created_by t) db < ul \<and>
      db' = claim_task t token ls now db \<and> r = Inr (Some token))"
    by (auto simp: claim_queued_task_eq [OF assms(1)] split: option.splits if_splits)
  then show ?thesis using kept claimed by blast
qed

lemma sql_count_replace:
  assumes "distinct (map key rows)" "r \<in> set rows" "\<not> q r" "q (f r)"
  shows "sql_count q (sql_update (\<lambda>u. key u = key r) f rows) = Suc (sql_count q rows)"
  using assms
proof (induction rows)
  case (Cons s rows)
  have "sql_update (\<lambda>u. key u = key r) f rows = rows" if "s = r"
    using Cons.prems(1) that by (intro sql_update_id) (metis distinct.simps(2) image_eqI list.map(2) list.set_map)
  with Cons show ?case by (auto simp: rev_image_eqI)
qed simp

lemma running_count_claim:
  assumes "store_ok db" "get_task i db = Some t" "tk_status t = Queued"
  shows "running_count (claim_task t k ls now db) = running_count db + 1"
    and "user_running_count (tk_created_by t) (claim_task t k ls now db)
       = user_running_count (tk_created_by t) db + 1"
proof -
  have d: "distinct (map tk_id (tasks db))" and t: "t \<in> set (tasks db)"
    using assms(1,2) by (auto simp: store_okD dest: get_task_SomeD)
  have run: "running Preparing" "\<not> running Queued" by (simp_all add: status_sets)
  show "running_count (claim_task t k ls now db) = running_count db + 1"
    using sql_count_replace [OF d t, of "\<lambda>t. running (tk_status t)"] assms(3) run
    by (simp add: running_count_def)
  show "user_running_count (tk_created_by t) (claim_task t k ls now db)
       = user_running_count (tk_created_by t) db + 1"
    using sql_count_replace [OF d t, of "\<lambda>u. running (tk_status u) \<and> tk_created_by u = tk_created_by t"]
      assms(3) run
    by (simp add: user_running_count_def)
qed

lemma user_running_count_claim_other:
  assumes "u \<noteq> tk_created_by t" "\<And>r. r \<in> set (tasks db) \<Longrightarrow> tk_id r = tk_id t \<Longrightarrow> r = t"
  shows "user_running_count u (claim_task t k ls now db) \<le> user_running_count u db"
proof -
  have "tk_created_by r \<noteq> u" if "r \<in> set (tasks db)" "tk_id r = tk_id t" for r
    using assms that by auto
  then show ?thesis
    unfolding user_running_count_def claim_task_frame of_nat_le_iff
    by (intro sql_count_update_le) (metis claim_row_frame(3))
qed

section \<open>Properties\<close>

text \<open>
  C1: the audit row of a compare-and-set is true.  The caller selects the current status in the state
  \<open>dbs\<close> and updates in a later state \<open>dbu\<close>, with any other connections' commits in between.  If
  the update reports success, then in \<open>dbu\<close> the task had an expected status and the caller's claim,
  the appended transition names exactly that status as its origin, and the task now has the new one.
\<close>

theorem cas_records_true_origin:
  assumes "store_ok dbu" and sel: "cas_select i expected claim dbs = Some current"
    and upd: "cas_apply i current new us claim a dbu = (Inr True, dbr)"
  shows "\<exists>t t'. get_task i dbu = Some t \<and> tk_status t \<in> set expected \<and> claim_matches claim t
    \<and> get_task i dbr = Some t' \<and> tk_status t' = new
    \<and> (\<exists>v. transitions dbr = transitions dbu @
         [\<lparr>tr_task_id = i, tr_from_status = tk_status t, tr_to_status = new, tr_actor = a,
           tr_contract_version = v\<rparr>])"
proof -
  let ?q = "\<lambda>t. tk_status t = fst current \<and> claim_matches claim t"
  let ?f = "\<lambda>t. apply_updates us (t\<lparr>tk_status := new\<rparr>)"
  have d: "distinct (map tk_id (tasks dbu))" and ok: "active_index_ok (tasks dbu)"
    using assms(1) by (simp_all add: store_okD)
  have cur: "fst current \<in> set expected"
    using sel by (auto simp: cas_select_def dest: find_SomeD)
  have "\<exists>t. get_task i dbu = Some t \<and> ?q t"
  proof (rule ccontr)
    assume "\<not> (\<exists>t. get_task i dbu = Some t \<and> ?q t)"
    then have "update_tasks (\<lambda>t. tk_id t = i \<and> ?q t) ?f dbu = (Inr 0, dbu)"
      using d ok by (intro update_tasks_miss) (auto simp: get_task_iff)
    with upd show False by (simp add: cas_apply_def)
  qed
  then obtain t where t: "get_task i dbu = Some t" "?q t" by blast
  have "update_tasks (\<lambda>t. tk_id t = i \<and> ?q t) ?f dbu =
      (if active_index_ok (tasks (replace_task i ?f dbu)) then (Inr 1, replace_task i ?f dbu)
       else (Inl (raise_exc IntegrityError []), dbu))"
    by (rule update_tasks_key [OF d t(1), of ?q, OF t(2)])
  with upd have "dbr = log_transition i (fst current) new a (snd current) (replace_task i ?f dbu)"
    by (auto simp: cas_apply_def split: if_splits)
  with t cur show ?thesis by (auto simp: get_task_replace transitions_log_transition)
qed

definition sample_db :: "task_status \<Rightarrow> pystr option \<Rightarrow> db" where
  "sample_db s token = empty_db\<lparr>tasks := [(new_task 1 1 1 [] 0)\<lparr>tk_status := s, tk_claim_token := token\<rparr>]\<rparr>"

lemmas sample_simps = sample_db_def empty_db_def new_task_def store_ok_def keys_ok_def
  active_index_ok_def active_tasks_def status_sets get_task_def

theorem cas_records_true_origin_witness:
  "\<exists>t t'. get_task 1 (sample_db Reviewing (Some [7])) = Some t \<and> tk_status t \<in> set [Reviewing]
    \<and> claim_matches (Some [7]) t
    \<and> get_task 1 (snd (cas_apply 1 (Reviewing, 1) Sealing [] (Some [7]) ActorOrchestrator
         (sample_db Reviewing (Some [7])))) = Some t' \<and> tk_status t' = Sealing
    \<and> (\<exists>v. transitions (snd (cas_apply 1 (Reviewing, 1) Sealing [] (Some [7]) ActorOrchestrator
         (sample_db Reviewing (Some [7])))) = transitions (sample_db Reviewing (Some [7])) @
         [\<lparr>tr_task_id = 1, tr_from_status = tk_status t, tr_to_status = Sealing,
           tr_actor = ActorOrchestrator, tr_contract_version = v\<rparr>])"
  by (rule cas_records_true_origin [where dbs = "sample_db Reviewing (Some [7])" and
        current = "(Reviewing, 1)" and us = "[]"])
    (simp_all add: sample_simps cas_select_def cas_apply_def update_tasks_def claim_matches_def
       log_transition_def Let_def)

text \<open>
  C2: a claim never exceeds the concurrency limits.  If the running tasks are within the global limit
  and every user is within the per-user limit, they still are after any claim attempt, and an attempt
  that returns a token has put a queued task of an admissible user into \<open>preparing\<close> under it.
\<close>

theorem claim_respects_limits:
  assumes "store_ok db" "running_count db \<le> gl" "\<And>u. user_running_count u db \<le> ul"
    and "claim_queued_task i gl ul ls token now db = (r, db')"
  shows "running_count db' \<le> gl \<and> (\<forall>u. user_running_count u db' \<le> ul) \<and>
    (r = Inr None \<and> db' = db \<or>
     r = Inr (Some token) \<and> (\<exists>t. get_task i db = Some t \<and> tk_status t = Queued
       \<and> get_task i db' = Some (claim_row token ls now t)))"
  using assms(1,4)
proof (cases rule: claim_queued_task_cases)
  case (claimed t)
  have i: "tk_id t = i" using claimed(1) by (auto dest: get_task_SomeD)
  have uniq: "r = t" if "r \<in> set (tasks db)" "tk_id r = tk_id t" for r
    using that claimed(1) assms(1) i by (metis get_task_iff option.inject store_okD(1))
  have "user_running_count u db' \<le> ul" for u
  proof (cases "u = tk_created_by t")
    case True
    then show ?thesis
      using running_count_claim(2) [OF assms(1) claimed(1,2)] claimed(4,5) by simp
  next
    case False
    have "user_running_count u db' \<le> user_running_count u db"
      unfolding claimed(5) by (rule user_running_count_claim_other [OF False]) (rule uniq)
    with assms(3) [of u] show ?thesis by simp
  qed
  moreover have "running_count db' \<le> gl"
    using running_count_claim(1) [OF assms(1) claimed(1,2)] claimed(3,5) by simp
  moreover have "get_task i db' = Some (claim_row token ls now t)"
    using claimed(1,5) i by (simp add: claim_task_def get_task_replace)
  ultimately show ?thesis using claimed by blast
qed (use assms in auto)

theorem claim_respects_limits_witness:
  "claim_queued_task 1 1 1 120 [7] 0 (sample_db Queued None) =
      (Inr (Some [7]), snd (claim_queued_task 1 1 1 120 [7] 0 (sample_db Queued None)))
   \<and> running_count (snd (claim_queued_task 1 1 1 120 [7] 0 (sample_db Queued None))) \<le> 1"
proof -
  have eval: "claim_queued_task 1 1 1 120 [7] 0 (sample_db Queued None) =
      (Inr (Some [7]), snd (claim_queued_task 1 1 1 120 [7] 0 (sample_db Queued None)))"
    by (simp add: sample_simps claim_queued_task_def update_tasks_def running_count_def
        user_running_count_def Let_def)
  show ?thesis
    using claim_respects_limits [OF _ _ _ eval] eval
    by (simp add: sample_simps running_count_def user_running_count_def)
qed

end
