(* ===== verification/Lease.thy ===== *)
theory Lease
  imports Task_State
begin

text \<open>
  \<open>coderus/tasks/lease.py\<close>: the renewal of a claim by compare-and-set and the heartbeat worker.

  \<open>TaskLease\<close> is generic in its model class (\<open>Task\<close> and \<open>PRReviewTask\<close> both use it).  Here the model
  class is a record of column accessors; the locale \<open>lease_columns\<close> states what the renewal needs of
  them and proves its lemmas once.  It is interpreted on the task table below and on the review
  table in \<open>Pr_Review_Store\<close>.
\<close>

section \<open>TaskLease.renew\<close>

record 'r lease_model =
  lm_id :: "'r \<Rightarrow> int"
  lm_active :: "'r \<Rightarrow> bool"
  lm_token :: "'r \<Rightarrow> pystr option"
  lm_expires_at :: "'r \<Rightarrow> time option"
  lm_set_expires_at :: "time option \<Rightarrow> 'r \<Rightarrow> 'r"

definition CLAIM_LEASE_SECONDS :: int where
  "CLAIM_LEASE_SECONDS = 120"

definition CLAIM_HEARTBEAT_SECONDS :: int where
  "CLAIM_HEARTBEAT_SECONDS = 10"

definition lease_held :: "'r lease_model \<Rightarrow> int \<Rightarrow> pystr \<Rightarrow> time \<Rightarrow> 'r \<Rightarrow> bool" where
  "lease_held m i token now r =
     (lm_id m r = i \<and> lm_active m r \<and> lm_token m r = Some token
      \<and> (case lm_expires_at m r of None \<Rightarrow> False | Some e \<Rightarrow> e > now))"

definition lease_renew ::
  "'r lease_model \<Rightarrow> int \<Rightarrow> int \<Rightarrow> pystr \<Rightarrow> time \<Rightarrow> 'r list \<Rightarrow> bool \<times> 'r list" where
  "lease_renew m lease_seconds i token now rows =
     (sql_count (lease_held m i token now) rows = 1,
      sql_update (lease_held m i token now)
        (lm_set_expires_at m (Some (now + seconds lease_seconds))) rows)"

locale lease_columns =
  fixes m :: "'r lease_model"
  assumes set_id: "lm_id m (lm_set_expires_at m e r) = lm_id m r"
    and set_active: "lm_active m (lm_set_expires_at m e r) = lm_active m r"
    and set_token: "lm_token m (lm_set_expires_at m e r) = lm_token m r"
    and set_expires: "lm_expires_at m (lm_set_expires_at m e r) = e"
begin

text \<open>A renewal succeeds exactly for the holder of an unexpired lease on an active row.\<close>

lemma renew_iff:
  assumes "distinct (map (lm_id m) rows)"
  shows "fst (lease_renew m ls i token now rows) \<longleftrightarrow> (\<exists>r \<in> set rows. lease_held m i token now r)"
  unfolding lease_renew_def fst_conv
  by (rule sql_count_key_iff [OF assms, where k = i]) (simp add: lease_held_def)

text \<open>A refused renewal writes nothing.\<close>

lemma renew_refused:
  assumes "distinct (map (lm_id m) rows)" "\<not> fst (lease_renew m ls i token now rows)"
  shows "snd (lease_renew m ls i token now rows) = rows"
  using assms(2) unfolding renew_iff [OF assms(1)]
  by (auto simp: lease_renew_def intro: sql_update_id)

text \<open>Every row keeps its key, activity and holder; only the holder's expiry moves.\<close>

lemma renew_rows:
  assumes "s \<in> set (snd (lease_renew m ls i token now rows))"
  shows "\<exists>r \<in> set rows. lm_id m s = lm_id m r \<and> lm_active m s = lm_active m r
    \<and> lm_token m s = lm_token m r
    \<and> (s = r \<or> lease_held m i token now r \<and> lm_expires_at m s = Some (now + seconds ls))"
  using assms by (force simp: lease_renew_def set_sql_update set_id set_active set_token set_expires)

text \<open>A renewed lease can be renewed again by its holder at any time before it runs out.\<close>

lemma renew_again:
  assumes "distinct (map (lm_id m) rows)" "fst (lease_renew m ls i token now rows)"
    and "later < now + seconds ls"
  shows "fst (lease_renew m ls i token later (snd (lease_renew m ls i token now rows)))"
proof -
  let ?rows = "snd (lease_renew m ls i token now rows)"
  have d: "distinct (map (lm_id m) ?rows)"
    using assms(1) by (simp add: lease_renew_def map_sql_update set_id)
  obtain r where r: "r \<in> set rows" "lease_held m i token now r"
    using assms(2) renew_iff [OF assms(1)] by blast
  let ?s = "lm_set_expires_at m (Some (now + seconds ls)) r"
  have "?s \<in> set ?rows" using r by (force simp: lease_renew_def set_sql_update)
  moreover have "lease_held m i token later ?s"
    using r(2) assms(3) by (simp add: lease_held_def set_id set_active set_token set_expires)
  ultimately show ?thesis unfolding renew_iff [OF d] by blast
qed

end

subsection \<open>The task table\<close>

text \<open>The active statuses of the orchestrator's lease: \<open>_CLAIMED_STATES\<close>.\<close>

definition CLAIMED_STATES :: "task_status list" where
  "CLAIMED_STATES = [Preparing, DeveloperWorking, Reviewing, DeveloperRevising, Sealing,
     Publishing, Cancelling]"

definition task_lease_model :: "task lease_model" where
  "task_lease_model = \<lparr>lm_id = tk_id, lm_active = (\<lambda>t. tk_status t \<in> set CLAIMED_STATES),
     lm_token = tk_claim_token, lm_expires_at = tk_claim_expires_at,
     lm_set_expires_at = (\<lambda>e t. t\<lparr>tk_claim_expires_at := e\<rparr>)\<rparr>"

interpretation task_lease: lease_columns task_lease_model
  by unfold_locales (simp_all add: task_lease_model_def)

text \<open>\<open>TaskOrchestrator._renew_claim\<close>: the renewal as a transaction on the database.\<close>

definition renew_claim :: "int \<Rightarrow> pystr \<Rightarrow> time \<Rightarrow> db \<Rightarrow> bool \<times> db" where
  "renew_claim i token now db =
     (let (ok, rows) = lease_renew task_lease_model CLAIM_LEASE_SECONDS i token now (tasks db)
      in (ok, db\<lparr>tasks := rows\<rparr>))"

section \<open>heartbeat\_loop\<close>

text \<open>
  One turn of the worker thread: either \<open>stop.wait\<close> saw the stop event, or the renewal ran with an
  outcome, the monotonic clock then reading \<open>beat_time\<close> and \<open>stop.is_set()\<close> being \<open>beat_stop\<close>.
\<close>

datatype renewal = Renewed | Refused | RenewRaised

datatype beat = StopSeen | Beat (beat_renewal: renewal) (beat_time: time) (beat_stop: bool)

text \<open>
  \<open>HbRunning renewed\<close>: the thread still runs, its last confirmed renewal at \<open>renewed\<close>.  \<open>HbLost\<close>: it
  reported \<open>on_lost\<close> and ended.  \<open>HbStopped\<close>: it ended without a report.
\<close>

datatype hb_result = HbRunning time | HbStopped | HbLost

fun heartbeat_worker :: "time \<Rightarrow> time \<Rightarrow> beat list \<Rightarrow> hb_result" where
  "heartbeat_worker lease renewed [] = HbRunning renewed"
| "heartbeat_worker lease renewed (StopSeen # beats) = HbStopped"
| "heartbeat_worker lease renewed (Beat outcome now stopped # beats) =
     (case outcome of
        Renewed \<Rightarrow> heartbeat_worker lease now beats
      | Refused \<Rightarrow> (if stopped then HbStopped else HbLost)
      | RenewRaised \<Rightarrow>
          if now - renewed < lease then heartbeat_worker lease renewed beats
          else if stopped then HbStopped else HbLost)"

text \<open>The time of the last confirmed renewal in a script of beats.\<close>

fun last_renewal :: "time \<Rightarrow> beat list \<Rightarrow> time" where
  "last_renewal renewed [] = renewed"
| "last_renewal renewed (Beat Renewed now s # beats) = last_renewal now beats"
| "last_renewal renewed (b # beats) = last_renewal renewed beats"

lemma heartbeat_running_last:
  "heartbeat_worker lease renewed beats = HbRunning l \<Longrightarrow> l = last_renewal renewed beats"
proof (induction beats arbitrary: renewed)
  case (Cons b beats)
  then show ?case by (cases b) (auto split: renewal.splits if_splits)
qed simp

lemma heartbeat_append:
  "heartbeat_worker lease renewed (xs @ ys) =
     (case heartbeat_worker lease renewed xs of
        HbRunning l \<Rightarrow> heartbeat_worker lease l ys | r \<Rightarrow> r)"
proof (induction xs arbitrary: renewed)
  case (Cons b xs)
  then show ?case by (cases b) (auto split: renewal.splits)
qed simp

text \<open>The renewal of a claim as one guarded update of its row.\<close>

lemma renew_claim_eq:
  assumes "store_ok db"
  shows "renew_claim i token now db =
    (case get_task i db of
       Some t \<Rightarrow>
         if tk_status t \<in> set CLAIMED_STATES \<and> tk_claim_token t = Some token
            \<and> (\<exists>e. tk_claim_expires_at t = Some e \<and> now < e)
         then (True, replace_task i
                 (\<lambda>u. u\<lparr>tk_claim_expires_at := Some (now + seconds CLAIM_LEASE_SECONDS)\<rparr>) db)
         else (False, db)
     | None \<Rightarrow> (False, db))"
proof -
  let ?held = "lease_held task_lease_model i token now"
  have held: "?held t \<longleftrightarrow> tk_id t = i \<and> tk_status t \<in> set CLAIMED_STATES
      \<and> tk_claim_token t = Some token \<and> (\<exists>e. tk_claim_expires_at t = Some e \<and> now < e)" for t
    by (auto simp: lease_held_def task_lease_model_def split: option.splits)
  have dt: "distinct (map tk_id (tasks db))" using assms by (rule store_okD)
  have d: "distinct (map (lm_id task_lease_model) (tasks db))"
    using dt by (simp add: task_lease_model_def)
  show ?thesis
  proof (cases "\<exists>t. get_task i db = Some t \<and> ?held t")
    case True
    then obtain t where t: "get_task i db = Some t" "?held t" by blast
    have mem: "t \<in> set (tasks db)" "tk_id t = i" using t(1) by (auto dest: get_task_SomeD)
    have "fst (lease_renew task_lease_model CLAIM_LEASE_SECONDS i token now (tasks db))"
      unfolding task_lease.renew_iff [OF d] using mem t(2) by blast
    moreover have "snd (lease_renew task_lease_model CLAIM_LEASE_SECONDS i token now (tasks db))
      = sql_update (\<lambda>t. tk_id t = i)
          (\<lambda>u. u\<lparr>tk_claim_expires_at := Some (now + seconds CLAIM_LEASE_SECONDS)\<rparr>) (tasks db)"
    proof -
      have "?held r \<longleftrightarrow> tk_id r = i" if "r \<in> set (tasks db)" for r
        using that mem t(2) key_unique [OF dt that mem(1)] held by metis
      then show ?thesis
        unfolding lease_renew_def snd_conv
        by (intro sql_update_cong) (simp_all add: task_lease_model_def)
    qed
    ultimately show ?thesis
      using t by (auto simp: renew_claim_def held replace_task_def split: prod.splits)
  next
    case False
    then have refused: "\<not> fst (lease_renew task_lease_model CLAIM_LEASE_SECONDS i token now (tasks db))"
      unfolding task_lease.renew_iff [OF d] using dt by (auto simp: get_task_iff held)
    have "snd (lease_renew task_lease_model CLAIM_LEASE_SECONDS i token now (tasks db)) = tasks db"
      using task_lease.renew_refused [OF d refused] .
    with False refused show ?thesis
      by (auto simp: renew_claim_def held split: prod.splits option.splits dest: get_task_SomeD)
  qed
qed

section \<open>Properties\<close>

text \<open>
  C3: only the holder extends a lease.  A renewal succeeds exactly when the task is in a claimed
  status, carries the presented token and has not expired; then exactly its expiry moves to now plus
  the lease.  Otherwise the database is unchanged.
\<close>

theorem renew_claim_holder_only:
  assumes "store_ok db"
  shows "renew_claim i token now db =
    (case get_task i db of
       Some t \<Rightarrow>
         if tk_status t \<in> set CLAIMED_STATES \<and> tk_claim_token t = Some token
            \<and> (\<exists>e. tk_claim_expires_at t = Some e \<and> now < e)
         then (True, replace_task i
                 (\<lambda>u. u\<lparr>tk_claim_expires_at := Some (now + seconds CLAIM_LEASE_SECONDS)\<rparr>) db)
         else (False, db)
     | None \<Rightarrow> (False, db))"
  by (rule renew_claim_eq [OF assms])

theorem renew_claim_holder_only_witness:
  "fst (renew_claim 1 [7] 5 (replace_task 1 (\<lambda>t. t\<lparr>tk_claim_expires_at := Some 9\<rparr>)
      (sample_db Reviewing (Some [7])))) \<and>
   \<not> fst (renew_claim 1 [7] 9 (replace_task 1 (\<lambda>t. t\<lparr>tk_claim_expires_at := Some 9\<rparr>)
      (sample_db Reviewing (Some [7]))))"
  by (simp add: renew_claim_holder_only sample_simps replace_task_def CLAIMED_STATES_def)

text \<open>
  C4: the heartbeat neither gives up early nor holds on too long.  The worker reports the loss of the
  claim only if the renewal was refused, or raised when the last confirmed renewal was at least a lease
  ago; and while it runs after a raising renewal, that renewal is less than a lease old.
\<close>

theorem heartbeat_reports_exactly_lost_claims:
  assumes "heartbeat_worker lease start beats = HbRunning renewed"
  shows "(heartbeat_worker lease start (beats @ [Beat outcome now False]) = HbLost \<longleftrightarrow>
        outcome = Refused \<or> outcome = RenewRaised \<and> lease \<le> now - last_renewal start beats)
    \<and> (heartbeat_worker lease start (beats @ [Beat RenewRaised now s]) = HbRunning l \<longrightarrow>
        l = last_renewal start beats \<and> now - l < lease)"
  using assms heartbeat_running_last [OF assms]
  by (auto simp: heartbeat_append split: renewal.splits if_splits)

theorem heartbeat_reports_exactly_lost_claims_witness:
  "heartbeat_worker 120 0 ([Beat Renewed 10 False, Beat RenewRaised 20 False]
       @ [Beat RenewRaised 130 False]) = HbLost"
  by (subst heartbeat_reports_exactly_lost_claims [where renewed = 10, THEN conjunct1]) simp_all

end
