(* ===== verification/Task_Scheduler.thy ===== *)
theory Task_Scheduler
  imports Lease "HOL-Library.Product_Lexorder" "HOL-Library.Sublist"
begin

text \<open>
  \<open>coderus/workflow/scheduler.py\<close> and \<open>coderus/tasks/quotas.py\<close>: recovery of interrupted tasks and
  the scheduling tick.  Each \<open>with self.sessions()\<close> block is one transaction.  Between the claims of a
  tick other connections may commit; \<open>env i\<close> is what they did before the claim of task \<open>i\<close>.
\<close>

section \<open>quotas.py\<close>

definition quota_error :: "string \<Rightarrow> pyexc" where
  "quota_error name = raise_exc ValueError (U name @ U '' must be a non-negative integer'')"

definition can_start_task :: "int \<Rightarrow> int \<Rightarrow> int \<Rightarrow> int \<Rightarrow> pyexc + bool" where
  "can_start_task global_running user_running global_limit user_limit =
     (if global_running < 0 then Inl (quota_error ''global_running'')
      else if user_running < 0 then Inl (quota_error ''user_running'')
      else if global_limit < 0 then Inl (quota_error ''global_limit'')
      else if user_limit < 0 then Inl (quota_error ''user_limit'')
      else Inr (global_running < global_limit \<and> user_running < user_limit))"

section \<open>Recovery\<close>

definition MSG_PUBLISH_INTERRUPTED :: pystr where \<comment> \<open>publication was interrupted, the fixed branch will be reconciled\<close>
  "MSG_PUBLISH_INTERRUPTED =
     [21457, 24067, 36807, 31243, 34987, 20013, 26029, 65292, 31995, 32479, 23558, 25353,
     22266, 23450, 20998, 25903, 26680, 23545, 24182, 24674, 22797, 32, 80, 82, 32, 35760,
     24405]"

definition MSG_LEASE_EXPIRED :: pystr where \<comment> \<open>service restart or expired lease, check by hand before retrying\<close>
  "MSG_LEASE_EXPIRED =
     [26381, 21153, 37325, 21551, 25110, 20219, 21153, 31199, 32422, 36807, 26399, 65292,
     36816, 34892, 24050, 20013, 26029, 65292, 35831, 20154, 24037, 26816, 26597, 21518,
     37325, 35797]"

definition MSG_RUN_INTERRUPTED :: pystr where \<comment> \<open>task lease expired or service restarted\<close>
  "MSG_RUN_INTERRUPTED =
     [20219, 21153, 31199, 32422, 36807, 26399, 25110, 26381, 21153, 37325, 21551]"

definition needs_recovery :: "time \<Rightarrow> task \<Rightarrow> bool" where
  "needs_recovery now t =
     (tk_status t = Cancelling \<or>
      running (tk_status t) \<and>
        (case tk_claim_expires_at t of None \<Rightarrow> True | Some e \<Rightarrow> e \<le> now))"

definition reconcile_publication :: "task \<Rightarrow> bool" where
  "reconcile_publication t =
     (tk_status t = Publishing \<and> truthy (tk_workspace_path t) \<and> truthy (tk_branch_name t)
      \<and> truthy (tk_commit_sha t))"

definition recovery_target :: "task \<Rightarrow> task_status" where
  "recovery_target t =
     (if tk_status t = Cancelling then Cancelled
      else if reconcile_publication t then Queued
      else ManualIntervention)"

definition recovery_updates :: "time \<Rightarrow> task \<Rightarrow> column_value list" where
  "recovery_updates now t =
     (let target = recovery_target t in
      [SetClaimToken None, SetClaimExpiresAt None,
       SetFailureCode
         (if target = Cancelled then tk_failure_code t
          else if reconcile_publication t then Some PublishExisting else Some ManagerRestarted),
       SetFailureSummary
         (if target = Cancelled then tk_failure_summary t
          else if reconcile_publication t then Some MSG_PUBLISH_INTERRUPTED
          else Some MSG_LEASE_EXPIRED),
       SetFinishedAt (if reconcile_publication t then None else Some now)])"

definition interrupt_runs :: "time \<Rightarrow> int \<Rightarrow> db \<Rightarrow> db" where
  "interrupt_runs now i db =
     db\<lparr>agent_runs := sql_update (\<lambda>r. ar_task_id r = i \<and> ar_status r = RunRunning)
          (\<lambda>r. r\<lparr>ar_status := RunInterrupted, ar_finished_at := Some now,
                  ar_error_summary := Some MSG_RUN_INTERRUPTED\<rparr>) (agent_runs db)\<rparr>"

fun recover_each :: "time \<Rightarrow> task list \<Rightarrow> int \<Rightarrow> db \<Rightarrow> (pyexc + int) \<times> db" where
  "recover_each now [] n db = (Inr n, db)"
| "recover_each now (t # ts) n db =
     (case cas_task_status (tk_id t) [tk_status t] (recovery_target t) (recovery_updates now t)
             (tk_claim_token t) ActorRecovery db of
        (Inl e, db') \<Rightarrow> (Inl e, db')
      | (Inr changed, db') \<Rightarrow>
          if \<not> changed then recover_each now ts n db'
          else recover_each now ts (n + 1) (interrupt_runs now (tk_id t) db'))"

text \<open>\<open>_recover_expired\<close>: one transaction, rolled back when a statement raises.\<close>

definition recover_expired :: "time \<Rightarrow> db \<Rightarrow> (pyexc + int) \<times> db" where
  "recover_expired now db =
     (case recover_each now (filter (needs_recovery now) (tasks db)) 0 db of
        (Inl e, _) \<Rightarrow> (Inl e, db)
      | (Inr n, db') \<Rightarrow> (Inr n, db'))"

section \<open>The scheduling tick\<close>

definition user_active :: "int \<Rightarrow> db \<Rightarrow> bool" where
  "user_active u db = (case get_user u db of None \<Rightarrow> False | Some r \<Rightarrow> us_is_active r)"

text \<open>The queued tasks of active users in scheduling order: \<open>priority DESC, created_at, id\<close>.\<close>

definition queued_tasks :: "db \<Rightarrow> (int \<times> int) list" where
  "queued_tasks db =
     map (\<lambda>t. (tk_id t, tk_created_by t))
       (sort_key (\<lambda>t. (- tk_priority t, tk_created_at t, tk_id t))
         (filter (\<lambda>t. tk_status t = Queued \<and> user_active (tk_created_by t) db) (tasks db)))"

record limits =
  global_limit :: int
  per_user_limit :: int

text \<open>
  The claim loop of \<open>tick\<close>.  \<open>base_global\<close> and \<open>base_user\<close> are the running counts read at the start,
  \<open>reserved_global\<close> and \<open>reserved_user\<close> the claims of this tick, \<open>busy\<close> the tasks that already have a
  worker.  The result lists the started workers with their claim tokens, and the exception that
  ended the loop, if any.
\<close>

fun claim_loop ::
  "limits \<Rightarrow> (int \<Rightarrow> db \<Rightarrow> db) \<Rightarrow> (int \<Rightarrow> pystr) \<Rightarrow> time \<Rightarrow> int \<Rightarrow> (int \<Rightarrow> int) \<Rightarrow> (int \<times> int) list
    \<Rightarrow> int list \<Rightarrow> int \<Rightarrow> (int \<Rightarrow> int) \<Rightarrow> db \<Rightarrow> ((int \<times> pystr) list \<times> pyexc option) \<times> db" where
  "claim_loop lim env token now base_global base_user [] busy reserved_global reserved_user db
     = (([], None), db)"
| "claim_loop lim env token now base_global base_user ((i, u) # queue) busy reserved_global
     reserved_user db =
     (if i \<in> set busy then
        claim_loop lim env token now base_global base_user queue busy reserved_global reserved_user db
      else case can_start_task (base_global + reserved_global) (base_user u + reserved_user u)
                  (global_limit lim) (per_user_limit lim) of
        Inl e \<Rightarrow> (([], Some e), db)
      | Inr False \<Rightarrow>
          claim_loop lim env token now base_global base_user queue busy reserved_global reserved_user db
      | Inr True \<Rightarrow>
          (case claim_queued_task i (global_limit lim) (per_user_limit lim) CLAIM_LEASE_SECONDS
                  (token i) now (env i db) of
             (Inl e, db') \<Rightarrow> (([], Some e), db')
           | (Inr None, db') \<Rightarrow>
               claim_loop lim env token now base_global base_user queue busy reserved_global
                 reserved_user db'
           | (Inr (Some k), db') \<Rightarrow>
               (let ((started, exn), db'') =
                  claim_loop lim env token now base_global base_user queue (i # busy)
                    (reserved_global + 1) (reserved_user(u := reserved_user u + 1)) db'
                in (((i, k) # started, exn), db''))))"

text \<open>
  \<open>tick\<close>: \<open>workers\<close> are the entries of \<open>_running\<close> with their \<open>done()\<close> flags.  The result is the new
  \<open>_running\<close> keys, the started workers and the exception of the tick, if any.
\<close>

definition scheduler_tick ::
  "limits \<Rightarrow> bool \<Rightarrow> (int \<Rightarrow> db \<Rightarrow> db) \<Rightarrow> (int \<Rightarrow> pystr) \<Rightarrow> time \<Rightarrow> (int \<times> bool) list \<Rightarrow> db
    \<Rightarrow> (int list \<times> (int \<times> pystr) list \<times> pyexc option) \<times> db" where
  "scheduler_tick lim can_claim env token now workers db =
     (let busy = map fst (filter (\<lambda>w. \<not> snd w) workers) in
      case recover_expired now db of
        (Inl e, db1) \<Rightarrow> ((busy, [], Some e), db1)
      | (Inr _, db1) \<Rightarrow>
          if \<not> can_claim then ((busy, [], None), db1)
          else
            (let ((started, exn), db2) =
               claim_loop lim env token now (running_count db1) (\<lambda>u. user_running_count u db1)
                 (queued_tasks db1) busy 0 (\<lambda>_. 0) db1
             in ((busy @ map fst started, started, exn), db2)))"

section \<open>Recovery, row by row\<close>

definition recovered_row :: "time \<Rightarrow> task \<Rightarrow> task" where
  "recovered_row now t =
     apply_updates (recovery_updates now t) (t\<lparr>tk_status := recovery_target t\<rparr>)"

lemma interrupt_runs_frame [simp]:
  "users (interrupt_runs now i db) = users db"
  "repositories (interrupt_runs now i db) = repositories db"
  "issues (interrupt_runs now i db) = issues db" "tasks (interrupt_runs now i db) = tasks db"
  "transitions (interrupt_runs now i db) = transitions db"
  "reviews (interrupt_runs now i db) = reviews db" "feedback (interrupt_runs now i db) = feedback db"
  "get_task j (interrupt_runs now i db) = get_task j db"
  "map ar_id (agent_runs (interrupt_runs now i db)) = map ar_id (agent_runs db)"
  by (simp_all add: interrupt_runs_def get_task_def map_sql_update)

lemma store_ok_interrupt [simp]: "store_ok (interrupt_runs now i db) = store_ok db"
  by (simp add: store_ok_def keys_ok_def)

lemma recovery_target_legal:
  "needs_recovery now t \<Longrightarrow> terminal (recovery_target t) \<or> \<not> terminal (tk_status t)"
  by (auto simp: needs_recovery_def recovery_target_def running_iff terminal_iff)

lemma cas_own_row:
  assumes "store_ok db" "get_task (tk_id t) db = Some t" "terminal new \<or> \<not> terminal (tk_status t)"
  shows "cas_task_status (tk_id t) [tk_status t] new us (tk_claim_token t) a db
    = (Inr True, move_task t new us a db)"
  using assms active_index_ok_move [OF assms]
  by (simp add: cas_task_status_eq claim_matches_def)

lemma recover_each_result:
  assumes "store_ok db" "distinct (map tk_id ts)"
    "\<forall>t \<in> set ts. get_task (tk_id t) db = Some t \<and> needs_recovery now t"
  shows "\<exists>db'. recover_each now ts n db = (Inr (n + int (length ts)), db') \<and> store_ok db'
    \<and> (\<forall>i. get_task i db' = (case find (\<lambda>t. tk_id t = i) ts of
          Some t \<Rightarrow> Some (recovered_row now t) | None \<Rightarrow> get_task i db))"
  using assms
proof (induction ts arbitrary: n db)
  case (Cons t ts)
  let ?db = "interrupt_runs now (tk_id t) (move_task t (recovery_target t) (recovery_updates now t)
      ActorRecovery db)"
  have t: "get_task (tk_id t) db = Some t" "needs_recovery now t" using Cons.prems(3) by auto
  have legal: "terminal (recovery_target t) \<or> \<not> terminal (tk_status t)"
    using t(2) by (rule recovery_target_legal)
  have step: "recover_each now (t # ts) n db = recover_each now ts (n + 1) ?db"
    using cas_own_row [OF Cons.prems(1) t(1) legal] by simp
  have ok: "store_ok ?db"
    using store_ok_move [OF Cons.prems(1) active_index_ok_move [OF Cons.prems(1) t(1) legal]] by simp
  have get: "get_task i (move_task t (recovery_target t) (recovery_updates now t) ActorRecovery db)
      = (if i = tk_id t then Some (recovered_row now t) else get_task i db)" for i
    using t(1) by (simp add: get_task_move recovered_row_def)
  have "tk_id u \<noteq> tk_id t" if "u \<in> set ts" for u
    using Cons.prems(2) that by (auto simp: image_iff)
  then have "\<forall>u \<in> set ts. get_task (tk_id u) ?db = Some u \<and> needs_recovery now u"
    using Cons.prems(3) by (simp add: get)
  from Cons.IH [OF ok _ this, of "n + 1"] Cons.prems(2)
  obtain db' where db': "recover_each now ts (n + 1) ?db = (Inr (n + 1 + int (length ts)), db')"
    "store_ok db'"
    "\<forall>i. get_task i db' = (case find (\<lambda>t. tk_id t = i) ts of
          Some t \<Rightarrow> Some (recovered_row now t) | None \<Rightarrow> get_task i ?db)" by auto
  have "find (\<lambda>u. tk_id u = tk_id t) ts = None"
    using \<open>\<And>u. u \<in> set ts \<Longrightarrow> tk_id u \<noteq> tk_id t\<close> by (simp add: find_None_iff)
  then have "\<forall>i. get_task i db' = (case find (\<lambda>u. tk_id u = i) (t # ts) of
          Some u \<Rightarrow> Some (recovered_row now u) | None \<Rightarrow> get_task i db)"
    using db'(3) by (auto simp: get split: option.split)
  with db'(1,2) step show ?case by (auto simp: algebra_simps)
qed simp

lemma find_filter_key:
  assumes "distinct (map key rows)"
  shows "find (\<lambda>r. key r = i) (filter p rows) =
    (case find (\<lambda>r. key r = i) rows of Some r \<Rightarrow> if p r then Some r else None | None \<Rightarrow> None)"
  using assms
proof (induction rows)
  case (Cons r rows)
  have "find (\<lambda>s. key s = key r) rows = None"
    using Cons.prems by (auto simp: find_None_iff image_iff)
  with Cons show ?case by auto
qed simp

lemma recover_expired_rows:
  assumes "store_ok db"
  shows "\<exists>db'. recover_expired now db = (Inr (int (sql_count (needs_recovery now) (tasks db))), db')
    \<and> store_ok db'
    \<and> (\<forall>i. get_task i db' =
         map_option (\<lambda>t. if needs_recovery now t then recovered_row now t else t) (get_task i db))"
proof -
  let ?ts = "filter (needs_recovery now) (tasks db)"
  have d: "distinct (map tk_id (tasks db))" using assms by (rule store_okD)
  then have "distinct (map tk_id ?ts)" by (simp add: distinct_map_filter)
  moreover have "\<forall>t \<in> set ?ts. get_task (tk_id t) db = Some t \<and> needs_recovery now t"
    using d by (auto simp: get_task_iff)
  ultimately obtain db' where db': "recover_each now ?ts 0 db = (Inr (0 + int (length ?ts)), db')"
    "store_ok db'" "\<forall>i. get_task i db' = (case find (\<lambda>t. tk_id t = i) ?ts of
          Some t \<Rightarrow> Some (recovered_row now t) | None \<Rightarrow> get_task i db)"
    using recover_each_result [OF assms, of ?ts now 0] by blast
  have "get_task i db' =
      map_option (\<lambda>t. if needs_recovery now t then recovered_row now t else t) (get_task i db)" for i
    using db'(3) find_filter_key [OF d, of i "needs_recovery now"]
    by (auto simp: get_task_def split: option.splits)
  with db'(1,2) show ?thesis by (simp add: recover_expired_def sql_count_def)
qed

text \<open>
  C5: recovery resolves every interrupted task and touches no other.  It never raises; it recovers
  exactly the cancelling tasks and the running tasks whose lease is missing or over.  Those lose their
  claim and become cancelled, or queued for reconciliation when a publication with workspace,
  branch and commit was under way, or wait for manual intervention.  All other tasks, live leases
  among them, keep their rows; afterwards nothing is left to recover.
\<close>

theorem recover_expired_resolves:
  assumes "store_ok db" and "recover_expired now db = (r, db')"
  shows "r = Inr (int (sql_count (needs_recovery now) (tasks db)))
    \<and> (\<forall>i t. get_task i db = Some t \<longrightarrow> (\<exists>t'. get_task i db' = Some t' \<and>
        (if needs_recovery now t
         then tk_claim_token t' = None \<and> tk_status t' =
           (if tk_status t = Cancelling then Cancelled
            else if reconcile_publication t then Queued else ManualIntervention)
           \<and> (tk_status t' = Queued \<longrightarrow> tk_failure_code t' = Some PublishExisting)
         else t' = t)))
    \<and> (\<forall>i t'. get_task i db' = Some t' \<longrightarrow> \<not> needs_recovery now t')"
proof -
  have get: "r = Inr (int (sql_count (needs_recovery now) (tasks db)))"
    "\<And>i. get_task i db' =
         map_option (\<lambda>t. if needs_recovery now t then recovered_row now t else t) (get_task i db)"
    using recover_expired_rows [OF assms(1), of now] assms(2) by auto
  have rec: "tk_claim_token (recovered_row now t) = None"
    "tk_status (recovered_row now t) = recovery_target t"
    "recovery_target t = Queued \<Longrightarrow> tk_failure_code (recovered_row now t) = Some PublishExisting" for t
    by (auto simp: recovered_row_def recovery_updates_def recovery_target_def Let_def split: if_splits)
  have clean: "\<not> needs_recovery now (recovered_row now t)" for t
    by (auto simp: needs_recovery_def rec recovery_target_def running_iff)
  show ?thesis
    using clean by (auto simp: get rec recovery_target_def split: if_splits)
qed

theorem recover_expired_resolves_witness:
  "fst (recover_expired 5 (sample_db Cancelling (Some [7]))) = Inr 1 \<and>
   (\<exists>t'. get_task 1 (snd (recover_expired 5 (sample_db Cancelling (Some [7])))) = Some t'
      \<and> tk_status t' = Cancelled)"
proof -
  let ?db = "sample_db Cancelling (Some [7])"
  have "store_ok ?db" by (simp add: sample_simps)
  from recover_expired_resolves [OF this, of 5 "fst (recover_expired 5 ?db)" "snd (recover_expired 5 ?db)"]
  have "fst (recover_expired 5 ?db) = Inr (int (sql_count (needs_recovery 5) (tasks ?db)))"
    "\<forall>i t. get_task i ?db = Some t \<longrightarrow> (\<exists>t'. get_task i (snd (recover_expired 5 ?db)) = Some t' \<and>
        (if needs_recovery 5 t
         then tk_claim_token t' = None \<and> tk_status t' =
           (if tk_status t = Cancelling then Cancelled
            else if reconcile_publication t then Queued else ManualIntervention)
           \<and> (tk_status t' = Queued \<longrightarrow> tk_failure_code t' = Some PublishExisting)
         else t' = t))" by auto
  moreover have "get_task 1 ?db = Some (hd (tasks ?db))"
    "needs_recovery 5 (hd (tasks ?db))" "tk_status (hd (tasks ?db)) = Cancelling"
    "sql_count (needs_recovery 5) (tasks ?db) = 1"
    by (simp_all add: sample_simps needs_recovery_def)
  ultimately show ?thesis by fastforce
qed

section \<open>The tick\<close>

text \<open>Facts about the running counts that the claim loop relies on.\<close>

lemma running_counts_nonneg [simp]: "0 \<le> running_count db" "0 \<le> user_running_count u db"
  by (simp_all add: running_count_def user_running_count_def)

lemma user_running_claim:
  assumes "store_ok db" "get_task i db = Some t" "tk_status t = Queued"
  shows "user_running_count u (claim_task t k ls now db)
    = user_running_count u db + (if u = tk_created_by t then 1 else 0)"
proof (cases "u = tk_created_by t")
  case True
  then show ?thesis using running_count_claim(2) [OF assms] by simp
next
  case False
  have i: "tk_id t = i" using assms(2) by (auto dest: get_task_SomeD)
  have "r = t" if "r \<in> set (tasks db)" "tk_id r = tk_id t" for r
    using that assms(1,2) i by (metis get_task_iff option.inject store_okD(1))
  then have same: "tk_created_by r = tk_created_by t" if "r \<in> set (tasks db)" "tk_id r = tk_id t" for r
    using that by blast
  have "sql_count (\<lambda>r. running (tk_status r) \<and> tk_created_by r = u)
      (sql_update (\<lambda>r. tk_id r = tk_id t) (claim_row k ls now) rows)
      = sql_count (\<lambda>r. running (tk_status r) \<and> tk_created_by r = u) rows"
    if "set rows \<subseteq> set (tasks db)" for rows
    using that False by (induction rows) (auto dest: same)
  from this [of "tasks db"] False show ?thesis by (simp add: user_running_count_def)
qed

lemma store_ok_claim:
  assumes "store_ok db" "get_task i db = Some t" "tk_status t = Queued"
  shows "store_ok (claim_task t k ls now db)"
proof -
  have i: "tk_id t = i" using assms(2) by (auto dest: get_task_SomeD)
  have "\<not> terminal (tk_status r)" if "r \<in> set (tasks db)" "tk_id r = tk_id t" for r
    using that assms i by (metis get_task_iff option.inject store_okD(1) terminal_iff task_status.distinct(15,17,19,21,23,25))
  then show ?thesis
    using assms(1) by (auto simp: store_ok_def keys_ok_def intro!: active_index_ok_replace)
qed

lemma get_task_claim:
  "get_task j (claim_task t k ls now db)
     = (if j = tk_id t then map_option (claim_row k ls now) (get_task j db) else get_task j db)"
  unfolding claim_task_def by (simp add: get_task_replace)

text \<open>
  What a run of the claim loop without interference achieves, as one predicate so that its induction
  has a readable step.
\<close>

definition loop_result ::
  "limits \<Rightarrow> (int \<Rightarrow> pystr) \<Rightarrow> time \<Rightarrow> (int \<times> int) list \<Rightarrow> int list \<Rightarrow> db \<Rightarrow> (int \<times> pystr) list \<Rightarrow> db \<Rightarrow> bool"
where
  "loop_result lim token now queue busy db started db' \<longleftrightarrow>
     store_ok db' \<and> subseq (map fst started) (map fst queue)
     \<and> running_count db' = running_count db + int (length started)
     \<and> (\<forall>u. user_running_count u db \<le> user_running_count u db')
     \<and> (\<forall>(i, k) \<in> set started. k = token i \<and> i \<notin> set busy \<and>
          get_task i db' = map_option (claim_row k CLAIM_LEASE_SECONDS now) (get_task i db))
     \<and> (\<forall>i. i \<notin> fst ` set started \<longrightarrow> get_task i db' = get_task i db)
     \<and> (\<forall>(i, u) \<in> set queue. i \<in> set busy \<or> i \<in> fst ` set started
          \<or> global_limit lim \<le> running_count db' \<or> per_user_limit lim \<le> user_running_count u db')"

definition loop_ready :: "int \<Rightarrow> (int \<Rightarrow> int) \<Rightarrow> (int \<times> int) list \<Rightarrow> int \<Rightarrow> (int \<Rightarrow> int) \<Rightarrow> db \<Rightarrow> bool" where
  "loop_ready base_global base_user queue reserved_global reserved_user db \<longleftrightarrow>
     store_ok db \<and> base_global + reserved_global = running_count db
     \<and> (\<forall>u. base_user u + reserved_user u = user_running_count u db)
     \<and> distinct (map fst queue)
     \<and> (\<forall>(i, u) \<in> set queue. \<exists>t. get_task i db = Some t \<and> tk_status t = Queued \<and> tk_created_by t = u)"

lemma loop_result_skip:
  assumes "loop_result lim token now queue busy db started db'" "i \<notin> fst ` set queue"
    and "i \<in> set busy \<or> global_limit lim \<le> running_count db \<or> per_user_limit lim \<le> user_running_count u db"
  shows "loop_result lim token now ((i, u) # queue) busy db started db'"
proof -
  have "running_count db \<le> running_count db'" "user_running_count u db \<le> user_running_count u db'"
    using assms(1) by (simp_all add: loop_result_def)
  with assms(3) have "i \<in> set busy \<or> global_limit lim \<le> running_count db'
      \<or> per_user_limit lim \<le> user_running_count u db'" by linarith
  with assms(1) show ?thesis unfolding loop_result_def by (auto simp: list_emb_Cons)
qed

lemma loop_result_claim:
  assumes "loop_result lim token now queue (i # busy) (claim_task t (token i) CLAIM_LEASE_SECONDS now db) started db'"
    and t: "store_ok db" "get_task i db = Some t" "tk_status t = Queued" "i \<notin> set busy" "i \<notin> fst ` set queue"
  shows "loop_result lim token now ((i, u) # queue) busy db ((i, token i) # started) db'"
proof -
  let ?db = "claim_task t (token i) CLAIM_LEASE_SECONDS now db"
  have i: "tk_id t = i" using t(2) by (auto dest: get_task_SomeD)
  have R: "store_ok db'" "subseq (map fst started) (map fst queue)"
    "running_count db' = running_count ?db + int (length started)"
    "\<And>u. user_running_count u ?db \<le> user_running_count u db'"
    "\<And>j. j \<notin> fst ` set started \<Longrightarrow> get_task j db' = get_task j ?db"
    using assms(1) by (simp_all add: loop_result_def)
  have R5: "k = token j \<and> j \<notin> set (i # busy) \<and>
          get_task j db' = map_option (claim_row k CLAIM_LEASE_SECONDS now) (get_task j ?db)"
    if "(j, k) \<in> set started" for j k
  proof -
    have "\<forall>(j, k) \<in> set started. k = token j \<and> j \<notin> set (i # busy) \<and>
          get_task j db' = map_option (claim_row k CLAIM_LEASE_SECONDS now) (get_task j ?db)"
      using assms(1) unfolding loop_result_def by (elim conjE)
    from bspec [OF this that] show ?thesis by simp
  qed
  have R7: "j \<in> set (i # busy) \<or> j \<in> fst ` set started
          \<or> global_limit lim \<le> running_count db' \<or> per_user_limit lim \<le> user_running_count v db'"
    if "(j, v) \<in> set queue" for j v
  proof -
    have "\<forall>(j, v) \<in> set queue. j \<in> set (i # busy) \<or> j \<in> fst ` set started
          \<or> global_limit lim \<le> running_count db' \<or> per_user_limit lim \<le> user_running_count v db'"
      using assms(1) unfolding loop_result_def by (elim conjE)
    from bspec [OF this that] show ?thesis by simp
  qed
  have notin: "i \<notin> fst ` set started" using R5 by force
  have "user_running_count v db \<le> user_running_count v db'" for v
    using R(4) [of v] user_running_claim [OF t(1-3), of v] by (simp split: if_splits)
  moreover have "running_count db' = running_count db + int (length ((i, token i) # started))"
    using R(3) running_count_claim(1) [OF t(1-3)] by simp
  moreover have "get_task i db' = map_option (claim_row (token i) CLAIM_LEASE_SECONDS now) (get_task i db)"
    using R(5) [OF notin] i by (simp add: get_task_claim)
  moreover have "get_task j db' = map_option (claim_row k CLAIM_LEASE_SECONDS now) (get_task j db)
      \<and> k = token j \<and> j \<notin> set busy" if "(j, k) \<in> set started" for j k
    using R5 [OF that] i by (auto simp: get_task_claim)
  moreover have "get_task j db' = get_task j db" if "j \<notin> fst ` set ((i, token i) # started)" for j
    using R(5) [of j] that i by (auto simp: get_task_claim)
  moreover have "\<forall>(j, v) \<in> set ((i, u) # queue). j \<in> set busy \<or> j \<in> fst ` set ((i, token i) # started)
      \<or> global_limit lim \<le> running_count db' \<or> per_user_limit lim \<le> user_running_count v db'"
  proof
    fix x
    assume x: "x \<in> set ((i, u) # queue)"
    obtain j v where jv: "x = (j, v)" by (cases x)
    have "j \<in> set busy \<or> j \<in> fst ` set ((i, token i) # started)
      \<or> global_limit lim \<le> running_count db' \<or> per_user_limit lim \<le> user_running_count v db'"
    proof (cases "j = i")
      case False
      with x jv have "(j, v) \<in> set queue" by simp
      from R7 [OF this] False show ?thesis by auto
    qed simp
    then show "case x of (j, v) \<Rightarrow> j \<in> set busy \<or> j \<in> fst ` set ((i, token i) # started)
      \<or> global_limit lim \<le> running_count db' \<or> per_user_limit lim \<le> user_running_count v db'"
      unfolding jv by simp
  qed
  moreover have "\<forall>(j, k) \<in> set ((i, token i) # started). k = token j \<and> j \<notin> set busy \<and>
      get_task j db' = map_option (claim_row k CLAIM_LEASE_SECONDS now) (get_task j db)"
    using calculation(3,4) t(4) by auto
  ultimately show ?thesis
    using R(1,2) unfolding loop_result_def by simp
qed

lemma claim_loop_result:
  assumes "loop_ready bg bu queue rg ru db" "0 \<le> global_limit lim" "0 \<le> per_user_limit lim"
  shows "\<exists>started db'. claim_loop lim (\<lambda>_ d. d) token now bg bu queue busy rg ru db
      = ((started, None), db') \<and> loop_result lim token now queue busy db started db'"
  using assms(1)
proof (induction queue arbitrary: busy rg ru db)
  case Nil
  then show ?case by (auto simp: loop_ready_def loop_result_def)
next
  case (Cons iu queue)
  obtain i u where iu: "iu = (i, u)" by (cases iu)
  have ok: "store_ok db" and bg: "bg + rg = running_count db"
    and bu: "bu v + ru v = user_running_count v db" for v
    using Cons.prems by (auto simp: loop_ready_def)
  obtain t where t: "get_task i db = Some t" "tk_status t = Queued" "tk_created_by t = u"
    using Cons.prems by (auto simp: loop_ready_def iu)
  have i: "tk_id t = i" using t(1) by (auto dest: get_task_SomeD)
  have fresh: "i \<notin> fst ` set queue" using Cons.prems by (simp add: loop_ready_def iu)
  have ready: "loop_ready bg bu queue rg ru db" using Cons.prems by (simp add: loop_ready_def iu)
  have admit: "can_start_task (bg + rg) (bu u + ru u) (global_limit lim) (per_user_limit lim)
      = Inr (running_count db < global_limit lim \<and> user_running_count u db < per_user_limit lim)"
    using assms(2,3) by (simp add: can_start_task_def bg bu not_less)
  consider (skip) "i \<in> set busy \<or> \<not> (running_count db < global_limit lim
      \<and> user_running_count u db < per_user_limit lim)"
    | (claim) "i \<notin> set busy" "running_count db < global_limit lim" "user_running_count u db < per_user_limit lim"
    by blast
  then show ?case
  proof cases
    case skip
    obtain started db' where "claim_loop lim (\<lambda>_ d. d) token now bg bu queue busy rg ru db
        = ((started, None), db')" "loop_result lim token now queue busy db started db'"
      using Cons.IH [OF ready] by blast
    moreover have "i \<in> set busy \<or> global_limit lim \<le> running_count db
        \<or> per_user_limit lim \<le> user_running_count u db"
      using skip by (auto simp: not_less)
    moreover have "claim_loop lim (\<lambda>_ d. d) token now bg bu (iu # queue) busy rg ru db
        = claim_loop lim (\<lambda>_ d. d) token now bg bu queue busy rg ru db"
      using skip by (auto simp: iu admit)
    ultimately show ?thesis using loop_result_skip [OF _ fresh] iu by metis
  next
    case claim
    let ?db = "claim_task t (token i) CLAIM_LEASE_SECONDS now db"
    have step: "claim_queued_task i (global_limit lim) (per_user_limit lim) CLAIM_LEASE_SECONDS
        (token i) now db = (Inr (Some (token i)), ?db)"
      using claim t by (simp add: claim_queued_task_eq [OF ok])
    have "\<forall>(j, v) \<in> set queue. \<exists>r. get_task j ?db = Some r \<and> tk_status r = Queued \<and> tk_created_by r = v"
      using Cons.prems fresh i by (force simp: loop_ready_def iu get_task_claim)
    then have "loop_ready bg bu queue (rg + 1) (ru(u := ru u + 1)) ?db"
      using ready bg bu store_ok_claim [OF ok t(1,2)] running_count_claim(1) [OF ok t(1,2)]
        user_running_claim [OF ok t(1,2)] t(3)
      by (simp add: loop_ready_def algebra_simps)
    from Cons.IH [OF this, of "i # busy"]
    obtain started db' where "claim_loop lim (\<lambda>_ d. d) token now bg bu queue (i # busy) (rg + 1)
        (ru(u := ru u + 1)) ?db = ((started, None), db')"
      "loop_result lim token now queue (i # busy) ?db started db'" by blast
    moreover have "claim_loop lim (\<lambda>_ d. d) token now bg bu (iu # queue) busy rg ru db
        = (((i, token i) # started, None), db')"
      using claim step calculation(1) by (simp add: iu admit)
    ultimately show ?thesis
      using loop_result_claim [OF _ ok t(1,2) claim(1) fresh] iu by metis
  qed
qed

lemma queued_tasks_facts:
  assumes "distinct (map tk_id (tasks db))"
  shows "distinct (map fst (queued_tasks db))"
    and "(i, u) \<in> set (queued_tasks db) \<longleftrightarrow>
      (\<exists>t. get_task i db = Some t \<and> tk_status t = Queued \<and> tk_created_by t = u \<and> user_active u db)"
proof -
  let ?rows = "filter (\<lambda>t. tk_status t = Queued \<and> user_active (tk_created_by t) db) (tasks db)"
  have "distinct (map tk_id ?rows)" using assms by (simp add: distinct_map_filter)
  then have "inj_on tk_id (set ?rows)" "distinct ?rows" by (simp_all add: distinct_map)
  then show "distinct (map fst (queued_tasks db))"
    by (simp add: queued_tasks_def distinct_map o_def)
  show "(i, u) \<in> set (queued_tasks db) \<longleftrightarrow>
      (\<exists>t. get_task i db = Some t \<and> tk_status t = Queued \<and> tk_created_by t = u \<and> user_active u db)"
    by (auto simp: queued_tasks_def get_task_iff [OF assms])
qed


definition tick_db :: db where
  "tick_db = empty_db\<lparr>users := [\<lparr>us_id = 1, us_role = RoleUser, us_is_active = True, us_username = []\<rparr>],
     tasks := [(new_task 1 1 1 [] 0), (new_task 2 2 1 [] 0)\<lparr>tk_priority := 3\<rparr>]\<rparr>"


end
