(* ===== verification/Task_Lifecycle.thy ===== *)
theory Task_Lifecycle
  imports Task_Scheduler
begin

text \<open>
  The lifecycle of a task across all operations.  \<open>next_states\<close> is the abstract automaton: the status
  changes the whole program may make.  \<open>db_wf\<close> is the invariant of the database: keys, who may hold a claim,
  and that an issue has at most one live task.  \<open>task_effect\<close> lists the eight ways in which a transaction may
  change what the invariant talks about; each operation of the other theories is shown to be a sequence of
  effects, and every effect preserves \<open>db_wf\<close>.
\<close>

section \<open>The automaton\<close>

fun next_states :: "task_status \<Rightarrow> task_status list" where
  "next_states Queued = [Preparing, Cancelled]"
| "next_states Preparing =
     [DeveloperWorking, DeveloperRevising, Sealing, Publishing, Failed, ManualIntervention, Cancelling]"
| "next_states DeveloperWorking = [Reviewing, Sealing, Failed, ManualIntervention, Cancelling]"
| "next_states Reviewing =
     [Reviewing, DeveloperRevising, Sealing, Failed, ManualIntervention, Cancelling]"
| "next_states DeveloperRevising = [Sealing, Failed, ManualIntervention, Cancelling]"
| "next_states Sealing = [Publishing, Failed, ManualIntervention, Cancelling]"
| "next_states Publishing = [AwaitingHumanReview, Queued, Failed, ManualIntervention, Cancelling]"
| "next_states Cancelling = [Cancelled]"
| "next_states AwaitingHumanReview = [AwaitingHumanReview, Completed, Closed, Queued, Dismissed]"
| "next_states Failed = [Queued, Dismissed]"
| "next_states ManualIntervention = [Queued, Dismissed]"
| "next_states Cancelled = [Dismissed]"
| "next_states Completed = []"
| "next_states Closed = []"
| "next_states Dismissed = []"

definition edge :: "task_status \<Rightarrow> task_status \<Rightarrow> bool" where
  "edge old new = (new \<in> set (next_states old))"

abbreviation claimed :: "task_status \<Rightarrow> bool" where
  "claimed s \<equiv> s \<in> set CLAIMED_STATES"

lemma claimed_iff: "claimed s \<longleftrightarrow> running s \<or> s = Cancelling"
  by (auto simp: CLAIMED_STATES_def status_sets)

lemma running_claimed: "running s \<Longrightarrow> claimed s"
  by (simp add: claimed_iff)

lemma terminal_not_claimed: "terminal s \<Longrightarrow> \<not> claimed s"
  by (auto simp: CLAIMED_STATES_def status_sets)

lemma not_claimed [simp]:
  "\<not> claimed Cancelled" "\<not> claimed AwaitingHumanReview" "\<not> claimed Failed" "\<not> claimed ManualIntervention"
  "\<not> claimed Queued" "\<not> claimed Completed" "\<not> claimed Closed" "\<not> claimed Dismissed" "claimed Cancelling"
  by (simp_all add: CLAIMED_STATES_def)

lemma running_edges:
  "running s \<Longrightarrow> edge s Failed" "running s \<Longrightarrow> edge s ManualIntervention" "running s \<Longrightarrow> edge s Cancelling"
  by (cases s; simp add: status_sets edge_def)+

section \<open>Live tasks and the invariant\<close>

text \<open>
  A task is dead when nothing can bring it back: it ended, and it is not a failed or blocked task with a
  commit, which may still be queued for publication.
\<close>

definition dead :: "task \<Rightarrow> bool" where
  "dead t = (terminal (tk_status t) \<and>
     \<not> (tk_status t \<in> {Failed, ManualIntervention} \<and> truthy (tk_commit_sha t)))"

text \<open>What the invariant sees of the issues: key and triage state.\<close>

definition triage_view :: "db \<Rightarrow> (int \<times> triage_state) list" where
  "triage_view db = map (\<lambda>r. (is_id r, is_triage_state r)) (issues db)"

definition tokens_ok :: "task list \<Rightarrow> bool" where
  "tokens_ok ts = (\<forall>t \<in> set ts. tk_claim_token t \<noteq> None \<longleftrightarrow> claimed (tk_status t))"

definition issues_exist :: "(int \<times> triage_state) list \<Rightarrow> task list \<Rightarrow> bool" where
  "issues_exist view ts = (\<forall>t \<in> set ts. tk_issue_id t \<in> fst ` set view)"

definition one_live :: "task list \<Rightarrow> bool" where
  "one_live ts = (\<forall>t \<in> set ts. \<forall>u \<in> set ts. \<not> dead t \<longrightarrow> \<not> dead u \<longrightarrow>
     tk_issue_id t = tk_issue_id u \<longrightarrow> tk_id t = tk_id u)"

definition live_dispatched :: "(int \<times> triage_state) list \<Rightarrow> task list \<Rightarrow> bool" where
  "live_dispatched view ts = (\<forall>t \<in> set ts. \<not> dead t \<longrightarrow>
     (\<forall>s. (tk_issue_id t, s) \<in> set view \<longrightarrow> s = Dispatched))"

definition db_wf :: "db \<Rightarrow> bool" where
  "db_wf db \<longleftrightarrow> keys_ok db \<and> tokens_ok (tasks db) \<and> issues_exist (triage_view db) (tasks db)
     \<and> one_live (tasks db) \<and> live_dispatched (triage_view db) (tasks db)"

lemma dead_terminal: "dead t \<Longrightarrow> terminal (tk_status t)"
  by (simp add: dead_def)

lemma db_wfD:
  assumes "db_wf db"
  shows "keys_ok db" "tokens_ok (tasks db)" "issues_exist (triage_view db) (tasks db)"
    "one_live (tasks db)" "live_dispatched (triage_view db) (tasks db)" "distinct (map tk_id (tasks db))"
  using assms by (simp_all add: db_wf_def keys_ok_def)

lemma one_liveD:
  assumes "one_live ts" "t \<in> set ts" "u \<in> set ts" "\<not> dead t" "\<not> dead u" "tk_issue_id t = tk_issue_id u"
  shows "tk_id t = tk_id u"
  using assms(1) [unfolded one_live_def, rule_format, OF assms(2-6)] .

lemma db_wf_store_ok:
  assumes "db_wf db"
  shows "store_ok db"
proof -
  have "active_index_ok (tasks db)"
    unfolding active_index_ok_iff [OF db_wfD(6) [OF assms]]
    by (intro ballI impI one_liveD [OF db_wfD(4) [OF assms]]) (auto dest: dead_terminal)
  then show ?thesis by (simp add: store_ok_def db_wfD(1) [OF assms])
qed

lemma wf_token_iff:
  "db_wf db \<Longrightarrow> get_task i db = Some t \<Longrightarrow> tk_claim_token t \<noteq> None \<longleftrightarrow> claimed (tk_status t)"
  by (drule get_task_SomeD) (simp add: db_wf_def tokens_ok_def)

lemma wf_token_claimed:
  assumes "db_wf db" "get_task i db = Some t" "tk_claim_token t = Some k"
  shows "claimed (tk_status t)"
  using wf_token_iff [OF assms(1,2)] assms(3) by simp

lemma wf_token_None:
  assumes "db_wf db" "get_task i db = Some t" "\<not> claimed (tk_status t)"
  shows "tk_claim_token t = None"
  using wf_token_iff [OF assms(1,2)] assms(3) by simp

lemma wf_task_unique:
  assumes "db_wf db" "get_task i db = Some t" "u \<in> set (tasks db)" "tk_id u = i"
  shows "u = t"
proof -
  have "get_task i db = Some u"
    unfolding get_task_iff [OF db_wfD(6) [OF assms(1)]] using assms(3,4) by blast
  with assms(2) show ?thesis by simp
qed

section \<open>Effects\<close>

definition same_row :: "task \<Rightarrow> task \<Rightarrow> bool" where
  "same_row t u \<longleftrightarrow> tk_id u = tk_id t \<and> tk_issue_id u = tk_issue_id t \<and> tk_created_by u = tk_created_by t"

text \<open>The holder of a claim across a status change: taken from the queue, kept while running, released else.\<close>

definition token_step :: "task \<Rightarrow> task \<Rightarrow> bool" where
  "token_step t u \<longleftrightarrow>
     (if claimed (tk_status u)
      then (if tk_status t = Queued then tk_claim_token u \<noteq> None
            else tk_claim_token u = tk_claim_token t)
      else tk_claim_token u = None)"

definition moved :: "task \<Rightarrow> task \<Rightarrow> bool" where
  "moved t u \<longleftrightarrow> same_row t u \<and> edge (tk_status t) (tk_status u) \<and> token_step t u
     \<and> tk_commit_sha u = tk_commit_sha t \<and> (terminal (tk_status t) \<longrightarrow> terminal (tk_status u) \<or> \<not> dead t)"

definition tweaked :: "task \<Rightarrow> task \<Rightarrow> bool" where
  "tweaked t u \<longleftrightarrow> same_row t u \<and> tk_status u = tk_status t \<and> tk_claim_token u = tk_claim_token t
     \<and> (terminal (tk_status t) \<longrightarrow> tk_commit_sha u = tk_commit_sha t)"

inductive task_effect :: "db \<Rightarrow> db \<Rightarrow> bool" where
  other: "tasks db' = tasks db \<Longrightarrow> transitions db' = transitions db \<Longrightarrow>
      triage_view db' = triage_view db \<Longrightarrow> keys_ok db' \<Longrightarrow> task_effect db db'"
| tweak: "(\<And>t. t \<in> set (tasks db) \<Longrightarrow> p t \<Longrightarrow> tweaked t (f t)) \<Longrightarrow>
      task_effect db (db\<lparr>tasks := sql_update p f (tasks db)\<rparr>)"
| move: "get_task i db = Some t \<Longrightarrow> moved t (f t) \<Longrightarrow>
      task_effect db (log_transition i (tk_status t) (tk_status (f t)) a v (replace_task i f db))"
| release: "get_task i db = Some t \<Longrightarrow> moved t (f t) \<Longrightarrow> \<not> dead t \<Longrightarrow> dead (f t) \<Longrightarrow>
      tasks db' = tasks (replace_task i f db) \<Longrightarrow>
      transitions db' = transitions db @ [\<lparr>tr_task_id = i, tr_from_status = tk_status t,
         tr_to_status = tk_status (f t), tr_actor = a, tr_contract_version = v\<rparr>] \<Longrightarrow>
      triage_view db' = map (\<lambda>(j, s). (j, if j = tk_issue_id t then Discovered else s)) (triage_view db) \<Longrightarrow>
      keys_ok db' \<Longrightarrow> task_effect db db'"
| triage: "tasks db' = tasks db \<Longrightarrow> transitions db' = transitions db \<Longrightarrow>
      triage_view db' = map (\<lambda>(j, s). (j, if j = i then new else s)) (triage_view db) \<Longrightarrow>
      \<forall>s. (i, s) \<in> set (triage_view db) \<longrightarrow> s \<noteq> Dispatched \<Longrightarrow> keys_ok db' \<Longrightarrow> task_effect db db'"
| add_issue: "tasks db' = tasks db \<Longrightarrow> transitions db' = transitions db \<Longrightarrow>
      triage_view db' = triage_view db @ [(i, Discovered)] \<Longrightarrow> keys_ok db' \<Longrightarrow> task_effect db db'"
| dispatch: "tasks db' = tasks db @ [t] \<Longrightarrow> tk_status t = Queued \<Longrightarrow> tk_claim_token t = None \<Longrightarrow>
      tk_id t = fresh_id (map tk_id (tasks db)) \<Longrightarrow>
      (tk_issue_id t, Discovered) \<in> set (triage_view db) \<Longrightarrow>
      triage_view db' = map (\<lambda>(j, s). (j, if j = tk_issue_id t then Dispatched else s)) (triage_view db) \<Longrightarrow>
      transitions db' = transitions db \<Longrightarrow> keys_ok db' \<Longrightarrow> task_effect db db'"

section \<open>Every effect preserves the invariant\<close>

lemma set_replace:
  assumes "db_wf db" "get_task i db = Some t"
  shows "set (tasks (replace_task i f db)) = insert (f t) (set (tasks db) - {t})"
proof -
  have t: "t \<in> set (tasks db)" "tk_id t = i" using assms(2) by (auto dest: get_task_SomeD)
  have "(if tk_id u = i then f u else u) = (if u = t then f t else u)" if "u \<in> set (tasks db)" for u
  proof (cases "tk_id u = i")
    case True
    then have "u = t" by (rule wf_task_unique [OF assms that])
    with t(2) show ?thesis by simp
  next
    case False
    with t(2) have "u \<noteq> t" by blast
    with False show ?thesis by simp
  qed
  then have "(\<lambda>u. if tk_id u = i then f u else u) ` set (tasks db)
      = (\<lambda>u. if u = t then f t else u) ` set (tasks db)" by (rule image_cong [OF refl])
  also have "\<dots> = insert (f t) (set (tasks db) - {t})" using t(1) by auto
  finally show ?thesis by (simp add: set_sql_update)
qed

lemma dead_tweaked: "tweaked t u \<Longrightarrow> dead t \<Longrightarrow> dead u"
  by (auto simp: tweaked_def dead_def)

lemma edge_terminal: "edge s s' \<Longrightarrow> terminal s \<Longrightarrow> s' = Queued \<or> s' = Dismissed"
  by (cases s) (simp_all add: edge_def status_sets)

lemma edge_claimed: "edge s s' \<Longrightarrow> claimed s' \<Longrightarrow> s = Queued \<or> claimed s"
  by (cases s) (auto simp: edge_def CLAIMED_STATES_def)

lemma moved_dead:
  assumes "moved t u" "dead t"
  shows "dead u"
proof -
  have t: "terminal (tk_status t)" using assms(2) by (rule dead_terminal)
  then have "terminal (tk_status u)" using assms by (simp add: moved_def)
  moreover have "tk_status u = Queued \<or> tk_status u = Dismissed"
    using edge_terminal [OF _ t] assms(1) by (simp add: moved_def)
  ultimately show ?thesis by (auto simp: dead_def status_sets)
qed

lemma moved_token:
  assumes "moved t u" "tk_claim_token t \<noteq> None \<longleftrightarrow> claimed (tk_status t)"
  shows "tk_claim_token u \<noteq> None \<longleftrightarrow> claimed (tk_status u)"
proof (cases "claimed (tk_status u)")
  case True
  have "tk_status t = Queued \<or> claimed (tk_status t)"
    using assms(1) True by (intro edge_claimed) (simp_all add: moved_def)
  with True assms show ?thesis by (auto simp: moved_def token_step_def split: if_splits)
qed (use assms in \<open>simp add: moved_def token_step_def\<close>)

lemma keys_ok_cong:
  "map tk_id (tasks db') = map tk_id (tasks db) \<Longrightarrow> issues db' = issues db \<Longrightarrow> users db' = users db \<Longrightarrow>
   repositories db' = repositories db \<Longrightarrow> agent_runs db' = agent_runs db \<Longrightarrow> feedback db' = feedback db \<Longrightarrow>
   keys_ok db \<Longrightarrow> keys_ok db'"
  by (simp add: keys_ok_def)

text \<open>
  The table-level step: a new task list whose rows descend from old ones, without reviving a dead one
  and keeping claims to claimed statuses.
\<close>

definition descends :: "task \<Rightarrow> task \<Rightarrow> bool" where
  "descends t u \<longleftrightarrow> same_row t u \<and> (dead t \<longrightarrow> dead u)
     \<and> ((tk_claim_token t \<noteq> None \<longleftrightarrow> claimed (tk_status t)) \<longrightarrow>
        (tk_claim_token u \<noteq> None \<longleftrightarrow> claimed (tk_status u)))"

lemma descends_refl: "descends t t"
  by (simp add: descends_def same_row_def)

lemma descends_moved:
  assumes "moved t u"
  shows "descends t u"
  unfolding descends_def
  using moved_dead [OF assms] moved_token [OF assms] assms [unfolded moved_def] by blast

lemma descends_tweaked:
  assumes "tweaked t u"
  shows "descends t u"
  using dead_tweaked [OF assms] assms by (simp add: descends_def tweaked_def)

lemma rows_from:
  assumes "\<And>u. u \<in> set ts' \<Longrightarrow> \<exists>t \<in> set ts. descends t u"
  shows "tokens_ok ts \<Longrightarrow> tokens_ok ts'" "issues_exist view ts \<Longrightarrow> issues_exist view ts'"
    "one_live ts \<Longrightarrow> one_live ts'" "live_dispatched view ts \<Longrightarrow> live_dispatched view ts'"
proof -
  show "tokens_ok ts \<Longrightarrow> tokens_ok ts'"
    unfolding tokens_ok_def using assms by (metis descends_def)
  show "issues_exist view ts \<Longrightarrow> issues_exist view ts'"
    unfolding issues_exist_def using assms by (metis descends_def same_row_def)
  show "live_dispatched view ts \<Longrightarrow> live_dispatched view ts'"
    unfolding live_dispatched_def using assms by (metis descends_def same_row_def)
  show "one_live ts'" if live: "one_live ts"
    unfolding one_live_def
  proof (intro ballI impI)
    fix u v assume uv: "u \<in> set ts'" "v \<in> set ts'" "\<not> dead u" "\<not> dead v" "tk_issue_id u = tk_issue_id v"
    obtain t where t: "t \<in> set ts" "same_row t u" "\<not> dead t"
      using assms [OF uv(1)] uv(3) by (auto simp: descends_def)
    obtain w where w: "w \<in> set ts" "same_row w v" "\<not> dead w"
      using assms [OF uv(2)] uv(4) by (auto simp: descends_def)
    have "tk_id t = tk_id w"
      using t w uv(5) by (intro one_liveD [OF live]) (auto simp: same_row_def)
    with t(2) w(2) show "tk_id u = tk_id v" by (simp add: same_row_def)
  qed
qed

lemma keys_ok_view: "keys_ok db \<Longrightarrow> distinct (map fst (triage_view db))"
  by (simp add: keys_ok_def triage_view_def o_def)

lemma keys_ok_tasks:
  "keys_ok db \<Longrightarrow> map tk_id ts = map tk_id (tasks db) \<Longrightarrow> keys_ok (db\<lparr>tasks := ts\<rparr>)"
  by (simp add: keys_ok_def)

lemma wf_tweak:
  assumes "db_wf db" "\<And>t. t \<in> set (tasks db) \<Longrightarrow> p t \<Longrightarrow> tweaked t (f t)"
  shows "db_wf (db\<lparr>tasks := sql_update p f (tasks db)\<rparr>)"
proof -
  let ?ts = "sql_update p f (tasks db)"
  have from_old: "\<exists>t \<in> set (tasks db). descends t u" if u: "u \<in> set ?ts" for u
  proof -
    obtain t where t: "t \<in> set (tasks db)" "u = (if p t then f t else t)"
      using u unfolding set_sql_update by blast
    with assms(2) [of t] have "descends t u"
      by (auto intro: descends_tweaked descends_refl)
    with t(1) show ?thesis by blast
  qed
  have "map tk_id ?ts = map tk_id (tasks db)"
    unfolding sql_update_def using assms(2) by (auto simp: tweaked_def same_row_def)
  then have "keys_ok (db\<lparr>tasks := ?ts\<rparr>)" by (rule keys_ok_tasks [OF db_wfD(1) [OF assms(1)]])
  with rows_from [OF from_old] db_wfD [OF assms(1)] show ?thesis
    by (simp add: db_wf_def triage_view_def)
qed

lemma moved_rows:
  assumes "db_wf db" "get_task i db = Some t" "moved t (f t)"
  shows "tokens_ok (tasks (replace_task i f db))"
    and "issues_exist (triage_view db) (tasks (replace_task i f db))"
    and "one_live (tasks (replace_task i f db))"
    and "live_dispatched (triage_view db) (tasks (replace_task i f db))"
    and "map tk_id (tasks (replace_task i f db)) = map tk_id (tasks db)"
proof -
  have t: "t \<in> set (tasks db)" "tk_id t = i" using assms(2) by (auto dest: get_task_SomeD)
  have from_old: "\<exists>t \<in> set (tasks db). descends t u" if "u \<in> set (tasks (replace_task i f db))" for u
  proof (cases "u = f t")
    case True
    with t(1) descends_moved [OF assms(3)] show ?thesis by blast
  next
    case False
    with that have "u \<in> set (tasks db)" unfolding set_replace [OF assms(1,2)] by blast
    then show ?thesis using descends_refl by blast
  qed
  note rows = rows_from [OF from_old]
  show "tokens_ok (tasks (replace_task i f db))" by (rule rows(1) [OF _ db_wfD(2) [OF assms(1)]])
  show "issues_exist (triage_view db) (tasks (replace_task i f db))"
    by (rule rows(2) [OF _ db_wfD(3) [OF assms(1)]])
  show "one_live (tasks (replace_task i f db))" by (rule rows(3) [OF _ db_wfD(4) [OF assms(1)]])
  show "live_dispatched (triage_view db) (tasks (replace_task i f db))"
    by (rule rows(4) [OF _ db_wfD(5) [OF assms(1)]])
  have "tk_id (if tk_id u = i then f u else u) = tk_id u" if "u \<in> set (tasks db)" for u
  proof (cases "tk_id u = i")
    case True
    then have "u = t" by (rule wf_task_unique [OF assms(1,2) that])
    with assms(3) show ?thesis by (simp add: moved_def same_row_def)
  qed simp
  then show "map tk_id (tasks (replace_task i f db)) = map tk_id (tasks db)"
    by (simp add: sql_update_def)
qed

lemma wf_move:
  assumes "db_wf db" "get_task i db = Some t" "moved t (f t)"
  shows "db_wf (log_transition i s s' a v (replace_task i f db))"
proof -
  have "keys_ok (log_transition i s s' a v (replace_task i f db))"
    by (rule keys_ok_cong [OF _ _ _ _ _ _ db_wfD(1) [OF assms(1)]])
      (use moved_rows(5) [where f = f, OF assms] in simp_all)
  with moved_rows [where f = f, OF assms] show ?thesis by (simp add: db_wf_def triage_view_def)
qed

lemma view_update_fst:
  "fst ` set (map (\<lambda>(j, s). (j, if j = i then new else s)) view) = fst ` set view"
  by (force simp: image_iff)

theorem effect_wf: "task_effect db db' \<Longrightarrow> db_wf db \<Longrightarrow> db_wf db'"
proof (induction rule: task_effect.induct)
  case (other db' db)
  then show ?case by (simp add: db_wf_def)
next
  case (tweak db p f)
  from wf_tweak [OF tweak(2), of p f] tweak(1) show ?case by simp
next
  case (move i db t f a v)
  then show ?case by (intro wf_move)
next
  case (release i db t f db' a v)
  note wf = release(9) and rows = moved_rows [where f = f, OF release(9,1,2)]
  have t: "t \<in> set (tasks db)" using release(1) by (auto dest: get_task_SomeD)
  have "live_dispatched (triage_view db') (tasks db')"
    unfolding live_dispatched_def
  proof (intro ballI impI allI)
    fix u s assume u: "u \<in> set (tasks db')" "\<not> dead u" "(tk_issue_id u, s) \<in> set (triage_view db')"
    have old: "u \<in> set (tasks db)" "u \<noteq> t"
      using u(1,2) release(4) unfolding release(5) set_replace [OF wf release(1)] by auto
    have "tk_issue_id u \<noteq> tk_issue_id t"
    proof
      assume "tk_issue_id u = tk_issue_id t"
      then have "tk_id u = tk_id t"
        by (rule one_liveD [OF db_wfD(4) [OF wf] old(1) t u(2) release(3)])
      then have "u = t" using release(1) wf_task_unique [OF wf release(1) old(1)]
        by (auto dest: get_task_SomeD)
      with old(2) show False by simp
    qed
    then have "(tk_issue_id u, s) \<in> set (triage_view db)"
      using u(3) by (auto simp: release(7))
    with db_wfD(5) [OF wf] old(1) u(2) show "s = Dispatched" unfolding live_dispatched_def by blast
  qed
  moreover have "issues_exist (triage_view db') (tasks db')"
    using rows(2) by (simp add: release(5,7) issues_exist_def view_update_fst image_image case_prod_beta)
  ultimately show ?case using rows release(5,8) by (simp add: db_wf_def)
next
  case (triage db' db i new)
  note wf = triage(6)
  have "live_dispatched (triage_view db') (tasks db')"
    unfolding live_dispatched_def
  proof (intro ballI impI allI)
    fix t s assume t: "t \<in> set (tasks db')" "\<not> dead t" "(tk_issue_id t, s) \<in> set (triage_view db')"
    have old: "t \<in> set (tasks db)" using t(1) triage(1) by simp
    have disp: "s' = Dispatched" if "(tk_issue_id t, s') \<in> set (triage_view db)" for s'
      using db_wfD(5) [OF wf] old t(2) that unfolding live_dispatched_def by blast
    have "tk_issue_id t \<noteq> i"
    proof
      assume i: "tk_issue_id t = i"
      obtain s' where "(tk_issue_id t, s') \<in> set (triage_view db)"
        using db_wfD(3) [OF wf] old unfolding issues_exist_def by force
      with disp triage(4) i show False by blast
    qed
    with t(3) disp show "s = Dispatched" by (auto simp: triage(3))
  qed
  moreover have "issues_exist (triage_view db') (tasks db')"
    using db_wfD(3) [OF wf] by (simp add: triage(1,3) issues_exist_def view_update_fst image_image case_prod_beta)
  ultimately show ?case using triage(1,5) db_wfD [OF wf] by (simp add: db_wf_def)
next
  case (add_issue db' db i)
  note wf = add_issue(5)
  have "distinct (map fst (triage_view db'))" by (rule keys_ok_view [OF add_issue(4)])
  then have new: "i \<notin> fst ` set (triage_view db)" by (simp add: add_issue(3))
  have "live_dispatched (triage_view db') (tasks db')"
    using db_wfD(3,5) [OF wf] new
    by (auto simp: add_issue(1,3) live_dispatched_def issues_exist_def)
  moreover have "issues_exist (triage_view db') (tasks db')"
    using db_wfD(3) [OF wf] by (auto simp: add_issue(1,3) issues_exist_def)
  ultimately show ?case using add_issue(1,4) db_wfD [OF wf] by (simp add: db_wf_def)
next
  case (dispatch db' db t)
  note wf = dispatch(9)
  have free: "tk_issue_id u \<noteq> tk_issue_id t" if "u \<in> set (tasks db)" "\<not> dead u" for u
    using db_wfD(5) [OF wf] that dispatch(5) unfolding live_dispatched_def by force
  have "\<not> claimed (tk_status t)" using dispatch(2) by (simp add: CLAIMED_STATES_def)
  then have "tokens_ok (tasks db')"
    using db_wfD(2) [OF wf] dispatch(3) by (auto simp: dispatch(1) tokens_ok_def)
  moreover have "one_live (tasks db')"
    unfolding one_live_def dispatch(1)
  proof (intro ballI impI)
    fix u v assume uv: "u \<in> set (tasks db @ [t])" "v \<in> set (tasks db @ [t])" "\<not> dead u" "\<not> dead v"
      "tk_issue_id u = tk_issue_id v"
    consider "u = t" "v = t" | "u \<in> set (tasks db)" "v = t" | "u = t" "v \<in> set (tasks db)"
      | "u \<in> set (tasks db)" "v \<in> set (tasks db)" using uv(1,2) by auto
    then show "tk_id u = tk_id v"
    proof cases
      case 4
      then show ?thesis using uv(3-5) by (intro one_liveD [OF db_wfD(4) [OF wf]])
    qed (use free uv in auto)
  qed
  moreover have "live_dispatched (triage_view db') (tasks db')"
    using db_wfD(5) [OF wf] free unfolding live_dispatched_def dispatch(1,6) by auto
  moreover have "issues_exist (triage_view db') (tasks db')"
    using db_wfD(3) [OF wf] dispatch(5)
    by (force simp: dispatch(1,6) issues_exist_def image_image case_prod_beta)
  ultimately show ?case using dispatch(8) by (simp add: db_wf_def)
qed

section \<open>Sequences of effects\<close>

abbreviation effects :: "db \<Rightarrow> db \<Rightarrow> bool" where
  "effects \<equiv> task_effect\<^sup>*\<^sup>*"

lemma effects_wf: "effects db db' \<Longrightarrow> db_wf db \<Longrightarrow> db_wf db'"
  by (induction rule: rtranclp_induct) (auto intro: effect_wf)

lemmas effect_steps [intro] = rtranclp.rtrancl_refl r_into_rtranclp
lemmas effects_trans [trans] = rtranclp_trans [of task_effect]

lemma apply_updates_moved:
  assumes "edge (tk_status t) new" "tk_claim_token (apply_updates us (t\<lparr>tk_status := new\<rparr>)) =
      (if claimed new then tk_claim_token t else None)"
    "tk_status t \<noteq> Queued \<or> \<not> claimed new" "terminal (tk_status t) \<longrightarrow> terminal new \<or> \<not> dead t"
  shows "moved t (apply_updates us (t\<lparr>tk_status := new\<rparr>))"
  using assms by (auto simp: moved_def same_row_def token_step_def)

lemma effect_move_task:
  assumes "get_task i db = Some t" "moved t (apply_updates us (t\<lparr>tk_status := new\<rparr>))"
  shows "task_effect db (move_task t new us a db)"
proof -
  have "tk_id t = i" using assms(1) by (auto dest: get_task_SomeD)
  then show ?thesis
    using task_effect.move [OF assms(1), where f = "\<lambda>u. apply_updates us (u\<lparr>tk_status := new\<rparr>)",
        OF assms(2), of a "tk_contract_version t"]
    by (simp add: move_task_def)
qed

text \<open>Under the invariant a compare-and-set along an edge never meets the unique index.\<close>

lemma cas_wf:
  assumes "db_wf db" "expected \<noteq> []"
    and "\<And>t. get_task i db = Some t \<Longrightarrow> tk_status t \<in> set expected \<Longrightarrow> claim_matches claim t \<Longrightarrow>
        moved t (apply_updates us (t\<lparr>tk_status := new\<rparr>))"
  shows "cas_task_status i expected new us claim a db =
    (case get_task i db of
       None \<Rightarrow> (Inr False, db)
     | Some t \<Rightarrow>
         if tk_status t \<in> set expected \<and> claim_matches claim t
         then (Inr True, move_task t new us a db) else (Inr False, db))"
proof -
  have "active_index_ok (tasks (move_task t new us a db))"
    if "get_task i db = Some t" "tk_status t \<in> set expected" "claim_matches claim t" for t
    using db_wf_store_ok [OF effect_wf [OF effect_move_task [OF that(1) assms(3) [OF that]] assms(1)]]
    by (simp add: store_ok_def)
  then show ?thesis
    unfolding cas_task_status_eq [OF db_wf_store_ok [OF assms(1)] assms(2)]
    by (auto split: option.splits)
qed

lemma cas_effects:
  assumes "db_wf db" "expected \<noteq> []"
    and "\<And>t. get_task i db = Some t \<Longrightarrow> tk_status t \<in> set expected \<Longrightarrow> claim_matches claim t \<Longrightarrow>
        moved t (apply_updates us (t\<lparr>tk_status := new\<rparr>))"
  shows "effects db (snd (cas_task_status i expected new us claim a db))"
proof (cases "\<exists>t. get_task i db = Some t \<and> tk_status t \<in> set expected \<and> claim_matches claim t")
  case True
  then obtain t where t: "get_task i db = Some t" "tk_status t \<in> set expected" "claim_matches claim t"
    by blast
  have "task_effect db (move_task t new us a db)" by (rule effect_move_task [OF t(1) assms(3) [OF t]])
  moreover have "cas_task_status i expected new us claim a db = (Inr True, move_task t new us a db)"
    using t by (subst cas_wf [OF assms]) simp_all
  ultimately show ?thesis by auto
next
  case False
  then have "cas_task_status i expected new us claim a db = (Inr False, db)"
    by (subst cas_wf [OF assms]) (auto split: option.split)
  then show ?thesis by simp
qed

section \<open>The scheduler's operations are effects\<close>

lemma claim_effects:
  assumes "db_wf db"
  shows "effects db (snd (claim_queued_task i gl ul ls token now db))"
proof -
  obtain r db' where r: "claim_queued_task i gl ul ls token now db = (r, db')" by fastforce
  show ?thesis
    using db_wf_store_ok [OF assms] r
  proof (cases rule: claim_queued_task_cases)
  case (claimed t)
  have "tk_id t = i" using claimed(1) by (auto dest: get_task_SomeD)
  moreover have "moved t (claim_row token ls now t)"
    using claimed(2) by (simp add: moved_def same_row_def edge_def token_step_def CLAIMED_STATES_def status_sets)
  ultimately have "task_effect db (claim_task t token ls now db)"
    using task_effect.move [OF claimed(1), where f = "claim_row token ls now", of ActorScheduler
        "tk_contract_version t"] claimed(2)
    by (simp add: claim_task_def)
  with claimed(5) r show ?thesis by auto
  qed (simp add: r)
qed

lemma interrupt_effect: "db_wf db \<Longrightarrow> task_effect db (interrupt_runs now i db)"
  by (rule task_effect.other) (use db_wfD(1) [of db] in \<open>simp_all add: triage_view_def keys_ok_def\<close>)

lemma recovered_moved:
  assumes "needs_recovery now t"
  shows "moved t (apply_updates (recovery_updates now t) (t\<lparr>tk_status := recovery_target t\<rparr>))"
proof (rule apply_updates_moved)
  have s: "tk_status t = Cancelling \<or> running (tk_status t)"
    using assms by (auto simp: needs_recovery_def)
  then show "edge (tk_status t) (recovery_target t)"
    by (auto simp: recovery_target_def reconcile_publication_def running_edges)
      (simp_all add: edge_def)
  show "tk_status t \<noteq> Queued \<or> \<not> claimed (recovery_target t)"
    by (simp add: recovery_target_def CLAIMED_STATES_def)
  show "terminal (tk_status t) \<longrightarrow> terminal (recovery_target t) \<or> \<not> dead t"
    using s by (auto simp: status_sets)
  show "tk_claim_token (apply_updates (recovery_updates now t) (t\<lparr>tk_status := recovery_target t\<rparr>))
      = (if claimed (recovery_target t) then tk_claim_token t else None)"
    by (simp add: recovery_updates_def recovery_target_def CLAIMED_STATES_def Let_def)
qed

lemma recover_each_effects:
  assumes "db_wf db" "\<forall>t \<in> set ts. needs_recovery now t"
    "\<forall>t \<in> set ts. get_task (tk_id t) db = Some t" "distinct (map tk_id ts)"
  shows "effects db (snd (recover_each now ts n db))"
  using assms
proof (induction ts arbitrary: n db)
  case (Cons t ts)
  have t: "get_task (tk_id t) db = Some t" "needs_recovery now t" using Cons.prems by auto
  let ?m = "move_task t (recovery_target t) (recovery_updates now t) ActorRecovery db"
  let ?db = "interrupt_runs now (tk_id t) ?m"
  have e: "task_effect db ?m" by (rule effect_move_task [OF t(1) recovered_moved [OF t(2)]])
  have wf: "db_wf ?m" by (rule effect_wf [OF e Cons.prems(1)])
  have e': "task_effect ?m ?db" by (rule interrupt_effect [OF wf])
  have step: "recover_each now (t # ts) n db = recover_each now ts (n + 1) ?db"
    using cas_own_row [OF db_wf_store_ok [OF Cons.prems(1)] t(1) recovery_target_legal [OF t(2)]] by simp
  have "tk_id u \<noteq> tk_id t" if "u \<in> set ts" for u
    using Cons.prems(4) that by (auto simp: image_iff)
  then have "\<forall>u \<in> set ts. get_task (tk_id u) ?db = Some u"
    using Cons.prems(3) by (simp add: get_task_move)
  with Cons.prems wf effect_wf [OF e' wf] have "effects ?db (snd (recover_each now ts (n + 1) ?db))"
    by (intro Cons.IH) simp_all
  with e e' show ?case unfolding step by (meson converse_rtranclp_into_rtranclp)
qed auto

lemma recover_effects:
  assumes "db_wf db"
  shows "effects db (snd (recover_expired now db))"
proof -
  let ?ts = "filter (needs_recovery now) (tasks db)"
  have d: "distinct (map tk_id (tasks db))" by (rule db_wfD(6) [OF assms])
  have "effects db (snd (recover_each now ?ts 0 db))"
    by (rule recover_each_effects [OF assms])
      (use d in \<open>auto simp: get_task_iff distinct_map_filter\<close>)
  then show ?thesis by (auto simp: recover_expired_def split: prod.split sum.split)
qed

section \<open>A well-formed database\<close>

definition issue_db :: "task_status \<Rightarrow> pystr option \<Rightarrow> db" where
  "issue_db s token = (sample_db s token)\<lparr>issues :=
     [\<lparr>is_id = 1, is_repository_id = 1, is_external_id = [], is_number = 7, is_title = [], is_body = [],
       is_labels = [], is_state = IssueOpen, is_source_url = None, is_source_updated_at = None,
       is_triage_state = Dispatched, is_ignored_by = None, is_ignored_reason = None,
       is_ignored_at = None\<rparr>]\<rparr>"

lemmas wf_simps = issue_db_def sample_simps db_wf_def tokens_ok_def issues_exist_def one_live_def
  live_dispatched_def triage_view_def dead_def CLAIMED_STATES_def

end
