(* ===== verification/Workflow_Writes.thy ===== *)
theory Workflow_Writes
  imports Task_Lifecycle Agent_Output
begin

text \<open>
  The transactions of a running task: the status writes of \<open>workflow/orchestrator.py\<close> and
  \<open>workflow/publication.py\<close>, the bookkeeping of Agent runs in \<open>workflow/agent_stage.py\<close> and of reviews
  in \<open>workflow/review_cycle.py\<close>.  Each definition is one \<open>with self.sessions()\<close> block: it maps the
  database to a result or an exception and the database after commit or rollback.

  The locale \<open>fenced_write\<close> states what every write under a claim token promises: a caller whose token
  is no longer the task's changes nothing.  It is interpreted on all ten of them.
\<close>

section \<open>Status writes of the orchestrator\<close>

fun status_str :: "task_status \<Rightarrow> pystr" where
  "status_str Queued = U ''queued''"
| "status_str Preparing = U ''preparing''"
| "status_str DeveloperWorking = U ''developer_working''"
| "status_str Reviewing = U ''reviewing''"
| "status_str DeveloperRevising = U ''developer_revising''"
| "status_str Sealing = U ''sealing''"
| "status_str Publishing = U ''publishing''"
| "status_str AwaitingHumanReview = U ''awaiting_human_review''"
| "status_str Completed = U ''completed''"
| "status_str Closed = U ''closed''"
| "status_str Dismissed = U ''dismissed''"
| "status_str Failed = U ''failed''"
| "status_str Cancelled = U ''cancelled''"
| "status_str ManualIntervention = U ''manual_intervention''"
| "status_str Cancelling = U ''cancelling''"

fun STATUS_EXPECTED :: "task_status \<Rightarrow> task_status list option" where
  "STATUS_EXPECTED Preparing = Some [Queued]"
| "STATUS_EXPECTED DeveloperWorking = Some [Preparing]"
| "STATUS_EXPECTED Reviewing = Some [DeveloperWorking, Reviewing]"
| "STATUS_EXPECTED DeveloperRevising = Some [Preparing, Reviewing]"
| "STATUS_EXPECTED Sealing = Some [Preparing, DeveloperWorking, Reviewing, DeveloperRevising]"
| "STATUS_EXPECTED Publishing = Some [Preparing, Sealing]"
| "STATUS_EXPECTED _ = None"

lemma STATUS_EXPECTED_not_Nil: "STATUS_EXPECTED s \<noteq> Some []"
  by (cases s) auto

definition claim_lost :: pyexc where
  "claim_lost = raise_exc ClaimLost []"

definition missing_task :: "int \<Rightarrow> pyexc" where
  "missing_task i = raise_exc ValueError (U ''task '' @ int_str i @ U '' does not exist'')"

definition set_status :: "int \<Rightarrow> task_status \<Rightarrow> pystr \<Rightarrow> db \<Rightarrow> (pyexc + unit) \<times> db" where
  "set_status i status token db =
     (case STATUS_EXPECTED status of
        None \<Rightarrow> (Inl (raise_exc ValueError
                  (U ''unsupported task transition target: '' @ status_str status)), db)
      | Some expected \<Rightarrow>
          (case cas_task_status i expected status [] (Some token) ActorOrchestrator db of
             (Inl e, db') \<Rightarrow> (Inl e, db')
           | (Inr True, db') \<Rightarrow> (Inr (), db')
           | (Inr False, db') \<Rightarrow>
               (case get_task i db' of
                  None \<Rightarrow> (Inl (missing_task i), db')
                | Some current \<Rightarrow>
                    if tk_claim_token current \<noteq> Some token then (Inl claim_lost, db')
                    else if tk_status current \<in> {Cancelling, Cancelled, Dismissed}
                      then (Inl (raise_exc TaskCancelled []), db')
                    else (Inl (raise_exc RuntimeError
                           (U ''task '' @ int_str i @ U '' cannot transition from ''
                            @ status_str (tk_status current) @ U '' to '' @ status_str status)), db'))))"

text \<open>The guarded column updates: one row, the expected status and the caller's token, else \<open>ClaimLost\<close>.\<close>

definition guarded_update ::
  "int \<Rightarrow> task_status \<Rightarrow> pystr \<Rightarrow> (task \<Rightarrow> task) \<Rightarrow> db \<Rightarrow> (pyexc + unit) \<times> db" where
  "guarded_update i status token f db =
     (case update_tasks (\<lambda>t. tk_id t = i \<and> tk_status t = status \<and> tk_claim_token t = Some token) f db of
        (Inl e, db') \<Rightarrow> (Inl e, db')
      | (Inr n, db') \<Rightarrow> if n \<noteq> 1 then (Inl claim_lost, db') else (Inr (), db'))"

record prepared_workspace =
  pw_workspace :: pystr
  pw_base_commit_sha :: pystr
  pw_branch :: pystr

definition set_prepared :: "int \<Rightarrow> pystr \<Rightarrow> prepared_workspace \<Rightarrow> db \<Rightarrow> (pyexc + unit) \<times> db" where
  "set_prepared i token prepared =
     guarded_update i Preparing token
       (\<lambda>t. t\<lparr>tk_workspace_path := Some (pw_workspace prepared),
              tk_base_commit_sha := Some (pw_base_commit_sha prepared),
              tk_branch_name := Some (pw_branch prepared)\<rparr>)"

record sealed_patch =
  sp_patch_path :: pystr
  sp_tree_sha :: pystr

definition set_sealed :: "int \<Rightarrow> pystr \<Rightarrow> sealed_patch \<Rightarrow> db \<Rightarrow> (pyexc + unit) \<times> db" where
  "set_sealed i token sealed =
     guarded_update i Sealing token
       (\<lambda>t. t\<lparr>tk_fixed_patch_path := Some (sp_patch_path sealed),
              tk_reviewed_tree_sha := Some (sp_tree_sha sealed)\<rparr>)"

definition set_commit :: "int \<Rightarrow> pystr \<Rightarrow> pystr \<Rightarrow> db \<Rightarrow> (pyexc + unit) \<times> db" where
  "set_commit i token commit_sha =
     guarded_update i Sealing token (\<lambda>t. t\<lparr>tk_commit_sha := Some commit_sha\<rparr>)"

section \<open>Publication\<close>

text \<open>
  \<open>x or default\<close> on optional columns: an empty key is replaced, a missing start time is \<open>now\<close>.
\<close>

definition begin_publication :: "int \<Rightarrow> pystr \<Rightarrow> pystr \<Rightarrow> time \<Rightarrow> db \<Rightarrow> (pyexc + pystr) \<times> db" where
  "begin_publication i token fresh_key now db =
     (case find (\<lambda>t. tk_id t = i \<and> tk_claim_token t = Some token) (tasks db) of
        None \<Rightarrow> (Inl claim_lost, db)
      | Some t \<Rightarrow>
          (let key = (if truthy (tk_publication_key t) then the (tk_publication_key t) else fresh_key);
               started = (case tk_publication_started_at t of None \<Rightarrow> now | Some s \<Rightarrow> s)
           in case cas_task_status i [Preparing, Sealing] Publishing
                     [SetPublicationKey (Some key), SetPublicationStartedAt (Some started)]
                     (Some token) ActorPublisher db of
                (Inl e, db') \<Rightarrow> (Inl e, db')
              | (Inr changed, db') \<Rightarrow> if \<not> changed then (Inl claim_lost, db') else (Inr key, db')))"

record published =
  pb_url :: pystr
  pb_number :: int
  pb_state :: "pystr option"

text \<open>\<open>getattr(published, 'state', 'open')\<close>: \<open>pb_state\<close> is \<open>None\<close> when the object has no such attribute.\<close>

definition published_state :: "published \<Rightarrow> pystr" where
  "published_state p = (case pb_state p of None \<Rightarrow> U ''open'' | Some s \<Rightarrow> s)"

definition awaiting_review :: "int \<Rightarrow> pystr \<Rightarrow> published \<Rightarrow> time \<Rightarrow> db \<Rightarrow> (pyexc + unit) \<times> db" where
  "awaiting_review i token p now db =
     (case find (\<lambda>t. tk_id t = i \<and> tk_claim_token t = Some token
                  \<and> tk_status t \<in> {Publishing, Cancelling}) (tasks db) of
        None \<Rightarrow> (Inl claim_lost, db)
      | Some t \<Rightarrow>
          (case cas_task_status i [tk_status t]
                  (if tk_status t = Cancelling then Cancelled else AwaitingHumanReview)
                  [SetPrUrl (Some (pb_url p)), SetPrNumber (Some (pb_number p)),
                   SetPrState (Some (published_state p)), SetClaimToken None, SetClaimExpiresAt None,
                   SetFailureCode None, SetFailureSummary None, SetFinishedAt (Some now)]
                  (Some token) ActorPublisher db of
             (Inl e, db') \<Rightarrow> (Inl e, db')
           | (Inr changed, db') \<Rightarrow> if \<not> changed then (Inl claim_lost, db') else (Inr (), db')))"

section \<open>Ending a run\<close>

text \<open>\<open>task.issue.triage_state = ...\<close>\<close>

definition set_triage :: "int \<Rightarrow> triage_state \<Rightarrow> db \<Rightarrow> db" where
  "set_triage issue_id s db =
     db\<lparr>issues := sql_update (\<lambda>r. is_id r = issue_id) (\<lambda>r. r\<lparr>is_triage_state := s\<rparr>) (issues db)\<rparr>"

definition cancelled_updates :: "time \<Rightarrow> column_value list" where
  "cancelled_updates now = [SetClaimToken None, SetClaimExpiresAt None, SetFinishedAt (Some now)]"

definition fail_task :: "int \<Rightarrow> pystr \<Rightarrow> pyexc \<Rightarrow> time \<Rightarrow> db \<Rightarrow> (pyexc + unit) \<times> db" where
  "fail_task i token exc now db =
     (case get_task i db of
        None \<Rightarrow> (Inr (), db)
      | Some t \<Rightarrow>
          if tk_claim_token t \<noteq> Some token then (Inr (), db)
          else case cas_task_status i [Cancelling] Cancelled (cancelled_updates now) (Some token)
                      ActorOrchestrator db of
            (Inl e, db') \<Rightarrow> (Inl e, db')
          | (Inr True, db') \<Rightarrow> (Inr (), db')
          | (Inr False, db') \<Rightarrow>
              if terminal (tk_status t) \<or> tk_status t = Cancelling then (Inr (), db)
              else case cas_task_status i [tk_status t] Failed
                          [SetClaimToken None, SetClaimExpiresAt None,
                           SetFailureCode (Some (ErrorCode (classify_exception exc))),
                           SetFailureSummary (Some (py_last 2000 (exc_str exc))),
                           SetFinishedAt (Some now)] (Some token) ActorOrchestrator db' of
                (Inl e, db'') \<Rightarrow> (Inl e, db)
              | (Inr changed, db'') \<Rightarrow>
                  (Inr (), if changed \<and> tk_commit_sha t = None
                           then set_triage (tk_issue_id t) Discovered db'' else db''))"

definition manual_intervention ::
  "int \<Rightarrow> pystr \<Rightarrow> failure_code \<Rightarrow> pystr \<Rightarrow> time \<Rightarrow> db \<Rightarrow> (pyexc + unit) \<times> db" where
  "manual_intervention i token code summary now db =
     (case get_task i db of
        None \<Rightarrow> (Inr (), db)
      | Some t \<Rightarrow>
          if tk_claim_token t \<noteq> Some token \<or> terminal (tk_status t) \<or> tk_status t = Cancelling
          then (Inr (), db)
          else case cas_task_status i [tk_status t] ManualIntervention
                      [SetClaimToken None, SetClaimExpiresAt None, SetFailureCode (Some code),
                       SetFailureSummary (Some summary), SetFinishedAt (Some now)]
                      (Some token) ActorOrchestrator db of
            (Inl e, db') \<Rightarrow> (Inl e, db')
          | (Inr _, db') \<Rightarrow> (Inr (), db'))"

definition mark_cancelled :: "int \<Rightarrow> pystr \<Rightarrow> time \<Rightarrow> db \<Rightarrow> (pyexc + unit) \<times> db" where
  "mark_cancelled i token now db =
     (case cas_task_status i [Cancelling] Cancelled (cancelled_updates now) (Some token)
             ActorOrchestrator db of
        (Inl e, db') \<Rightarrow> (Inl e, db')
      | (Inr _, db') \<Rightarrow> (Inr (), db'))"

definition MSG_WORKER_INTERRUPTED :: pystr where \<comment> \<open>the task coroutine was interrupted\<close>
  "MSG_WORKER_INTERRUPTED = [20219, 21153, 25191, 34892, 21327, 31243, 34987, 20013, 26029]"

definition interrupt_task :: "int \<Rightarrow> pystr \<Rightarrow> time \<Rightarrow> db \<Rightarrow> (pyexc + unit) \<times> db" where
  "interrupt_task i token now db =
     (case get_task i db of
        None \<Rightarrow> (Inr (), db)
      | Some t \<Rightarrow>
          if tk_claim_token t \<noteq> Some token then (Inr (), db)
          else
            (let target = (if tk_status t = Cancelling then Cancelled else ManualIntervention) in
             case cas_task_status i [tk_status t] target
                    [SetClaimToken None, SetClaimExpiresAt None,
                     SetFailureCode (if target = Cancelled then tk_failure_code t
                                     else Some WorkerInterrupted),
                     SetFailureSummary (if target = Cancelled then tk_failure_summary t
                                        else Some MSG_WORKER_INTERRUPTED),
                     SetFinishedAt (Some now)] (Some token) ActorOrchestrator db of
               (Inl e, db') \<Rightarrow> (Inl e, db')
             | (Inr _, db') \<Rightarrow> (Inr (), db')))"

text \<open>The failure branch of \<open>_notify\<close>: the summary is written without a claim check.\<close>

definition MSG_NOTIFY_FAILED :: pystr where \<comment> \<open>the Feishu notification failed\<close>
  "MSG_NOTIFY_FAILED = [39134, 20070, 36890, 30693, 22833, 36133, 65306]"

definition notify_failed :: "int \<Rightarrow> pystr \<Rightarrow> db \<Rightarrow> (pyexc + unit) \<times> db" where
  "notify_failed i type_name db =
     (case get_task i db of
        None \<Rightarrow> (Inl attribute_error, db)
      | Some _ \<Rightarrow> (Inr (), replace_task i
          (\<lambda>t. t\<lparr>tk_failure_summary := Some (MSG_NOTIFY_FAILED @ type_name)\<rparr>) db))"

section \<open>Agent runs and reviews\<close>

definition begin_agent_run :: "int \<Rightarrow> agent_role \<Rightarrow> time \<Rightarrow> db \<Rightarrow> (int \<times> int) \<times> db" where
  "begin_agent_run i role now db =
     (let attempts = map ar_attempt (filter (\<lambda>r. ar_task_id r = i \<and> ar_role r = role) (agent_runs db));
          attempt = (if attempts = [] then 0 else Max (set attempts)) + 1;
          run_id = fresh_id (map ar_id (agent_runs db))
      in ((run_id, attempt),
          db\<lparr>agent_runs := agent_runs db @
            [\<lparr>ar_id = run_id, ar_task_id = i, ar_role = role, ar_attempt = attempt,
              ar_status = RunRunning, ar_started_at = Some now, ar_finished_at = None,
              ar_exit_code = None, ar_structured_result = None, ar_error_summary = None\<rparr>]\<rparr>))"

definition structured :: "pystr option \<Rightarrow> developer_report option \<Rightarrow> model_usage option \<Rightarrow> structured_result option" where
  "structured stdout report usage =
     (if stdout = None \<and> usage = None then None
      else Some \<lparr>sr_stdout = map_option (py_last 100000) stdout,
                 sr_developer_report = (if stdout = None then None else report),
                 sr_model_usage = usage\<rparr>)"

definition finish_agent_run ::
  "int \<Rightarrow> run_status \<Rightarrow> int option \<Rightarrow> pystr option \<Rightarrow> pystr option \<Rightarrow> developer_report option
    \<Rightarrow> model_usage option \<Rightarrow> time \<Rightarrow> db \<Rightarrow> db" where
  "finish_agent_run run_id status exit_code stdout error_summary report usage now db =
     db\<lparr>agent_runs := sql_update (\<lambda>r. ar_id r = run_id \<and> ar_status r = RunRunning)
       (\<lambda>r. r\<lparr>ar_status := status, ar_finished_at := Some now, ar_exit_code := exit_code,
               ar_structured_result := structured stdout report usage,
               ar_error_summary := error_summary\<rparr>) (agent_runs db)\<rparr>"

definition record_review :: "int \<Rightarrow> agent_role \<Rightarrow> decision \<Rightarrow> finding list \<Rightarrow> db \<Rightarrow> db" where
  "record_review i role dec fs db =
     db\<lparr>reviews := reviews db @
       [\<lparr>rv_task_id = i, rv_role = role, rv_decision = dec, rv_findings = fs,
         rv_blocking_count = (if dec \<noteq> Approve then int (length fs) else 0),
         rv_contract_version = REVIEWER_CONTRACT_VERSION\<rparr>]\<rparr>"

section \<open>Writes under a claim token\<close>

text \<open>The writes a worker makes in the name of its claim, as one type, and the contract they share.\<close>

datatype worker_write =
    SetStatus task_status | SetPrepared prepared_workspace | SetSealed sealed_patch | SetCommit pystr
  | BeginPublication pystr time | AwaitReview published time | FailTask pyexc time
  | BlockTask failure_code pystr time | MarkCancelled time | InterruptTask time | RenewClaim time

fun perform :: "worker_write \<Rightarrow> int \<Rightarrow> pystr \<Rightarrow> db \<Rightarrow> db" where
  "perform (SetStatus s) i k db = snd (set_status i s k db)"
| "perform (SetPrepared p) i k db = snd (set_prepared i k p db)"
| "perform (SetSealed p) i k db = snd (set_sealed i k p db)"
| "perform (SetCommit c) i k db = snd (set_commit i k c db)"
| "perform (BeginPublication key now) i k db = snd (begin_publication i k key now db)"
| "perform (AwaitReview p now) i k db = snd (awaiting_review i k p now db)"
| "perform (FailTask e now) i k db = snd (fail_task i k e now db)"
| "perform (BlockTask code summary now) i k db = snd (manual_intervention i k code summary now db)"
| "perform (MarkCancelled now) i k db = snd (mark_cancelled i k now db)"
| "perform (InterruptTask now) i k db = snd (interrupt_task i k now db)"
| "perform (RenewClaim now) i k db = snd (renew_claim i k now db)"

definition holds_claim :: "int \<Rightarrow> pystr \<Rightarrow> db \<Rightarrow> bool" where
  "holds_claim i k db = (case get_task i db of None \<Rightarrow> False | Some t \<Rightarrow> tk_claim_token t = Some k)"

lemma holds_claim_unique: "holds_claim i k db \<Longrightarrow> holds_claim i k' db \<Longrightarrow> k = k'"
  by (simp add: holds_claim_def split: option.splits)

lemma holds_claim_row:
  "store_ok db \<Longrightarrow> t \<in> set (tasks db) \<Longrightarrow> tk_claim_token t = Some k \<Longrightarrow> holds_claim (tk_id t) k db"
  using get_task_iff [OF store_okD(1), of db "tk_id t" t] by (simp add: holds_claim_def)

locale fenced_write =
  fixes "write" :: "'w \<Rightarrow> int \<Rightarrow> pystr \<Rightarrow> db \<Rightarrow> db"
  assumes stale: "store_ok db \<Longrightarrow> \<not> holds_claim i k db \<Longrightarrow> write w i k db = db"
    and effects: "db_wf db \<Longrightarrow> effects db (write w i k db)"
begin

lemma exclusive: "store_ok db \<Longrightarrow> k \<noteq> k' \<Longrightarrow> write w i k db = db \<or> write w' i k' db = db"
  using stale holds_claim_unique by blast

text \<open>A worker that lost its claim can go on writing for as long as it likes.\<close>

lemma stale_sequence:
  "store_ok db \<Longrightarrow> \<not> holds_claim i k db \<Longrightarrow> fold (\<lambda>w. write w i k) ws db = db"
  by (induction ws) (simp_all add: stale)

lemma sequence_wf: "db_wf db \<Longrightarrow> db_wf (fold (\<lambda>w. write w i k) ws db)"
  by (induction ws arbitrary: db) (auto intro: effects_wf effects)

lemma sequence_effects: "db_wf db \<Longrightarrow> effects db (fold (\<lambda>w. write w i k) ws db)"
proof (induction ws arbitrary: db)
  case (Cons w ws)
  have "effects db (write w i k db)" by (rule effects [OF Cons.prems])
  also have "effects \<dots> (fold (\<lambda>w. write w i k) ws (write w i k db))"
    by (rule Cons.IH [OF effects_wf [OF effects [OF Cons.prems] Cons.prems]])
  finally show ?case by simp
qed simp

end

subsection \<open>Fencing\<close>

lemma cas_stale:
  assumes "store_ok db" "\<not> holds_claim i k db"
  shows "cas_task_status i expected new us (Some k) a db = (Inr False, db) \<or> expected = []"
  using assms
  by (auto simp: cas_task_status_eq holds_claim_def claim_matches_def split: option.splits)

lemma cas_stale_snd:
  assumes "store_ok db" "\<not> holds_claim i k db"
  shows "snd (cas_task_status i expected new us (Some k) a db) = db"
  using cas_stale [OF assms, of expected new us a]
  by (elim disjE) (simp_all add: cas_task_status_empty)

lemma find_holder:
  assumes "store_ok db"
  shows "find (\<lambda>t. tk_id t = i \<and> tk_claim_token t = Some k \<and> q t) (tasks db) =
    (case get_task i db of
       Some t \<Rightarrow> if tk_claim_token t = Some k \<and> q t then Some t else None | None \<Rightarrow> None)"
proof (cases "\<exists>t. get_task i db = Some t \<and> tk_claim_token t = Some k \<and> q t")
  case True
  then obtain t where t: "get_task i db = Some t" "tk_claim_token t = Some k" "q t" by blast
  have "t \<in> set (tasks db)" "tk_id t = i" using t(1) by (auto dest: get_task_SomeD)
  with t(2,3) have "find (\<lambda>t. tk_id t = i \<and> tk_claim_token t = Some k \<and> q t) (tasks db) = Some t"
    by (intro find_key_Some [OF store_okD(1) [OF assms]]) auto
  with t show ?thesis by simp
next
  case False
  have "find (\<lambda>t. tk_id t = i \<and> tk_claim_token t = Some k \<and> q t) (tasks db) = None"
    using False by (auto simp: find_None_iff get_task_iff [OF store_okD(1) [OF assms]])
  with False show ?thesis by (auto split: option.splits)
qed

lemma guarded_update_stale:
  assumes "store_ok db" "\<not> holds_claim i k db"
  shows "guarded_update i s k f db = (Inl claim_lost, db)"
proof -
  have "update_tasks (\<lambda>t. tk_id t = i \<and> tk_status t = s \<and> tk_claim_token t = Some k) f db = (Inr 0, db)"
    using assms(2) holds_claim_row [OF assms(1)] store_okD(2) [OF assms(1)]
    by (intro update_tasks_miss) auto
  then show ?thesis by (simp add: guarded_update_def)
qed

lemma perform_stale:
  assumes "store_ok db" "\<not> holds_claim i k db"
  shows "perform w i k db = db"
proof -
  note cas = cas_stale [OF assms] and upd = guarded_update_stale [OF assms]
  have found: "find (\<lambda>t. tk_id t = i \<and> tk_claim_token t = Some k \<and> q t) (tasks db) = None" for q
    using assms(2) by (auto simp: find_holder [OF assms(1)] holds_claim_def split: option.splits)
  have lost: "tk_claim_token t \<noteq> Some k" if "get_task i db = Some t" for t
    using assms(2) that by (simp add: holds_claim_def)
  show ?thesis
  proof (cases w)
    case (SetStatus s)
    show ?thesis
    proof (cases "STATUS_EXPECTED s")
      case (Some expected)
      then have "expected \<noteq> []" using STATUS_EXPECTED_not_Nil [of s] by blast
      then have "cas_task_status i expected s [] (Some k) ActorOrchestrator db = (Inr False, db)"
        using cas by blast
      with Some SetStatus show ?thesis by (simp add: set_status_def split: option.split)
    qed (simp add: SetStatus set_status_def)
  next
    case (SetPrepared p)
    then show ?thesis by (simp add: set_prepared_def upd)
  next
    case (SetSealed p)
    then show ?thesis by (simp add: set_sealed_def upd)
  next
    case (SetCommit c)
    then show ?thesis by (simp add: set_commit_def upd)
  next
    case (BeginPublication key now)
    then show ?thesis using found [of "\<lambda>_. True"] by (simp add: begin_publication_def)
  next
    case (AwaitReview p now)
    then show ?thesis
      using found [of "\<lambda>t. tk_status t \<in> {Publishing, Cancelling}"] by (simp add: awaiting_review_def)
  next
    case (FailTask e now)
    then show ?thesis by (auto simp: fail_task_def lost split: option.split)
  next
    case (BlockTask code summary now)
    then show ?thesis by (auto simp: manual_intervention_def lost split: option.split)
  next
    case (MarkCancelled now)
    have "cas_task_status i [Cancelling] Cancelled (cancelled_updates now) (Some k) ActorOrchestrator db
      = (Inr False, db)" using cas by blast
    with MarkCancelled show ?thesis by (simp add: mark_cancelled_def)
  next
    case (InterruptTask now)
    then show ?thesis by (auto simp: interrupt_task_def lost split: option.split)
  next
    case (RenewClaim now)
    then show ?thesis
      by (auto simp: renew_claim_eq [OF assms(1)] lost split: option.split)
  qed
qed

subsection \<open>Every write is a sequence of effects\<close>

lemma claim_matches_token: "claim_matches (Some k) t \<longleftrightarrow> tk_claim_token t = Some k"
  by (auto simp: claim_matches_def)

lemma expected_edge: "STATUS_EXPECTED s = Some ex \<Longrightarrow> old \<in> set ex \<Longrightarrow> edge old s \<and> claimed s \<and> \<not> terminal old"
  by (cases s) (auto simp: edge_def CLAIMED_STATES_def status_sets)

lemma set_status_effects:
  assumes "db_wf db"
  shows "effects db (snd (set_status i s k db))"
proof (cases "STATUS_EXPECTED s")
  case (Some ex)
  have ne: "ex \<noteq> []" using Some STATUS_EXPECTED_not_Nil [of s] by blast
  have moved: "moved t (apply_updates [] (t\<lparr>tk_status := s\<rparr>))"
    if "get_task i db = Some t" "tk_status t \<in> set ex" "claim_matches (Some k) t" for t
  proof (rule apply_updates_moved)
    have "claimed (tk_status t)"
      using that by (intro wf_token_claimed [OF assms]) (simp_all add: claim_matches_token)
    then show "tk_status t \<noteq> Queued \<or> \<not> claimed s" by (auto simp: CLAIMED_STATES_def)
  qed (use expected_edge [OF Some that(2)] in simp_all)
  have "effects db (snd (cas_task_status i ex s [] (Some k) ActorOrchestrator db))"
    by (rule cas_effects [OF assms ne moved])
  moreover have "snd (set_status i s k db) = snd (cas_task_status i ex s [] (Some k) ActorOrchestrator db)"
    by (simp add: set_status_def Some split: prod.split sum.split bool.split option.split)
  ultimately show ?thesis by simp
qed (simp add: set_status_def)

lemma guarded_update_effects:
  assumes "db_wf db" "\<And>t. tk_status t = s \<Longrightarrow> tk_claim_token t = Some k \<Longrightarrow> tweaked t (f t)"
  shows "effects db (snd (guarded_update i s k f db))"
proof -
  let ?p = "\<lambda>t. tk_id t = i \<and> tk_status t = s \<and> tk_claim_token t = Some k"
  have "task_effect db (db\<lparr>tasks := sql_update ?p f (tasks db)\<rparr>)"
    using assms(2) by (intro task_effect.tweak) simp
  moreover have "snd (guarded_update i s k f db) \<in> {db, db\<lparr>tasks := sql_update ?p f (tasks db)\<rparr>}"
    by (simp add: guarded_update_def update_tasks_def Let_def)
  ultimately show ?thesis by auto
qed

text \<open>Wrapping the result of a transaction does not touch its state.\<close>

lemma snd_wrap [simp]:
  "snd (case p of (Inl e, d) \<Rightarrow> (Inl e, d) | (Inr x, d) \<Rightarrow> (g x, d)) = snd p"
  "snd (case p of (Inl e, d) \<Rightarrow> (Inl e, d) | (Inr x, d) \<Rightarrow> if q x then (g x, d) else (h x, d)) = snd p"
  by (auto split: prod.split sum.split)

lemma begin_publication_effects:
  assumes "db_wf db"
  shows "effects db (snd (begin_publication i k key now db))"
proof -
  have "moved t (apply_updates [SetPublicationKey a, SetPublicationStartedAt b] (t\<lparr>tk_status := Publishing\<rparr>))"
    if "tk_status t \<in> set [Preparing, Sealing]" for t a b
    using that by (intro apply_updates_moved) (auto simp: edge_def CLAIMED_STATES_def status_sets)
  then have "effects db (snd (cas_task_status i [Preparing, Sealing] Publishing
      [SetPublicationKey a, SetPublicationStartedAt b] (Some k) ActorPublisher db))" for a b
    by (intro cas_effects [OF assms]) simp_all
  then show ?thesis
    unfolding begin_publication_def Let_def by (cases "find (\<lambda>t. tk_id t = i \<and> tk_claim_token t = Some k) (tasks db)") simp_all
qed

text \<open>Releasing the claim: the target is not a claimed status and the updates clear the token.\<close>

lemma cas_release_effects:
  assumes "db_wf db" "expected \<noteq> []" "\<not> claimed new"
    and "\<And>t. tk_claim_token (apply_updates us (t\<lparr>tk_status := new\<rparr>)) = None"
    and "\<And>t. get_task i db = Some t \<Longrightarrow> tk_status t \<in> set expected \<Longrightarrow> tk_claim_token t = Some k \<Longrightarrow>
        edge (tk_status t) new"
  shows "effects db (snd (cas_task_status i expected new us (Some k) a db))"
proof (rule cas_effects [OF assms(1,2)])
  fix t assume t: "get_task i db = Some t" "tk_status t \<in> set expected" "claim_matches (Some k) t"
  have "claimed (tk_status t)"
    using t by (intro wf_token_claimed [OF assms(1)]) (simp_all add: claim_matches_token)
  then have "\<not> terminal (tk_status t)" using terminal_not_claimed by blast
  with t assms(3-5) show "moved t (apply_updates us (t\<lparr>tk_status := new\<rparr>))"
    by (intro apply_updates_moved) (simp_all add: claim_matches_token)
qed

lemma edge_ends [simp]:
  "edge Cancelling Cancelled" "edge Publishing AwaitingHumanReview"
  by (simp_all add: edge_def)

lemma awaiting_review_effects:
  assumes "db_wf db"
  shows "effects db (snd (awaiting_review i k p now db))"
proof -
  let ?us = "[SetPrUrl (Some (pb_url p)), SetPrNumber (Some (pb_number p)),
      SetPrState (Some (published_state p)), SetClaimToken None, SetClaimExpiresAt None,
      SetFailureCode None, SetFailureSummary None, SetFinishedAt (Some now)]"
  have c: "effects db (snd (cas_task_status i [s] (if s = Cancelling then Cancelled else AwaitingHumanReview)
      ?us (Some k) ActorPublisher db))" if "s \<in> {Publishing, Cancelling}" for s
    using that by (intro cas_release_effects [OF assms]) auto
  show ?thesis
  proof (cases "find (\<lambda>t. tk_id t = i \<and> tk_claim_token t = Some k
                  \<and> tk_status t \<in> {Publishing, Cancelling}) (tasks db)")
    case (Some t)
    have "tk_status t \<in> {Publishing, Cancelling}" using find_SomeD [OF Some] by simp
    from c [OF this] Some show ?thesis
      by (simp add: awaiting_review_def)
  qed (simp add: awaiting_review_def)
qed

lemma mark_cancelled_effects:
  assumes "db_wf db"
  shows "effects db (snd (mark_cancelled i k now db))"
proof -
  have "effects db (snd (cas_task_status i [Cancelling] Cancelled (cancelled_updates now) (Some k)
      ActorOrchestrator db))"
    by (intro cas_release_effects [OF assms]) (auto simp: cancelled_updates_def)
  then show ?thesis by (simp add: mark_cancelled_def)
qed

lemma wf_running:
  assumes "db_wf db" "get_task i db = Some t" "tk_claim_token t = Some k" "tk_status t \<noteq> Cancelling"
  shows "running (tk_status t)"
  using wf_token_claimed [OF assms(1-3)] assms(4) by (simp add: claimed_iff)

lemma manual_intervention_effects:
  assumes "db_wf db"
  shows "effects db (snd (manual_intervention i k code summary now db))"
proof (cases "\<exists>t. get_task i db = Some t \<and> tk_claim_token t = Some k \<and> tk_status t \<noteq> Cancelling")
  case True
  then obtain t where t: "get_task i db = Some t" "tk_claim_token t = Some k" "tk_status t \<noteq> Cancelling"
    by blast
  have "effects db (snd (cas_task_status i [tk_status t] ManualIntervention
      [SetClaimToken None, SetClaimExpiresAt None, SetFailureCode (Some code),
       SetFailureSummary (Some summary), SetFinishedAt (Some now)] (Some k) ActorOrchestrator db))"
    using wf_running [OF assms t] by (intro cas_release_effects [OF assms]) (auto simp: running_edges)
  with t(1) show ?thesis by (simp add: manual_intervention_def)
qed (auto simp: manual_intervention_def split: option.split)

lemma interrupt_task_effects:
  assumes "db_wf db"
  shows "effects db (snd (interrupt_task i k now db))"
proof (cases "\<exists>t. get_task i db = Some t \<and> tk_claim_token t = Some k")
  case True
  then obtain t where t: "get_task i db = Some t" "tk_claim_token t = Some k" by blast
  have "edge (tk_status t) (if tk_status t = Cancelling then Cancelled else ManualIntervention)"
    using wf_running [OF assms t] by (auto simp: running_edges)
  then have "effects db (snd (cas_task_status i [tk_status t]
      (if tk_status t = Cancelling then Cancelled else ManualIntervention)
      [SetClaimToken None, SetClaimExpiresAt None, SetFailureCode fc, SetFailureSummary fs,
       SetFinishedAt (Some now)] (Some k) ActorOrchestrator db))" for fc fs
    by (intro cas_release_effects [OF assms]) auto
  with t show ?thesis
    unfolding interrupt_task_def Let_def by simp
qed (auto simp: interrupt_task_def split: option.split)

definition failed_updates :: "pyexc \<Rightarrow> time \<Rightarrow> column_value list" where
  "failed_updates e now = [SetClaimToken None, SetClaimExpiresAt None,
     SetFailureCode (Some (ErrorCode (classify_exception e))),
     SetFailureSummary (Some (py_last 2000 (exc_str e))), SetFinishedAt (Some now)]"

lemma failed_moved:
  assumes "running (tk_status t)"
  shows "moved t (apply_updates (failed_updates e now) (t\<lparr>tk_status := Failed\<rparr>))"
  using assms running_not_terminal [OF assms]
  by (intro apply_updates_moved) (simp_all add: running_edges failed_updates_def)

lemma cancelled_moved:
  assumes "tk_status t = Cancelling"
  shows "moved t (apply_updates (cancelled_updates now) (t\<lparr>tk_status := Cancelled\<rparr>))"
  using assms by (intro apply_updates_moved) (simp_all add: cancelled_updates_def status_sets)

text \<open>Ending a run with an exception, branch by branch.\<close>

lemma fail_task_eq:
  assumes "db_wf db"
  shows "fail_task i k e now db =
    (case get_task i db of
       None \<Rightarrow> (Inr (), db)
     | Some t \<Rightarrow>
         if tk_claim_token t \<noteq> Some k then (Inr (), db)
         else if tk_status t = Cancelling
           then (Inr (), move_task t Cancelled (cancelled_updates now) ActorOrchestrator db)
         else (Inr (), if tk_commit_sha t = None
           then set_triage (tk_issue_id t) Discovered
                  (move_task t Failed (failed_updates e now) ActorOrchestrator db)
           else move_task t Failed (failed_updates e now) ActorOrchestrator db))"
proof (cases "\<exists>t. get_task i db = Some t \<and> tk_claim_token t = Some k")
  case True
  then obtain t where t: "get_task i db = Some t" "tk_claim_token t = Some k" by blast
  have cm: "claim_matches (Some k) t" using t(2) by (simp add: claim_matches_token)
  have c1: "cas_task_status i [Cancelling] Cancelled (cancelled_updates now) (Some k) ActorOrchestrator db
      = (if tk_status t = Cancelling
         then (Inr True, move_task t Cancelled (cancelled_updates now) ActorOrchestrator db)
         else (Inr False, db))"
    by (subst cas_wf [OF assms]) (auto simp: t(1) cm cancelled_moved)
  show ?thesis
  proof (cases "tk_status t = Cancelling")
    case True
    with t c1 show ?thesis by (simp add: fail_task_def)
  next
    case False
    have run: "running (tk_status t)" by (rule wf_running [OF assms t False])
    have c2: "cas_task_status i [tk_status t] Failed (failed_updates e now) (Some k) ActorOrchestrator db
      = (Inr True, move_task t Failed (failed_updates e now) ActorOrchestrator db)"
      by (subst cas_wf [OF assms]) (auto simp: t(1) cm failed_moved [OF run])
    show ?thesis
      using t c1 c2 False running_not_terminal [OF run]
      by (simp add: fail_task_def failed_updates_def)
  qed
qed (auto simp: fail_task_def split: option.split)

lemma triage_view_set_triage:
  "triage_view (set_triage i s db) = map (\<lambda>(j, x). (j, if j = i then s else x)) (triage_view db)"
  by (auto simp: triage_view_def set_triage_def sql_update_def o_def)

lemma set_triage_frame [simp]:
  "tasks (set_triage i s db) = tasks db" "transitions (set_triage i s db) = transitions db"
  "users (set_triage i s db) = users db" "repositories (set_triage i s db) = repositories db"
  "agent_runs (set_triage i s db) = agent_runs db" "reviews (set_triage i s db) = reviews db"
  "feedback (set_triage i s db) = feedback db" "get_task j (set_triage i s db) = get_task j db"
  "map is_id (issues (set_triage i s db)) = map is_id (issues db)"
  by (simp_all add: set_triage_def get_task_def map_sql_update)

lemma keys_ok_set_triage [simp]: "keys_ok (set_triage i s db) = keys_ok db"
  by (simp add: keys_ok_def)

lemma release_effect:
  assumes "db_wf db" "get_task i db = Some t" "running (tk_status t)" "tk_commit_sha t = None"
  shows "task_effect db (set_triage (tk_issue_id t) Discovered
      (move_task t Failed (failed_updates e now) ActorOrchestrator db))"
proof -
  let ?f = "\<lambda>u. apply_updates (failed_updates e now) (u\<lparr>tk_status := Failed\<rparr>)"
  let ?m = "move_task t Failed (failed_updates e now) ActorOrchestrator db"
  have i: "tk_id t = i" using assms(2) by (auto dest: get_task_SomeD)
  have moved: "moved t (?f t)" by (rule failed_moved [OF assms(3)])
  have "db_wf ?m" by (rule effect_wf [OF effect_move_task [OF assms(2) moved] assms(1)])
  then have keys: "keys_ok (set_triage (tk_issue_id t) Discovered ?m)" by (simp add: db_wfD(1))
  have "\<not> dead t" using running_not_terminal [OF assms(3)] dead_terminal by blast
  moreover have "dead (?f t)" by (simp add: dead_def assms(4) status_sets)
  moreover have "tasks (set_triage (tk_issue_id t) Discovered ?m) = tasks (replace_task i ?f db)"
    by (simp add: tasks_move_task i)
  moreover have "triage_view (set_triage (tk_issue_id t) Discovered ?m)
      = map (\<lambda>(j, s). (j, if j = tk_issue_id t then Discovered else s)) (triage_view db)"
    by (simp add: triage_view_set_triage) (simp add: triage_view_def)
  ultimately show ?thesis
    using keys by (intro task_effect.release [OF assms(2), where f = ?f, OF moved, of _ ActorOrchestrator
          "if tk_contract_version t = 0 then TASK_CONTRACT_VERSION else tk_contract_version t"])
      (simp_all add: transitions_move_task i)
qed

lemma fail_task_effects:
  assumes "db_wf db"
  shows "effects db (snd (fail_task i k e now db))"
proof (cases "\<exists>t. get_task i db = Some t \<and> tk_claim_token t = Some k")
  case True
  then obtain t where t: "get_task i db = Some t" "tk_claim_token t = Some k" by blast
  show ?thesis
  proof (cases "tk_status t = Cancelling")
    case True
    then show ?thesis
      using t effect_move_task [OF t(1) cancelled_moved [OF True]] by (auto simp: fail_task_eq [OF assms])
  next
    case False
    have run: "running (tk_status t)" by (rule wf_running [OF assms t False])
    show ?thesis
      using t False effect_move_task [OF t(1) failed_moved [OF run]] release_effect [OF assms t(1) run]
      by (auto simp: fail_task_eq [OF assms])
  qed
qed (auto simp: fail_task_def split: option.split)

lemma renew_claim_effects:
  assumes "db_wf db"
  shows "effects db (snd (renew_claim i k now db))"
proof -
  let ?f = "\<lambda>u. u\<lparr>tk_claim_expires_at := Some (now + seconds CLAIM_LEASE_SECONDS)\<rparr>"
  have "task_effect db (db\<lparr>tasks := sql_update (\<lambda>t. tk_id t = i) ?f (tasks db)\<rparr>)"
    by (rule task_effect.tweak) (simp add: tweaked_def same_row_def)
  moreover have "snd (renew_claim i k now db) \<in> {db, replace_task i ?f db}"
    by (auto simp: renew_claim_eq [OF db_wf_store_ok [OF assms]] split: option.split)
  ultimately show ?thesis by (auto simp: replace_task_def)
qed

lemma perform_effects:
  assumes "db_wf db"
  shows "effects db (perform w i k db)"
proof (cases w)
  case (SetPrepared p)
  then show ?thesis
    by (simp add: set_prepared_def) (intro guarded_update_effects [OF assms];
      simp add: tweaked_def same_row_def status_sets)
next
  case (SetSealed p)
  then show ?thesis
    by (simp add: set_sealed_def) (intro guarded_update_effects [OF assms];
      simp add: tweaked_def same_row_def status_sets)
next
  case (SetCommit c)
  then show ?thesis
    by (simp add: set_commit_def) (intro guarded_update_effects [OF assms];
      simp add: tweaked_def same_row_def status_sets)
qed (simp_all add: assms set_status_effects begin_publication_effects awaiting_review_effects
    fail_task_effects manual_intervention_effects mark_cancelled_effects interrupt_task_effects
    renew_claim_effects)

interpretation worker: fenced_write perform
  by unfold_locales (simp_all add: perform_stale perform_effects)

section \<open>Properties\<close>



text \<open>
  C11: a failed run settles its task.  For the holder of the claim, ending the run with an exception never
  raises: a task whose cancellation was requested becomes cancelled, any other becomes failed with the
  classified code and the last 2000 characters of the message; the claim is cleared, and the issue is
  open for dispatch again when nothing was committed.
\<close>

theorem fail_task_settles:
  assumes "db_wf db" "get_task i db = Some t" "tk_claim_token t = Some k"
    and "fail_task i k e now db = (r, db')"
  shows "r = Inr () \<and> (\<exists>t'. get_task i db' = Some t' \<and> tk_claim_token t' = None
      \<and> (if tk_status t = Cancelling then tk_status t' = Cancelled
         else tk_status t' = Failed \<and> tk_failure_code t' = Some (ErrorCode (classify_exception e))
           \<and> tk_failure_summary t' = Some (py_last 2000 (exc_str e))
           \<and> (tk_commit_sha t = None \<longrightarrow>
               (\<forall>s. (tk_issue_id t, s) \<in> set (triage_view db') \<longrightarrow> s = Discovered))))"
proof -
  have "tk_id t = i" using assms(2) by (auto dest: get_task_SomeD)
  then show ?thesis
    using assms(2-4)
    by (auto simp: fail_task_eq [OF assms(1)] get_task_move triage_view_set_triage cancelled_updates_def
        failed_updates_def split: if_splits)
qed

theorem fail_task_settles_witness:
  "(1, Discovered) \<in> set (triage_view (snd (fail_task 1 [7] (raise_exc ValueError []) 5
      (issue_db Reviewing (Some [7])))))"
proof -
  let ?db = "issue_db Reviewing (Some [7])"
  have wf: "db_wf ?db" by (simp add: wf_simps)
  have t: "get_task 1 ?db = Some (hd (tasks ?db))" by (simp add: wf_simps)
  have "tk_claim_token (hd (tasks ?db)) = Some [7]" "tk_status (hd (tasks ?db)) = Reviewing"
    "tk_commit_sha (hd (tasks ?db)) = None" "tk_issue_id (hd (tasks ?db)) = 1" by (simp_all add: wf_simps)
  with fail_task_settles [OF wf t, of "[7]" "raise_exc ValueError []" 5 "fst (fail_task 1 [7] (raise_exc ValueError []) 5 ?db)"
      "snd (fail_task 1 [7] (raise_exc ValueError []) 5 ?db)"]
  have all: "\<forall>s. (1, s) \<in> set (triage_view (snd (fail_task 1 [7] (raise_exc ValueError []) 5 ?db))) \<longrightarrow> s = Discovered"
    by auto
  have "1 \<in> fst ` set (triage_view (snd (fail_task 1 [7] (raise_exc ValueError []) 5 ?db)))"
    using t by (simp add: fail_task_eq [OF wf] triage_view_set_triage view_update_fst)
      (simp add: wf_simps triage_view_set_triage triage_view_def)
  with all show ?thesis by force
qed

end
