(* ===== verification/Broker.thy ===== *)
theory Broker
  imports Exceptions Py_Str "HOL-Library.AList"
begin

text \<open>
  \<open>coderus/model_proxy/broker.py\<close>: opaque bearer tokens for the agents, each with a lease on the model proxy,
  and the usage budget that the leases of one task stage share.

  The broker's two dictionaries are association lists.  \<open>digest\<close> stands for the SHA-256 of a token; a token is
  what \<open>secrets.token_urlsafe\<close> returned.  Every method holds the lock, so an interleaving of threads is a
  sequence of calls.
\<close>

record broker_lease =
  bl_expires_at :: time
  bl_task_id :: pystr
  bl_stage :: pystr
  bl_model :: pystr
  bl_max_concurrency :: int
  bl_in_flight :: int
  bl_upstream_error :: "pystr option"

record usage =
  bu_max_requests :: int
  bu_max_output_bytes :: int
  bu_request_count :: int
  bu_output_bytes :: int

text \<open>The tuple \<open>(task_id, stage)\<close>.\<close>

datatype usage_key = UsageKey pystr pystr

record 'd broker =
  br_model :: pystr
  br_default_ttl :: time
  br_leases :: "('d \<times> broker_lease) list"
  br_usage :: "(usage_key \<times> usage) list"

definition RESPONSES_ENDPOINT :: pystr where
  "RESPONSES_ENDPOINT = U ''/v1/responses''"

definition lease_rejected :: "int \<Rightarrow> pystr \<Rightarrow> pyexc" where
  "lease_rejected code msg = \<lparr>exc_cls = LeaseRejected, exc_str = msg, exc_status_code = Some code\<rparr>"

definition invalid_token :: pyexc where
  "invalid_token = lease_rejected 401 (U ''Invalid or expired bearer token'')"

definition get_lease :: "'d \<Rightarrow> 'd broker \<Rightarrow> broker_lease option" where
  "get_lease d b = map_of (br_leases b) d"

definition get_usage :: "usage_key \<Rightarrow> 'd broker \<Rightarrow> usage option" where
  "get_usage k b = map_of (br_usage b) k"

definition put_lease :: "'d \<Rightarrow> broker_lease \<Rightarrow> 'd broker \<Rightarrow> 'd broker" where
  "put_lease d l b = b\<lparr>br_leases := AList.update d l (br_leases b)\<rparr>"

definition put_usage :: "usage_key \<Rightarrow> usage \<Rightarrow> 'd broker \<Rightarrow> 'd broker" where
  "put_usage k u b = b\<lparr>br_usage := AList.update k u (br_usage b)\<rparr>"

definition lease_stage :: "broker_lease \<Rightarrow> usage_key" where
  "lease_stage l = UsageKey (bl_task_id l) (bl_stage l)"

section \<open>Operations\<close>

definition new_broker :: "pystr \<Rightarrow> time \<Rightarrow> pyexc + 'd broker" where
  "new_broker model ttl =
     (if strip model = [] then Inl (raise_exc ValueError (U ''configured_model must be non-empty''))
      else if ttl \<le> 0 then Inl (raise_exc ValueError (U ''default_ttl_seconds must be positive''))
      else Inr \<lparr>br_model = model, br_default_ttl = ttl, br_leases = [], br_usage = []\<rparr>)"

text \<open>\<open>_remove_lease\<close>: the shared usage goes with the last lease of its stage.\<close>

definition remove_lease :: "'d \<Rightarrow> 'd broker \<Rightarrow> bool \<times> 'd broker" where
  "remove_lease d b =
     (case get_lease d b of
        None \<Rightarrow> (False, b)
      | Some l \<Rightarrow>
          (let rest = AList.delete d (br_leases b)
           in (True, b\<lparr>br_leases := rest,
                 br_usage := (if list_ex (\<lambda>other. lease_stage (snd other) = lease_stage l) rest then br_usage b
                              else AList.delete (lease_stage l) (br_usage b))\<rparr>)))"

text \<open>The arguments of \<open>issue\<close>, with the defaults of its signature.\<close>

record issue_request =
  iq_task_id :: pystr
  iq_stage :: pystr
  iq_ttl :: "time option"
  iq_max_requests :: int
  iq_max_concurrency :: int
  iq_max_output_bytes :: int

definition default_request :: "pystr \<Rightarrow> pystr \<Rightarrow> time option \<Rightarrow> issue_request" where
  "default_request task_id stage ttl =
     \<lparr>iq_task_id = task_id, iq_stage = stage, iq_ttl = ttl, iq_max_requests = 256,
      iq_max_concurrency = 1, iq_max_output_bytes = 10 * 1024 * 1024\<rparr>"

definition issue_ttl :: "issue_request \<Rightarrow> 'd broker \<Rightarrow> time" where
  "issue_ttl q b = (case iq_ttl q of None \<Rightarrow> br_default_ttl b | Some t \<Rightarrow> t)"

definition check_request :: "issue_request \<Rightarrow> 'd broker \<Rightarrow> pyexc + unit" where
  "check_request q b =
     (if strip (iq_task_id q) = [] then Inl (raise_exc ValueError (U ''task_id must be non-empty''))
      else if strip (iq_stage q) = [] then Inl (raise_exc ValueError (U ''stage must be non-empty''))
      else if issue_ttl q b \<le> 0 then Inl (raise_exc ValueError (U ''ttl_seconds must be positive''))
      else if iq_max_requests q \<le> 0
        then Inl (raise_exc ValueError (U ''max_requests must be a positive integer''))
      else if iq_max_concurrency q \<le> 0
        then Inl (raise_exc ValueError (U ''max_concurrency must be a positive integer''))
      else if iq_max_output_bytes q \<le> 0
        then Inl (raise_exc ValueError (U ''max_output_bytes must be a positive integer''))
      else Inr ())"

definition issue_usage :: "issue_request \<Rightarrow> usage option \<Rightarrow> usage" where
  "issue_usage q old =
     (case old of
        None \<Rightarrow> \<lparr>bu_max_requests = iq_max_requests q, bu_max_output_bytes = iq_max_output_bytes q,
                 bu_request_count = 0, bu_output_bytes = 0\<rparr>
      | Some u \<Rightarrow> u\<lparr>bu_max_requests := min (bu_max_requests u) (iq_max_requests q),
                    bu_max_output_bytes := min (bu_max_output_bytes u) (iq_max_output_bytes q)\<rparr>)"

definition issue_token :: "('t \<Rightarrow> 'd) \<Rightarrow> 't \<Rightarrow> time \<Rightarrow> issue_request \<Rightarrow> 'd broker \<Rightarrow> (pyexc + 't) \<times> 'd broker" where
  "issue_token digest token now q b =
     (case check_request q b of
        Inl e \<Rightarrow> (Inl e, b)
      | Inr _ \<Rightarrow>
          (let key = UsageKey (iq_task_id q) (iq_stage q);
               b1 = put_usage key (issue_usage q (get_usage key b)) b
           in (Inr token,
               put_lease (digest token)
                 \<lparr>bl_expires_at = now + issue_ttl q b, bl_task_id = iq_task_id q, bl_stage = iq_stage q,
                  bl_model = br_model b, bl_max_concurrency = iq_max_concurrency q, bl_in_flight = 0,
                  bl_upstream_error = None\<rparr> b1)))"

definition set_upstream_error :: "'d \<Rightarrow> pystr option \<Rightarrow> 'd broker \<Rightarrow> 'd broker" where
  "set_upstream_error d message b =
     (case get_lease d b of None \<Rightarrow> b | Some l \<Rightarrow> put_lease d (l\<lparr>bl_upstream_error := message\<rparr>) b)"

definition take_upstream_error :: "'d \<Rightarrow> 'd broker \<Rightarrow> pystr option \<times> 'd broker" where
  "take_upstream_error d b =
     (case get_lease d b of
        None \<Rightarrow> (None, b)
      | Some l \<Rightarrow> (bl_upstream_error l, put_lease d (l\<lparr>bl_upstream_error := None\<rparr>) b))"

definition validate_token :: "'d \<Rightarrow> time \<Rightarrow> 'd broker \<Rightarrow> bool \<times> 'd broker" where
  "validate_token d now b =
     (case get_lease d b of
        None \<Rightarrow> (False, b)
      | Some l \<Rightarrow> if bl_expires_at l \<le> now then (False, snd (remove_lease d b)) else (True, b))"

text \<open>A stage without usage would be a \<open>KeyError\<close>; the invariant below excludes it.\<close>

definition acquire_permit :: "'d \<Rightarrow> time \<Rightarrow> pystr \<Rightarrow> pystr \<Rightarrow> 'd broker \<Rightarrow> (pyexc + unit) \<times> 'd broker" where
  "acquire_permit d now endpoint requested_model b =
     (case get_lease d b of
        None \<Rightarrow> (Inl invalid_token, b)
      | Some l \<Rightarrow>
          if bl_expires_at l \<le> now then (Inl invalid_token, snd (remove_lease d b))
          else if endpoint \<noteq> RESPONSES_ENDPOINT
            then (Inl (lease_rejected 403 (U ''Lease does not permit endpoint'')), b)
          else if requested_model \<noteq> bl_model l
            then (Inl (lease_rejected 403 (U ''Lease does not permit model'')), b)
          else case get_usage (lease_stage l) b of
            None \<Rightarrow> (Inl (raise_exc KeyError []), b)
          | Some u \<Rightarrow>
              if bu_max_requests u \<le> bu_request_count u
                then (Inl (lease_rejected 429 (U ''Lease request limit reached'')), b)
              else if bl_max_concurrency l \<le> bl_in_flight l
                then (Inl (lease_rejected 429 (U ''Lease concurrency limit reached'')), b)
              else (Inr (),
                put_lease d (l\<lparr>bl_in_flight := bl_in_flight l + 1\<rparr>)
                  (put_usage (lease_stage l) (u\<lparr>bu_request_count := bu_request_count u + 1\<rparr>) b)))"

definition usage_snapshot :: "pystr \<Rightarrow> pystr \<Rightarrow> 'd broker \<Rightarrow> (int \<times> int) option" where
  "usage_snapshot task_id stage b =
     map_option (\<lambda>u. (bu_request_count u, bu_output_bytes u)) (get_usage (UsageKey task_id stage) b)"

definition release_lease :: "'d \<Rightarrow> 'd broker \<Rightarrow> 'd broker" where
  "release_lease d b =
     (case get_lease d b of
        None \<Rightarrow> b
      | Some l \<Rightarrow> if 0 < bl_in_flight l then put_lease d (l\<lparr>bl_in_flight := bl_in_flight l - 1\<rparr>) b else b)"

definition record_output :: "'d \<Rightarrow> int \<Rightarrow> 'd broker \<Rightarrow> (pyexc + unit) \<times> 'd broker" where
  "record_output d n b =
     (if n < 0 then (Inl (raise_exc ValueError (U ''output size must be a non-negative integer'')), b)
      else case get_lease d b of
        None \<Rightarrow> (Inl invalid_token, b)
      | Some l \<Rightarrow>
          (case get_usage (lease_stage l) b of
             None \<Rightarrow> (Inl (raise_exc KeyError []), b)
           | Some u \<Rightarrow>
               if bu_max_output_bytes u < bu_output_bytes u + n
               then (Inl (lease_rejected 429 (U ''Lease output limit reached'')), b)
               else (Inr (), put_usage (lease_stage l) (u\<lparr>bu_output_bytes := bu_output_bytes u + n\<rparr>) b)))"

text \<open>
  A \<open>LeasePermit\<close> remembers its release.  \<open>issued_stage_token\<close> brackets a stage: it issues, runs the body and
  revokes whatever happened.
\<close>

record 'd permit =
  pm_digest :: 'd
  pm_released :: bool

definition release_permit :: "'d permit \<Rightarrow> 'd broker \<Rightarrow> 'd permit \<times> 'd broker" where
  "release_permit p b =
     (if pm_released p then (p, b) else (p\<lparr>pm_released := True\<rparr>, release_lease (pm_digest p) b))"

definition issued_stage_token ::
  "('t \<Rightarrow> 'd) \<Rightarrow> 't \<Rightarrow> time \<Rightarrow> pystr \<Rightarrow> pystr \<Rightarrow> time \<Rightarrow> ('t \<Rightarrow> 'd broker \<Rightarrow> (pyexc + 'a) \<times> 'd broker) \<Rightarrow>
    'd broker \<Rightarrow> (pyexc + 'a) \<times> 'd broker" where
  "issued_stage_token digest token now task_id stage ttl body b =
     (case issue_token digest token now (default_request task_id stage (Some ttl)) b of
        (Inl e, b1) \<Rightarrow> (Inl e, b1)
      | (Inr tk, b1) \<Rightarrow>
          (let (r, b2) = body tk b1 in (r, snd (remove_lease (digest tk) b2))))"

section \<open>Sequences of calls\<close>

text \<open>The threads' calls in the order of the lock; a permit is named by its position.\<close>

datatype 'd call =
    Issue 'd time issue_request
  | SetError 'd "pystr option"
  | TakeError 'd
  | Validate 'd time
  | Acquire 'd time pystr pystr
  | Release nat
  | RecordOutput nat int
  | Revoke 'd

type_synonym 'd broker_state = "'d permit list \<times> 'd broker"

fun broker_call :: "'d call \<Rightarrow> 'd broker_state \<Rightarrow> 'd broker_state" where
  "broker_call (Issue d now q) (ps, b) = (ps, snd (issue_token id d now q b))"
| "broker_call (SetError d m) (ps, b) = (ps, set_upstream_error d m b)"
| "broker_call (TakeError d) (ps, b) = (ps, snd (take_upstream_error d b))"
| "broker_call (Validate d now) (ps, b) = (ps, snd (validate_token d now b))"
| "broker_call (Acquire d now e m) (ps, b) =
     (case acquire_permit d now e m b of
        (Inl _, b') \<Rightarrow> (ps, b')
      | (Inr _, b') \<Rightarrow> (ps @ [\<lparr>pm_digest = d, pm_released = False\<rparr>], b'))"
| "broker_call (Release k) (ps, b) =
     (if k < length ps then (let (p, b') = release_permit (ps ! k) b in (ps[k := p], b')) else (ps, b))"
| "broker_call (RecordOutput k n) (ps, b) =
     (if k < length ps then (ps, snd (record_output (pm_digest (ps ! k)) n b)) else (ps, b))"
| "broker_call (Revoke d) (ps, b) = (ps, snd (remove_lease d b))"

definition broker_run :: "'d call list \<Rightarrow> 'd broker_state \<Rightarrow> 'd broker_state" where
  "broker_run calls s = foldl (\<lambda>s c. broker_call c s) s calls"

fun issued :: "'d call list \<Rightarrow> 'd list" where
  "issued [] = []"
| "issued (Issue d now q # cs) = d # issued cs"
| "issued (_ # cs) = issued cs"

text \<open>Limits that every \<open>Issue\<close> of a sequence respects.\<close>

fun within :: "int \<Rightarrow> int \<Rightarrow> int \<Rightarrow> 'd call \<Rightarrow> bool" where
  "within R C O' (Issue d now q) =
     (iq_max_requests q \<le> R \<and> iq_max_concurrency q \<le> C \<and> iq_max_output_bytes q \<le> O')"
| "within R C O' _ = True"

section \<open>The invariant\<close>

definition open_permits :: "'d \<Rightarrow> 'd permit list \<Rightarrow> nat" where
  "open_permits d ps = length (filter (\<lambda>p. pm_digest p = d \<and> \<not> pm_released p) ps)"

text \<open>
  Every lease has the usage of its stage and every usage a lease; the counter of a lease is the number of its
  permits not yet released; nothing exceeds its limit.
\<close>

definition lease_ok :: "int \<Rightarrow> 'd broker_state \<Rightarrow> 'd \<Rightarrow> broker_lease \<Rightarrow> bool" where
  "lease_ok C s d l \<longleftrightarrow> get_usage (lease_stage l) (snd s) \<noteq> None
     \<and> bl_in_flight l = int (open_permits d (fst s)) \<and> bl_in_flight l \<le> bl_max_concurrency l
     \<and> bl_max_concurrency l \<le> C"

definition usage_ok :: "int \<Rightarrow> int \<Rightarrow> usage \<Rightarrow> bool" where
  "usage_ok R O' u \<longleftrightarrow> 0 \<le> bu_request_count u \<and> bu_request_count u \<le> R \<and> bu_max_requests u \<le> R
     \<and> 0 \<le> bu_output_bytes u \<and> bu_output_bytes u \<le> O' \<and> bu_max_output_bytes u \<le> O'"

definition broker_inv :: "int \<Rightarrow> int \<Rightarrow> int \<Rightarrow> 'd list \<Rightarrow> 'd broker_state \<Rightarrow> bool" where
  "broker_inv R C O' seen s \<longleftrightarrow>
     distinct (map fst (br_leases (snd s))) \<and> distinct (map fst (br_usage (snd s)))
     \<and> (\<forall>d l. get_lease d (snd s) = Some l \<longrightarrow> d \<in> set seen \<and> lease_ok C s d l)
     \<and> (\<forall>p \<in> set (fst s). pm_digest p \<in> set seen)
     \<and> (\<forall>k u. get_usage k (snd s) = Some u \<longrightarrow> usage_ok R O' u
          \<and> (\<exists>d l. get_lease d (snd s) = Some l \<and> lease_stage l = k))"

lemma put_simps [simp]:
  "get_lease d' (put_lease d l b) = (if d' = d then Some l else get_lease d' b)"
  "get_usage k (put_lease d l b) = get_usage k b"
  "get_usage k' (put_usage k u b) = (if k' = k then Some u else get_usage k' b)"
  "get_lease d (put_usage k u b) = get_lease d b"
  "distinct (map fst (br_leases b)) \<Longrightarrow> distinct (map fst (br_leases (put_lease d l b)))"
  "br_usage (put_lease d l b) = br_usage b" "br_leases (put_usage k u b) = br_leases b"
  "distinct (map fst (br_usage b)) \<Longrightarrow> distinct (map fst (br_usage (put_usage k u b)))"
  by (auto simp: put_lease_def put_usage_def get_lease_def get_usage_def update_conv' distinct_update)

lemma other_lease_iff:
  assumes "distinct (map fst (br_leases b))"
  shows "list_ex (\<lambda>other. lease_stage (snd other) = k) (AList.delete d (br_leases b))
    \<longleftrightarrow> (\<exists>d' l'. d' \<noteq> d \<and> get_lease d' b = Some l' \<and> lease_stage l' = k)"
proof -
  have "distinct (map fst (AList.delete d (br_leases b)))" using assms by (rule distinct_delete)
  then have "(d', l') \<in> set (AList.delete d (br_leases b)) \<longleftrightarrow> d' \<noteq> d \<and> get_lease d' b = Some l'" for d' l'
    by (auto simp: get_lease_def delete_conv' simp flip: map_of_eq_Some_iff split: if_splits)
  note member = this
  show ?thesis
  proof
    assume "list_ex (\<lambda>other. lease_stage (snd other) = k) (AList.delete d (br_leases b))"
    then obtain d' l' where "(d', l') \<in> set (AList.delete d (br_leases b))" "lease_stage l' = k"
      by (auto simp: list_ex_iff)
    with member show "\<exists>d' l'. d' \<noteq> d \<and> get_lease d' b = Some l' \<and> lease_stage l' = k" by blast
  next
    assume "\<exists>d' l'. d' \<noteq> d \<and> get_lease d' b = Some l' \<and> lease_stage l' = k"
    then obtain d' l' where x: "(d', l') \<in> set (AList.delete d (br_leases b))" "lease_stage l' = k"
      using member by blast
    show "list_ex (\<lambda>other. lease_stage (snd other) = k) (AList.delete d (br_leases b))"
      unfolding list_ex_iff by (rule bexI [OF _ x(1)]) (simp add: x(2))
  qed
qed

lemma remove_lease_get:
  assumes "distinct (map fst (br_leases b))" "snd (remove_lease d b) = b'"
  shows "get_lease d' b' = (if d' = d then None else get_lease d' b)"
    and "get_usage k b' = (case get_lease d b of
      None \<Rightarrow> get_usage k b
    | Some l \<Rightarrow>
        if k = lease_stage l \<and> \<not> (\<exists>d' l'. d' \<noteq> d \<and> get_lease d' b = Some l' \<and> lease_stage l' = k)
        then None else get_usage k b)"
    and "distinct (map fst (br_leases b'))"
    and "distinct (map fst (br_usage b)) \<Longrightarrow> distinct (map fst (br_usage b'))"
proof -
  show "get_lease d' b' = (if d' = d then None else get_lease d' b)"
    using assms(2) by (auto simp: remove_lease_def get_lease_def delete_conv' Let_def split: option.splits)
  show "get_usage k b' = (case get_lease d b of
      None \<Rightarrow> get_usage k b
    | Some l \<Rightarrow>
        if k = lease_stage l \<and> \<not> (\<exists>d' l'. d' \<noteq> d \<and> get_lease d' b = Some l' \<and> lease_stage l' = k)
        then None else get_usage k b)"
    unfolding assms(2) [symmetric] remove_lease_def
    by (cases "get_lease d b")
      (simp_all add: Let_def other_lease_iff [OF assms(1)] get_usage_def delete_conv', blast)
  show "distinct (map fst (br_leases b'))" "distinct (map fst (br_usage b)) \<Longrightarrow> distinct (map fst (br_usage b'))"
    using assms by (auto simp: remove_lease_def Let_def distinct_delete split: option.splits)
qed

lemma broker_invD:
  assumes "broker_inv R C O' seen (ps, b)"
  shows "distinct (map fst (br_leases b))" "distinct (map fst (br_usage b))"
    "get_lease d b = Some l \<Longrightarrow> d \<in> set seen \<and> lease_ok C (ps, b) d l"
    "p \<in> set ps \<Longrightarrow> pm_digest p \<in> set seen"
    "get_usage k b = Some u \<Longrightarrow> usage_ok R O' u \<and> (\<exists>d l. get_lease d b = Some l \<and> lease_stage l = k)"
  using assms by (auto simp: broker_inv_def)

lemma broker_invI:
  assumes "distinct (map fst (br_leases b))" "distinct (map fst (br_usage b))"
    "\<And>d l. get_lease d b = Some l \<Longrightarrow> d \<in> set seen \<and> lease_ok C (ps, b) d l"
    "\<And>p. p \<in> set ps \<Longrightarrow> pm_digest p \<in> set seen"
    "\<And>k u. get_usage k b = Some u \<Longrightarrow> usage_ok R O' u \<and> (\<exists>d l. get_lease d b = Some l \<and> lease_stage l = k)"
  shows "broker_inv R C O' seen (ps, b)"
  unfolding broker_inv_def fst_conv snd_conv using assms by blast

lemma inv_remove:
  assumes "broker_inv R C O' seen (ps, b)"
  shows "broker_inv R C O' seen (ps, snd (remove_lease d b))"
proof -
  note D = broker_invD [OF assms] and G = remove_lease_get [OF broker_invD(1) [OF assms] refl, where d = d]
  show ?thesis
  proof (rule broker_invI)
    fix e m assume "get_lease e (snd (remove_lease d b)) = Some m"
    then have e: "get_lease e b = Some m" "e \<noteq> d" by (simp_all add: G(1) split: if_splits)
    then have "get_usage (lease_stage m) (snd (remove_lease d b)) \<noteq> None"
      using D(3) [OF e(1)] by (auto simp: lease_ok_def G(2) split: option.split)
    with D(3) [OF e(1)] show "e \<in> set seen \<and> lease_ok C (ps, snd (remove_lease d b)) e m"
      by (simp add: lease_ok_def)
  next
    fix k u assume u: "get_usage k (snd (remove_lease d b)) = Some u"
    then have old: "get_usage k b = Some u" by (simp add: G(2) split: option.splits if_splits)
    then obtain e m where e: "get_lease e b = Some m" "lease_stage m = k" using D(5) by blast
    have "\<exists>e' m'. e' \<noteq> d \<and> get_lease e' b = Some m' \<and> lease_stage m' = k"
    proof (cases "e = d")
      case True
      with u e show ?thesis by (auto simp: G(2) split: if_splits)
    qed (use e in blast)
    then show "usage_ok R O' u \<and> (\<exists>e m. get_lease e (snd (remove_lease d b)) = Some m \<and> lease_stage m = k)"
      using D(5) [OF old] by (auto simp: G(1))
  qed (use D G in auto)
qed

text \<open>Replacing a lease by one of the same stage, and the usage of a stage that has one.\<close>

lemma inv_put_lease:
  assumes "broker_inv R C O' seen (ps, b)" "get_lease d b = Some l" "lease_stage l' = lease_stage l"
    "bl_in_flight l' = int (open_permits d ps')" "bl_in_flight l' \<le> bl_max_concurrency l'"
    "bl_max_concurrency l' \<le> C" "\<And>e. e \<noteq> d \<Longrightarrow> open_permits e ps' = open_permits e ps"
    "\<And>p. p \<in> set ps' \<Longrightarrow> pm_digest p \<in> set seen"
  shows "broker_inv R C O' seen (ps', put_lease d l' b)"
proof -
  note D = broker_invD [OF assms(1)]
  show ?thesis
  proof (rule broker_invI)
    fix e m assume e: "get_lease e (put_lease d l' b) = Some m"
    show "e \<in> set seen \<and> lease_ok C (ps', put_lease d l' b) e m"
      using e D(3) [of e m] D(3) [OF assms(2)] assms(3-7) by (simp add: lease_ok_def split: if_splits)
  next
    fix k u assume u: "get_usage k (put_lease d l' b) = Some u"
    then have "get_usage k b = Some u" by simp
    from D(5) [OF this] obtain e m where "get_lease e b = Some m" "lease_stage m = k" by blast
    then have "\<exists>e m. get_lease e (put_lease d l' b) = Some m \<and> lease_stage m = k"
      using assms(2,3) by (cases "e = d") auto
    then show "usage_ok R O' u \<and> (\<exists>e m. get_lease e (put_lease d l' b) = Some m \<and> lease_stage m = k)"
      using u D(5) by simp
  qed (use D assms(8) in simp_all)
qed

lemma inv_put_usage:
  assumes "broker_inv R C O' seen (ps, b)" "get_usage k b \<noteq> None" "usage_ok R O' u"
  shows "broker_inv R C O' seen (ps, put_usage k u b)"
proof -
  note D = broker_invD [OF assms(1)]
  show ?thesis
  proof (rule broker_invI)
    fix e m assume e: "get_lease e (put_usage k u b) = Some m"
    then show "e \<in> set seen \<and> lease_ok C (ps, put_usage k u b) e m"
      using D(3) [of e m] by (simp add: lease_ok_def)
  next
    fix j v assume v: "get_usage j (put_usage k u b) = Some v"
    obtain v' where "get_usage j b = Some v'" "j \<noteq> k \<Longrightarrow> v' = v"
      using v assms(2) by (cases "j = k") auto
    then show "usage_ok R O' v \<and> (\<exists>e m. get_lease e (put_usage k u b) = Some m \<and> lease_stage m = j)"
      using D(5) v assms(3) by (cases "j = k") auto
  qed (use D in simp_all)
qed

lemma inv_seen: "broker_inv R C O' seen s \<Longrightarrow> broker_inv R C O' (seen @ xs) s"
  unfolding broker_inv_def by auto

lemma open_permits_snoc [simp]:
  "open_permits d (ps @ [\<lparr>pm_digest = e, pm_released = False\<rparr>]) = open_permits d ps + (if e = d then 1 else 0)"
  by (simp add: open_permits_def)

lemma open_permits_release:
  assumes "k < length ps" "\<not> pm_released (ps ! k)"
  shows "open_permits d ps = open_permits d (ps[k := (ps ! k)\<lparr>pm_released := True\<rparr>])
      + (if pm_digest (ps ! k) = d then 1 else 0)"
  using assms
proof (induction ps arbitrary: k)
  case (Cons p ps)
  show ?case
  proof (cases k)
    case 0
    with Cons.prems show ?thesis by (simp add: open_permits_def)
  next
    case (Suc j)
    with Cons.IH [of j] Cons.prems show ?thesis by (simp add: open_permits_def)
  qed
qed simp

lemma issue_usage_ok:
  assumes "check_request q b = Inr ()" "within R C O' (Issue d now q)" "\<And>u. old = Some u \<Longrightarrow> usage_ok R O' u"
  shows "usage_ok R O' (issue_usage q old)"
proof (cases old)
  case None
  with assms(1,2) show ?thesis by (auto simp: issue_usage_def usage_ok_def check_request_def split: if_splits)
next
  case (Some u)
  with assms(3) [OF Some] assms(2) show ?thesis by (simp add: issue_usage_def usage_ok_def min_le_iff_disj)
qed

lemma inv_issue:
  assumes inv: "broker_inv R C O' seen (ps, b)" and fresh: "d \<notin> set seen" and w: "within R C O' (Issue d now q)"
  shows "broker_inv R C O' (seen @ [d]) (ps, snd (issue_token id d now q b))"
proof (cases "check_request q b")
  case (Inl e)
  with inv_seen [OF inv] show ?thesis by (simp add: issue_token_def)
next
  case (Inr u)
  note D = broker_invD [OF inv]
  define k where "k = UsageKey (iq_task_id q) (iq_stage q)"
  define v where "v = issue_usage q (get_usage k b)"
  define l where "l = \<lparr>bl_expires_at = now + issue_ttl q b, bl_task_id = iq_task_id q, bl_stage = iq_stage q,
    bl_model = br_model b, bl_max_concurrency = iq_max_concurrency q, bl_in_flight = 0, bl_upstream_error = None\<rparr>"
  have eq: "snd (issue_token id d now q b) = put_lease d l (put_usage k v b)"
    by (simp add: issue_token_def Inr Let_def v_def l_def k_def)
  have v: "usage_ok R O' v"
    unfolding v_def using Inr w D(5) by (intro issue_usage_ok) auto
  have l: "lease_stage l = k" "bl_in_flight l = 0" "0 < bl_max_concurrency l" "bl_max_concurrency l \<le> C"
    using Inr w by (auto simp: l_def k_def lease_stage_def check_request_def split: if_splits)
  have none: "open_permits d ps = 0" "get_lease d b = None"
    using fresh D(3,4) by (auto simp: open_permits_def filter_empty_conv simp del: not_None_eq) (cases "get_lease d b"; blast)
  show ?thesis
    unfolding eq
  proof (rule broker_invI)
    fix e m assume e: "get_lease e (put_lease d l (put_usage k v b)) = Some m"
    show "e \<in> set (seen @ [d]) \<and> lease_ok C (ps, put_lease d l (put_usage k v b)) e m"
      using e D(3) [of e m] none l by (cases "e = d") (auto simp: lease_ok_def)
  next
    fix j w assume j: "get_usage j (put_lease d l (put_usage k v b)) = Some w"
    show "usage_ok R O' w \<and> (\<exists>e m. get_lease e (put_lease d l (put_usage k v b)) = Some m \<and> lease_stage m = j)"
    proof (cases "j = k")
      case True
      with j v l(1) show ?thesis by auto
    next
      case False
      with j have "get_usage j b = Some w" by simp
      with D(5) obtain e m where "usage_ok R O' w" "get_lease e b = Some m" "lease_stage m = j" by blast
      moreover have "e \<noteq> d" using calculation(2) none(2) by auto
      ultimately show ?thesis by auto
    qed
  qed (use D in auto)
qed

lemma inv_keep_lease:
  assumes "broker_inv R C O' seen (ps, b)" "get_lease d b = Some l" "lease_stage l' = lease_stage l"
    "bl_in_flight l' = bl_in_flight l" "bl_max_concurrency l' = bl_max_concurrency l"
  shows "broker_inv R C O' seen (ps, put_lease d l' b)"
  by (rule inv_put_lease [OF assms(1-3)])
    (use broker_invD(3) [OF assms(1,2)] broker_invD(4) [OF assms(1)] assms(4,5) in
      \<open>simp_all add: lease_ok_def\<close>)

lemma inv_acquire:
  assumes inv: "broker_inv R C O' seen (ps, b)"
  shows "broker_inv R C O' seen (broker_call (Acquire d now e m) (ps, b))"
proof (cases "fst (acquire_permit d now e m b)")
  case (Inl x)
  have "snd (acquire_permit d now e m b) = b \<or> snd (acquire_permit d now e m b) = snd (remove_lease d b)"
    using Inl by (auto simp: acquire_permit_def split: option.splits if_splits)
  with Inl inv inv_remove [OF inv, of d] show ?thesis
    by (auto split: prod.split)
next
  case (Inr x)
  then obtain l u where l: "get_lease d b = Some l" and u: "get_usage (lease_stage l) b = Some u"
    and r: "bu_request_count u < bu_max_requests u" and c: "bl_in_flight l < bl_max_concurrency l"
    and eq: "acquire_permit d now e m b = (Inr (), put_lease d (l\<lparr>bl_in_flight := bl_in_flight l + 1\<rparr>)
      (put_usage (lease_stage l) (u\<lparr>bu_request_count := bu_request_count u + 1\<rparr>) b))"
    by (auto simp: acquire_permit_def split: option.splits if_splits)
  note D = broker_invD [OF inv]
  have "usage_ok R O' (u\<lparr>bu_request_count := bu_request_count u + 1\<rparr>)"
    using D(5) [OF u] r by (simp add: usage_ok_def)
  then have inv': "broker_inv R C O' seen
      (ps, put_usage (lease_stage l) (u\<lparr>bu_request_count := bu_request_count u + 1\<rparr>) b)"
    using inv_put_usage [OF inv] u by blast
  have "broker_inv R C O' seen (ps @ [\<lparr>pm_digest = d, pm_released = False\<rparr>],
      put_lease d (l\<lparr>bl_in_flight := bl_in_flight l + 1\<rparr>)
        (put_usage (lease_stage l) (u\<lparr>bu_request_count := bu_request_count u + 1\<rparr>) b))"
    by (rule inv_put_lease [OF inv'])
      (use l D(3) [OF l] D(4) c in \<open>auto simp: lease_ok_def lease_stage_def\<close>)
  then show ?thesis by (simp add: eq)
qed

lemma inv_release:
  assumes inv: "broker_inv R C O' seen (ps, b)"
  shows "broker_inv R C O' seen (broker_call (Release k) (ps, b))"
proof (cases "k < length ps \<and> \<not> pm_released (ps ! k)")
  case False
  then show ?thesis using inv by (auto simp: release_permit_def Let_def)
next
  case True
  define d where "d = pm_digest (ps ! k)"
  define ps' where "ps' = ps[k := (ps ! k)\<lparr>pm_released := True\<rparr>]"
  note D = broker_invD [OF inv]
  have n: "open_permits e ps = open_permits e ps' + (if d = e then 1 else 0)" for e
    unfolding ps'_def d_def using True by (intro open_permits_release) auto
  have seen: "pm_digest p \<in> set seen" if "p \<in> set ps'" for p
    using that D(4) True set_update_subset_insert [of ps k] unfolding ps'_def by fastforce
  have step: "broker_call (Release k) (ps, b) = (ps', release_lease d b)"
    using True by (simp add: release_permit_def ps'_def d_def)
  show ?thesis
  proof (cases "get_lease d b")
    case None
    have "lease_ok C (ps', b) e m" if e: "get_lease e b = Some m" for e m
    proof -
      have "d \<noteq> e" using None e by auto
      with D(3) [OF e] n [of e] show ?thesis by (simp add: lease_ok_def)
    qed
    then have "broker_inv R C O' seen (ps', b)"
      using D seen by (intro broker_invI) auto
    then show ?thesis unfolding step by (simp add: release_lease_def None)
  next
    case (Some l)
    have "0 < bl_in_flight l" using D(3) [OF Some] n [of d] by (simp add: lease_ok_def)
    moreover have "broker_inv R C O' seen (ps', put_lease d (l\<lparr>bl_in_flight := bl_in_flight l - 1\<rparr>) b)"
      by (rule inv_put_lease [OF inv Some])
        (use D(3) [OF Some] n seen in \<open>auto simp: lease_ok_def lease_stage_def\<close>)
    ultimately show ?thesis unfolding step by (simp add: release_lease_def Some)
  qed
qed

lemma inv_record:
  assumes inv: "broker_inv R C O' seen (ps, b)"
  shows "broker_inv R C O' seen (ps, snd (record_output d n b))"
proof (cases "fst (record_output d n b)")
  case (Inl x)
  then have "snd (record_output d n b) = b"
    by (auto simp: record_output_def split: option.splits if_splits)
  with inv show ?thesis by simp
next
  case (Inr x)
  then obtain l u where u: "get_usage (lease_stage l) b = Some u" "0 \<le> n"
      "bu_output_bytes u + n \<le> bu_max_output_bytes u"
    and eq: "snd (record_output d n b) = put_usage (lease_stage l) (u\<lparr>bu_output_bytes := bu_output_bytes u + n\<rparr>) b"
    by (auto simp: record_output_def split: option.splits if_splits)
  have "usage_ok R O' (u\<lparr>bu_output_bytes := bu_output_bytes u + n\<rparr>)"
    using broker_invD(5) [OF inv u(1)] u(2,3) by (simp add: usage_ok_def)
  then show ?thesis unfolding eq using inv_put_usage [OF inv] u(1) by blast
qed

lemma inv_call:
  assumes "broker_inv R C O' seen s" "distinct (seen @ issued [c])" "within R C O' c"
  shows "broker_inv R C O' (seen @ issued [c]) (broker_call c s)"
proof -
  obtain ps b where s: "s = (ps, b)" by fastforce
  note inv = assms(1) [unfolded s]
  show ?thesis
  proof (cases c)
    case (Issue d now q)
    then show ?thesis using inv_issue [OF inv, of d now q] assms(2,3) by (simp add: s)
  next
    case (SetError d m)
    show ?thesis
      using inv_keep_lease [OF inv, of d]
      by (cases "get_lease d b")
        (simp_all add: SetError s inv set_upstream_error_def lease_stage_def)
  next
    case (TakeError d)
    show ?thesis
      using inv_keep_lease [OF inv, of d]
      by (cases "get_lease d b")
        (simp_all add: TakeError s inv take_upstream_error_def lease_stage_def)
  next
    case (Validate d now)
    show ?thesis
      using inv inv_remove [OF inv, of d]
      by (cases "get_lease d b") (simp_all add: Validate s validate_token_def)
  next
    case (Acquire d now e m)
    with inv_acquire [OF inv] show ?thesis by (simp add: s del: broker_call.simps)
  next
    case (Release k)
    with inv_release [OF inv] show ?thesis by (simp add: s del: broker_call.simps)
  next
    case (RecordOutput k n)
    with inv inv_record [OF inv] show ?thesis by (simp add: s)
  next
    case (Revoke d)
    with inv_remove [OF inv] show ?thesis by (simp add: s)
  qed
qed

lemma issued_Cons: "issued (c # cs) = issued [c] @ issued cs"
  by (cases c) simp_all

lemma inv_run:
  "broker_inv R C O' seen s \<Longrightarrow> distinct (seen @ issued cs) \<Longrightarrow> list_all (within R C O') cs \<Longrightarrow>
     broker_inv R C O' (seen @ issued cs) (broker_run cs s)"
proof (induction cs arbitrary: seen s)
  case Nil
  then show ?case by (simp add: broker_run_def)
next
  case (Cons c cs)
  have d: "distinct ((seen @ issued [c]) @ issued cs)"
    using Cons.prems(2) unfolding issued_Cons [of c cs] by simp
  then have "distinct (seen @ issued [c])" by auto
  from inv_call [OF Cons.prems(1) this] Cons.prems(3)
  have "broker_inv R C O' (seen @ issued [c]) (broker_call c s)" by simp
  from Cons.IH [OF this d] Cons.prems(3) show ?case
    unfolding issued_Cons [of c cs] by (simp add: broker_run_def)
qed

lemma inv_new: "new_broker model ttl = Inr b \<Longrightarrow> broker_inv R C O' [] ([], b)"
  by (auto simp: new_broker_def broker_inv_def get_lease_def get_usage_def split: if_splits)


definition sample_calls :: "nat call list" where
  "sample_calls = [Issue 1 0 (default_request [49] [50] None), Acquire 1 1 RESPONSES_ENDPOINT [109],
     Acquire 1 2 RESPONSES_ENDPOINT [109], RecordOutput 0 500, Release 0]"


text \<open>
  C24: A stage's token does not outlive the stage.  Whatever the body does with the broker and however it ends,
  after \<open>issued_stage_token\<close> the token is rejected everywhere, and the body's result or exception is passed on.
\<close>

theorem stage_token_is_revoked:
  assumes "check_request (default_request task_id stage (Some ttl)) b = Inr ()"
  shows "case issued_stage_token digest token now task_id stage ttl body b of (r, b') \<Rightarrow>
      r = fst (body token (snd (issue_token digest token now (default_request task_id stage (Some ttl)) b)))
      \<and> validate_token (digest token) t b' = (False, b')
      \<and> acquire_permit (digest token) t e m b' = (Inl invalid_token, b')
      \<and> record_output (digest token) 0 b' = (Inl invalid_token, b')"
proof -
  let ?q = "default_request task_id stage (Some ttl)"
  obtain b1 where i: "issue_token digest token now ?q b = (Inr token, b1)"
    using assms by (simp add: issue_token_def Let_def)
  obtain r b2 where body: "body token b1 = (r, b2)" by fastforce
  have none: "get_lease (digest token) (snd (remove_lease (digest token) b2)) = None"
    by (auto simp: remove_lease_def get_lease_def delete_conv' Let_def split: option.split)
  show ?thesis
    using none by (simp add: issued_stage_token_def i body validate_token_def acquire_permit_def record_output_def)
qed

theorem stage_token_is_revoked_witness:
  "snd (issued_stage_token id (5::nat) 0 [49] [50] 9
     (\<lambda>t b. (Inl (raise_exc TimeoutError []), snd (acquire_permit t 1 RESPONSES_ENDPOINT [109] b)))
     \<lparr>br_model = [109], br_default_ttl = 300, br_leases = [], br_usage = []\<rparr>)
   = \<lparr>br_model = [109], br_default_ttl = 300, br_leases = [], br_usage = []\<rparr>
   \<and> fst (issued_stage_token id (5::nat) 0 [49] [50] 9
     (\<lambda>t b. (Inl (raise_exc TimeoutError []) :: pyexc + unit, snd (acquire_permit t 1 RESPONSES_ENDPOINT [109] b)))
     \<lparr>br_model = [109], br_default_ttl = 300, br_leases = [], br_usage = []\<rparr>) = Inl (raise_exc TimeoutError [])"
proof -
  let ?b = "\<lparr>br_model = [109], br_default_ttl = 300, br_leases = [], br_usage = []\<rparr> :: nat broker"
  have "check_request (default_request [49] [50] (Some 9)) ?b = Inr ()"
    by (simp add: check_request_def default_request_def issue_ttl_def strip_def lstrip_def rstrip_def isspace_def)
  from stage_token_is_revoked [OF this, where digest = id and token = 5 and now = 0 and body =
      "\<lambda>t b. (Inl (raise_exc TimeoutError []) :: pyexc + unit, snd (acquire_permit t 1 RESPONSES_ENDPOINT [109] b))"]
  show ?thesis
    by (simp add: issued_stage_token_def issue_token_def check_request_def default_request_def
        issue_ttl_def strip_def lstrip_def rstrip_def isspace_def Let_def issue_usage_def acquire_permit_def
        RESPONSES_ENDPOINT_def lease_stage_def remove_lease_def
        put_lease_def put_usage_def get_lease_def get_usage_def)
qed

end
