(* ===== verification/Forge_Registry.thy ===== *)
theory Forge_Registry
  imports Schema
begin

text \<open>
  \<open>coderus/forge/registry.py\<close> and the value types of \<open>forge/models.py\<close> and \<open>forge/protocols.py\<close>: which
  code platforms are configured, with which capabilities.

  A forge object is opaque (type \<open>'f\<close>).  The locale \<open>forge_lookup\<close> is the contract the workflow and the
  pollers rely on: they ask \<open>supports\<close> and then call \<open>require\<close>.
\<close>

section \<open>Values\<close>

datatype capability =
    EnsureFork | Publish | ListPrFeedback | GetPrStatus | GetPullRequest | PublishPrComment

definition ALL_FORGE_CAPABILITIES :: "capability list" where
  "ALL_FORGE_CAPABILITIES =
     [EnsureFork, Publish, ListPrFeedback, GetPrStatus, GetPullRequest, PublishPrComment]"

lemma all_capabilities: "c \<in> set ALL_FORGE_CAPABILITIES"
  by (cases c) (simp_all add: ALL_FORGE_CAPABILITIES_def)

record feedback_item =
  fbi_provider_id :: pystr
  fbi_kind :: pystr
  fbi_author :: pystr
  fbi_author_association :: pystr
  fbi_body :: pystr
  fbi_url :: pystr
  fbi_path :: "pystr option"
  fbi_line :: "int option"

record pull_details =
  pd_number :: int
  pd_url :: pystr
  pd_state :: pystr
  pd_merged :: bool
  pd_base_sha :: pystr
  pd_head_sha :: pystr
  pd_base_ref :: pystr
  pd_head_ref :: pystr
  pd_head_repository_url :: pystr

record forge_repository =
  fr_provider :: provider
  fr_owner :: pystr
  fr_name :: pystr
  fr_canonical_url :: pystr
  fr_default_branch :: "pystr option"
  fr_is_private :: "bool option"
  fr_issues_enabled :: "bool option"

record forge_issue =
  fi_external_id :: pystr
  fi_number :: int
  fi_title :: pystr
  fi_body :: "pystr option"
  fi_state :: issue_state
  fi_labels :: "pystr list"
  fi_canonical_url :: pystr
  fi_updated_at :: "time option"

record publish_request =
  pq_workspace :: pystr
  pq_upstream_owner :: pystr
  pq_repository_name :: pystr
  pq_default_branch :: pystr
  pq_branch :: pystr
  pq_title :: pystr
  pq_body :: pystr

text \<open>
  \<open>PublishRequest.__post_init__\<close>.  The workspace is an absolute path (a POSIX path starting with a
  slash) and is replaced by its resolution, for which \<open>resolve\<close> stands.
\<close>

definition publish_request :: "(pystr \<Rightarrow> pystr) \<Rightarrow> publish_request \<Rightarrow> pyexc + publish_request" where
  "publish_request resolve q =
     (if \<not> startswith (pq_workspace q) (U ''/'')
        then Inl (raise_exc ValueError (U ''workspace must be an absolute path''))
      else if strip (pq_upstream_owner q) = []
        then Inl (raise_exc ValueError (U ''upstream_owner must not be empty''))
      else if strip (pq_repository_name q) = []
        then Inl (raise_exc ValueError (U ''repository_name must not be empty''))
      else if strip (pq_title q) = []
        then Inl (raise_exc ValueError (U ''title must not be empty''))
      else if strip (pq_default_branch q) = [] \<or> strip (pq_branch q) = []
        then Inl (raise_exc ValueError (U ''branch names must not be empty''))
      else if pq_default_branch q = pq_branch q
        then Inl (raise_exc ValueError (U ''work branch must differ from the default branch''))
      else Inr (q\<lparr>pq_workspace := resolve (pq_workspace q)\<rparr>))"

section \<open>Registrations\<close>

record 'f registration =
  rg_forge :: "'f option"
  rg_capabilities :: "capability list"

text \<open>\<open>ForgeRegistration(forge, capabilities)\<close>; capabilities have the enum's type by construction.\<close>

definition forge_registration :: "'f option \<Rightarrow> capability list \<Rightarrow> pyexc + 'f registration" where
  "forge_registration forge caps =
     (if forge = None \<and> caps \<noteq> []
      then Inl (raise_exc ValueError (U ''an unavailable forge cannot expose capabilities''))
      else Inr \<lparr>rg_forge = forge, rg_capabilities = caps\<rparr>)"

definition registration_full :: "'f \<Rightarrow> 'f registration" where
  "registration_full forge = \<lparr>rg_forge = Some forge, rg_capabilities = ALL_FORGE_CAPABILITIES\<rparr>"

definition registration_unavailable :: "'f registration" where
  "registration_unavailable = \<lparr>rg_forge = None, rg_capabilities = []\<rparr>"

definition registration_supports :: "'f registration \<Rightarrow> capability list \<Rightarrow> bool" where
  "registration_supports r caps =
     (rg_forge r \<noteq> None \<and> list_all (\<lambda>c. c \<in> set (rg_capabilities r)) caps)"

type_synonym 'f registry = "provider \<Rightarrow> 'f registration option"

definition install_registration :: "provider \<Rightarrow> 'f registration \<Rightarrow> 'f registry \<Rightarrow> 'f registry" where
  "install_registration p r reg = reg(p \<mapsto> r)"

definition install :: "provider \<Rightarrow> 'f \<Rightarrow> capability list \<Rightarrow> 'f registry \<Rightarrow> pyexc + 'f registry" where
  "install p forge caps reg =
     (case forge_registration (Some forge) caps of
        Inl e \<Rightarrow> Inl e | Inr r \<Rightarrow> Inr (install_registration p r reg))"

definition registry_get :: "'f registry \<Rightarrow> provider \<Rightarrow> 'f option" where
  "registry_get reg p = (case reg p of None \<Rightarrow> None | Some r \<Rightarrow> rg_forge r)"

fun platform_name :: "provider \<Rightarrow> pystr" where
  "platform_name Github = U ''GitHub''"
| "platform_name Gitcode = U ''GitCode''"

definition MSG_NOT_CONFIGURED :: pystr where \<comment> \<open>the platform is not configured yet\<close>
  "MSG_NOT_CONFIGURED = [32, 24179, 21488, 23578, 26410, 37197, 32622]"

definition require_forge :: "'f registry \<Rightarrow> provider \<Rightarrow> pyexc + 'f" where
  "require_forge reg p =
     (case registry_get reg p of
        None \<Rightarrow> Inl (raise_exc ForgeNotConfigured (platform_name p @ MSG_NOT_CONFIGURED))
      | Some f \<Rightarrow> Inr f)"

definition registry_configured :: "'f registry \<Rightarrow> provider \<Rightarrow> bool" where
  "registry_configured reg p = (reg p \<noteq> None)"

definition registry_supports :: "'f registry \<Rightarrow> provider \<Rightarrow> capability list \<Rightarrow> bool" where
  "registry_supports reg p caps =
     (case reg p of None \<Rightarrow> False | Some r \<Rightarrow> registration_supports r caps)"

definition registry_remove :: "provider \<Rightarrow> 'f registry \<Rightarrow> 'f registry" where
  "registry_remove p reg = (if reg p = None then reg else reg(p := None))"

section \<open>The lookup contract\<close>

locale forge_lookup =
  fixes supports :: "'r \<Rightarrow> provider \<Rightarrow> capability list \<Rightarrow> bool"
    and get_forge :: "'r \<Rightarrow> provider \<Rightarrow> 'f option"
    and require :: "'r \<Rightarrow> provider \<Rightarrow> pyexc + 'f"
  assumes supports_get: "supports r p caps \<Longrightarrow> get_forge r p \<noteq> None"
    and supports_mono: "supports r p caps \<Longrightarrow> set caps' \<subseteq> set caps \<Longrightarrow> supports r p caps'"
    and require_get: "require r p = Inr f \<longleftrightarrow> get_forge r p = Some f"
    and require_error: "require r p = Inl e \<Longrightarrow> isinstance e ForgeNotConfigured"
begin

text \<open>Code that checked a capability can call the forge.\<close>

lemma supported_require: "supports r p caps \<Longrightarrow> \<exists>f. require r p = Inr f \<and> get_forge r p = Some f"
  using supports_get require_get by fastforce

lemma unsupported_when_missing: "require r p = Inl e \<Longrightarrow> \<not> supports r p caps"
  using supported_require by fastforce

text \<open>A failed lookup is classified as a missing configuration.\<close>

lemma require_error_code: "require r p = Inl e \<Longrightarrow> exc_cls e = ForgeNotConfigured \<Longrightarrow>
    classify_exception e = FORGE_AUTH_FAILED"
  by (simp add: classify_exception_def isinstance_def)

end

interpretation forges: forge_lookup registry_supports registry_get require_forge
  by unfold_locales
    (auto simp: registry_supports_def registry_get_def require_forge_def registration_supports_def
        list_all_iff split: option.splits)

text \<open>
  The registry tells the truth about itself.  After an installation the platform supports exactly the
  sub-lists of the installed capabilities and looking it up yields the installed forge, every other
  platform is unaffected, and removal makes lookups fail as unconfigured.
\<close>

theorem registry_install_lookup:
  "\<exists>reg'. install p forge caps reg = Inr reg'
    \<and> (\<forall>cs. registry_supports reg' p cs \<longleftrightarrow> set cs \<subseteq> set caps)
    \<and> require_forge reg' p = Inr forge
    \<and> (\<forall>q cs. q = p \<or> registry_supports reg' q cs = registry_supports reg q cs
         \<and> require_forge reg' q = require_forge reg q)
    \<and> (\<forall>cs. \<not> registry_supports (registry_remove p reg') p cs)
    \<and> (\<exists>e. require_forge (registry_remove p reg') p = Inl e \<and> classify_exception e = FORGE_AUTH_FAILED)"
proof -
  let ?reg = "install_registration p \<lparr>rg_forge = Some forge, rg_capabilities = caps\<rparr> reg"
  have "install p forge caps reg = Inr ?reg"
    by (simp add: install_def forge_registration_def)
  moreover have "registry_supports ?reg p cs \<longleftrightarrow> set cs \<subseteq> set caps" for cs
    by (auto simp: registry_supports_def install_registration_def registration_supports_def list_all_iff)
  moreover have "require_forge ?reg p = Inr forge"
    by (simp add: forges.require_get registry_get_def install_registration_def)
  moreover have "registry_supports ?reg q cs = registry_supports reg q cs
      \<and> require_forge ?reg q = require_forge reg q" if "q \<noteq> p" for q cs
    using that by (simp add: registry_supports_def require_forge_def registry_get_def install_registration_def)
  moreover have removed: "require_forge (registry_remove p ?reg) p
      = Inl (raise_exc ForgeNotConfigured (platform_name p @ MSG_NOT_CONFIGURED))"
    by (simp add: require_forge_def registry_get_def registry_remove_def install_registration_def)
  moreover have "\<not> registry_supports (registry_remove p ?reg) p cs" for cs
    using forges.unsupported_when_missing [OF removed] .
  moreover have "classify_exception (raise_exc ForgeNotConfigured m) = FORGE_AUTH_FAILED" for m
    using forges.require_error_code [OF removed] by (simp add: classify_exception_def)
  ultimately show ?thesis by blast
qed

end
