(* ===== verification/Feedback.thy ===== *)
theory Feedback
  imports Task_State Forge_Registry
begin

text \<open>
  \<open>coderus/workflow/feedback.py\<close>: storing one review comment of a pull request.  Older rows carry the
  platform's id without the platform's name; the upsert renames or merges them.
\<close>

fun provider_str :: "provider \<Rightarrow> pystr" where
  "provider_str Github = U ''github''"
| "provider_str Gitcode = U ''gitcode''"

definition feedback_key :: "provider \<Rightarrow> feedback_item \<Rightarrow> pystr" where
  "feedback_key p item = provider_str p @ U '':'' @ fbi_provider_id item"

text \<open>\<open>min(selected) if selected else None\<close> over the values that are set.\<close>

fun earliest :: "time option \<Rightarrow> time option \<Rightarrow> time option" where
  "earliest None y = y"
| "earliest x None = x"
| "earliest (Some a) (Some b) = Some (min a b)"

definition has_key :: "int \<Rightarrow> pystr \<Rightarrow> pr_feedback \<Rightarrow> bool" where
  "has_key task_id pid r = (fb_task_id r = task_id \<and> fb_provider_id r = pid)"

text \<open>Step one: bring a row without the platform's name under the new key.\<close>

definition merge_legacy :: "int \<Rightarrow> provider \<Rightarrow> feedback_item \<Rightarrow> pr_feedback list \<Rightarrow> pr_feedback list" where
  "merge_legacy task_id p item rows =
     (let key = feedback_key p item;
          prefixed = find (has_key task_id key) rows;
          legacy = find (\<lambda>r. has_key task_id (fbi_provider_id item) r
                       \<and> map_option fb_id prefixed \<noteq> Some (fb_id r)) rows
      in case legacy of
           None \<Rightarrow> rows
         | Some l \<Rightarrow>
             (case prefixed of
                None \<Rightarrow> sql_update (\<lambda>r. fb_id r = fb_id l) (\<lambda>r. r\<lparr>fb_provider_id := key\<rparr>) rows
              | Some q \<Rightarrow>
                  filter (\<lambda>r. fb_id r \<noteq> fb_id l)
                    (sql_update (\<lambda>r. fb_id r = fb_id q)
                      (\<lambda>r. r\<lparr>fb_selected_at := earliest (fb_selected_at q) (fb_selected_at l),
                             fb_processed_at := earliest (fb_processed_at q) (fb_processed_at l)\<rparr>) rows)))"

text \<open>Step two: \<open>INSERT ... ON CONFLICT (task_id, provider_id) DO UPDATE\<close> of the content columns.\<close>

definition write_content :: "feedback_item \<Rightarrow> pr_feedback \<Rightarrow> pr_feedback" where
  "write_content item r = r\<lparr>fb_kind := fbi_kind item, fb_author := fbi_author item,
     fb_author_association := fbi_author_association item, fb_body := fbi_body item,
     fb_url := fbi_url item, fb_path := fbi_path item, fb_line := fbi_line item\<rparr>"

definition insert_feedback :: "int \<Rightarrow> pystr \<Rightarrow> feedback_item \<Rightarrow> pr_feedback list \<Rightarrow> pr_feedback list" where
  "insert_feedback task_id key item rows =
     (if find (has_key task_id key) rows \<noteq> None
      then sql_update (has_key task_id key) (write_content item) rows
      else rows @ [write_content item
        \<lparr>fb_id = fresh_id (map fb_id rows), fb_task_id = task_id, fb_provider_id = key, fb_kind = [],
         fb_author = [], fb_author_association = [], fb_body = [], fb_url = [], fb_path = None,
         fb_line = None, fb_selected_at = None, fb_processed_at = None\<rparr>])"

definition upsert_pr_feedback :: "int \<Rightarrow> provider \<Rightarrow> feedback_item \<Rightarrow> db \<Rightarrow> db" where
  "upsert_pr_feedback task_id p item db =
     db\<lparr>feedback := insert_feedback task_id (feedback_key p item) item
                     (merge_legacy task_id p item (feedback db))\<rparr>"

definition upsert_all :: "int \<Rightarrow> provider \<Rightarrow> feedback_item list \<Rightarrow> db \<Rightarrow> db" where
  "upsert_all task_id p items db = fold (\<lambda>item d. upsert_pr_feedback task_id p item d) items db"

section \<open>The unique key\<close>

definition feedback_ok :: "pr_feedback list \<Rightarrow> bool" where
  "feedback_ok rows \<longleftrightarrow> distinct (map fb_id rows)
     \<and> distinct (map (\<lambda>r. (fb_task_id r, fb_provider_id r)) rows)"

lemma key_differs: "feedback_key p item \<noteq> fbi_provider_id item"
proof
  assume "feedback_key p item = fbi_provider_id item"
  then have "length (feedback_key p item) = length (fbi_provider_id item)" by simp
  then show False by (simp add: feedback_key_def U_def)
qed

lemma feedback_okD:
  assumes "feedback_ok rows" "r \<in> set rows" "s \<in> set rows"
  shows "fb_id r = fb_id s \<Longrightarrow> r = s"
    and "has_key i k r \<Longrightarrow> has_key i k s \<Longrightarrow> r = s"
  using assms key_unique [of fb_id rows r s]
    key_unique [of "\<lambda>r. (fb_task_id r, fb_provider_id r)" rows r s]
  by (simp_all add: feedback_ok_def has_key_def)

lemma find_has_key:
  assumes "feedback_ok rows"
  shows "find (has_key i k) rows = Some r \<longleftrightarrow> r \<in> set rows \<and> has_key i k r"
proof
  assume "r \<in> set rows \<and> has_key i k r"
  then show "find (has_key i k) rows = Some r"
    using assms by (intro find_key_Some [where key = "\<lambda>r. (fb_task_id r, fb_provider_id r)" and k = "(i, k)"])
      (auto simp: feedback_ok_def has_key_def)
qed (auto dest: find_SomeD)

text \<open>
  An update of one row, found by its id, that keeps the table's keys distinct: rename it to a key no
  other row has, or leave the key alone.
\<close>

lemma distinct_map_update:
  assumes "distinct (map fb_id rows)" "r \<in> set rows" "distinct (map key rows)"
    and "\<And>s. s \<in> set rows \<Longrightarrow> s \<noteq> r \<Longrightarrow> key s \<noteq> key (f r)"
  shows "distinct (map key (sql_update (\<lambda>s. fb_id s = fb_id r) f rows))"
  using assms
proof (induction rows)
  case (Cons s rows)
  show ?case
  proof (cases "s = r")
    case True
    have "fb_id t \<noteq> fb_id r" if "t \<in> set rows" for t
      using Cons.prems(1) True that by (auto simp: image_iff)
    then have "sql_update (\<lambda>s. fb_id s = fb_id r) f rows = rows" by (intro sql_update_id) auto
    moreover have "key (f r) \<noteq> key t" if "t \<in> set rows" for t
    proof -
      have "t \<noteq> r" using Cons.prems(1) True that by auto
      with Cons.prems(4) [of t] that show ?thesis by simp
    qed
    ultimately show ?thesis using Cons.prems(3) True by auto
  next
    case False
    then have r: "r \<in> set rows" using Cons.prems(2) by simp
    have ids: "fb_id s \<noteq> fb_id r" using Cons.prems(1) r by (auto simp: image_iff)
    have "distinct (map key (sql_update (\<lambda>s. fb_id s = fb_id r) f rows))"
      using Cons.prems r by (intro Cons.IH) auto
    moreover have "key s \<noteq> key t" if "t \<in> set (sql_update (\<lambda>s. fb_id s = fb_id r) f rows)" for t
    proof -
      obtain u where u: "u \<in> set rows" "t = (if fb_id u = fb_id r then f u else u)"
        using \<open>t \<in> _\<close> unfolding set_sql_update by blast
      show ?thesis
      proof (cases "fb_id u = fb_id r")
        case True
        then have "u = r" using Cons.prems(1) u(1) r key_unique [of fb_id rows u r] by simp
        with True u(2) Cons.prems(4) [of s] False show ?thesis by simp
      next
        case False
        with u Cons.prems(3) show ?thesis by (auto simp: image_iff)
      qed
    qed
    ultimately show ?thesis using ids by auto
  qed
qed simp

lemma set_update_id:
  assumes "distinct (map fb_id rows)" "r \<in> set rows"
  shows "set (sql_update (\<lambda>s. fb_id s = fb_id r) f rows) = insert (f r) (set rows - {r})"
proof -
  have "(if fb_id s = fb_id r then f s else s) = (if s = r then f r else s)" if "s \<in> set rows" for s
    using key_unique [OF assms(1) that assms(2)] by auto
  then have "(\<lambda>s. if fb_id s = fb_id r then f s else s) ` set rows
      = (\<lambda>s. if s = r then f r else s) ` set rows" by (rule image_cong [OF refl])
  also have "\<dots> = insert (f r) (set rows - {r})" using assms(2) by auto
  finally show ?thesis by (simp add: set_sql_update)
qed

lemma feedback_ok_update:
  assumes "feedback_ok rows" "r \<in> set rows" "fb_id (f r) = fb_id r"
    and "\<And>s. s \<in> set rows \<Longrightarrow> s \<noteq> r \<Longrightarrow> (fb_task_id s, fb_provider_id s) \<noteq> (fb_task_id (f r), fb_provider_id (f r))"
  shows "feedback_ok (sql_update (\<lambda>s. fb_id s = fb_id r) f rows)"
proof -
  have d: "distinct (map fb_id rows)" "distinct (map (\<lambda>r. (fb_task_id r, fb_provider_id r)) rows)"
    using assms(1) by (simp_all add: feedback_ok_def)
  have "distinct (map fb_id (sql_update (\<lambda>s. fb_id s = fb_id r) f rows))"
  proof (rule distinct_map_update [OF d(1) assms(2) d(1)])
    fix s assume "s \<in> set rows" "s \<noteq> r"
    then show "fb_id s \<noteq> fb_id (f r)" using feedback_okD(1) [OF assms(1) _ assms(2)] assms(3) by auto
  qed
  moreover have "distinct (map (\<lambda>r. (fb_task_id r, fb_provider_id r))
      (sql_update (\<lambda>s. fb_id s = fb_id r) f rows))"
    by (rule distinct_map_update [OF d(1) assms(2) d(2)]) (use assms(4) in auto)
  ultimately show ?thesis by (simp add: feedback_ok_def)
qed

lemma feedback_ok_filter: "feedback_ok rows \<Longrightarrow> feedback_ok (filter p rows)"
  by (simp add: feedback_ok_def distinct_map_filter)

lemma legacy_eq:
  assumes "feedback_ok rows"
  shows "find (\<lambda>r. has_key i (fbi_provider_id item) r
      \<and> map_option fb_id (find (has_key i (feedback_key p item)) rows) \<noteq> Some (fb_id r)) rows
    = find (has_key i (fbi_provider_id item)) rows"
proof (rule find_cong [OF refl])
  fix r assume r: "r \<in> set rows"
  have False if "has_key i (fbi_provider_id item) r"
    "find (has_key i (feedback_key p item)) rows = Some q" "fb_id q = fb_id r" for q
  proof -
    have "q \<in> set rows" "has_key i (feedback_key p item) q" using that(2) by (auto dest: find_SomeD)
    moreover have "q = r" using feedback_okD(1) [OF assms calculation(1) r that(3)] .
    ultimately show False using that(1) key_differs [of p item] by (simp add: has_key_def)
  qed
  then show "(has_key i (fbi_provider_id item) r
      \<and> map_option fb_id (find (has_key i (feedback_key p item)) rows) \<noteq> Some (fb_id r))
    = has_key i (fbi_provider_id item) r" by auto
qed

lemma merge_legacy_eq:
  assumes "feedback_ok rows"
  shows "merge_legacy i p item rows =
    (case find (has_key i (fbi_provider_id item)) rows of
       None \<Rightarrow> rows
     | Some l \<Rightarrow>
         (case find (has_key i (feedback_key p item)) rows of
            None \<Rightarrow> sql_update (\<lambda>r. fb_id r = fb_id l) (\<lambda>r. r\<lparr>fb_provider_id := feedback_key p item\<rparr>) rows
          | Some q \<Rightarrow>
              filter (\<lambda>r. fb_id r \<noteq> fb_id l)
                (sql_update (\<lambda>r. fb_id r = fb_id q)
                  (\<lambda>r. r\<lparr>fb_selected_at := earliest (fb_selected_at q) (fb_selected_at l),
                         fb_processed_at := earliest (fb_processed_at q) (fb_processed_at l)\<rparr>) rows)))"
  unfolding merge_legacy_def Let_def legacy_eq [OF assms] ..

text \<open>The selection columns of the row with a key, before the upsert.\<close>

definition marks :: "int \<Rightarrow> pystr \<Rightarrow> pr_feedback list \<Rightarrow> time option \<times> time option" where
  "marks i k rows =
     (case find (has_key i k) rows of None \<Rightarrow> (None, None) | Some r \<Rightarrow> (fb_selected_at r, fb_processed_at r))"

definition merged_marks :: "int \<Rightarrow> provider \<Rightarrow> feedback_item \<Rightarrow> pr_feedback list \<Rightarrow> time option \<times> time option" where
  "merged_marks i p item rows =
     (let (s, d) = marks i (feedback_key p item) rows; (s', d') = marks i (fbi_provider_id item) rows
      in (earliest s s', earliest d d'))"

lemma earliest_None [simp]: "earliest x None = x"
  by (cases x) simp_all

definition untouched :: "int \<Rightarrow> provider \<Rightarrow> feedback_item \<Rightarrow> pr_feedback \<Rightarrow> bool" where
  "untouched i p item r = (\<not> has_key i (feedback_key p item) r \<and> \<not> has_key i (fbi_provider_id item) r)"

lemma merge_legacy_facts:
  assumes ok: "feedback_ok rows" and rows'_def: "rows' = merge_legacy i p item rows"
  shows "feedback_ok rows'" "marks i (feedback_key p item) rows' = merged_marks i p item rows"
    "find (has_key i (fbi_provider_id item)) rows' = None"
    "\<And>r. untouched i p item r \<Longrightarrow> r \<in> set rows' \<longleftrightarrow> r \<in> set rows"
proof -
  let ?key = "feedback_key p item" and ?old = "fbi_provider_id item"
  note ids = feedback_okD(1) [OF ok] and keys = feedback_okD(2) [OF ok]
  have d: "distinct (map fb_id rows)" using ok by (simp add: feedback_ok_def)
  have "feedback_ok rows' \<and> marks i ?key rows' = merged_marks i p item rows
    \<and> find (has_key i ?old) rows' = None
    \<and> (\<forall>r. untouched i p item r \<longrightarrow> r \<in> set rows' \<longleftrightarrow> r \<in> set rows)"
  proof (cases "find (has_key i ?old) rows")
    case None
    then have "rows' = rows" by (simp add: rows'_def merge_legacy_eq [OF ok])
    with ok None show ?thesis by (simp add: merged_marks_def marks_def split: option.split)
  next
    case (Some l)
    have l: "l \<in> set rows" "has_key i ?old l" using Some by (auto dest: find_SomeD)
    show ?thesis
    proof (cases "find (has_key i ?key) rows")
      case None
      let ?l = "l\<lparr>fb_provider_id := ?key\<rparr>"
      have nokey: "\<not> has_key i ?key r" if "r \<in> set rows" for r
        using None that by (auto simp: find_None_iff)
      have rows': "rows' = sql_update (\<lambda>r. fb_id r = fb_id l) (\<lambda>r. r\<lparr>fb_provider_id := ?key\<rparr>) rows"
        by (simp add: rows'_def merge_legacy_eq [OF ok] Some None)
      have set': "set rows' = insert ?l (set rows - {l})"
        unfolding rows' by (rule set_update_id [OF d l(1)])
      have "(fb_task_id s, fb_provider_id s) \<noteq> (fb_task_id ?l, fb_provider_id ?l)"
        if "s \<in> set rows" for s using nokey [OF that] l(2) by (auto simp: has_key_def)
      then have ok': "feedback_ok rows'" unfolding rows' by (intro feedback_ok_update [OF ok l(1)]) auto
      have lk: "has_key i ?key ?l" using l(2) by (simp add: has_key_def)
      have fnd: "find (has_key i ?key) rows' = Some ?l"
        unfolding find_has_key [OF ok'] using lk by (simp add: set')
      have "marks i ?key rows' = merged_marks i p item rows"
        by (simp add: merged_marks_def marks_def fnd None \<open>find (has_key i ?old) rows = Some l\<close>)
      moreover have nold: "\<not> has_key i ?old r" if "r \<in> set rows'" for r
      proof
        assume r: "has_key i ?old r"
        have "\<not> has_key i ?key r" using r key_differs [of p item] by (simp add: has_key_def)
        then have "r \<noteq> ?l" using lk by blast
        with that have "r \<in> set rows" "r \<noteq> l" by (auto simp: set')
        with keys [OF _ l(1) r l(2)] show False by blast
      qed
      moreover have "find (has_key i ?old) rows' = None" using nold by (auto simp: find_None_iff)
      moreover have "r \<in> set rows' \<longleftrightarrow> r \<in> set rows" if "untouched i p item r" for r
        using that l(2) lk by (auto simp: set' untouched_def)
      ultimately show ?thesis
        using ok' by blast
    next
      case (Some q)
      have q: "q \<in> set rows" "has_key i ?key q" using Some by (auto dest: find_SomeD)
      have lq: "fb_id l \<noteq> fb_id q"
      proof
        assume "fb_id l = fb_id q"
        then have "l = q" by (rule ids [OF l(1) q(1)])
        with l(2) q(2) key_differs [of p item] show False by (simp add: has_key_def)
      qed
      let ?f = "\<lambda>r. r\<lparr>fb_selected_at := earliest (fb_selected_at q) (fb_selected_at l),
                       fb_processed_at := earliest (fb_processed_at q) (fb_processed_at l)\<rparr>"
      let ?up = "sql_update (\<lambda>r. fb_id r = fb_id q) ?f rows"
      have rows': "rows' = filter (\<lambda>r. fb_id r \<noteq> fb_id l) ?up"
        by (simp add: rows'_def merge_legacy_eq [OF ok] \<open>find (has_key i ?old) rows = Some l\<close> Some)
      have set_up: "set ?up = insert (?f q) (set rows - {q})" by (rule set_update_id [OF d q(1)])
      have other: "fb_id s \<noteq> fb_id l \<longleftrightarrow> s \<noteq> l" if "s \<in> set rows" for s
        using ids [OF that l(1)] by blast
      have "set rows' = {s \<in> insert (?f q) (set rows - {q}). fb_id s \<noteq> fb_id l}"
        unfolding rows' set_filter set_up by blast
      also have "\<dots> = insert (?f q) (set rows - {q, l})" using lq other by auto
      finally have set': "set rows' = insert (?f q) (set rows - {q, l})" .
      have "feedback_ok ?up"
      proof (rule feedback_ok_update [OF ok q(1)])
        fix s assume s: "s \<in> set rows" "s \<noteq> q"
        have "\<not> has_key i ?key s" using keys [OF s(1) q(1) _ q(2)] s(2) by blast
        then show "(fb_task_id s, fb_provider_id s) \<noteq> (fb_task_id (?f q), fb_provider_id (?f q))"
          using q(2) by (auto simp: has_key_def)
      qed simp
      then have ok': "feedback_ok rows'" unfolding rows' by (rule feedback_ok_filter)
      have fk: "has_key i ?key (?f q)" using q(2) by (simp add: has_key_def)
      have fnd: "find (has_key i ?key) rows' = Some (?f q)"
        unfolding find_has_key [OF ok'] using fk by (simp add: set')
      have "marks i ?key rows' = merged_marks i p item rows"
        by (simp add: merged_marks_def marks_def fnd Some \<open>find (has_key i ?old) rows = Some l\<close>)
      moreover have nold: "\<not> has_key i ?old r" if "r \<in> set rows'" for r
      proof
        assume r: "has_key i ?old r"
        have "\<not> has_key i ?key r" using r key_differs [of p item] by (simp add: has_key_def)
        then have "r \<noteq> ?f q" using fk by blast
        with that have "r \<in> set rows" "r \<noteq> l" by (auto simp: set')
        with keys [OF _ l(1) r l(2)] show False by blast
      qed
      moreover have "find (has_key i ?old) rows' = None" using nold by (auto simp: find_None_iff)
      moreover have "r \<in> set rows' \<longleftrightarrow> r \<in> set rows" if "untouched i p item r" for r
        using that l(2) q(2) fk by (auto simp: set' untouched_def)
      ultimately show ?thesis
        using ok' by blast
    qed
  qed
  then show "feedback_ok rows'" "marks i ?key rows' = merged_marks i p item rows"
    "find (has_key i ?old) rows' = None"
    "\<And>r. untouched i p item r \<Longrightarrow> r \<in> set rows' \<longleftrightarrow> r \<in> set rows" by blast+
qed

lemma write_content_frame [simp]:
  "fb_id (write_content item r) = fb_id r" "fb_task_id (write_content item r) = fb_task_id r"
  "fb_provider_id (write_content item r) = fb_provider_id r"
  "fb_selected_at (write_content item r) = fb_selected_at r"
  "fb_processed_at (write_content item r) = fb_processed_at r"
  "write_content item (write_content item r) = write_content item r"
  "has_key i k (write_content item r) = has_key i k r"
  by (simp_all add: write_content_def has_key_def)

lemma insert_feedback_set:
  assumes ok: "feedback_ok rows"
  shows "\<exists>r. feedback_ok (insert_feedback i k item rows)
    \<and> r \<in> set (insert_feedback i k item rows) \<and> has_key i k r \<and> write_content item r = r
    \<and> (fb_selected_at r, fb_processed_at r) = marks i k rows
    \<and> (\<forall>s. \<not> has_key i k s \<longrightarrow> s \<in> set (insert_feedback i k item rows) \<longleftrightarrow> s \<in> set rows)"
proof (cases "find (has_key i k) rows")
  case (Some q)
  have q: "q \<in> set rows" "has_key i k q" using Some by (auto dest: find_SomeD)
  have d: "distinct (map fb_id rows)" using ok by (simp add: feedback_ok_def)
  have "has_key i k s = (fb_id s = fb_id q)" if "s \<in> set rows" for s
    using feedback_okD [OF ok that q(1)] q(2) by blast
  then have rows': "insert_feedback i k item rows = sql_update (\<lambda>s. fb_id s = fb_id q) (write_content item) rows"
    by (simp add: insert_feedback_def Some) (intro sql_update_cong; simp)
  have set': "set (insert_feedback i k item rows) = insert (write_content item q) (set rows - {q})"
    unfolding rows' by (rule set_update_id [OF d q(1)])
  have "feedback_ok (insert_feedback i k item rows)"
    unfolding rows'
  proof (rule feedback_ok_update [OF ok q(1)])
    fix s assume s: "s \<in> set rows" "s \<noteq> q"
    have "\<not> has_key i k s" using feedback_okD(2) [OF ok s(1) q(1) _ q(2)] s(2) by blast
    then show "(fb_task_id s, fb_provider_id s)
        \<noteq> (fb_task_id (write_content item q), fb_provider_id (write_content item q))"
      using q(2) by (auto simp: has_key_def)
  qed simp
  moreover have "s \<in> set (insert_feedback i k item rows) \<longleftrightarrow> s \<in> set rows" if "\<not> has_key i k s" for s
  proof -
    have "s \<noteq> q" "s \<noteq> write_content item q" using that q(2) by auto
    then show ?thesis unfolding set' by blast
  qed
  ultimately show ?thesis
    using q(2) by (intro exI [of _ "write_content item q"]) (simp add: set' marks_def Some)
next
  case None
  let ?r = "write_content item \<lparr>fb_id = fresh_id (map fb_id rows), fb_task_id = i, fb_provider_id = k,
     fb_kind = [], fb_author = [], fb_author_association = [], fb_body = [], fb_url = [], fb_path = None,
     fb_line = None, fb_selected_at = None, fb_processed_at = None\<rparr>"
  have rows': "insert_feedback i k item rows = rows @ [?r]" by (simp add: insert_feedback_def None)
  have nokey: "\<not> has_key i k s" if "s \<in> set rows" for s using None that by (auto simp: find_None_iff)
  have "fb_id ?r \<notin> fb_id ` set rows" using fresh_id_notin [of "map fb_id rows"] by simp
  moreover have "(i, k) \<notin> (\<lambda>s. (fb_task_id s, fb_provider_id s)) ` set rows"
    using nokey by (auto simp: has_key_def)
  ultimately have "feedback_ok (insert_feedback i k item rows)"
    using ok by (simp add: rows' feedback_ok_def)
  then show ?thesis
    by (intro exI [of _ ?r]) (auto simp: rows' marks_def None has_key_def)
qed

lemma feedback_ok_upsert:
  "feedback_ok (feedback db) \<Longrightarrow> feedback_ok (feedback (upsert_pr_feedback i p item db))"
  unfolding upsert_pr_feedback_def
  by (drule merge_legacy_facts(1) [where i = i and p = p and item = item, OF _ refl],
      drule insert_feedback_set [where i = i and k = "feedback_key p item" and item = item]) auto

text \<open>
  C13: one comment, one row, and no lost selection.  When the task's rows have distinct keys they still
  do afterwards; the comment has exactly one row, under the platform's key and with the platform's
  content; the selection and processing marks are the earliest of the rows that were merged into it;
  no row is left under the old key; and every other row is unchanged.
\<close>

theorem upsert_feedback_merges:
  assumes "feedback_ok (feedback db)"
  shows "feedback_ok (feedback (upsert_pr_feedback i p item db))
    \<and> (\<exists>r. find (has_key i (feedback_key p item)) (feedback (upsert_pr_feedback i p item db)) = Some r
         \<and> write_content item r = r
         \<and> (fb_selected_at r, fb_processed_at r) = merged_marks i p item (feedback db))
    \<and> find (has_key i (fbi_provider_id item)) (feedback (upsert_pr_feedback i p item db)) = None
    \<and> (\<forall>r. untouched i p item r \<longrightarrow>
         r \<in> set (feedback (upsert_pr_feedback i p item db)) \<longleftrightarrow> r \<in> set (feedback db))"
proof -
  let ?rows = "merge_legacy i p item (feedback db)" and ?key = "feedback_key p item"
  let ?rows' = "insert_feedback i ?key item ?rows"
  note m = merge_legacy_facts [where i = i and p = p and item = item, OF assms refl]
  have up: "feedback (upsert_pr_feedback i p item db) = ?rows'" by (simp add: upsert_pr_feedback_def)
  obtain r where r: "feedback_ok ?rows'" "r \<in> set ?rows'" "has_key i ?key r" "write_content item r = r"
    "(fb_selected_at r, fb_processed_at r) = marks i ?key ?rows"
    "\<And>s. \<not> has_key i ?key s \<Longrightarrow> s \<in> set ?rows' \<longleftrightarrow> s \<in> set ?rows"
    using insert_feedback_set [OF m(1), of i ?key item] by blast
  have "find (has_key i ?key) ?rows' = Some r" unfolding find_has_key [OF r(1)] using r(2,3) by blast
  moreover have "find (has_key i (fbi_provider_id item)) ?rows' = None"
    unfolding find_None_iff
  proof
    assume "\<exists>s. s \<in> set ?rows' \<and> has_key i (fbi_provider_id item) s"
    then obtain s where s: "s \<in> set ?rows'" "has_key i (fbi_provider_id item) s" by blast
    have "\<not> has_key i ?key s" using s(2) key_differs [of p item] by (simp add: has_key_def)
    with r(6) s(1) have "s \<in> set ?rows" by blast
    with m(3) s(2) show False by (auto simp: find_None_iff)
  qed
  moreover have "s \<in> set ?rows' \<longleftrightarrow> s \<in> set (feedback db)" if "untouched i p item s" for s
    using r(6) [of s] m(4) [OF that] that by (simp add: untouched_def)
  ultimately show ?thesis using r(1,4,5) m(2) unfolding up by auto
qed

theorem upsert_feedback_merges_witness:
  "find (has_key 1 (U ''5'')) (feedback (upsert_pr_feedback 1 Github
      \<lparr>fbi_provider_id = U ''5'', fbi_kind = [], fbi_author = [], fbi_author_association = [],
       fbi_body = [1], fbi_url = [], fbi_path = None, fbi_line = None\<rparr>
      (empty_db\<lparr>feedback := [\<lparr>fb_id = 1, fb_task_id = 1, fb_provider_id = U ''5'', fb_kind = [],
         fb_author = [], fb_author_association = [], fb_body = [], fb_url = [], fb_path = None,
         fb_line = None, fb_selected_at = Some 3, fb_processed_at = None\<rparr>]\<rparr>))) = None"
  by (rule upsert_feedback_merges [of _ 1 Github "\<lparr>fbi_provider_id = U ''5'', fbi_kind = [],
      fbi_author = [], fbi_author_association = [], fbi_body = [1], fbi_url = [], fbi_path = None,
      fbi_line = None\<rparr>", simplified feedback_item.simps, THEN conjunct2, THEN conjunct2, THEN conjunct1])
    (simp add: feedback_ok_def)

lemma upsert_frame [simp]:
  "users (upsert_pr_feedback i p item db) = users db" "tasks (upsert_pr_feedback i p item db) = tasks db"
  "issues (upsert_pr_feedback i p item db) = issues db"
  "repositories (upsert_pr_feedback i p item db) = repositories db"
  "transitions (upsert_pr_feedback i p item db) = transitions db"
  "agent_runs (upsert_pr_feedback i p item db) = agent_runs db"
  "reviews (upsert_pr_feedback i p item db) = reviews db"
  by (simp_all add: upsert_pr_feedback_def)

lemma upsert_all_facts:
  "tasks (upsert_all i p items db) = tasks db" "issues (upsert_all i p items db) = issues db"
  "users (upsert_all i p items db) = users db" "transitions (upsert_all i p items db) = transitions db"
  "repositories (upsert_all i p items db) = repositories db"
  "agent_runs (upsert_all i p items db) = agent_runs db"
  "feedback_ok (feedback db) \<Longrightarrow> feedback_ok (feedback (upsert_all i p items db))"
  unfolding upsert_all_def
  by (induction items arbitrary: db) (simp_all add: feedback_ok_upsert)

end
