(* ===== verification/Workflow_Run.thy ===== *)
theory Workflow_Run
  imports Prompts Runner_Protocol Workflow_Writes Broker Forge_Registry Feedback
begin

text \<open>
  The coroutines of a running task: one Agent stage (\<open>workflow/agent_stage.py\<close>), the cycle of the two
  reviewers (\<open>workflow/review_cycle.py\<close>), sealing and publication (\<open>workflow/publication.py\<close>) and
  \<open>TaskOrchestrator.run\<close> (\<open>workflow/orchestrator.py\<close>), built from the transactions of \<open>Workflow_Writes\<close>.

  The world of a coroutine is the database, the credential broker, the cancel events and the streams of clock
  readings and of random tokens.  What is awaited outside the database (the Agent runner, git, the forges,
  the notifier) is a field of the record \<open>services\<close>: a computation that may change the world, since
  everybody else runs while the coroutine is suspended.
\<close>

section \<open>The world\<close>

record 'd world =
  w_db :: db
  w_broker :: "'d broker"
  w_events :: "int \<Rightarrow> bool option"
  w_clock :: "nat \<Rightarrow> time"
  w_secrets :: "nat \<Rightarrow> pystr"
  w_reads :: nat

type_synonym ('d, 'a) act = "('d world, 'a) io"

definition tx :: "(db \<Rightarrow> (pyexc + 'a) \<times> db) \<Rightarrow> ('d, 'a) act" where
  "tx f w = (case f (w_db w) of (r, d) \<Rightarrow> (r, w\<lparr>w_db := d\<rparr>))"

definition read_now :: "('d, time) act" where
  "read_now w = (Inr (w_clock w (w_reads w)), w\<lparr>w_reads := w_reads w + 1\<rparr>)"

definition token_urlsafe :: "('d, pystr) act" where
  "token_urlsafe w = (Inr (w_secrets w (w_reads w)), w\<lparr>w_reads := w_reads w + 1\<rparr>)"

text \<open>A transaction that never raises.\<close>

definition tx_get :: "(db \<Rightarrow> 'a \<times> db) \<Rightarrow> ('d, 'a) act" where
  "tx_get f = tx (\<lambda>d. case f d of (x, d') \<Rightarrow> (Inr x, d'))"

record notice =
  no_database_task_id :: int
  no_task_id :: pystr
  no_repository :: pystr
  no_issue :: pystr
  no_creator :: pystr
  no_pr_url :: pystr

record ('d, 'f) services =
  sv_lib :: pylib
  sv_digest :: "pystr \<Rightarrow> 'd"
  sv_has_broker :: bool
  sv_forges :: "'f registry"
  sv_stage_timeout :: int
  sv_artifacts_root :: pystr
  sv_git_user_name :: pystr
  sv_git_user_email :: pystr
  sv_developer_schema :: pystr
  sv_reviewer_schema :: pystr
  sv_resolve :: "pystr \<Rightarrow> pystr"
  sv_is_dir :: "pystr \<Rightarrow> bool"
  sv_run_agent :: "job_spec \<Rightarrow> ('d, job_result) act"
  sv_cancel_agent :: "job_spec \<Rightarrow> ('d, unit) act"
  sv_sleep :: "rat \<Rightarrow> ('d, unit) act"
  sv_a_first :: "'d world \<Rightarrow> bool"
  sv_interrupted :: "'d world \<Rightarrow> bool"
  sv_prepare :: "int \<Rightarrow> pystr \<Rightarrow> pystr \<Rightarrow> pystr \<Rightarrow> ('d, prepared_workspace) act"
  sv_assert_has_changes :: "pystr \<Rightarrow> ('d, unit) act"
  sv_assert_branch :: "pystr \<Rightarrow> pystr \<Rightarrow> ('d, unit) act"
  sv_assert_clean_commit :: "pystr \<Rightarrow> pystr \<Rightarrow> ('d, unit) act"
  sv_seal :: "pystr \<Rightarrow> pystr \<Rightarrow> ('d, sealed_patch) act"
  sv_assert_no_secrets :: "pystr \<Rightarrow> ('d, unit) act"
  sv_assert_tree :: "pystr \<Rightarrow> pystr \<Rightarrow> ('d, unit) act"
  sv_commit :: "pystr \<Rightarrow> pystr \<Rightarrow> pystr \<Rightarrow> pystr \<Rightarrow> ('d, pystr) act"
  sv_assert_committed_tree :: "pystr \<Rightarrow> pystr \<Rightarrow> pystr \<Rightarrow> ('d, unit) act"
  sv_publish :: "'f \<Rightarrow> publish_request \<Rightarrow> ('d, published) act"
  sv_notify :: "(notice \<Rightarrow> ('d, unit) act) option"

section \<open>One Agent stage\<close>

definition task_label :: "int \<Rightarrow> pystr" where
  "task_label i = U ''task-'' @ int_str i"

text \<open>\<open>issued_stage_token\<close>: without a broker there is no token and nothing to revoke.\<close>

definition issue_stage :: "('d, 'f) services \<Rightarrow> int \<Rightarrow> stage \<Rightarrow> ('d, pystr option) act" where
  "issue_stage sv i st =
     (if \<not> sv_has_broker sv then ret None
      else seq read_now (\<lambda>now. seq token_urlsafe (\<lambda>token. \<lambda>w.
        case issue_token (sv_digest sv) token now
               (default_request (task_label i) (stage_value st) (Some (seconds (sv_stage_timeout sv + 300))))
               (w_broker w) of
          (Inl e, b) \<Rightarrow> (Inl e, w\<lparr>w_broker := b\<rparr>)
        | (Inr k, b) \<Rightarrow> (Inr (Some k), w\<lparr>w_broker := b\<rparr>))))"

definition revoke_stage :: "('d, 'f) services \<Rightarrow> pystr option \<Rightarrow> ('d, unit) act" where
  "revoke_stage sv token w =
     (case token of
        None \<Rightarrow> (Inr (), w)
      | Some k \<Rightarrow> (Inr (), w\<lparr>w_broker := (if k = [] then w_broker w else snd (remove_lease (sv_digest sv k) (w_broker w)))\<rparr>))"

definition stage_usage :: "('d, 'f) services \<Rightarrow> int \<Rightarrow> stage \<Rightarrow> 'd world \<Rightarrow> model_usage option" where
  "stage_usage sv i st w =
     (if \<not> sv_has_broker sv then None
      else map_option (\<lambda>(requests, bytes). \<lparr>mu_request_count = requests, mu_output_bytes = bytes\<rparr>)
             (usage_snapshot (task_label i) (stage_value st) (w_broker w)))"

definition run_finished ::
  "int \<Rightarrow> run_status \<Rightarrow> int option \<Rightarrow> pystr option \<Rightarrow> pystr option \<Rightarrow> developer_report option
    \<Rightarrow> model_usage option \<Rightarrow> ('d, unit) act" where
  "run_finished run_id st code out err report usage =
     seq read_now (\<lambda>now. tx_get (\<lambda>d. ((), finish_agent_run run_id st code out err report usage now d)))"

text \<open>\<open>except BaseException\<close>: the run is recorded as interrupted or failed and the exception goes on.\<close>

definition run_raised :: "int \<Rightarrow> model_usage option \<Rightarrow> pyexc \<Rightarrow> ('d, 'a) act" where
  "run_raised run_id usage e =
     seq (run_finished run_id (if isinstance e CancelledError then RunInterrupted else RunFailed) None None
            (Some (if exc_str e = [] then class_name (exc_cls e) else py_last 2000 (exc_str e))) None usage)
       (\<lambda>_. throw e)"

record running_stage =
  rs_task :: int
  rs_run :: int
  rs_token :: "pystr option"
  rs_spec :: job_spec

text \<open>
  \<open>execute\<close> up to the point where it waits for the runner, and from there on.  Nothing is awaited in either
  part.
\<close>

definition stage_start ::
  "('d, 'f) services \<Rightarrow> int \<Rightarrow> task_status \<Rightarrow> stage \<Rightarrow> agent_role \<Rightarrow> pystr \<Rightarrow> pystr \<Rightarrow> pystr
    \<Rightarrow> ('d, running_stage) act" where
  "stage_start sv i status st role workspace prompt claim =
     seq (tx (set_status i status claim)) (\<lambda>_.
     seq read_now (\<lambda>now.
     seq (tx_get (begin_agent_run i role now)) (\<lambda>(run_id, attempt).
     seq (catch (issue_stage sv i st) (run_raised run_id None)) (\<lambda>token.
       case job_spec
              \<lparr>js_job_id = task_label i @ U ''-'' @ role_value role @ U ''-'' @ int_str attempt,
               js_stage = st, js_role = role, js_workspace = workspace, js_prompt = prompt,
               js_timeout_seconds = of_int (sv_stage_timeout sv), js_max_output_bytes = 1000000,
               js_output_schema = Some (if role = Developer then sv_developer_schema sv else sv_reviewer_schema sv),
               js_session_id = None, js_review_base = None, js_proxy_token = token\<rparr> of
         Inl e \<Rightarrow> seq (revoke_stage sv token) (\<lambda>_. run_raised run_id None e)
       | Inr spec \<Rightarrow> ret \<lparr>rs_task = i, rs_run = run_id, rs_token = token, rs_spec = spec\<rparr>))))"

fun run_status_of :: "job_status \<Rightarrow> run_status" where
  "run_status_of JobSucceeded = RunSucceeded"
| "run_status_of JobFailed = RunFailed"
| "run_status_of JobTimedOut = RunTimedOut"
| "run_status_of JobCancelled = RunCancelled"

definition stage_report :: "pylib \<Rightarrow> agent_role \<Rightarrow> job_result \<Rightarrow> pyexc + developer_report option" where
  "stage_report lib role result =
     (if jr_status result = JobSucceeded \<and> role = Developer
      then and_then (final_message lib (jr_stdout result)) (\<lambda>m.
           and_then (parse_developer_report lib m) (\<lambda>r. Inr (Some r)))
      else Inr None)"

definition stage_result :: "agent_role \<Rightarrow> job_result \<Rightarrow> pyexc + job_result" where
  "stage_result role result =
     (if jr_status result = JobCancelled then Inl (raise_exc TaskCancelled [])
      else if jr_status result \<noteq> JobSucceeded
        then Inl (raise_exc RuntimeError (role_value role @ U '' failed: '' @ py_last 500 (jr_stderr result)))
      else Inr result)"

definition stage_finish ::
  "('d, 'f) services \<Rightarrow> running_stage \<Rightarrow> pyexc + job_result \<Rightarrow> ('d, job_result) act" where
  "stage_finish sv h outcome w =
     (let usage = stage_usage sv (rs_task h) (js_stage (rs_spec h)) w;
          role = js_role (rs_spec h)
      in seq (revoke_stage sv (rs_token h)) (\<lambda>_.
           case and_then outcome (\<lambda>result. and_then (stage_report (sv_lib sv) role result) (\<lambda>report. Inr (result, report))) of
             Inl e \<Rightarrow> run_raised (rs_run h) usage e
           | Inr (result, report) \<Rightarrow>
               seq (run_finished (rs_run h) (run_status_of (jr_status result)) (jr_exit_code result) (Some (jr_stdout result))
                      (if jr_stderr result = [] then None else Some (py_last 2000 (jr_stderr result))) report usage)
                 (\<lambda>_. lift (stage_result role result))) w)"

definition await_agent :: "('d, 'f) services \<Rightarrow> job_spec \<Rightarrow> 'd world \<Rightarrow> (pyexc + job_result) \<times> 'd world" where
  "await_agent sv spec = retry_agent_operation (sv_run_agent sv spec) (ret ()) (sv_sleep sv) 2 (1 / 4)"

definition execute ::
  "('d, 'f) services \<Rightarrow> int \<Rightarrow> task_status \<Rightarrow> stage \<Rightarrow> agent_role \<Rightarrow> pystr \<Rightarrow> pystr \<Rightarrow> pystr
    \<Rightarrow> ('d, job_result) act" where
  "execute sv i status st role workspace prompt claim =
     seq (stage_start sv i status st role workspace prompt claim) (\<lambda>h w.
       case await_agent sv (rs_spec h) w of (outcome, w') \<Rightarrow> stage_finish sv h outcome w')"

text \<open>\<open>_run_stage\<close> looks the cancel event up first.\<close>

definition cancel_event :: "int \<Rightarrow> ('d, unit) act" where
  "cancel_event i w = (if w_events w i = None then (Inl (raise_exc KeyError (int_str i)), w) else (Inr (), w))"

definition run_stage ::
  "('d, 'f) services \<Rightarrow> int \<Rightarrow> task_status \<Rightarrow> stage \<Rightarrow> agent_role \<Rightarrow> pystr \<Rightarrow> pystr \<Rightarrow> pystr
    \<Rightarrow> ('d, job_result) act" where
  "run_stage sv i status st role workspace prompt claim =
     seq (cancel_event i) (\<lambda>_. execute sv i status st role workspace prompt claim)"


section \<open>The two reviewers\<close>

definition FOCUS_CORRECTNESS :: pystr where
  "FOCUS_CORRECTNESS = [27491, 30830, 24615, 12289, 22238, 24402, 39118, 38505, 21644, 27979, 35797,
   35206, 30422]"

definition FOCUS_SECURITY :: pystr where
  "FOCUS_SECURITY = [23433, 20840, 24615, 12289, 36793, 30028, 26465, 20214, 21644, 21487, 32500,
   25252, 24615]"

definition REVIEWER_SPECS :: "(stage \<times> agent_role \<times> pystr) list" where
  "REVIEWER_SPECS = [(StageReviewCorrectness, ReviewerA, FOCUS_CORRECTNESS),
                     (StageReviewSecurity, ReviewerB, FOCUS_SECURITY)]"

text \<open>
  The children of the \<open>TaskGroup\<close>.  Both start before either waits for its Agent, so that both are
  started even when the first fails to start.  A child that fails with anything but \<open>CancelledError\<close>
  cancels the other one, which then ends with \<open>CancelledError\<close> or with what its runner raises on
  cancellation.
\<close>

definition child :: "('d, 'f) services \<Rightarrow> running_stage \<Rightarrow> ('d, job_result) act" where
  "child sv h w = (case await_agent sv (rs_spec h) w of (outcome, w') \<Rightarrow> stage_finish sv h outcome w')"

definition cancelled_child :: "('d, 'f) services \<Rightarrow> running_stage \<Rightarrow> ('d, job_result) act" where
  "cancelled_child sv h w =
     (case sv_cancel_agent sv (rs_spec h) w of
        (Inl e, w') \<Rightarrow> stage_finish sv h (Inl e) w'
      | (Inr _, w') \<Rightarrow> stage_finish sv h (Inl (raise_exc CancelledError [])) w')"

definition aborts :: "pyexc + 'a \<Rightarrow> bool" where
  "aborts r = (case r of Inl e \<Rightarrow> \<not> isinstance e CancelledError | Inr _ \<Rightarrow> False)"

definition in_turn ::
  "('d, 'f) services \<Rightarrow> running_stage \<Rightarrow> running_stage \<Rightarrow> 'd world
    \<Rightarrow> ((pyexc + job_result) \<times> (pyexc + job_result)) \<times> 'd world" where
  "in_turn sv h1 h2 w =
     (case child sv h1 w of (r1, w1) \<Rightarrow>
        (case (if aborts r1 then cancelled_child sv h2 w1 else child sv h2 w1) of (r2, w2) \<Rightarrow> ((r1, r2), w2)))"

definition run_children ::
  "('d, 'f) services \<Rightarrow> pyexc + running_stage \<Rightarrow> pyexc + running_stage \<Rightarrow> 'd world
    \<Rightarrow> ((pyexc + job_result) \<times> (pyexc + job_result)) \<times> 'd world" where
  "run_children sv a b w =
     (case a of
        Inl ea \<Rightarrow>
          (case b of
             Inl eb \<Rightarrow> ((Inl ea, Inl eb), w)
           | Inr hb \<Rightarrow> (case cancelled_child sv hb w of (rb, w') \<Rightarrow> ((Inl ea, rb), w')))
      | Inr ha \<Rightarrow>
          (case b of
             Inl eb \<Rightarrow> (case cancelled_child sv ha w of (ra, w') \<Rightarrow> ((ra, Inl eb), w'))
           | Inr hb \<Rightarrow>
               if sv_a_first sv w then in_turn sv ha hb w
               else (case in_turn sv hb ha w of ((rb, ra), w') \<Rightarrow> ((ra, rb), w'))))"

text \<open>\<open>TaskGroup.__aexit__\<close> and the \<open>result()\<close> calls after it.\<close>

definition group_result ::
  "bool \<Rightarrow> pyexc + 'a \<Rightarrow> pyexc + 'a \<Rightarrow> pyexc + ('a \<times> 'a)" where
  "group_result interrupted a b =
     (let n = length (filter aborts [a, b])
      in if 0 < n
         then Inl (raise_exc ExceptionGroup (U ''unhandled errors in a TaskGroup ('' @ int_str (int n)
                @ U '' sub-exception'' @ (if n = 1 then [] else U ''s'') @ U '')''))
         else if interrupted then Inl (raise_exc CancelledError [])
         else and_then a (\<lambda>x. and_then b (\<lambda>y. Inr (x, y))))"

definition review_group ::
  "('d, 'f) services \<Rightarrow> loaded_task \<Rightarrow> pystr \<Rightarrow> pystr \<Rightarrow> pystr \<Rightarrow> ('d, job_result \<times> job_result) act" where
  "review_group sv t workspace report claim w =
     (let start = (\<lambda>(st, role, focus). stage_start sv (tk_id (lt_task t)) Reviewing st role workspace
                     (review_prompt t focus report) claim)
      in case start (REVIEWER_SPECS ! 0) w of (a, w1) \<Rightarrow>
         (case start (REVIEWER_SPECS ! 1) w1 of (b, w2) \<Rightarrow>
         (case run_children sv a b w2 of ((ra, rb), w3) \<Rightarrow>
            (group_result (sv_interrupted sv w3) ra rb, w3))))"

fun record_reviews ::
  "pylib \<Rightarrow> int \<Rightarrow> (agent_role \<times> job_result) list \<Rightarrow> finding list \<Rightarrow> ('d, finding list) act" where
  "record_reviews lib i [] findings = ret findings"
| "record_reviews lib i ((role, result) # rest) findings =
     seq (lift (review_result lib (jr_stdout result))) (\<lambda>(dec, fs).
     seq (tx_get (\<lambda>d. ((), record_review i role dec fs d))) (\<lambda>_.
       record_reviews lib i rest (if dec \<noteq> Approve then findings @ fs else findings)))"

definition review_cycle ::
  "('d, 'f) services \<Rightarrow> loaded_task \<Rightarrow> pystr \<Rightarrow> pystr \<Rightarrow> pystr \<Rightarrow> ('d, finding list) act" where
  "review_cycle sv t workspace report claim =
     seq (cancel_event (tk_id (lt_task t))) (\<lambda>_.
     seq (review_group sv t workspace report claim) (\<lambda>(a, b).
     seq (record_reviews (sv_lib sv) (tk_id (lt_task t)) [(ReviewerA, a), (ReviewerB, b)] []) (\<lambda>findings.
       ret (deduplicate_findings (sv_lib sv) findings))))"

section \<open>Sealing and publication\<close>

definition MSG_NO_PUBLISHER :: pystr where \<comment> \<open>no publishing credentials for the code platform\<close>
  "MSG_NO_PUBLISHER = [26410, 37197, 32622, 20195, 30721, 24179, 21488, 21457, 24067, 20973, 25454]"

definition publish ::
  "('d, 'f) services \<Rightarrow> loaded_task \<Rightarrow> pystr \<Rightarrow> pystr \<Rightarrow> developer_report list \<Rightarrow> pystr \<Rightarrow> ('d, published) act" where
  "publish sv t workspace branch reports claim =
     (let repo = lt_repository t in
      seq (lift (require_forge (sv_forges sv) (rp_provider repo))) (\<lambda>forge.
      seq (guard_io (\<not> registry_supports (sv_forges sv) (rp_provider repo) [Publish]) (raise_exc ValueError MSG_NO_PUBLISHER)) (\<lambda>_.
      seq token_urlsafe (\<lambda>fresh. seq read_now (\<lambda>now.
      seq (tx (begin_publication (tk_id (lt_task t)) claim fresh now)) (\<lambda>key.
      seq (lift (publish_request (sv_resolve sv)
             \<lparr>pq_workspace = workspace, pq_upstream_owner = rp_owner repo, pq_repository_name = rp_name repo,
              pq_default_branch = rp_default_branch repo, pq_branch = branch,
              pq_title = take 240 (is_title (lt_issue t)),
              pq_body = pull_request_body t reports
                @ [10, 10] @ U ''<!-- coderus-publication:'' @ key @ U '' -->''\<rparr>)) (\<lambda>request.
        sv_publish sv forge request)))))))"

definition finalize ::
  "('d, 'f) services \<Rightarrow> loaded_task \<Rightarrow> pystr \<Rightarrow> pystr \<Rightarrow> developer_report list \<Rightarrow> pystr \<Rightarrow> pystr \<Rightarrow> pystr
    \<Rightarrow> ('d, published) act" where
  "finalize sv t workspace branch reports patch_name commit_title claim =
     (let i = tk_id (lt_task t) in
      seq (sv_assert_has_changes sv workspace) (\<lambda>_.
      seq (tx (set_status i Sealing claim)) (\<lambda>_.
      seq (sv_seal sv workspace (sv_artifacts_root sv @ U ''/'' @ task_label i @ U ''/'' @ patch_name)) (\<lambda>sealed.
      seq (tx (set_sealed i claim sealed)) (\<lambda>_.
      seq (sv_assert_no_secrets sv workspace) (\<lambda>_.
      seq (sv_assert_tree sv workspace (sp_tree_sha sealed)) (\<lambda>_.
      seq (sv_commit sv workspace commit_title (sv_git_user_name sv) (sv_git_user_email sv)) (\<lambda>commit_sha.
      seq (sv_assert_committed_tree sv workspace commit_sha (sp_tree_sha sealed)) (\<lambda>_.
      seq (tx (set_commit i claim commit_sha)) (\<lambda>_.
        publish sv t workspace branch reports claim))))))))))"

definition publish_existing ::
  "('d, 'f) services \<Rightarrow> loaded_task \<Rightarrow> pystr \<Rightarrow> pystr \<Rightarrow> developer_report list \<Rightarrow> pystr \<Rightarrow> ('d, published) act" where
  "publish_existing sv t workspace commit_sha reports claim =
     seq (sv_assert_clean_commit sv workspace commit_sha) (\<lambda>_.
       publish sv t workspace (opt_text (tk_branch_name (lt_task t))) reports claim)"

section \<open>The orchestrator\<close>

definition load_task :: "int \<Rightarrow> db \<Rightarrow> (pyexc + loaded_task) \<times> db" where
  "load_task i d =
     (case get_task i d of
        None \<Rightarrow> (Inl (missing_task i), d)
      | Some t \<Rightarrow>
          (case (get_user (tk_created_by t) d, get_issue_row (tk_issue_id t) d) of
             (Some u, Some r) \<Rightarrow>
               (case get_repository (is_repository_id r) d of
                  Some repo \<Rightarrow> (Inr \<lparr>lt_task = t, lt_creator = u, lt_issue = r, lt_repository = repo\<rparr>, d)
                | None \<Rightarrow> (Inl attribute_error, d))
           | _ \<Rightarrow> (Inl attribute_error, d)))"

definition selected_feedback :: "int \<Rightarrow> db \<Rightarrow> pr_feedback list" where
  "selected_feedback i d = sort_key fb_id
     (filter (\<lambda>r. fb_task_id r = i \<and> fb_selected_at r \<noteq> None \<and> fb_processed_at r = None) (feedback d))"

definition mark_feedback_processed :: "int \<Rightarrow> int list \<Rightarrow> time \<Rightarrow> db \<Rightarrow> db" where
  "mark_feedback_processed i ids now d =
     (if ids = [] then d
      else d\<lparr>feedback := sql_update
             (\<lambda>r. fb_task_id r = i \<and> fb_id r \<in> set ids \<and> fb_selected_at r \<noteq> None \<and> fb_processed_at r = None)
             (\<lambda>r. r\<lparr>fb_processed_at := Some now\<rparr>) (feedback d)\<rparr>)"

definition MSG_NO_REPORT :: pystr where \<comment> \<open>the earlier task has no structured report\<close>
  "MSG_NO_REPORT = [21382, 21490, 20219, 21153, 32570, 23569, 32467, 26500, 21270, 24320, 21457,
   25253, 21578, 65292, 26080, 27861, 21457, 24067]"

text \<open>The report of the last successful developer run; its findings are computed but not used.\<close>

definition last_developer_run :: "int \<Rightarrow> db \<Rightarrow> agent_run option" where
  "last_developer_run i d =
     (case rev (sort_key ar_id (filter (\<lambda>r. ar_task_id r = i \<and> ar_role r = Developer \<and> ar_status r = RunSucceeded) (agent_runs d))) of
        [] \<Rightarrow> None | r # _ \<Rightarrow> Some r)"

definition existing_reports :: "pylib \<Rightarrow> int \<Rightarrow> db \<Rightarrow> (pyexc + developer_report list) \<times> db" where
  "existing_reports lib i d =
     (case Option.bind (Option.bind (last_developer_run i d) ar_structured_result) sr_developer_report of
        None \<Rightarrow> (Inl (raise_exc DeveloperReportError MSG_NO_REPORT), d)
      | Some r \<Rightarrow> (and_then (parse_developer_report lib (dumps_plain lib (JObj (report_dump r)))) (\<lambda>x. Inr [x]), d))"

definition notify_published :: "('d, 'f) services \<Rightarrow> loaded_task \<Rightarrow> published \<Rightarrow> ('d, unit) act" where
  "notify_published sv t p =
     (case sv_notify sv of
        None \<Rightarrow> ret ()
      | Some notify \<Rightarrow>
          catch (notify
            \<lparr>no_database_task_id = tk_id (lt_task t), no_task_id = U ''RE-'' @ int_str (tk_id (lt_task t)),
             no_repository = rp_owner (lt_repository t) @ U ''/'' @ rp_name (lt_repository t),
             no_issue = U ''#'' @ int_str (is_number (lt_issue t)) @ U '' '' @ is_title (lt_issue t),
             no_creator = us_username (lt_creator t), no_pr_url = pb_url p\<rparr>)
            (\<lambda>e. if isinstance e Exception
                 then tx (notify_failed (tk_id (lt_task t)) (class_name (exc_cls e))) else throw e))"

definition settle_published :: "('d, 'f) services \<Rightarrow> loaded_task \<Rightarrow> pystr \<Rightarrow> published \<Rightarrow> ('d, unit) act" where
  "settle_published sv t claim p =
     seq read_now (\<lambda>now.
     seq (tx (awaiting_review (tk_id (lt_task t)) claim p now)) (\<lambda>_. notify_published sv t p))"

definition finalize_task ::
  "('d, 'f) services \<Rightarrow> loaded_task \<Rightarrow> pystr \<Rightarrow> pystr \<Rightarrow> developer_report list \<Rightarrow> pystr \<Rightarrow> pystr \<Rightarrow> pystr
    \<Rightarrow> ('d, unit) act" where
  "finalize_task sv t workspace branch reports patch_name commit_title claim =
     seq (finalize sv t workspace branch reports patch_name commit_title claim) (settle_published sv t claim)"


definition parse_report :: "pylib \<Rightarrow> job_result \<Rightarrow> pyexc + developer_report" where
  "parse_report lib result = and_then (final_message lib (jr_stdout result)) (parse_developer_report lib)"

definition fix_title :: "loaded_task \<Rightarrow> pystr" where
  "fix_title t = take 200 (U ''Fix #'' @ int_str (is_number (lt_issue t)) @ U '': '' @ is_title (lt_issue t))"

definition feedback_title :: "loaded_task \<Rightarrow> pystr" where
  "feedback_title t = take 200 (U ''Address PR feedback for #'' @ int_str (is_number (lt_issue t)))"

text \<open>A first run: prepare, develop, review twice, revise at most once, finalize.\<close>

definition revise ::
  "('d, 'f) services \<Rightarrow> loaded_task \<Rightarrow> pystr \<Rightarrow> developer_report \<Rightarrow> finding list \<Rightarrow> pystr
    \<Rightarrow> ('d, developer_report list) act" where
  "revise sv t workspace report findings claim =
     (if findings = [] then ret [report]
      else
        seq (run_stage sv (tk_id (lt_task t)) DeveloperRevising StageRevise Developer workspace
               (revision_prompt (sv_lib sv) t findings) claim) (\<lambda>revision.
        seq (lift (parse_report (sv_lib sv) revision)) (\<lambda>again.
        seq (sv_assert_has_changes sv workspace) (\<lambda>_. ret [report, again]))))"

definition run_new ::
  "('d, 'f) services \<Rightarrow> loaded_task \<Rightarrow> pystr \<Rightarrow> ('d, unit) act" where
  "run_new sv t claim =
     (let i = tk_id (lt_task t);
          branch = U ''coderus/issue-'' @ int_str (is_number (lt_issue t)) @ U ''-'' @ int_str i
      in
      seq (sv_prepare sv i (rp_canonical_url (lt_repository t)) (rp_default_branch (lt_repository t)) branch) (\<lambda>prepared.
      seq (tx (set_prepared i claim prepared)) (\<lambda>_.
      seq (run_stage sv i DeveloperWorking StageDevelop Developer (pw_workspace prepared) (developer_prompt t) claim) (\<lambda>developer.
      seq (lift (parse_report (sv_lib sv) developer)) (\<lambda>report.
      seq (sv_assert_has_changes sv (pw_workspace prepared)) (\<lambda>_.
      seq (review_cycle sv t (pw_workspace prepared) (render_developer_report report) claim) (\<lambda>findings.
      seq (revise sv t (pw_workspace prepared) report findings claim) (\<lambda>reports.
        finalize_task sv t (pw_workspace prepared) branch reports (U ''fixed.patch'') (fix_title t) claim))))))))"

definition MSG_NO_FEEDBACK_WORKSPACE :: pystr where \<comment> \<open>no workspace or branch to go on with\<close>
  "MSG_NO_FEEDBACK_WORKSPACE = [20219, 21153, 32570, 23569, 21487, 32487, 32493, 22788, 29702, 32,
   80, 82, 32, 24847, 35265, 30340, 24037, 20316, 21306, 25110, 20998, 25903]"

definition MSG_NO_WORKSPACE :: pystr where \<comment> \<open>the workspace does not exist\<close>
  "MSG_NO_WORKSPACE = [20219, 21153, 24037, 20316, 21306, 19981, 23384, 22312]"

definition MSG_NO_SELECTED_FEEDBACK :: pystr where \<comment> \<open>no comment is selected\<close>
  "MSG_NO_SELECTED_FEEDBACK = [27809, 26377, 24050, 36873, 25321, 30340, 32, 80, 82, 32, 24847, 35265]"

definition MSG_NO_PUBLISH_WORKSPACE :: pystr where \<comment> \<open>no workspace or branch to publish\<close>
  "MSG_NO_PUBLISH_WORKSPACE = [20219, 21153, 32570, 23569, 21487, 21457, 24067, 30340, 24037, 20316,
   21306, 25110, 20998, 25903]"

definition run_feedback_revision :: "('d, 'f) services \<Rightarrow> loaded_task \<Rightarrow> pystr \<Rightarrow> ('d, unit) act" where
  "run_feedback_revision sv t claim =
     (let k = lt_task t; i = tk_id k; workspace = sv_resolve sv (opt_text (tk_workspace_path k));
          branch = opt_text (tk_branch_name k)
      in
      seq (guard_io (\<not> truthy (tk_workspace_path k) \<or> \<not> truthy (tk_branch_name k)
                     \<or> tk_pr_number k = None \<or> tk_pr_number k = Some 0)
             (raise_exc ValueError MSG_NO_FEEDBACK_WORKSPACE)) (\<lambda>_.
      seq (guard_io (\<not> sv_is_dir sv workspace) (raise_exc ValueError MSG_NO_WORKSPACE)) (\<lambda>_.
      seq (tx_get (\<lambda>d. (selected_feedback i d, d))) (\<lambda>rows.
      seq (guard_io (rows = []) (raise_exc ValueError MSG_NO_SELECTED_FEEDBACK)) (\<lambda>_.
      seq (sv_assert_branch sv workspace branch) (\<lambda>_.
      seq (run_stage sv i DeveloperRevising StageRevise Developer workspace (feedback_prompt (sv_lib sv) t rows) claim) (\<lambda>revision.
      seq (lift (parse_report (sv_lib sv) revision)) (\<lambda>report.
      seq (finalize_task sv t workspace branch [report] (U ''pr-feedback.patch'') (feedback_title t) claim) (\<lambda>_.
      seq read_now (\<lambda>now.
        tx_get (\<lambda>d. ((), mark_feedback_processed i (map fb_id rows) now d))))))))))))"

definition run_existing_publish :: "('d, 'f) services \<Rightarrow> loaded_task \<Rightarrow> pystr \<Rightarrow> ('d, unit) act" where
  "run_existing_publish sv t claim =
     (let k = lt_task t; i = tk_id k; workspace = sv_resolve sv (opt_text (tk_workspace_path k));
          branch = opt_text (tk_branch_name k)
      in
      seq (guard_io (\<not> truthy (tk_workspace_path k) \<or> \<not> truthy (tk_branch_name k))
             (raise_exc ValueError MSG_NO_PUBLISH_WORKSPACE)) (\<lambda>_.
      seq (guard_io (\<not> sv_is_dir sv workspace) (raise_exc ValueError MSG_NO_WORKSPACE)) (\<lambda>_.
      seq (sv_assert_branch sv workspace branch) (\<lambda>_.
      seq (tx (existing_reports (sv_lib sv) i)) (\<lambda>reports.
        if truthy (tk_commit_sha k)
        then seq (publish_existing sv t workspace (opt_text (tk_commit_sha k)) reports claim) (settle_published sv t claim)
        else finalize_task sv t workspace branch reports (U ''fixed.patch'') (fix_title t) claim)))))"

definition run_loaded :: "('d, 'f) services \<Rightarrow> loaded_task \<Rightarrow> pystr \<Rightarrow> ('d, unit) act" where
  "run_loaded sv t claim =
     (if tk_failure_code (lt_task t) = Some PrFeedbackRevision then run_feedback_revision sv t claim
      else if tk_failure_code (lt_task t) = Some PublishExisting then run_existing_publish sv t claim
      else run_new sv t claim)"

text \<open>The \<open>except\<close> clauses of \<open>run\<close>, in their order.\<close>

definition run_except :: "int \<Rightarrow> pystr \<Rightarrow> pyexc \<Rightarrow> ('d, unit) act" where
  "run_except i claim e =
     (if isinstance e ClaimLost then ret ()
      else seq read_now (\<lambda>now.
        if isinstance e TaskCancelled then tx (mark_cancelled i claim now)
        else if isinstance e CancelledError then seq (tx (interrupt_task i claim now)) (\<lambda>_. throw e)
        else if isinstance e DeveloperReportError
          then tx (manual_intervention i claim DeveloperReportInvalid (py_last 2000 (exc_str e)) now)
        else if isinstance e Exception then tx (fail_task i claim e now)
        else throw e))"

definition set_event :: "int \<Rightarrow> bool option \<Rightarrow> ('d, unit) act" where
  "set_event i v w = (Inr (), w\<lparr>w_events := (w_events w)(i := v)\<rparr>)"

definition run_claimed :: "('d, 'f) services \<Rightarrow> int \<Rightarrow> pystr \<Rightarrow> ('d, unit) act" where
  "run_claimed sv i claim =
     seq (set_event i (Some False)) (\<lambda>_.
       finally_do
         (catch (seq (tx (load_task i)) (\<lambda>t. run_loaded sv t claim)) (run_except i claim))
         (set_event i None))"

definition claim_task :: "int \<Rightarrow> ('d, pystr option) act" where
  "claim_task i =
     seq token_urlsafe (\<lambda>token. seq read_now (\<lambda>now.
       tx (claim_queued_task i (2 ^ 31 - 1) (2 ^ 31 - 1) CLAIM_LEASE_SECONDS token now)))"

definition run :: "('d, 'f) services \<Rightarrow> int \<Rightarrow> pystr option \<Rightarrow> ('d, unit) act" where
  "run sv i claim_token =
     (case claim_token of
        None \<Rightarrow> seq (claim_task i) (\<lambda>k. case k of None \<Rightarrow> ret () | Some claim \<Rightarrow> run_claimed sv i claim)
      | Some claim \<Rightarrow> seq read_now (\<lambda>now. seq (tx_get (renew_claim i claim now)) (\<lambda>ok.
          if ok then run_claimed sv i claim else ret ())))"

text \<open>\<open>cancel\<close> sets the event of a running task.\<close>

definition cancel :: "int \<Rightarrow> ('d, bool) act" where
  "cancel i w =
     (case w_events w i of
        None \<Rightarrow> (Inr False, w)
      | Some _ \<Rightarrow> (Inr True, w\<lparr>w_events := (w_events w)(i := Some True)\<rparr>))"

end
