(* ===== verification/Task_Commands.thy ===== *)
theory Task_Commands
  imports Task_Lifecycle Feedback
begin

text \<open>
  The operations of people and pollers on tasks: \<open>coderus/application/tasks.py\<close> (cancel, close, feedback
  synchronisation, republication, feedback revision), \<open>coderus/workflow/pr_status.py\<close> (the poll of pull
  request states) and the deactivation of a user in \<open>coderus/web/routes/users.py\<close>.

  Calls to a forge are arguments; while such a call is awaited other connections may commit, so it also
  maps the database.  Every operation is shown to be a sequence of lifecycle effects.
\<close>

section \<open>Messages\<close>

definition MSG_NO_TASK :: pystr where \<comment> \<open>the task does not exist\<close>
  "MSG_NO_TASK = [20219, 21153, 19981, 23384, 22312]"

definition MSG_FORBIDDEN :: pystr where \<comment> \<open>no permission to operate on this task\<close>
  "MSG_FORBIDDEN = [27809, 26377, 26435, 38480, 25805, 20316, 35813, 20219, 21153]"

definition MSG_STATUS_CHANGED :: pystr where \<comment> \<open>the task status has changed, refresh and retry\<close>
  "MSG_STATUS_CHANGED = [20219, 21153, 29366, 24577, 24050, 21464, 21270, 65292, 35831, 21047,
   26032, 21518, 37325, 35797]"

definition MSG_SYNC_DROPPED :: pystr where \<comment> \<open>the task status has changed, this sync was not written\<close>
  "MSG_SYNC_DROPPED = [20219, 21153, 29366, 24577, 24050, 21464, 21270, 65292, 26410, 20889, 20837,
   26412, 27425, 21516, 27493]"

definition MSG_NOT_CANCELLABLE :: pystr where \<comment> \<open>the current status cannot be cancelled\<close>
  "MSG_NOT_CANCELLABLE = [24403, 21069, 29366, 24577, 19981, 33021, 21462, 28040]"

definition MSG_NOT_CLOSABLE :: pystr where \<comment> \<open>the current status cannot be closed\<close>
  "MSG_NOT_CLOSABLE = [24403, 21069, 29366, 24577, 19981, 33021, 20851, 38381]"

definition MSG_NO_SYNC :: pystr where \<comment> \<open>this task cannot synchronise pull request feedback\<close>
  "MSG_NO_SYNC = [24403, 21069, 20219, 21153, 19981, 33021, 21516, 27493, 32, 80, 82, 32, 24847, 35265]"

definition MSG_SYNC_UNSUPPORTED :: pystr where \<comment> \<open>the publisher does not support feedback synchronisation\<close>
  "MSG_SYNC_UNSUPPORTED = [21457, 24067, 22120, 19981, 25903, 25345, 32, 80, 82, 32, 24847, 35265,
   21516, 27493]"

definition MSG_NO_PUBLISH :: pystr where \<comment> \<open>this task cannot be published as it is\<close>
  "MSG_NO_PUBLISH = [24403, 21069, 20219, 21153, 19981, 33021, 25353, 29616, 29366, 21457, 24067]"

definition MSG_NO_REVISION :: pystr where \<comment> \<open>this task cannot process feedback\<close>
  "MSG_NO_REVISION = [24403, 21069, 20219, 21153, 19981, 33021, 22788, 29702, 32, 80, 82, 32, 24847, 35265]"

definition MSG_UNTRUSTED :: pystr where \<comment> \<open>only unprocessed feedback of trusted maintainers can be processed\<close>
  "MSG_UNTRUSTED = [21482, 33021, 22788, 29702, 21487, 20449, 32500, 25252, 32773, 30340, 26410,
   22788, 29702, 24847, 35265]"

section \<open>TaskCommands\<close>

definition CLOSABLE_TASK_STATUSES :: "task_status list" where
  "CLOSABLE_TASK_STATUSES = [AwaitingHumanReview, Failed, ManualIntervention, Cancelled]"

definition TRUSTED_FEEDBACK_ASSOCIATIONS :: "pystr list" where
  "TRUSTED_FEEDBACK_ASSOCIATIONS = [U ''OWNER'', U ''MEMBER'', U ''COLLABORATOR'']"

definition owned_task :: "int \<Rightarrow> int \<Rightarrow> db \<Rightarrow> pyexc + task" where
  "owned_task i actor_id db =
     (case get_task i db of
        None \<Rightarrow> Inl (raise_exc NotFound MSG_NO_TASK)
      | Some t \<Rightarrow>
          (case get_user actor_id db of
             None \<Rightarrow> Inl (raise_exc Forbidden MSG_FORBIDDEN)
           | Some a \<Rightarrow>
               if us_role a \<noteq> RoleAdmin \<and> tk_created_by t \<noteq> us_id a
               then Inl (raise_exc Forbidden MSG_FORBIDDEN) else Inr t))"

text \<open>\<open>_transition\<close>: a compare-and-set whose refusal is a \<open>Conflict\<close> after a rollback.\<close>

definition transition ::
  "int \<Rightarrow> task_status \<Rightarrow> task_status \<Rightarrow> column_value list \<Rightarrow> pystr \<Rightarrow> db \<Rightarrow> (pyexc + unit) \<times> db" where
  "transition i expected new us message db =
     (case cas_task_status i [expected] new us None ActorSystem db of
        (Inl e, _) \<Rightarrow> (Inl e, db)
      | (Inr False, _) \<Rightarrow> (Inl (raise_exc Conflict message), db)
      | (Inr True, db') \<Rightarrow> (Inr (), db'))"

definition request_cancel :: "int \<Rightarrow> int \<Rightarrow> time \<Rightarrow> db \<Rightarrow> (pyexc + bool) \<times> db" where
  "request_cancel i actor_id now db =
     (case owned_task i actor_id db of
        Inl e \<Rightarrow> (Inl e, db)
      | Inr t \<Rightarrow>
          (let cancel = (\<lambda>new us signal.
             case transition i (tk_status t) new us MSG_STATUS_CHANGED db of
               (Inl e, db') \<Rightarrow> (Inl e, db') | (Inr _, db') \<Rightarrow> (Inr signal, db'))
           in if tk_status t = Queued then cancel Cancelled [SetFinishedAt (Some now)] False
              else if running (tk_status t) then cancel Cancelling [] True
              else (Inl (raise_exc Conflict MSG_NOT_CANCELLABLE), db)))"

definition close_task :: "int \<Rightarrow> int \<Rightarrow> time \<Rightarrow> db \<Rightarrow> (pyexc + unit) \<times> db" where
  "close_task i actor_id now db =
     (case owned_task i actor_id db of
        Inl e \<Rightarrow> (Inl e, db)
      | Inr t \<Rightarrow>
          if tk_status t \<notin> set CLOSABLE_TASK_STATUSES
          then (Inl (raise_exc Conflict MSG_NOT_CLOSABLE), db)
          else transition i (tk_status t) Dismissed [SetFinishedAt (Some now)] MSG_STATUS_CHANGED db)"

text \<open>\<open>task.issue.repository\<close>\<close>

definition task_repository :: "task \<Rightarrow> db \<Rightarrow> repository option" where
  "task_repository t db =
     Option.bind (get_issue_row (tk_issue_id t) db) (\<lambda>r. get_repository (is_repository_id r) db)"

text \<open>\<open>if not task.pr_number\<close>: missing or zero.\<close>

definition has_pr_number :: "task \<Rightarrow> bool" where
  "has_pr_number t = (tk_pr_number t \<noteq> None \<and> tk_pr_number t \<noteq> Some 0)"

text \<open>The reads of \<open>sync_feedback\<close>, before the forge is asked.\<close>

definition sync_target :: "int \<Rightarrow> int \<Rightarrow> db \<Rightarrow> pyexc + (repository \<times> int)" where
  "sync_target i actor_id db =
     (case owned_task i actor_id db of
        Inl e \<Rightarrow> Inl e
      | Inr t \<Rightarrow>
          if tk_status t \<noteq> AwaitingHumanReview \<or> \<not> has_pr_number t
          then Inl (raise_exc Conflict MSG_NO_SYNC)
          else case task_repository t db of
            None \<Rightarrow> Inl (raise_exc AttributeError [])
          | Some r \<Rightarrow> Inr (r, the (tk_pr_number t)))"

definition sync_updates :: "pystr option \<Rightarrow> time \<Rightarrow> task_status \<times> column_value list" where
  "sync_updates pr_status now =
     (if pr_status = Some (U ''merged'')
      then (Completed, [SetPrState (Some (U ''merged'')), SetFinishedAt (Some now)])
      else if pr_status = Some (U ''closed'')
      then (Closed, [SetPrState (Some (U ''closed'')), SetFinishedAt (Some now)])
      else (AwaitingHumanReview, []))"

definition sync_write ::
  "int \<Rightarrow> provider \<Rightarrow> feedback_item list \<Rightarrow> pystr option \<Rightarrow> time \<Rightarrow> db \<Rightarrow> (pyexc + unit) \<times> db" where
  "sync_write i p items pr_status now db =
     (case transition i AwaitingHumanReview (fst (sync_updates pr_status now))
             (snd (sync_updates pr_status now)) MSG_SYNC_DROPPED db of
        (Inl e, db') \<Rightarrow> (Inl e, db')
      | (Inr _, db') \<Rightarrow> (Inr (), upsert_all i p items db'))"

text \<open>
  \<open>sync_feedback\<close>: \<open>list_feedback\<close> and \<open>get_status\<close> are the forge's calls on repository and number.
\<close>

type_synonym 'a forge_call = "repository \<Rightarrow> int \<Rightarrow> db \<Rightarrow> (pyexc + 'a) \<times> db"

definition sync_feedback ::
  "'f registry \<Rightarrow> feedback_item list forge_call \<Rightarrow> pystr forge_call \<Rightarrow> int \<Rightarrow> int \<Rightarrow> time \<Rightarrow> db
    \<Rightarrow> (pyexc + int) \<times> db" where
  "sync_feedback reg list_feedback get_status i actor_id now db =
     (case sync_target i actor_id db of
        Inl e \<Rightarrow> (Inl e, db)
      | Inr (repo, number) \<Rightarrow>
          if \<not> registry_supports reg (rp_provider repo) [ListPrFeedback]
          then (Inl (raise_exc Conflict MSG_SYNC_UNSUPPORTED), db)
          else case list_feedback repo number db of
            (Inl e, db1) \<Rightarrow> (Inl e, db1)
          | (Inr items, db1) \<Rightarrow>
              (case (if registry_supports reg (rp_provider repo) [GetPrStatus]
                     then (case get_status repo number db1 of
                             (Inl e, d) \<Rightarrow> (Inl e, d) | (Inr s, d) \<Rightarrow> (Inr (Some s), d))
                     else (Inr None, db1)) of
                 (Inl e, db2) \<Rightarrow> (Inl e, db2)
               | (Inr pr_status, db2) \<Rightarrow>
                   (case sync_write i (rp_provider repo) items pr_status now db2 of
                      (Inl e, db3) \<Rightarrow> (Inl e, db3)
                    | (Inr _, db3) \<Rightarrow> (Inr (int (length items)), db3))))"

definition requeue_updates :: "failure_code \<Rightarrow> column_value list" where
  "requeue_updates code = [SetFailureCode (Some code), SetFailureSummary None, SetFinishedAt None]"

text \<open>\<open>is_dir\<close> is \<open>Path(..).is_dir()\<close> at the time of the call.\<close>

definition publishable :: "'f registry \<Rightarrow> (pystr \<Rightarrow> bool) \<Rightarrow> task \<Rightarrow> repository \<Rightarrow> bool" where
  "publishable reg is_dir t repo =
     (registry_supports reg (rp_provider repo) [Publish]
      \<and> tk_status t \<in> {ManualIntervention, Failed} \<and> truthy (tk_commit_sha t)
      \<and> truthy (tk_workspace_path t) \<and> truthy (tk_branch_name t) \<and> is_dir (the (tk_workspace_path t)))"

definition queue_existing_publish ::
  "'f registry \<Rightarrow> (pystr \<Rightarrow> bool) \<Rightarrow> int \<Rightarrow> int \<Rightarrow> db \<Rightarrow> (pyexc + unit) \<times> db" where
  "queue_existing_publish reg is_dir i actor_id db =
     (case owned_task i actor_id db of
        Inl e \<Rightarrow> (Inl e, db)
      | Inr t \<Rightarrow>
          (case task_repository t db of
             None \<Rightarrow> (Inl (raise_exc AttributeError []), db)
           | Some repo \<Rightarrow>
               if \<not> publishable reg is_dir t repo then (Inl (raise_exc Conflict MSG_NO_PUBLISH), db)
               else transition i (tk_status t) Queued (requeue_updates PublishExisting)
                      MSG_STATUS_CHANGED db))"

definition selectable :: "int \<Rightarrow> int list \<Rightarrow> pr_feedback \<Rightarrow> bool" where
  "selectable i ids r =
     (fb_task_id r = i \<and> fb_id r \<in> set ids \<and> fb_processed_at r = None
      \<and> fb_author_association r \<in> set TRUSTED_FEEDBACK_ASSOCIATIONS)"

definition queue_feedback_revision ::
  "int \<Rightarrow> int \<Rightarrow> int list \<Rightarrow> time \<Rightarrow> db \<Rightarrow> (pyexc + unit) \<times> db" where
  "queue_feedback_revision i actor_id ids now db =
     (case owned_task i actor_id db of
        Inl e \<Rightarrow> (Inl e, db)
      | Inr t \<Rightarrow>
          if tk_status t \<noteq> AwaitingHumanReview \<or> ids = []
          then (Inl (raise_exc Conflict MSG_NO_REVISION), db)
          else if sql_count (selectable i ids) (feedback db) \<noteq> length (remdups ids)
          then (Inl (raise_exc Conflict MSG_UNTRUSTED), db)
          else case transition i AwaitingHumanReview Queued (requeue_updates PrFeedbackRevision)
                      MSG_STATUS_CHANGED db of
            (Inl e, db') \<Rightarrow> (Inl e, db')
          | (Inr _, db') \<Rightarrow>
              (Inr (), db'\<lparr>feedback := sql_update (selectable i ids)
                 (\<lambda>r. r\<lparr>fb_selected_at := Some now\<rparr>) (feedback db')\<rparr>))"

section \<open>PRStatusPoller\<close>

text \<open>What one poll writes: the outcome is the forge's answer or the exception, with its type's name.\<close>

definition poll_write :: "int \<Rightarrow> (pystr \<times> pyexc) + pystr \<Rightarrow> time \<Rightarrow> db \<Rightarrow> (pyexc + unit) \<times> db" where
  "poll_write i outcome now db =
     (case outcome of
        Inl (type_name, e) \<Rightarrow>
          (Inr (), db\<lparr>tasks := sql_update (\<lambda>t. tk_id t = i \<and> tk_status t = AwaitingHumanReview)
             (\<lambda>t. t\<lparr>tk_pr_status_error := Some (take 1000 (type_name @ U '': '' @ exc_str e)),
                    tk_pr_status_checked_at := Some now\<rparr>) (tasks db)\<rparr>)
      | Inr status \<Rightarrow>
          if status \<noteq> U ''merged'' \<and> status \<noteq> U ''closed''
          then (Inr (), db\<lparr>tasks := sql_update (\<lambda>t. tk_id t = i \<and> tk_status t = AwaitingHumanReview)
             (\<lambda>t. t\<lparr>tk_pr_status_error := None, tk_pr_status_checked_at := Some now\<rparr>) (tasks db)\<rparr>)
          else case cas_task_status i [AwaitingHumanReview]
                      (if status = U ''merged'' then Completed else Closed)
                      [SetPrState (Some status), SetPrStatusError None, SetPrStatusCheckedAt (Some now),
                       SetFinishedAt (Some now)] None ActorSystem db of
            (Inl e, db') \<Rightarrow> (Inl e, db')
          | (Inr _, db') \<Rightarrow> (Inr (), db'))"

text \<open>The pull requests of a tick, in row order, with their repositories (an inner join).\<close>

definition open_pulls :: "db \<Rightarrow> (int \<times> repository \<times> int) list" where
  "open_pulls db = List.map_filter (\<lambda>t.
     if tk_status t = AwaitingHumanReview then
       (case (tk_pr_number t, task_repository t db) of
          (Some n, Some r) \<Rightarrow> Some (tk_id t, r, n) | _ \<Rightarrow> None)
     else None) (tasks db)"

fun poll_each ::
  "'f registry \<Rightarrow> (int \<Rightarrow> repository \<Rightarrow> int \<Rightarrow> db \<Rightarrow> ((pystr \<times> pyexc) + pystr) \<times> db) \<Rightarrow> time
    \<Rightarrow> (int \<times> repository \<times> int) list \<Rightarrow> db \<Rightarrow> (pyexc + unit) \<times> db" where
  "poll_each reg get_status now [] db = (Inr (), db)"
| "poll_each reg get_status now ((i, repo, n) # pulls) db =
     (if \<not> registry_supports reg (rp_provider repo) [GetPrStatus] then poll_each reg get_status now pulls db
      else case require_forge reg (rp_provider repo) of
        Inl e \<Rightarrow> (Inl e, db)
      | Inr _ \<Rightarrow>
          (let (outcome, db1) = get_status i repo n db in
           case poll_write i outcome now db1 of
             (Inl e, db2) \<Rightarrow> (Inl e, db2)
           | (Inr _, db2) \<Rightarrow> poll_each reg get_status now pulls db2))"

definition pr_status_tick ::
  "bool \<Rightarrow> 'f registry \<Rightarrow> (int \<Rightarrow> repository \<Rightarrow> int \<Rightarrow> db \<Rightarrow> ((pystr \<times> pyexc) + pystr) \<times> db) \<Rightarrow> time
    \<Rightarrow> db \<Rightarrow> (pyexc + unit) \<times> db" where
  "pr_status_tick can_run reg get_status now db =
     (if \<not> can_run then (Inr (), db) else poll_each reg get_status now (open_pulls db) db)"

section \<open>Deactivating a user\<close>

datatype toggle_result = ToggleNotFound | ToggleOwnAccount | Toggled "int list"

fun stop_each :: "time \<Rightarrow> task list \<Rightarrow> db \<Rightarrow> (pyexc + int list) \<times> db" where
  "stop_each now [] db = (Inr [], db)"
| "stop_each now (t # ts) db =
     (if tk_status t = Queued then
        (case cas_task_status (tk_id t) [Queued] Cancelled [SetFinishedAt (Some now)] None ActorSystem db of
           (Inl e, db') \<Rightarrow> (Inl e, db')
         | (Inr _, db') \<Rightarrow> stop_each now ts db')
      else
        (case cas_task_status (tk_id t) [tk_status t] Cancelling [] None ActorSystem db of
           (Inl e, db') \<Rightarrow> (Inl e, db')
         | (Inr changed, db') \<Rightarrow>
             (case stop_each now ts db' of
                (Inl e, db'') \<Rightarrow> (Inl e, db'')
              | (Inr ids, db'') \<Rightarrow> (Inr (if changed then tk_id t # ids else ids), db''))))"

text \<open>
  \<open>toggle_user\<close> after the session and permission checks: one transaction; the result lists the running
  tasks whose workers are signalled.
\<close>

definition toggle_user :: "int \<Rightarrow> int \<Rightarrow> time \<Rightarrow> db \<Rightarrow> (pyexc + toggle_result) \<times> db" where
  "toggle_user current_id target_id now db =
     (case get_user target_id db of
        None \<Rightarrow> (Inr ToggleNotFound, db)
      | Some target \<Rightarrow>
          if us_id target = current_id then (Inr ToggleOwnAccount, db)
          else
            (let db1 = db\<lparr>users := sql_update (\<lambda>u. us_id u = target_id)
                           (\<lambda>u. u\<lparr>us_is_active := \<not> us_is_active u\<rparr>) (users db)\<rparr> in
             if \<not> us_is_active target then (Inr (Toggled []), db1)
             else case stop_each now (filter (\<lambda>t. tk_created_by t = us_id target
                        \<and> (tk_status t = Queued \<or> running (tk_status t))) (tasks db1)) db1 of
               (Inl e, _) \<Rightarrow> (Inl e, db)
             | (Inr ids, db2) \<Rightarrow> (Inr (Toggled ids), db2)))"

section \<open>Every operation is a sequence of effects\<close>

lemma plain_moved:
  assumes "db_wf db" "get_task i db = Some t" "edge (tk_status t) new" "\<not> list_ex writes_token us"
    "claimed (tk_status t) = claimed new" "terminal (tk_status t) \<longrightarrow> terminal new \<or> \<not> dead t"
  shows "moved t (apply_updates us (t\<lparr>tk_status := new\<rparr>))"
proof (rule apply_updates_moved [OF assms(3) _ _ assms(6)])
  show "tk_claim_token (apply_updates us (t\<lparr>tk_status := new\<rparr>)) = (if claimed new then tk_claim_token t else None)"
    using wf_token_None [OF assms(1,2)] assms(5) by (simp add: apply_updates_keeps_token assms(4))
  show "tk_status t \<noteq> Queued \<or> \<not> claimed new" using assms(5) by (auto simp: CLAIMED_STATES_def)
qed

text \<open>A command's transition under the invariant: it succeeds exactly in the expected status.\<close>

lemma transition_wf:
  assumes "db_wf db" "edge expected new" "\<not> list_ex writes_token us" "claimed expected = claimed new"
    "terminal expected \<longrightarrow> terminal new \<or> (\<forall>t. get_task i db = Some t \<longrightarrow> \<not> dead t)"
  shows "transition i expected new us msg db =
    (case get_task i db of
       Some t \<Rightarrow> if tk_status t = expected then (Inr (), move_task t new us ActorSystem db)
                 else (Inl (raise_exc Conflict msg), db)
     | None \<Rightarrow> (Inl (raise_exc Conflict msg), db))"
proof -
  have "cas_task_status i [expected] new us None ActorSystem db =
    (case get_task i db of
       None \<Rightarrow> (Inr False, db)
     | Some t \<Rightarrow> if tk_status t \<in> set [expected] \<and> claim_matches None t
                 then (Inr True, move_task t new us ActorSystem db) else (Inr False, db))"
    using assms by (intro cas_wf plain_moved) auto
  then show ?thesis by (auto simp: transition_def claim_matches_def split: option.split)
qed

lemma transition_effects:
  assumes "db_wf db" "edge expected new" "\<not> list_ex writes_token us" "claimed expected = claimed new"
    "terminal expected \<longrightarrow> terminal new \<or> (\<forall>t. get_task i db = Some t \<longrightarrow> \<not> dead t)"
  shows "effects db (snd (transition i expected new us msg db))"
proof (cases "\<exists>t. get_task i db = Some t \<and> tk_status t = expected")
  case True
  then obtain t where t: "get_task i db = Some t" "tk_status t = expected" by blast
  have "moved t (apply_updates us (t\<lparr>tk_status := new\<rparr>))"
    using assms t by (intro plain_moved [OF assms(1) t(1)]) auto
  then show ?thesis using effect_move_task [OF t(1)] t by (auto simp: transition_wf [OF assms])
qed (auto simp: transition_wf [OF assms] split: option.split)

lemma owned_task_get: "owned_task i actor db = Inr t \<Longrightarrow> get_task i db = Some t"
  by (auto simp: owned_task_def split: option.splits if_splits)

lemma queued_edges [simp]: "edge Queued Cancelled" "edge AwaitingHumanReview Queued"
  "edge AwaitingHumanReview Completed" "edge AwaitingHumanReview Closed"
  "edge AwaitingHumanReview AwaitingHumanReview" "edge Failed Queued" "edge ManualIntervention Queued"
  by (simp_all add: edge_def)

lemma awaiting_not_terminal [simp]: "\<not> terminal AwaitingHumanReview" "\<not> terminal Queued"
  by (simp_all add: status_sets)

lemma request_cancel_effects:
  assumes "db_wf db"
  shows "effects db (snd (request_cancel i actor now db))"
proof (cases "owned_task i actor db")
  case (Inr t)
  consider "tk_status t = Queued" | "running (tk_status t)" | "tk_status t \<noteq> Queued" "\<not> running (tk_status t)"
    by blast
  then show ?thesis
  proof cases
    case 1
    have "effects db (snd (transition i Queued Cancelled [SetFinishedAt (Some now)] MSG_STATUS_CHANGED db))"
      by (rule transition_effects [OF assms]) simp_all
    with 1 Inr show ?thesis by (auto simp: request_cancel_def split: prod.split sum.split)
  next
    case 2
    have "effects db (snd (transition i (tk_status t) Cancelling [] MSG_STATUS_CHANGED db))"
      using 2 running_not_terminal [OF 2] running_claimed [OF 2]
      by (intro transition_effects [OF assms]) (simp_all add: running_edges)
    moreover have "tk_status t \<noteq> Queued" using 2 by (auto simp: status_sets)
    ultimately show ?thesis using 2 Inr by (auto simp: request_cancel_def split: prod.split sum.split)
  qed (simp add: request_cancel_def Inr)
qed (simp add: request_cancel_def)

lemma close_task_effects:
  assumes "db_wf db"
  shows "effects db (snd (close_task i actor now db))"
proof (cases "owned_task i actor db")
  case (Inr t)
  have "effects db (snd (transition i s Dismissed [SetFinishedAt (Some now)] MSG_STATUS_CHANGED db))"
    if "s \<in> set CLOSABLE_TASK_STATUSES" for s
    using that by (intro transition_effects [OF assms])
      (auto simp: CLOSABLE_TASK_STATUSES_def edge_def CLAIMED_STATES_def status_sets)
  then show ?thesis by (simp add: close_task_def Inr)
qed (simp add: close_task_def)

lemma upsert_all_effect:
  assumes "db_wf db" "feedback_ok (feedback db)"
  shows "task_effect db (upsert_all i p items db)"
proof (rule task_effect.other)
  have "distinct (map fb_id (feedback (upsert_all i p items db)))"
    using upsert_all_facts(7) [OF assms(2)] by (simp add: feedback_ok_def)
  with db_wfD(1) [OF assms(1)] show "keys_ok (upsert_all i p items db)"
    by (simp add: keys_ok_def upsert_all_facts)
qed (simp_all add: upsert_all_facts triage_view_def)

lemma sync_write_effects:
  assumes "db_wf db" "feedback_ok (feedback db)"
  shows "effects db (snd (sync_write i p items st now db))"
proof -
  let ?tr = "transition i AwaitingHumanReview (fst (sync_updates st now)) (snd (sync_updates st now))
      MSG_SYNC_DROPPED db"
  have e: "effects db (snd ?tr)"
    by (rule transition_effects [OF assms(1)]) (simp_all add: sync_updates_def)
  have fb: "feedback (snd ?tr) = feedback db"
    by (auto simp: transition_wf [OF assms(1)] sync_updates_def split: option.split)
  have "task_effect (snd ?tr) (upsert_all i p items (snd ?tr))"
    using assms(2) by (intro upsert_all_effect effects_wf [OF e assms(1)]) (simp add: fb)
  with e have "effects db (upsert_all i p items (snd ?tr))" by (rule rtranclp.rtrancl_into_rtrancl)
  with e show ?thesis by (cases ?tr) (auto simp: sync_write_def split: sum.split)
qed

lemma publishable_live: "publishable reg is_dir t repo \<Longrightarrow> \<not> dead t"
  by (auto simp: publishable_def dead_def)

lemma queue_existing_publish_effects:
  assumes "db_wf db"
  shows "effects db (snd (queue_existing_publish reg is_dir i actor db))"
proof (cases "\<exists>t repo. owned_task i actor db = Inr t \<and> task_repository t db = Some repo
    \<and> publishable reg is_dir t repo")
  case True
  then obtain t repo where t: "owned_task i actor db = Inr t" "task_repository t db = Some repo"
    "publishable reg is_dir t repo" by blast
  have "get_task i db = Some t" using t(1) by (rule owned_task_get)
  moreover have "tk_status t = Failed \<or> tk_status t = ManualIntervention"
    using t(3) by (auto simp: publishable_def)
  ultimately have "effects db (snd (transition i (tk_status t) Queued (requeue_updates PublishExisting)
      MSG_STATUS_CHANGED db))"
    using publishable_live [OF t(3)]
    by (intro transition_effects [OF assms]) (auto simp: requeue_updates_def)
  with t show ?thesis by (simp add: queue_existing_publish_def)
qed (auto simp: queue_existing_publish_def split: sum.split option.split)

lemma feedback_other:
  assumes "db_wf db" "map fb_id rows = map fb_id (feedback db)"
  shows "task_effect db (db\<lparr>feedback := rows\<rparr>)"
  by (rule task_effect.other) (use db_wfD(1) [OF assms(1)] assms(2) in \<open>simp_all add: triage_view_def keys_ok_def\<close>)

lemma queue_feedback_revision_effects:
  assumes "db_wf db"
  shows "effects db (snd (queue_feedback_revision i actor ids now db))"
proof -
  let ?tr = "transition i AwaitingHumanReview Queued (requeue_updates PrFeedbackRevision) MSG_STATUS_CHANGED db"
  have e: "effects db (snd ?tr)"
    by (rule transition_effects [OF assms]) (simp_all add: requeue_updates_def)
  have "task_effect (snd ?tr) ((snd ?tr)\<lparr>feedback := sql_update (selectable i ids)
      (\<lambda>r. r\<lparr>fb_selected_at := Some now\<rparr>) (feedback (snd ?tr))\<rparr>)"
    by (rule feedback_other [OF effects_wf [OF e assms]]) (simp add: map_sql_update)
  with e have "effects db ((snd ?tr)\<lparr>feedback := sql_update (selectable i ids)
      (\<lambda>r. r\<lparr>fb_selected_at := Some now\<rparr>) (feedback (snd ?tr))\<rparr>)"
    by (rule rtranclp.rtrancl_into_rtrancl)
  with e show ?thesis
    by (cases ?tr) (auto simp: queue_feedback_revision_def split: sum.split)
qed

lemma cas_plain_effects:
  assumes "db_wf db" "edge expected new" "\<not> list_ex writes_token us" "claimed expected = claimed new"
    "\<not> terminal expected"
  shows "effects db (snd (cas_task_status i [expected] new us None a db))"
  using assms by (intro cas_effects [OF assms(1)] plain_moved) auto

lemma snd_ignore [simp]:
  "snd (case p of (Inl e, d) \<Rightarrow> (Inl e, d) | (Inr x, d) \<Rightarrow> (Inr (), d)) = snd p"
  by (auto split: prod.split sum.split)

lemma poll_write_effects:
  assumes "db_wf db"
  shows "effects db (snd (poll_write i outcome now db))"
proof (cases outcome)
  case (Inl x)
  obtain name e where "x = (name, e)" by (cases x)
  with Inl show ?thesis
    by (auto simp: poll_write_def intro!: effect_steps(2) task_effect.tweak) (simp add: tweaked_def same_row_def)
next
  case (Inr status)
  have "effects db (snd (cas_task_status i [AwaitingHumanReview] new us None ActorSystem db))"
    if "new \<in> {Completed, Closed}" "\<not> list_ex writes_token us" for new us
    using that by (intro cas_plain_effects [OF assms]) auto
  moreover have "task_effect db (db\<lparr>tasks := sql_update (\<lambda>t. tk_id t = i \<and> tk_status t = AwaitingHumanReview)
      (\<lambda>t. t\<lparr>tk_pr_status_error := None, tk_pr_status_checked_at := Some now\<rparr>) (tasks db)\<rparr>)"
    by (rule task_effect.tweak) (simp add: tweaked_def same_row_def)
  ultimately show ?thesis by (auto simp: poll_write_def Inr)
qed

lemma poll_each_effects:
  assumes "\<And>i r n d. db_wf d \<Longrightarrow> effects d (snd (get_status i r n d))" "db_wf db"
  shows "effects db (snd (poll_each reg get_status now pulls db))"
  using assms(2)
proof (induction pulls arbitrary: db)
  case (Cons x pulls)
  obtain i repo n where x: "x = (i, repo, n)" by (cases x)
  obtain outcome db1 where g: "get_status i repo n db = (outcome, db1)" by fastforce
  have e1: "effects db db1" using assms(1) [OF Cons.prems, of i repo n] g by simp
  obtain r db2 where w: "poll_write i outcome now db1 = (r, db2)" by fastforce
  have e2: "effects db1 db2"
    using poll_write_effects [OF effects_wf [OF e1 Cons.prems], of i outcome now] w by simp
  have e3: "effects db2 (snd (poll_each reg get_status now pulls db2))"
    by (intro Cons.IH effects_wf [OF e2] effects_wf [OF e1] Cons.prems)
  have "effects db db2" using e1 e2 by (rule effects_trans)
  moreover from this e3 have "effects db (snd (poll_each reg get_status now pulls db2))" by (rule effects_trans)
  ultimately show ?case
    using Cons.IH [OF Cons.prems] by (cases r) (auto simp: x g w split: sum.split)
qed simp

lemma stop_each_effects:
  assumes "db_wf db" "\<forall>t \<in> set ts. tk_status t = Queued \<or> running (tk_status t)"
  shows "effects db (snd (stop_each now ts db))"
  using assms
proof (induction ts arbitrary: db)
  case (Cons t ts)
  show ?case
  proof (cases "tk_status t = Queued")
    case True
    obtain r d where c: "cas_task_status (tk_id t) [Queued] Cancelled [SetFinishedAt (Some now)] None
        ActorSystem db = (r, d)" by fastforce
    have e: "effects db d"
      using cas_plain_effects [OF Cons.prems(1), of Queued Cancelled "[SetFinishedAt (Some now)]" "tk_id t"
          ActorSystem] c by simp
    have "effects d (snd (stop_each now ts d))"
      using Cons.prems(2) by (intro Cons.IH effects_wf [OF e Cons.prems(1)]) simp
    with e show ?thesis using True c by (cases r) (auto intro: effects_trans)
  next
    case False
    then have run: "running (tk_status t)" using Cons.prems(2) by simp
    obtain r d where c: "cas_task_status (tk_id t) [tk_status t] Cancelling [] None ActorSystem db = (r, d)"
      by fastforce
    have e: "effects db d"
      using cas_plain_effects [OF Cons.prems(1) running_edges(3) [OF run], of "[]" "tk_id t" ActorSystem] c
        running_claimed [OF run] running_not_terminal [OF run] by simp
    have e': "effects d (snd (stop_each now ts d))"
      using Cons.prems(2) by (intro Cons.IH effects_wf [OF e Cons.prems(1)]) simp
    obtain r' d' where c': "stop_each now ts d = (r', d')" by fastforce
    have "effects db d'" using effects_trans [OF e e'] c' by simp
    with e show ?thesis using False c c' by (cases r; cases r') simp_all
  qed
qed simp

lemma users_other:
  assumes "db_wf db" "map us_id rows = map us_id (users db)"
  shows "task_effect db (db\<lparr>users := rows\<rparr>)"
  by (rule task_effect.other) (use db_wfD(1) [OF assms(1)] assms(2) in \<open>simp_all add: triage_view_def keys_ok_def\<close>)

lemma toggle_user_effects:
  assumes "db_wf db"
  shows "effects db (snd (toggle_user current target now db))"
proof -
  let ?db1 = "db\<lparr>users := sql_update (\<lambda>u. us_id u = target)
      (\<lambda>u. u\<lparr>us_is_active := \<not> us_is_active u\<rparr>) (users db)\<rparr>"
  have e: "task_effect db ?db1" by (rule users_other [OF assms]) (simp add: map_sql_update)
  have e': "effects ?db1 (snd (stop_each now (filter (\<lambda>t. tk_created_by t = u
      \<and> (tk_status t = Queued \<or> running (tk_status t))) (tasks ?db1)) ?db1))" for u
    by (intro stop_each_effects effect_wf [OF e assms]) simp
  have all: "effects db (snd (stop_each now (filter (\<lambda>t. tk_created_by t = u
      \<and> (tk_status t = Queued \<or> running (tk_status t))) (tasks ?db1)) ?db1))" for u
    by (rule converse_rtranclp_into_rtranclp [of task_effect, OF e e'])
  show ?thesis
  proof (cases "get_user target db")
    case (Some u)
    obtain r d where s: "stop_each now (filter (\<lambda>t. tk_created_by t = us_id u
      \<and> (tk_status t = Queued \<or> running (tk_status t))) (tasks ?db1)) ?db1 = (r, d)" by fastforce
    have "effects db d" using all [of "us_id u"] unfolding s by simp
    with e show ?thesis using Some s by (cases r) (simp_all add: toggle_user_def Let_def r_into_rtranclp)
  qed (simp add: toggle_user_def)
qed

section \<open>Properties\<close>

text \<open>
  C14: what a cancellation does.  Without a permission or in a status that cannot be cancelled it changes
  nothing and reports the error.  A queued task is cancelled on the spot and no worker is signalled; a
  running task becomes cancelling, its worker keeps the claim and is to be signalled; in both cases one
  audit row records the step.
\<close>

theorem request_cancel_outcomes:
  assumes "db_wf db" "request_cancel i actor now db = (r, db')"
  shows "case owned_task i actor db of
      Inl e \<Rightarrow> r = Inl e \<and> db' = db
    | Inr t \<Rightarrow>
        if tk_status t = Queued \<or> running (tk_status t)
        then r = Inr (running (tk_status t))
          \<and> (\<exists>t'. get_task i db' = Some t'
               \<and> tk_status t' = (if tk_status t = Queued then Cancelled else Cancelling)
               \<and> tk_claim_token t' = tk_claim_token t)
          \<and> (\<exists>v. transitions db' = transitions db @ [\<lparr>tr_task_id = i, tr_from_status = tk_status t,
               tr_to_status = (if tk_status t = Queued then Cancelled else Cancelling),
               tr_actor = ActorSystem, tr_contract_version = v\<rparr>])
        else r = Inl (raise_exc Conflict MSG_NOT_CANCELLABLE) \<and> db' = db"
proof (cases "owned_task i actor db")
  case (Inl e)
  with assms(2) show ?thesis by (simp add: request_cancel_def)
next
  case (Inr t)
  have t: "get_task i db = Some t" "tk_id t = i"
    using owned_task_get [OF Inr] by (auto dest: get_task_SomeD)
  have q: "transition i Queued Cancelled [SetFinishedAt (Some now)] MSG_STATUS_CHANGED db
      = (Inr (), move_task t Cancelled [SetFinishedAt (Some now)] ActorSystem db)" if "tk_status t = Queued"
    by (subst transition_wf [OF assms(1)]) (simp_all add: t that)
  have c: "transition i (tk_status t) Cancelling [] MSG_STATUS_CHANGED db
      = (Inr (), move_task t Cancelling [] ActorSystem db)" if "running (tk_status t)"
    using that running_not_terminal [OF that] running_claimed [OF that]
    by (subst transition_wf [OF assms(1)]) (simp_all add: t running_edges)
  have nq: "\<not> running Queued" by (simp add: status_sets)
  show ?thesis
    using assms(2) q c t nq
    by (auto simp: request_cancel_def Inr get_task_move transitions_move_task split: if_splits)
qed

theorem request_cancel_outcomes_witness:
  "\<exists>t'. get_task 1 (snd (request_cancel 1 9 5 ((issue_db Reviewing (Some [7]))
       \<lparr>users := [\<lparr>us_id = 9, us_role = RoleAdmin, us_is_active = True, us_username = []\<rparr>]\<rparr>))) = Some t'
     \<and> tk_status t' = Cancelling \<and> tk_claim_token t' = Some [7]"
proof -
  let ?db = "(issue_db Reviewing (Some [7]))\<lparr>users := [\<lparr>us_id = 9, us_role = RoleAdmin, us_is_active = True, us_username = []\<rparr>]\<rparr>"
  have wf: "db_wf ?db" by (simp add: wf_simps)
  obtain t where own: "owned_task 1 9 ?db = Inr t" "tk_status t = Reviewing" "tk_claim_token t = Some [7]"
    by (simp add: owned_task_def wf_simps get_user_def)
  show ?thesis
    using request_cancel_outcomes [OF wf, of 1 9 5 "fst (request_cancel 1 9 5 ?db)" "snd (request_cancel 1 9 5 ?db)"]
    unfolding own(1) by (auto simp: own(2,3) running_iff)
qed

lemma selected_ids:
  assumes "distinct (map fb_id rows)" "sql_count (selectable i ids) rows = length (remdups ids)" "x \<in> set ids"
  shows "\<exists>r \<in> set rows. fb_id r = x \<and> selectable i ids r"
proof -
  let ?sel = "filter (selectable i ids) rows"
  have "distinct (map fb_id ?sel)" using assms(1) by (simp add: distinct_map_filter)
  then have "card (fb_id ` set ?sel) = card (set ids)"
    using assms(2) distinct_card [of "map fb_id ?sel"] by (simp add: sql_count_def length_remdups_card_conv)
  moreover have "fb_id ` set ?sel \<subseteq> set ids" by (auto simp: selectable_def)
  ultimately have "fb_id ` set ?sel = set ids" by (intro card_subset_eq) simp_all
  with assms(3) have "x \<in> fb_id ` set ?sel" by simp
  then show ?thesis by auto
qed



text \<open>
  C16: requeueing a task for publication never meets the unique index.  The request succeeds exactly for an
  authorised actor on a publishable task; then the task is queued for \<open>publish_existing\<close> and every
  other task of its issue is dead; when it fails nothing is written and the error is not an
  \<open>IntegrityError\<close>.
\<close>

theorem requeue_never_collides:
  assumes "db_wf db" "queue_existing_publish reg is_dir i actor db = (r, db')"
  shows "(r = Inr () \<longleftrightarrow> (\<exists>t repo. owned_task i actor db = Inr t \<and> task_repository t db = Some repo
        \<and> publishable reg is_dir t repo))
    \<and> (r = Inr () \<longrightarrow> (\<exists>t'. get_task i db' = Some t' \<and> tk_status t' = Queued
        \<and> tk_failure_code t' = Some PublishExisting
        \<and> (\<forall>u \<in> set (tasks db'). tk_issue_id u = tk_issue_id t' \<longrightarrow> tk_id u \<noteq> i \<longrightarrow> dead u)))
    \<and> (\<forall>e. r = Inl e \<longrightarrow> db' = db \<and> exc_cls e \<noteq> IntegrityError)"
proof (cases "\<exists>t repo. owned_task i actor db = Inr t \<and> task_repository t db = Some repo
    \<and> publishable reg is_dir t repo")
  case True
  then obtain t repo where t: "owned_task i actor db = Inr t" "task_repository t db = Some repo"
    "publishable reg is_dir t repo" by blast
  have g: "get_task i db = Some t" "tk_id t = i"
    using owned_task_get [OF t(1)] by (auto dest: get_task_SomeD)
  have st: "tk_status t = Failed \<or> tk_status t = ManualIntervention" using t(3) by (auto simp: publishable_def)
  let ?m = "move_task t Queued (requeue_updates PublishExisting) ActorSystem db"
  have tr: "transition i (tk_status t) Queued (requeue_updates PublishExisting) MSG_STATUS_CHANGED db = (Inr (), ?m)"
    using st publishable_live [OF t(3)]
    by (subst transition_wf [OF assms(1)]) (auto simp: g requeue_updates_def)
  have r: "r = Inr ()" "db' = ?m" using assms(2) t tr by (simp_all add: queue_existing_publish_def)
  have wf': "db_wf db'"
    using queue_existing_publish_effects [OF assms(1), of reg is_dir i actor] assms(2) effects_wf [OF _ assms(1)]
    by simp
  let ?t' = "apply_updates (requeue_updates PublishExisting) (t\<lparr>tk_status := Queued\<rparr>)"
  have t': "get_task i db' = Some ?t'" using g by (simp add: r get_task_move)
  have "dead u" if "u \<in> set (tasks db')" "tk_issue_id u = tk_issue_id ?t'" "tk_id u \<noteq> i" for u
  proof (rule ccontr)
    assume "\<not> dead u"
    moreover have "?t' \<in> set (tasks db')" "tk_id ?t' = i" using t' by (auto dest: get_task_SomeD)
    moreover have "\<not> dead ?t'" by (simp add: dead_def)
    ultimately have "tk_id u = tk_id ?t'"
      using that(1,2) by (intro one_liveD [OF db_wfD(4) [OF wf']])
    with \<open>tk_id ?t' = i\<close> that(3) show False by simp
  qed
  then show ?thesis using True r(1) t' by (simp add: requeue_updates_def)
next
  case False
  have "exc_cls e \<noteq> IntegrityError" if "owned_task i actor db = Inl e" for e
    using that by (auto simp: owned_task_def split: option.splits if_splits)
  with False show ?thesis
    using assms(2) by (auto simp: queue_existing_publish_def split: sum.splits option.splits)
qed

definition publish_db :: db where
  "publish_db = (issue_db Failed None)\<lparr>
     users := [\<lparr>us_id = 9, us_role = RoleAdmin, us_is_active = True, us_username = []\<rparr>],
     repositories := [\<lparr>rp_id = 1, rp_provider = Github, rp_owner = [1], rp_name = [1],
       rp_canonical_url = [1], rp_default_branch = [1], rp_fork_owner = None, rp_fork_url = None, rp_created_by = 1, rp_is_enabled = True, rp_sync_status = SyncIdle,
       rp_sync_started_at = None, rp_last_synced_at = None, rp_sync_cursor_updated_at = None,
       rp_last_sync_error = None\<rparr>],
     tasks := [(new_task 1 1 1 [] 0)\<lparr>tk_status := Failed, tk_commit_sha := Some [5],
       tk_workspace_path := Some [6], tk_branch_name := Some [7]\<rparr>]\<rparr>"

definition github_only :: "unit registry" where
  "github_only = [Github \<mapsto> registration_full ()]"

theorem requeue_never_collides_witness:
  "\<exists>t'. get_task 1 (snd (queue_existing_publish github_only (\<lambda>_. True) 1 9 publish_db)) = Some t'
     \<and> tk_status t' = Queued"
proof -
  let ?q = "queue_existing_publish github_only (\<lambda>_. True) 1 9 publish_db"
  have wf: "db_wf publish_db" by (simp add: publish_db_def wf_simps)
  have "\<exists>t repo. owned_task 1 9 publish_db = Inr t \<and> task_repository t publish_db = Some repo
        \<and> publishable github_only (\<lambda>_. True) t repo"
    by (simp add: publish_db_def wf_simps owned_task_def get_user_def task_repository_def get_issue_row_def
        get_repository_def publishable_def github_only_def registry_supports_def registration_full_def
        registration_supports_def all_capabilities)
  with requeue_never_collides [OF wf, of github_only "\<lambda>_. True" 1 9 "fst ?q" "snd ?q"]
  show ?thesis by auto
qed

subsection \<open>Deactivation\<close>

definition stopped_row :: "time \<Rightarrow> task \<Rightarrow> task" where
  "stopped_row now t =
     (if tk_status t = Queued then t\<lparr>tk_status := Cancelled, tk_finished_at := Some now\<rparr>
      else t\<lparr>tk_status := Cancelling\<rparr>)"

lemma stop_step:
  fixes now :: time
  assumes "db_wf db" "get_task (tk_id t) db = Some t" "tk_status t = Queued \<or> running (tk_status t)"
  defines "new \<equiv> if tk_status t = Queued then Cancelled else Cancelling"
    and "us \<equiv> if tk_status t = Queued then [SetFinishedAt (Some now)] else []"
  shows "cas_task_status (tk_id t) [tk_status t] new us None ActorSystem db
      = (Inr True, move_task t new us ActorSystem db)"
    and "db_wf (move_task t new us ActorSystem db)"
    and "get_task j (move_task t new us ActorSystem db)
      = (if j = tk_id t then Some (stopped_row now t) else get_task j db)"
proof -
  have edge: "edge (tk_status t) new" "claimed (tk_status t) = claimed new" "\<not> terminal (tk_status t)"
    using assms(3) running_edges(3) running_claimed running_not_terminal by (auto simp: new_def)
  have moved: "moved t (apply_updates us (t\<lparr>tk_status := new\<rparr>))"
    using edge by (intro plain_moved [OF assms(1,2)]) (auto simp: us_def)
  show "cas_task_status (tk_id t) [tk_status t] new us None ActorSystem db
      = (Inr True, move_task t new us ActorSystem db)"
    using moved by (subst cas_wf [OF assms(1)]) (simp_all add: assms(2) claim_matches_def)
  show "db_wf (move_task t new us ActorSystem db)"
    by (rule effect_wf [OF effect_move_task [OF assms(2) moved] assms(1)])
  show "get_task j (move_task t new us ActorSystem db)
      = (if j = tk_id t then Some (stopped_row now t) else get_task j db)"
    by (simp add: get_task_move assms(2) stopped_row_def new_def us_def)
qed

lemma stop_each_result:
  assumes "db_wf db" "distinct (map tk_id ts)"
    "\<forall>t \<in> set ts. get_task (tk_id t) db = Some t \<and> (tk_status t = Queued \<or> running (tk_status t))"
  shows "\<exists>db'. stop_each now ts db = (Inr (map tk_id (filter (\<lambda>t. running (tk_status t)) ts)), db')
    \<and> (\<forall>i. get_task i db' = (case find (\<lambda>t. tk_id t = i) ts of
          Some t \<Rightarrow> Some (stopped_row now t) | None \<Rightarrow> get_task i db))"
  using assms
proof (induction ts arbitrary: db)
  case (Cons t ts)
  have t: "get_task (tk_id t) db = Some t" "tk_status t = Queued \<or> running (tk_status t)"
    using Cons.prems(3) by auto
  define new where "new = (if tk_status t = Queued then Cancelled else Cancelling)"
  define us where "us = (if tk_status t = Queued then [SetFinishedAt (Some now)] else [])"
  let ?m = "move_task t new us ActorSystem db"
  have step: "cas_task_status (tk_id t) [tk_status t] new us None ActorSystem db = (Inr True, ?m)"
    "db_wf ?m" "get_task j ?m = (if j = tk_id t then Some (stopped_row now t) else get_task j db)" for j
    unfolding new_def us_def by (rule stop_step [OF Cons.prems(1) t])+
  have other: "tk_id u \<noteq> tk_id t" if "u \<in> set ts" for u
    using Cons.prems(2) that by (auto simp: image_iff)
  have "\<forall>u \<in> set ts. get_task (tk_id u) ?m = Some u \<and> (tk_status u = Queued \<or> running (tk_status u))"
    using Cons.prems(3) other by (simp add: step(3))
  from Cons.IH [OF step(2) _ this] Cons.prems(2)
  obtain db' where db': "stop_each now ts ?m = (Inr (map tk_id (filter (\<lambda>t. running (tk_status t)) ts)), db')"
    "\<forall>i. get_task i db' = (case find (\<lambda>t. tk_id t = i) ts of
          Some t \<Rightarrow> Some (stopped_row now t) | None \<Rightarrow> get_task i ?m)" by auto
  have "\<not> running Queued" by (simp add: status_sets)
  then have "stop_each now (t # ts) db
      = (Inr (map tk_id (filter (\<lambda>t. running (tk_status t)) (t # ts))), db')"
    using step(1) db'(1) t(2) by (auto simp: new_def us_def)
  moreover have "find (\<lambda>u. tk_id u = tk_id t) ts = None" using other by (auto simp: find_None_iff)
  then have "\<forall>i. get_task i db' = (case find (\<lambda>u. tk_id u = i) (t # ts) of
          Some u \<Rightarrow> Some (stopped_row now u) | None \<Rightarrow> get_task i db)"
    using db'(2) by (auto simp: step(3) split: option.split)
  ultimately show ?case by blast
qed simp

text \<open>
  C17: deactivating a user stops their work.  Deactivation never fails half way: afterwards none of the
  user's tasks is queued or running; queued ones are cancelled, running ones are cancelling and are
  exactly the ones to be signalled; every other task keeps its row.
\<close>

theorem deactivation_stops_tasks:
  assumes "db_wf db" "get_user target db = Some u" "us_is_active u" "us_id u \<noteq> current"
    and "toggle_user current target now db = (r, db')"
  shows "(\<exists>ids. r = Inr (Toggled ids) \<and>
        (\<forall>i. i \<in> set ids \<longleftrightarrow> (\<exists>t. get_task i db = Some t \<and> tk_created_by t = target \<and> running (tk_status t))))
    \<and> (\<forall>i t. get_task i db = Some t \<longrightarrow> get_task i db' =
        Some (if tk_created_by t = target \<and> (tk_status t = Queued \<or> running (tk_status t))
              then stopped_row now t else t))"
proof -
  let ?p = "\<lambda>t. tk_created_by t = us_id u \<and> (tk_status t = Queued \<or> running (tk_status t))"
  let ?db1 = "db\<lparr>users := sql_update (\<lambda>u. us_id u = target)
      (\<lambda>u. u\<lparr>us_is_active := \<not> us_is_active u\<rparr>) (users db)\<rparr>"
  let ?ts = "filter ?p (tasks ?db1)"
  have u: "us_id u = target" using assms(2) by (auto simp: get_user_def dest: find_SomeD)
  have wf1: "db_wf ?db1"
    by (rule effect_wf [OF users_other [OF assms(1)] assms(1)]) (simp add: map_sql_update)
  have g: "get_task i ?db1 = get_task i db" for i by (simp add: get_task_def)
  have d: "distinct (map tk_id (tasks ?db1))" by (rule db_wfD(6) [OF wf1])
  have rows: "\<forall>t \<in> set ?ts. get_task (tk_id t) ?db1 = Some t \<and> (tk_status t = Queued \<or> running (tk_status t))"
    using get_task_iff [OF d] by auto
  obtain db2 where db2: "stop_each now ?ts ?db1 = (Inr (map tk_id (filter (\<lambda>t. running (tk_status t)) ?ts)), db2)"
    "\<forall>i. get_task i db2 = (case find (\<lambda>t. tk_id t = i) ?ts of
          Some t \<Rightarrow> Some (stopped_row now t) | None \<Rightarrow> get_task i ?db1)"
    using stop_each_result [OF wf1 _ rows, of now] d by (auto simp: distinct_map_filter)
  have r: "r = Inr (Toggled (map tk_id (filter (\<lambda>t. running (tk_status t)) ?ts)))" "db' = db2"
    using assms(2-5) db2(1) by (simp_all add: toggle_user_def Let_def)
  have f: "find (\<lambda>t. tk_id t = i) ?ts = (if ?p t then Some t else None)" if "get_task i db = Some t" for i t
    using find_filter_key [OF d, of i ?p] that by (simp add: get_task_def)
  have "get_task i db' = Some (if ?p t then stopped_row now t else t)" if t: "get_task i db = Some t" for i t
  proof (cases "?p t")
    case True
    then show ?thesis unfolding r(2) db2(2) [rule_format] f [OF t] by auto
  next
    case False
    then have "get_task i db' = get_task i db" unfolding r(2) db2(2) [rule_format] f [OF t] g by auto
    with t show ?thesis unfolding if_not_P [OF False] by simp
  qed
  moreover have "i \<in> set (map tk_id (filter (\<lambda>t. running (tk_status t)) ?ts))
      \<longleftrightarrow> (\<exists>t. get_task i db = Some t \<and> tk_created_by t = us_id u \<and> running (tk_status t))" for i
    using get_task_iff [OF d, of i] by (auto simp: g)
  ultimately show ?thesis unfolding r(1) u by blast
qed

theorem deactivation_stops_tasks_witness:
  "get_task 1 (snd (toggle_user 9 1 5
      ((issue_db Queued None)\<lparr>users := [\<lparr>us_id = 1, us_role = RoleUser, us_is_active = True, us_username = []\<rparr>]\<rparr>)))
   = Some ((new_task 1 1 1 [] 0)\<lparr>tk_status := Cancelled, tk_finished_at := Some 5\<rparr>)"
proof -
  let ?u = "\<lparr>us_id = 1, us_role = RoleUser, us_is_active = True, us_username = []\<rparr>"
  let ?db = "(issue_db Queued None)\<lparr>users := [?u]\<rparr>"
  have wf: "db_wf ?db" by (simp add: wf_simps)
  have u: "get_user 1 ?db = Some ?u" by (simp add: get_user_def)
  have t: "get_task 1 ?db = Some (new_task 1 1 1 [] 0)" by (simp add: wf_simps)
  have "get_task 1 (snd (toggle_user 9 1 5 ?db)) = Some (stopped_row 5 (new_task 1 1 1 [] 0))"
    using deactivation_stops_tasks [OF wf u, of 9 5 "fst (toggle_user 9 1 5 ?db)" "snd (toggle_user 9 1 5 ?db)"] t
    by (auto simp: new_task_def)
  then show ?thesis by (simp add: stopped_row_def new_task_def)
qed

text \<open>
  C18: the poll only moves tasks that await review.  Whatever a platform answers, the poll of task \<open>i\<close>
  changes no other task and no task in another status; a task awaiting review is completed when its pull
  request was merged, closed when it was closed, and otherwise keeps its status, an unreadable answer
  leaving its error text; the poll never raises.
\<close>

theorem poll_moves_only_awaiting:
  assumes "db_wf db" "poll_write i outcome now db = (r, db')" "get_task j db = Some t"
  shows "r = Inr () \<and> (\<exists>t'. get_task j db' = Some t'
    \<and> (if j \<noteq> i \<or> tk_status t \<noteq> AwaitingHumanReview then t' = t
       else case outcome of
         Inl (name, e) \<Rightarrow> tk_status t' = AwaitingHumanReview
           \<and> tk_pr_status_error t' = Some (take 1000 (name @ U '': '' @ exc_str e))
       | Inr s \<Rightarrow> tk_pr_status_error t' = None \<and>
           tk_status t' = (if s = U ''merged'' then Completed else if s = U ''closed'' then Closed
                           else AwaitingHumanReview)))"
proof -
  have tid: "tk_id t = j" using assms(3) by (auto dest: get_task_SomeD)
  let ?p = "\<lambda>t. tk_id t = i \<and> tk_status t = AwaitingHumanReview"
  have upd: "get_task j (db\<lparr>tasks := sql_update ?p f (tasks db)\<rparr>)
      = Some (if j = i \<and> tk_status t = AwaitingHumanReview then f t else t)"
    if f: "\<And>t. tk_id (f t) = tk_id t" for f
  proof -
    have "find (\<lambda>t. tk_id t = j) (sql_update ?p f rows)
        = map_option (\<lambda>t. if ?p t then f t else t) (find (\<lambda>t. tk_id t = j) rows)" for rows
      using f by (induction rows) auto
    then show ?thesis using assms(3) tid by (simp add: get_task_def)
  qed
  show ?thesis
  proof (cases outcome)
    case (Inl x)
    obtain name e where "x = (name, e)" by (cases x)
    with Inl assms(2) have "r = Inr ()" "db' = db\<lparr>tasks := sql_update ?p
        (\<lambda>t. t\<lparr>tk_pr_status_error := Some (take 1000 (name @ U '': '' @ exc_str e)),
               tk_pr_status_checked_at := Some now\<rparr>) (tasks db)\<rparr>"
      by (simp_all add: poll_write_def)
    with Inl \<open>x = (name, e)\<close> show ?thesis by (simp add: upd del: take_append)
  next
    case (Inr s)
    show ?thesis
    proof (cases "s = U ''merged'' \<or> s = U ''closed''")
      case False
      with Inr assms(2) have "r = Inr ()" "db' = db\<lparr>tasks := sql_update ?p
          (\<lambda>t. t\<lparr>tk_pr_status_error := None, tk_pr_status_checked_at := Some now\<rparr>) (tasks db)\<rparr>"
        by (simp_all add: poll_write_def)
      with Inr False show ?thesis by (simp add: upd)
    next
      case True
      let ?new = "if s = U ''merged'' then Completed else Closed"
      let ?us = "[SetPrState (Some s), SetPrStatusError None, SetPrStatusCheckedAt (Some now),
          SetFinishedAt (Some now)]"
      have c: "cas_task_status i [AwaitingHumanReview] ?new ?us None ActorSystem db =
        (case get_task i db of
           None \<Rightarrow> (Inr False, db)
         | Some t \<Rightarrow> if tk_status t \<in> set [AwaitingHumanReview] \<and> claim_matches None t
                     then (Inr True, move_task t ?new ?us ActorSystem db) else (Inr False, db))"
        by (intro cas_wf [OF assms(1)] plain_moved [OF assms(1)]) auto
      have w: "poll_write i outcome now db = (case cas_task_status i [AwaitingHumanReview] ?new ?us None
          ActorSystem db of (Inl e, d) \<Rightarrow> (Inl e, d) | (Inr _, d) \<Rightarrow> (Inr (), d))"
        using True by (auto simp: poll_write_def Inr)
      have neq: "U ''closed'' \<noteq> U ''merged''" by (simp add: U_def)
      show ?thesis
      proof (cases "j = i")
        case True
        with assms(2,3) \<open>s = _ \<or> s = _\<close> neq tid show ?thesis
          unfolding w c by (auto simp: claim_matches_def get_task_move Inr split: if_splits)
      next
        case False
        have "tk_id u = i" if "get_task i db = Some u" for u using that by (auto dest: get_task_SomeD)
        with False assms(2,3) show ?thesis
          unfolding w c by (auto simp: claim_matches_def get_task_move split: option.splits if_splits)
      qed
    qed
  qed
qed

theorem poll_moves_only_awaiting_witness:
  "\<exists>t'. get_task 1 (snd (poll_write 1 (Inr (U ''merged'')) 5 (issue_db AwaitingHumanReview None))) = Some t'
     \<and> tk_status t' = Completed"
proof -
  let ?db = "issue_db AwaitingHumanReview None"
  have wf: "db_wf ?db" by (simp add: wf_simps)
  obtain t where t: "get_task 1 ?db = Some t" "tk_status t = AwaitingHumanReview" by (simp add: wf_simps)
  show ?thesis
    using poll_moves_only_awaiting [OF wf _ t(1), of 1 "Inr (U ''merged'')" 5
        "fst (poll_write 1 (Inr (U ''merged'')) 5 ?db)" "snd (poll_write 1 (Inr (U ''merged'')) 5 ?db)"]
    by (auto simp: t(2))
qed

end
