(* ===== verification/Py_Url.thy ===== *)
theory Py_Url
  imports Py_Str Exceptions
begin

text \<open>
  The parts of Python's \<open>urllib.parse.urlsplit\<close>, \<open>str.isdigit\<close> and \<open>int(str)\<close> that the modelled code uses.

  \<open>bad_netloc\<close> stands for the two checks of \<open>urlsplit\<close> that need tables of their own (bracketed IP literals
  and the NFKC normalisation of a host with non-ASCII characters); it is asked only where Python asks, so a
  plain ASCII host does not depend on it.  \<open>uni\<close> classifies the code points above 127 as digits.
\<close>

section \<open>Characters\<close>

definition ascii_lower :: "pystr \<Rightarrow> pystr" where
  "ascii_lower s = map (\<lambda>c. if 65 \<le> c \<and> c \<le> 90 then c + 32 else c) s"

definition is_alpha :: "nat \<Rightarrow> bool" where
  "is_alpha c = (65 \<le> c \<and> c \<le> 90 \<or> 97 \<le> c \<and> c \<le> 122)"

definition is_alnum :: "nat \<Rightarrow> bool" where
  "is_alnum c = (is_alpha c \<or> 48 \<le> c \<and> c \<le> 57)"

definition is_hex :: "nat \<Rightarrow> bool" where
  "is_hex c = (48 \<le> c \<and> c \<le> 57 \<or> 65 \<le> c \<and> c \<le> 70 \<or> 97 \<le> c \<and> c \<le> 102)"

definition is_lower_hex :: "nat \<Rightarrow> bool" where
  "is_lower_hex c = (48 \<le> c \<and> c \<le> 57 \<or> 97 \<le> c \<and> c \<le> 102)"

text \<open>
  \<open>isdigit\<close> accepts more than \<open>int\<close> does: a superscript is a digit without being a decimal.
\<close>

datatype digit_kind = NoDigit | DigitOnly | Decimal nat

definition digit_of :: "(nat \<Rightarrow> digit_kind) \<Rightarrow> nat \<Rightarrow> digit_kind" where
  "digit_of uni c =
     (if c < 128 then (if 48 \<le> c \<and> c \<le> 57 then Decimal (c - 48) else NoDigit) else uni c)"

definition isdigit :: "(nat \<Rightarrow> digit_kind) \<Rightarrow> pystr \<Rightarrow> bool" where
  "isdigit uni s = (s \<noteq> [] \<and> list_all (\<lambda>c. digit_of uni c \<noteq> NoDigit) s)"

fun decimal_value :: "digit_kind \<Rightarrow> nat" where
  "decimal_value (Decimal d) = d"
| "decimal_value _ = 0"

text \<open>
  \<open>int(s)\<close> on a string of digits.  Longer texts than \<open>sys.get_int_max_str_digits()\<close>, 4300 by default, and
  digits that are not decimals raise \<open>ValueError\<close>.
\<close>

definition int_of_digits :: "(nat \<Rightarrow> digit_kind) \<Rightarrow> pystr \<Rightarrow> pyexc + int" where
  "int_of_digits uni s =
     (if list_ex (\<lambda>c. digit_of uni c = DigitOnly) s \<or> 4300 < length s
      then Inl (raise_exc ValueError [])
      else Inr (int (foldl (\<lambda>n c. 10 * n + decimal_value (digit_of uni c)) 0 s)))"

lemma foldl_digits:
  "list_all (\<lambda>c. 48 \<le> c \<and> c \<le> 57) s \<Longrightarrow>
     foldl (\<lambda>n c. 10 * n + decimal_value (digit_of uni c)) k s = foldl (\<lambda>n c. 10 * n + (c - 48)) k s"
  by (induction s arbitrary: k) (auto simp: digit_of_def)

lemma nat_str_list_all: "list_all (\<lambda>c. 48 \<le> c \<and> c \<le> 57) (nat_str n)"
  using nat_str_digits [of n] by (simp add: list_all_iff)

lemma nat_str_not_Nil [simp]: "nat_str n \<noteq> []"
  by (subst nat_str.simps) simp

lemma isdigit_nat_str [simp]: "isdigit uni (nat_str n)"
  using nat_str_digits [of n] by (auto simp: isdigit_def list_all_iff digit_of_def)

lemma int_of_nat_str [simp]: "length (nat_str n) \<le> 4300 \<Longrightarrow> int_of_digits uni (nat_str n) = Inr (int n)"
  using nat_str_digits [of n] foldl_digits [OF nat_str_list_all [of n], of uni 0] nat_of_nat_str [of n]
  by (auto simp: int_of_digits_def list_ex_iff digit_of_def nat_of_str_def)

section \<open>urlsplit\<close>

record split_url =
  su_scheme :: pystr
  su_netloc :: pystr
  su_path :: pystr
  su_query :: pystr
  su_fragment :: pystr

definition before :: "nat \<Rightarrow> pystr \<Rightarrow> pystr" where
  "before c s = takeWhile (\<lambda>x. x \<noteq> c) s"

definition after :: "nat \<Rightarrow> pystr \<Rightarrow> pystr" where
  "after c s = drop 1 (dropWhile (\<lambda>x. x \<noteq> c) s)"

definition after_last :: "nat \<Rightarrow> pystr \<Rightarrow> pystr" where
  "after_last c s = rev (takeWhile (\<lambda>x. x \<noteq> c) (rev s))"

definition scheme_char :: "nat \<Rightarrow> bool" where
  "scheme_char c = (is_alnum c \<or> c \<in> {43, 45, 46})"

text \<open>The scheme ends at the first colon when everything before it is a scheme character.\<close>

definition split_scheme :: "pystr \<Rightarrow> pystr \<times> pystr" where
  "split_scheme url =
     (let i = before 58 url
      in if 58 \<in> set url \<and> i \<noteq> [] \<and> is_alpha (hd i) \<and> list_all scheme_char i
         then (ascii_lower i, after 58 url) else ([], url))"

definition split_netloc :: "pystr \<Rightarrow> pystr \<times> pystr" where
  "split_netloc url =
     (if startswith url (U ''//'')
      then (takeWhile (\<lambda>c. c \<notin> {47, 63, 35}) (drop 2 url), dropWhile (\<lambda>c. c
       \<notin> {47, 63, 35}) (drop 2 url))
      else ([], url))"

definition netloc_error :: "(pystr \<Rightarrow> bool) \<Rightarrow> pystr \<Rightarrow> bool" where
  "netloc_error bad_netloc n =
     ((91 \<in> set n) \<noteq> (93 \<in> set n)
      \<or> (91 \<in> set n \<or> \<not> list_all (\<lambda>c. c < 128) n) \<and> bad_netloc n)"

definition urlsplit :: "(pystr \<Rightarrow> bool) \<Rightarrow> pystr \<Rightarrow> pyexc + split_url" where
  "urlsplit bad_netloc url =
     (let (scheme, r1) = split_scheme url; (netloc, r2) = split_netloc r1
      in if netloc_error bad_netloc netloc then Inl (raise_exc ValueError [])
         else (let fragment = after 35 r2; r3 = before 35 r2
               in Inr \<lparr>su_scheme = scheme, su_netloc = netloc, su_path = before 63 r3,
                       su_query = after 63 r3, su_fragment = fragment\<rparr>))"

text \<open>\<open>_hostinfo\<close>: host and port texts after the user information; a bracketed host may contain colons.\<close>

definition host_info :: "pystr \<Rightarrow> pystr \<times> pystr" where
  "host_info netloc =
     (let h = after_last 64 netloc
      in if 91 \<in> set h then (let b = after 91 h in (before 93 b, after 58 (after 93 b)))
         else (before 58 h, after 58 h))"

definition url_hostname :: "split_url \<Rightarrow> pystr option" where
  "url_hostname u =
     (let h = fst (host_info (su_netloc u)) in if h = [] then None else Some (ascii_lower h))"

definition url_has_user :: "split_url \<Rightarrow> bool" where
  "url_has_user u = (64 \<in> set (su_netloc u))"

definition url_port :: "split_url \<Rightarrow> pyexc + int option" where
  "url_port u =
     (let p = snd (host_info (su_netloc u))
      in if p = [] then Inr None
         else if \<not> list_all (\<lambda>c. 48 \<le> c \<and> c \<le> 57) p \<or> 4300 < length p \<or> 65535 < nat_of_str p
         then Inl (raise_exc ValueError [])
         else Inr (Some (int (nat_of_str p))))"

subsection \<open>Absolute HTTPS URLs\<close>

text \<open>A plain host name or path: ASCII, none of the delimiters.\<close>

definition plain_char :: "nat \<Rightarrow> bool" where
  "plain_char c = (33 \<le> c \<and> c \<le> 126 \<and> c \<notin> {35, 37, 47, 58, 63, 64, 91, 92, 93})"

lemma dropWhile_stop: "list_all p xs \<Longrightarrow> dropWhile p (xs @ ys) = dropWhile p ys"
  by (induction xs) auto

lemma takeWhile_stop: "list_all p xs \<Longrightarrow> takeWhile p (xs @ ys) = xs @ takeWhile p ys"
  by (induction xs) auto

lemma before_all: "c \<notin> set s \<Longrightarrow> before c s = s"
  by (induction s) (auto simp: before_def)

lemma after_none: "c \<notin> set s \<Longrightarrow> after c s = []"
  by (induction s) (auto simp: after_def)

lemma plain_delims:
  "list_all plain_char s \<Longrightarrow> c \<in> {35, 37, 47, 58, 63, 64, 91, 92, 93}
   \<Longrightarrow> c \<notin> set s"
  by (induction s) (auto simp: plain_char_def)

text \<open>Splitting \<open>https://host/path\<close> for a plain host and a path without query or fragment.\<close>

lemma urlsplit_https:
  assumes "list_all plain_char host" "host \<noteq> []" "path = [] \<or> hd path = 47" "35 \<notin> set path" "63 \<notin> set path"
  shows "urlsplit bad (U ''https://'' @ host @ path) = Inr \<lparr>su_scheme = U ''https'', su_netloc = host,
    su_path = path, su_query = [], su_fragment = []\<rparr>"
proof -
  have s: "split_scheme (U ''https://'' @ host @ path) = (U ''https'', U ''//'' @ host @ path)"
    by (simp add: U_def split_scheme_def before_def after_def is_alpha_def is_alnum_def scheme_char_def
        ascii_lower_def Let_def)
  have all: "list_all (\<lambda>c. c \<notin> {47, 63, 35}) host"
    by (rule list.pred_mono_strong [OF assms(1)]) (simp add: plain_char_def)
  have t: "takeWhile (\<lambda>c. c \<notin> {47, 63, 35}) path = []" "dropWhile (\<lambda>c. c
   \<notin> {47, 63, 35}) path = path"
    using assms(3) by (cases path; simp)+
  have n: "split_netloc (U ''//'' @ host @ path) = (host, path)"
    unfolding split_netloc_def startswith_def U_def takeWhile_stop [OF all]
    using takeWhile_stop [OF all, of path] dropWhile_stop [OF all, of path] t by simp
  have "list_all (\<lambda>c. c < 128) host"
    by (rule list.pred_mono_strong [OF assms(1)]) (simp add: plain_char_def)
  then have "\<not> netloc_error bad host"
    using plain_delims [OF assms(1), of 91] plain_delims [OF assms(1), of 93] by (simp add: netloc_error_def)
  with assms(4,5) show ?thesis
    unfolding urlsplit_def s n Let_def prod.case by (simp add: before_all after_none)
qed

lemma host_info_plain:
  assumes "list_all plain_char host"
  shows "host_info host = (host, [])"
proof -
  have "64 \<notin> set (rev host)" using plain_delims [OF assms, of 64] by simp
  then have "takeWhile (\<lambda>x. x \<noteq> 64) (rev host) = rev host"
    unfolding before_def [symmetric] by (rule before_all)
  then have "after_last 64 host = host" unfolding after_last_def by (metis rev_rev_ident)
  with plain_delims [OF assms] show ?thesis
    by (simp add: host_info_def before_all after_none)
qed

end
