(* ===== verification/Forge_Urls.thy ===== *)
theory Forge_Urls
  imports Forge_Registry Py_Url
begin

text \<open>
  \<open>coderus/forge/urls.py\<close>: the canonical HTTPS URLs of repositories, issues and pull requests that users
  and commands may name.  Everything the program later clones, fetches or publishes starts from a repository
  that passed these parsers, so what they accept and what they raise is a security boundary.
\<close>

section \<open>Segments\<close>

definition invalid_url :: "pystr \<Rightarrow> pyexc" where
  "invalid_url msg = raise_exc InvalidProviderUrl msg"

definition HOSTS :: "(pystr \<times> provider) list" where
  "HOSTS = [(U ''github.com'', Github), (U ''gitcode.com'', Gitcode)]"

text \<open>The three \<open>fullmatch\<close> patterns.\<close>

definition name_char :: "nat \<Rightarrow> bool" where
  "name_char c = (is_alnum c \<or> c \<in> {45, 46, 95})"

fun github_owner :: "pystr \<Rightarrow> bool" where
  "github_owner [] = False"
| "github_owner (c # cs) = (is_alnum c \<and> list_all (\<lambda>x. is_alnum x \<or> x = 45) cs \<and> length cs \<le> 38)"

definition github_repository :: "pystr \<Rightarrow> bool" where
  "github_repository s = (list_all name_char s \<and> 1 \<le> length s \<and> length s \<le> 100)"

fun gitcode_segment :: "pystr \<Rightarrow> bool" where
  "gitcode_segment [] = False"
| "gitcode_segment (c # cs) = (is_alnum c \<and> list_all name_char cs \<and> length cs \<le> 99)"

definition repository_parts_ok :: "provider \<Rightarrow> pystr \<Rightarrow> pystr \<Rightarrow> bool" where
  "repository_parts_ok p owner name =
     (if p = Github then github_owner owner \<and> github_repository name
      else gitcode_segment owner \<and> gitcode_segment name)"

definition validate_repository_parts :: "provider \<Rightarrow> pystr \<Rightarrow> pystr \<Rightarrow> pyexc + unit" where
  "validate_repository_parts p owner name =
     and_then (guard_raise (endswith name (U ''.git'') \<or> name \<in> {U ''.'', U ''..''})
                (invalid_url (U ''clone URLs and traversal names are not supported'')))
     (\<lambda>_. guard_raise (\<not> repository_parts_ok p owner name)
                (invalid_url (U ''owner or repository contains unsupported characters'')))"

section \<open>The parsers\<close>

text \<open>Unpacking a list of two or four parts (the tests of \<open>len(parts)\<close>).\<close>

fun two_parts :: "'a list \<Rightarrow> ('a \<times> 'a) option" where
  "two_parts [a, b] = Some (a, b)"
| "two_parts _ = None"

fun four_parts :: "'a list \<Rightarrow> ('a \<times> 'a \<times> 'a \<times> 'a) option" where
  "four_parts [a, b, c, d] = Some (a, b, c, d)"
| "four_parts _ = None"

lemma two_parts_iff [simp]: "two_parts xs = Some (a, b) \<longleftrightarrow> xs = [a, b]"
  by (cases xs rule: two_parts.cases) auto

lemma four_parts_iff [simp]: "four_parts xs = Some (a, b, c, d) \<longleftrightarrow> xs = [a, b, c, d]"
  by (cases xs rule: four_parts.cases) auto

text \<open>The path without its leading empty part and without one trailing empty part.\<close>

definition path_parts :: "pystr \<Rightarrow> pystr list" where
  "path_parts path =
     (let raw = drop 1 (split_on 47 path)
      in if raw \<noteq> [] \<and> last raw = [] then butlast raw else raw)"

definition parse_public_url ::
  "(pystr \<Rightarrow> bool) \<Rightarrow> pystr \<Rightarrow> pyexc + (provider \<times> pystr \<times> pystr list)" where
  "parse_public_url bad url =
     (if url = [] \<or> url \<noteq> strip url
        then Inl (invalid_url (U ''URL must be a non-empty string without surrounding whitespace''))
      else if list_ex (\<lambda>c. isspace c \<or> c < 32 \<or> c = 127) url
        then Inl (invalid_url (U ''whitespace and control characters are not allowed''))
      else if 37 \<in> set url \<or> 92 \<in> set url
        then Inl (invalid_url (U ''encoded or backslash path separators are not allowed''))
      else case urlsplit bad url of
        Inl _ \<Rightarrow> Inl (invalid_url (U ''URL is malformed''))
      | Inr parsed \<Rightarrow>
        (case url_port parsed of
           Inl _ \<Rightarrow> Inl (invalid_url (U ''URL is malformed''))
         | Inr port \<Rightarrow>
           if su_scheme parsed \<noteq> U ''https'' then Inl (invalid_url (U ''only HTTPS URLs are supported''))
           else if url_has_user parsed
             then Inl (invalid_url (U ''credential-bearing URLs are not allowed''))
           else if port \<noteq> None then Inl (invalid_url (U ''explicit ports are not allowed''))
           else case Option.bind (url_hostname parsed)
                       (\<lambda>h. map_option (Pair h) (map_of HOSTS h)) of
             None \<Rightarrow> Inl (invalid_url (U ''host must be exactly github.com or gitcode.com''))
           | Some (host, p) \<Rightarrow>
             if ascii_lower (su_netloc parsed) \<noteq> host
               then Inl (invalid_url (U ''host must be exactly github.com or gitcode.com''))
             else if su_query parsed \<noteq> [] \<or> su_fragment parsed \<noteq> []
               then Inl (invalid_url (U ''query strings and fragments are not allowed''))
             else (let parts = path_parts (su_path parsed)
                   in if parts = [] \<or> list_ex (\<lambda>s. s \<in> {[], U ''.'', U ''..''}) parts
                      then Inl (invalid_url (U ''URL path contains an empty or traversal segment''))
                      else Inr (p, host, parts))))"

definition canonical_url :: "pystr \<Rightarrow> pystr \<Rightarrow> pystr \<Rightarrow> pystr" where
  "canonical_url host owner name = U ''https://'' @ host @ [47] @ owner @ [47] @ name"

definition parsed_repository :: "provider \<Rightarrow> pystr \<Rightarrow> pystr \<Rightarrow> pystr \<Rightarrow> forge_repository" where
  "parsed_repository p host owner name =
     \<lparr>fr_provider = p, fr_owner = owner, fr_name = name, fr_canonical_url = canonical_url host owner name,
      fr_default_branch = None, fr_is_private = None, fr_issues_enabled = None\<rparr>"

fun provider_text :: "provider \<Rightarrow> pystr" where
  "provider_text Github = U ''github''"
| "provider_text Gitcode = U ''gitcode''"

definition wrong_provider :: "provider option \<Rightarrow> provider \<Rightarrow> pyexc + unit" where
  "wrong_provider expected p =
     (case expected of
        None \<Rightarrow> Inr ()
      | Some e \<Rightarrow> guard_raise (p \<noteq> e) (invalid_url (U ''expected a '' @ provider_text e @ U '' URL'')))"

definition parse_repository_url ::
  "(pystr \<Rightarrow> bool) \<Rightarrow> pystr \<Rightarrow> provider option \<Rightarrow> pyexc + forge_repository" where
  "parse_repository_url bad url expected =
     and_then (parse_public_url bad url) (\<lambda>(p, host, parts).
     and_then (wrong_provider expected p) (\<lambda>_.
       (case two_parts parts of
          Some (owner, name) \<Rightarrow>
            and_then (validate_repository_parts p owner name) (\<lambda>_.
              Inr (parsed_repository p host owner name))
        | None \<Rightarrow> Inl (invalid_url (U ''repository URL must contain exactly owner and repository'')))))"

text \<open>The common tail of the two numbered URLs: \<open>int(raw_number)\<close> may raise a plain \<open>ValueError\<close>.\<close>

definition numbered_url ::
  "(nat \<Rightarrow> digit_kind) \<Rightarrow> pystr \<Rightarrow> provider \<Rightarrow> pystr \<Rightarrow> pystr \<Rightarrow> pystr \<Rightarrow> pystr
    \<Rightarrow> pyexc + (forge_repository \<times> int)" where
  "numbered_url uni msg p host owner name raw_number =
     and_then (validate_repository_parts p owner name) (\<lambda>_.
     and_then (int_of_digits uni raw_number) (\<lambda>number.
     and_then (guard_raise (number < 1) (invalid_url msg)) (\<lambda>_.
       Inr (parsed_repository p host owner name, number))))"

definition parse_issue_url ::
  "(pystr \<Rightarrow> bool) \<Rightarrow> (nat \<Rightarrow> digit_kind) \<Rightarrow> pystr \<Rightarrow> provider option
    \<Rightarrow> pyexc + (forge_repository \<times> int)" where
  "parse_issue_url bad uni url expected =
     and_then (parse_public_url bad url) (\<lambda>(p, host, parts).
     and_then (wrong_provider expected p) (\<lambda>_.
       (case four_parts parts of
          Some (owner, name, kind, raw_number) \<Rightarrow>
            if kind \<noteq> U ''issues'' \<or> \<not> isdigit uni raw_number
            then Inl (invalid_url (U ''issue URL must end with /issues/<positive number>''))
            else numbered_url uni (U ''issue number must be positive'') p host owner name raw_number
        | None \<Rightarrow> Inl (invalid_url (U ''issue URL must end with /issues/<positive number>'')))))"

fun pull_coordinates :: "provider \<Rightarrow> pystr list" where
  "pull_coordinates Github = [U ''pull'']"
| "pull_coordinates Gitcode = [U ''pull'', U ''pulls'', U ''merge_requests'']"

definition parse_pull_request_url ::
  "(pystr \<Rightarrow> bool) \<Rightarrow> (nat \<Rightarrow> digit_kind) \<Rightarrow> pystr \<Rightarrow> pyexc + (forge_repository \<times> int)" where
  "parse_pull_request_url bad uni url =
     and_then (parse_public_url bad url) (\<lambda>(p, host, parts).
       (case four_parts parts of
          Some (owner, name, kind, raw_number) \<Rightarrow>
            if kind \<notin> set (pull_coordinates p) \<or> \<not> isdigit uni raw_number
            then Inl (invalid_url (U ''pull request URL does not use a supported path''))
            else numbered_url uni (U ''pull request number must be positive'') p host owner name raw_number
        | None \<Rightarrow> Inl (invalid_url (U ''pull request URL does not use a supported path''))))"

section \<open>Canonical URLs are parsed\<close>

definition segment_ok :: "pystr \<Rightarrow> bool" where
  "segment_ok s \<longleftrightarrow> s \<noteq> [] \<and> s \<noteq> U ''.'' \<and> s \<noteq> U ''..'' \<and> list_all name_char s"

text \<open>Every host of the table, as text.\<close>

definition host_of :: "provider \<Rightarrow> pystr" where
  "host_of p = (case p of Github \<Rightarrow> U ''github.com'' | Gitcode \<Rightarrow> U ''gitcode.com'')"

lemma host_of_HOSTS: "map_of HOSTS h = Some p \<longleftrightarrow> h = host_of p"
  by (cases p) (auto simp: HOSTS_def host_of_def U_def)

lemma name_char_plain: "name_char c \<Longrightarrow> plain_char c"
  by (auto simp: name_char_def plain_char_def is_alnum_def is_alpha_def)

lemma plain_not_space: "plain_char c \<Longrightarrow> \<not> isspace c \<and> \<not> c < 32 \<and> c \<noteq> 127"
  by (simp add: plain_char_def isspace_def)

lemma plain_host: "list_all plain_char (host_of p)" "host_of p \<noteq> []" "ascii_lower (host_of p) = host_of p"
  by (cases p; simp add: host_of_def U_def plain_char_def ascii_lower_def)+

lemma segment_plain: "segment_ok s \<Longrightarrow> list_all plain_char s"
  unfolding segment_ok_def by (blast intro: list.pred_mono_strong name_char_plain)

fun slash_path :: "pystr list \<Rightarrow> pystr" where
  "slash_path [] = []"
| "slash_path (s # ss) = 47 # s @ slash_path ss"

lemma split_slash_path: "list_all segment_ok ss \<Longrightarrow> split_on 47 (slash_path ss) = [] # ss"
proof (induction ss)
  case (Cons s ss)
  have "47 \<notin> set s" using plain_delims [OF segment_plain, of s 47] Cons.prems by simp
  moreover have "split_on 47 (s @ slash_path ss) = s # ss"
    using Cons \<open>47 \<notin> set s\<close> by (cases ss) (simp_all add: split_on_notin split_on_append)
  ultimately show ?case by simp
qed simp

lemma slash_path_chars: "c \<in> set (slash_path ss) \<Longrightarrow> list_all segment_ok ss \<Longrightarrow> c = 47 \<or> plain_char c"
  by (induction ss) (auto dest: segment_plain simp: list_all_iff)

lemma parse_public_canonical:
  assumes "list_all segment_ok ss" "ss \<noteq> []"
  shows "parse_public_url bad (U ''https://'' @ host_of p @ slash_path ss) = Inr (p, host_of p, ss)"
proof -
  let ?url = "U ''https://'' @ host_of p @ slash_path ss"
  have chars: "c = 47 \<or> c = 58 \<or> plain_char c" if "c \<in> set ?url" for c
  proof -
    have "c \<in> {47, 58} \<or> plain_char c" if "c \<in> set (U ''https://'')"
      using that by (auto simp: U_def plain_char_def)
    with that slash_path_chars [OF _ assms(1)] plain_host(1) [of p] show ?thesis
      by (auto simp: list_all_iff)
  qed
  have ok: "\<not> isspace c \<and> \<not> c < 32 \<and> c \<noteq> 127 \<and> c \<noteq> 37 \<and> c \<noteq> 92 \<and> c \<noteq> 35 \<and> c \<noteq> 63" if "c \<in> set ?url" for c
    using chars [OF that] plain_not_space [of c]
    by (elim disjE) (simp_all add: isspace_def, simp add: plain_char_def)
  have "?url \<noteq> []" by (simp add: U_def)
  moreover have "strip ?url = ?url"
    using ok [OF hd_in_set [OF \<open>?url \<noteq> []\<close>]] ok [OF last_in_set [OF \<open>?url \<noteq> []\<close>]]
    by (simp add: strip_def lstrip_id rstrip_id del: hd_append last_append)
  moreover have "\<not> list_ex (\<lambda>c. isspace c \<or> c < 32 \<or> c = 127) ?url"
    using ok by (auto simp: list_ex_iff simp del: set_append)
  moreover have "37 \<notin> set ?url" "92 \<notin> set ?url" using ok by blast+
  moreover have path: "slash_path ss = [] \<or> hd (slash_path ss) = 47" by (cases ss) simp_all
  moreover have "35 \<notin> set (slash_path ss)" "63 \<notin> set (slash_path ss)" using ok by auto
  note split = urlsplit_https [OF plain_host(1,2) path this]
  moreover have "path_parts (slash_path ss) = ss"
    using assms split_slash_path [OF assms(1)] by (auto simp: path_parts_def segment_ok_def list_all_iff)
  moreover have "\<not> list_ex (\<lambda>s. s \<in> {[], U ''.'', U ''..''}) ss"
    using assms(1) by (auto simp: list_ex_iff list_all_iff segment_ok_def)
  moreover have "64 \<notin> set (host_of p)" using plain_delims [OF plain_host(1), of 64] by simp
  moreover have "map_of HOSTS (host_of p) = Some p" by (simp add: host_of_HOSTS)
  ultimately show ?thesis
    using assms(2) plain_host(2,3) [of p]
    by (simp add: parse_public_url_def url_port_def url_hostname_def url_has_user_def
        host_info_plain [OF plain_host(1)])
qed

section \<open>What an accepted URL names\<close>

lemma parse_public_Inr:
  assumes "parse_public_url bad url = Inr (p, host, parts)"
  shows "host = host_of p" "parts \<noteq> []" "list_all (\<lambda>s. s \<notin> {[], U ''.'', U ''..''}) parts"
  using assms
  by (auto simp: parse_public_url_def bind_eq_Some_conv host_of_HOSTS Let_def list_ex_iff list_all_iff
      split: if_splits sum.splits option.splits)

lemma github_owner_chars: "github_owner s \<Longrightarrow> list_all name_char s"
  by (cases s) (auto simp: name_char_def list_all_iff)

lemma gitcode_segment_chars: "gitcode_segment s \<Longrightarrow> list_all name_char s"
  by (cases s) (auto simp: name_char_def)

lemma parts_segments:
  assumes "repository_parts_ok p owner name" "owner \<notin> {[], U ''.'', U ''..''}" "name \<notin> {[], U ''.'', U ''..''}"
  shows "segment_ok owner" "segment_ok name"
  using assms github_owner_chars gitcode_segment_chars
  by (auto simp: segment_ok_def repository_parts_ok_def github_repository_def split: if_splits)

lemma slash_path_two: "slash_path [a, b] = [47] @ a @ [47] @ b"
  and slash_path_four: "slash_path [a, b, c, d] = [47] @ a @ [47] @ b @ [47] @ c @ [47] @ d"
  by simp_all

lemma parse_repository_Inr:
  assumes "parse_repository_url bad url expected = Inr r"
  obtains p owner name where "r = parsed_repository p (host_of p) owner name"
    "validate_repository_parts p owner name = Inr ()" "segment_ok owner" "segment_ok name"
    "expected = None \<or> expected = Some p"
proof -
  obtain p host parts where parts: "parse_public_url bad url = Inr (p, host, parts)"
    "wrong_provider expected p = Inr ()"
    using assms by (auto simp: parse_repository_url_def and_then_Inr)
  with assms obtain owner name where two: "parts = [owner, name]"
    "validate_repository_parts p owner name = Inr ()" "r = parsed_repository p host owner name"
    by (auto simp: parse_repository_url_def and_then_Inr split: option.splits)
  note public = parse_public_Inr [OF parts(1)]
  have "repository_parts_ok p owner name"
    using two(2) by (auto simp: validate_repository_parts_def and_then_Inr)
  with public(3) two(1) have "segment_ok owner" "segment_ok name"
    using parts_segments by auto
  moreover have "expected = None \<or> expected = Some p"
    using parts(2) by (auto simp: wrong_provider_def split: option.splits)
  ultimately show ?thesis using that two public(1) by blast
qed

lemma segment_issues: "segment_ok (U ''issues'')" "segment_ok (U ''pull'')"
  by (simp_all add: segment_ok_def U_def name_char_def is_alnum_def is_alpha_def)

lemma segment_number: "segment_ok (nat_str n)"
proof -
  have "list_all name_char (nat_str n)"
    by (rule list.pred_mono_strong [OF nat_str_list_all]) (simp add: name_char_def is_alnum_def)
  moreover have "46 \<notin> set (nat_str n)" using nat_str_digits [of n] by force
  ultimately show ?thesis by (auto simp: segment_ok_def U_def)
qed

lemma numbered_url_ok:
  assumes "validate_repository_parts p owner name = Inr ()" "1 \<le> n" "length (nat_str n) \<le> 4300"
  shows "numbered_url uni msg p host owner name (nat_str n) = Inr (parsed_repository p host owner name, int n)"
  using assms by (simp add: numbered_url_def)

text \<open>
  C19: Every repository the URL parser accepts is found again from its canonical URL, and the canonical issue
  and pull request URLs built on it parse to the same repository and the same number, whatever the number (up
  to the 4300 digits Python converts).  What users paste, what is stored and what is fetched later is one and
  the same repository.
\<close>

theorem canonical_url_roundtrip:
  assumes "parse_repository_url bad url expected = Inr r" "1 \<le> n" "length (nat_str n) \<le> 4300"
  shows "parse_repository_url bad (fr_canonical_url r) (Some (fr_provider r)) = Inr r
    \<and> parse_issue_url bad uni (fr_canonical_url r @ U ''/issues/'' @ nat_str n) None = Inr (r, int n)
    \<and> parse_pull_request_url bad uni (fr_canonical_url r @ U ''/pull/'' @ nat_str n) = Inr (r, int n)"
proof -
  obtain p owner name where r: "r = parsed_repository p (host_of p) owner name"
    and ok: "validate_repository_parts p owner name = Inr ()"
    and seg: "segment_ok owner" "segment_ok name" and "expected = None \<or> expected = Some p"
    by (rule parse_repository_Inr [OF assms(1)])
  have c: "fr_canonical_url r = U ''https://'' @ host_of p @ slash_path [owner, name]"
    by (simp add: r parsed_repository_def canonical_url_def)
  have i: "fr_canonical_url r @ U ''/issues/'' @ nat_str n
      = U ''https://'' @ host_of p @ slash_path [owner, name, U ''issues'', nat_str n]"
    and q: "fr_canonical_url r @ U ''/pull/'' @ nat_str n
      = U ''https://'' @ host_of p @ slash_path [owner, name, U ''pull'', nat_str n]"
    by (simp_all add: c U_def)
  have coord: "U ''pull'' \<in> set (pull_coordinates p)" by (cases p) simp_all
  note public = parse_public_canonical [of _ bad p]
  have "parse_repository_url bad (fr_canonical_url r) (Some (fr_provider r)) = Inr r"
    unfolding c parse_repository_url_def using seg ok
    by (simp add: public wrong_provider_def r del: slash_path.simps) (simp add: parsed_repository_def)
  moreover have "parse_issue_url bad uni (fr_canonical_url r @ U ''/issues/'' @ nat_str n) None
      = Inr (r, int n)"
    unfolding i parse_issue_url_def using seg ok assms(2,3) segment_issues segment_number
    by (simp add: public wrong_provider_def numbered_url_ok r del: slash_path.simps)
  moreover have "parse_pull_request_url bad uni (fr_canonical_url r @ U ''/pull/'' @ nat_str n)
      = Inr (r, int n)"
    unfolding q parse_pull_request_url_def using seg ok assms(2,3) segment_issues segment_number coord
    by (simp add: public numbered_url_ok r del: slash_path.simps)
  ultimately show ?thesis by blast
qed

definition sample_repository :: forge_repository where
  "sample_repository = parsed_repository Github (U ''github.com'') (U ''ada'') (U ''engine.py'')"

lemma sample_url_accepted:
  "parse_repository_url (\<lambda>_. False) (U ''https://github.com/ada/engine.py'') None = Inr sample_repository"
proof -
  have seg: "list_all segment_ok [U ''ada'', U ''engine.py'']"
    by (simp add: segment_ok_def U_def name_char_def is_alnum_def is_alpha_def)
  have url: "U ''https://github.com/ada/engine.py''
      = U ''https://'' @ host_of Github @ slash_path [U ''ada'', U ''engine.py'']"
    by (simp add: host_of_def U_def)
  have "validate_repository_parts Github (U ''ada'') (U ''engine.py'') = Inr ()"
    by (simp add: validate_repository_parts_def endswith_def startswith_def repository_parts_ok_def
        github_repository_def U_def name_char_def is_alnum_def is_alpha_def)
  with parse_public_canonical [OF seg, of "\<lambda>_. False" Github] show ?thesis
    unfolding url parse_repository_url_def
    by (simp add: wrong_provider_def sample_repository_def host_of_def del: slash_path.simps)
qed

theorem canonical_url_roundtrip_witness:
  "parse_issue_url (\<lambda>_. False) (\<lambda>_. NoDigit) (U ''https://github.com/ada/engine.py/issues/42'') None
     = Inr (sample_repository, 42)"
proof -
  have n: "nat_str 42 = U ''42''" by (simp add: nat_str.simps U_def)
  have "fr_canonical_url sample_repository @ U ''/issues/'' @ nat_str 42
      = U ''https://github.com/ada/engine.py/issues/42''"
    unfolding n by (simp add: sample_repository_def parsed_repository_def canonical_url_def U_def)
  with canonical_url_roundtrip [OF sample_url_accepted, of 42 "\<lambda>_. NoDigit"] n
  show ?thesis by (simp add: U_def)
qed

section \<open>What a rejected URL raises\<close>

abbreviation invalid_url_only :: "pyexc + 'a \<Rightarrow> bool" where
  "invalid_url_only \<equiv> raises_only (\<lambda>e. exc_cls e = InvalidProviderUrl)"

abbreviation invalid_or_value :: "pyexc + 'a \<Rightarrow> bool" where
  "invalid_or_value \<equiv> raises_only (\<lambda>e. exc_cls e = InvalidProviderUrl \<or> exc_cls e = ValueError)"

lemma invalid_url_cls [simp]: "exc_cls (invalid_url m) = InvalidProviderUrl"
  by (simp add: invalid_url_def)

lemma parse_public_raises: "invalid_url_only (parse_public_url bad url)"
  by (auto simp: parse_public_url_def Let_def split: if_splits sum.splits option.splits)

lemma wrong_provider_raises: "invalid_url_only (wrong_provider x p)"
  by (auto simp: wrong_provider_def split: option.splits)

lemma validate_parts_raises: "invalid_url_only (validate_repository_parts p owner name)"
  unfolding validate_repository_parts_def by (intro raises_only_bind) simp_all

lemma parse_repository_raises: "invalid_url_only (parse_repository_url bad url expected)"
  unfolding parse_repository_url_def
  by (intro raises_only_bind parse_public_raises)
    (auto intro!: raises_only_bind wrong_provider_raises validate_parts_raises split: option.split)

lemma weaken_url: "invalid_url_only r \<Longrightarrow> invalid_or_value r"
  by (erule raises_only_mono) simp

lemma numbered_url_raises: "invalid_or_value (numbered_url uni msg p host owner name raw)"
  unfolding numbered_url_def
  by (intro raises_only_bind weaken_url [OF validate_parts_raises])
    (simp_all add: int_of_digits_def)

lemma parse_issue_raises: "invalid_or_value (parse_issue_url bad uni url expected)"
  unfolding parse_issue_url_def
  by (intro raises_only_bind weaken_url [OF parse_public_raises])
    (auto intro!: raises_only_bind weaken_url [OF wrong_provider_raises] numbered_url_raises
      split: option.split)

definition safe_repository :: "forge_repository \<Rightarrow> bool" where
  "safe_repository r \<longleftrightarrow> segment_ok (fr_owner r) \<and> segment_ok (fr_name r) \<and> is_alnum (hd (fr_owner r))
     \<and> length (fr_owner r) \<le> 100 \<and> length (fr_name r) \<le> 100 \<and> \<not> endswith (fr_name r) (U ''.git'')
     \<and> fr_canonical_url r = canonical_url (host_of (fr_provider r)) (fr_owner r) (fr_name r)"

lemma github_owner_bounds: "github_owner s \<Longrightarrow> is_alnum (hd s) \<and> length s \<le> 100"
  by (cases s) simp_all

lemma gitcode_segment_bounds: "gitcode_segment s \<Longrightarrow> is_alnum (hd s) \<and> length s \<le> 100"
  by (cases s) simp_all

lemma parts_bounds:
  assumes "repository_parts_ok p owner name"
  shows "is_alnum (hd owner)" "length owner \<le> 100" "length name \<le> 100"
  using assms github_owner_bounds gitcode_segment_bounds
  by (auto simp: repository_parts_ok_def github_repository_def split: if_splits)

lemma validated_safe:
  assumes "validate_repository_parts p owner name = Inr ()" "segment_ok owner" "segment_ok name"
  shows "safe_repository (parsed_repository p (host_of p) owner name)"
proof -
  have ok: "repository_parts_ok p owner name" and "\<not> endswith name (U ''.git'')"
    using assms(1) by (simp_all add: validate_repository_parts_def and_then_Inr)
  with assms(2,3) parts_bounds [OF ok] show ?thesis
    by (simp add: safe_repository_def parsed_repository_def)
qed

lemma parse_repository_safe: "parse_repository_url bad url expected = Inr r \<Longrightarrow> safe_repository r"
  by (erule parse_repository_Inr) (simp add: validated_safe)

lemma numbered_url_segments:
  assumes "numbered_url uni msg p (host_of p) owner name raw = Inr x" "owner \<notin> {[], U ''.'', U ''..''}"
    "name \<notin> {[], U ''.'', U ''..''}"
  shows "segment_ok owner" "segment_ok name"
proof -
  have "repository_parts_ok p owner name"
    using assms(1) by (simp add: numbered_url_def validate_repository_parts_def and_then_Inr)
  from parts_segments [OF this assms(2,3)] show "segment_ok owner" "segment_ok name" .
qed

lemma parse_issue_safe:
  assumes "parse_issue_url bad uni url expected = Inr (r, n)"
  shows "safe_repository r \<and> 1 \<le> n"
proof -
  obtain p host parts where pub: "parse_public_url bad url = Inr (p, host, parts)"
    using assms by (auto simp: parse_issue_url_def and_then_Inr)
  with assms obtain owner name kind raw where four: "four_parts parts = Some (owner, name, kind, raw)"
    by (cases "four_parts parts") (auto simp: parse_issue_url_def and_then_Inr)
  with assms pub
  have num: "numbered_url uni (U ''issue number must be positive'') p host owner name raw = Inr (r, n)"
    by (auto simp: parse_issue_url_def and_then_Inr split: if_splits)
  have h: "host = host_of p" by (rule parse_public_Inr(1) [OF pub])
  have "owner \<notin> {[], U ''.'', U ''..''}" "name \<notin> {[], U ''.'', U ''..''}"
    using parse_public_Inr(3) [OF pub] four by simp_all
  note seg = numbered_url_segments [OF num [unfolded h] this]
  from num show ?thesis
    by (auto simp: numbered_url_def and_then_Inr h intro!: validated_safe seg)
qed

text \<open>
  C20: The parsers are typed.  An accepted repository has an owner that starts with a letter or digit, an owner
  and a name of at most 100 characters from letters, digits, dot, dash and underscore, neither of them a
  traversal nor a clone name, and the canonical URL built from them; an accepted issue number is positive.  A
  rejected repository URL raises \<open>InvalidProviderUrl\<close> and nothing else; a rejected issue URL may also raise a
  plain \<open>ValueError\<close>, and does for a digit that is no decimal, such as the superscript two.
\<close>

theorem parsed_urls_are_typed:
  "(case parse_repository_url bad url expected of
      Inr r \<Rightarrow> safe_repository r | Inl e \<Rightarrow> exc_cls e = InvalidProviderUrl)
   \<and> (case parse_issue_url bad uni url expected of
        Inr (r, n) \<Rightarrow> safe_repository r \<and> 1 \<le> n
      | Inl e \<Rightarrow> exc_cls e = InvalidProviderUrl \<or> exc_cls e = ValueError)
   \<and> numbered_url (\<lambda>c. if c = 178 then DigitOnly else NoDigit) msg Github (U ''github.com'') (U ''ada'')
        (U ''engine'') [178] = Inl (raise_exc ValueError [])"
proof -
  have "numbered_url (\<lambda>c. if c = 178 then DigitOnly else NoDigit) msg Github (U ''github.com'') (U ''ada'')
        (U ''engine'') [178] = Inl (raise_exc ValueError [])"
    by (simp add: numbered_url_def validate_repository_parts_def endswith_def startswith_def
        repository_parts_ok_def github_repository_def U_def name_char_def is_alnum_def is_alpha_def
        int_of_digits_def digit_of_def)
  with parse_repository_raises [of bad url expected] parse_issue_raises [of bad uni url expected]
    parse_repository_safe parse_issue_safe show ?thesis
    by (auto split: sum.split)
qed

end
