(* ===== verification/Issue_Service.thy ===== *)
theory Issue_Service
  imports Task_Lifecycle Forge_Urls
begin

text \<open>
  Issues: \<open>coderus/issues/service.py\<close> (adding, synchronising and dispatching issues),
  \<open>application/issues.py\<close> (the commands of users and administrators) and \<open>issues/poller.py\<close>.

  An issue provider is a record of its methods; a method is awaited outside any transaction, so it also maps
  the database.  Writing one issue, dispatching one and each command are atomic: SQLite locks the database from
  the first write of a transaction to its commit.
\<close>

section \<open>Messages\<close>

definition MSG_NOT_AUTHORISED :: pystr where \<comment> \<open>the repository was not authorised by an administrator\<close>
  "MSG_NOT_AUTHORISED = [35813, 32, 73, 115, 115, 117, 101, 32, 25152, 23646, 20179, 24211, 26410,
   30001, 31649, 29702, 21592, 25480, 26435]"

definition MSG_NO_PROVIDER :: pystr where \<comment> \<open>its code platform is not configured\<close>
  "MSG_NO_PROVIDER = [35813, 32, 73, 115, 115, 117, 101, 32, 25152, 23646, 20195, 30721, 25176,
   31649, 26381, 21153, 26410, 37197, 32622]"

definition MSG_NOT_PENDING :: pystr where \<comment> \<open>only open issues waiting for triage can be dispatched\<close>
  "MSG_NOT_PENDING = [21482, 26377, 24453, 22788, 29702, 30340, 24320, 25918, 32, 73, 115, 115, 117,
   101, 32, 21487, 20197, 27966, 21457]"

definition MSG_HAS_TASK :: pystr where \<comment> \<open>the issue has an unfinished task\<close>
  "MSG_HAS_TASK = [35813, 32, 73, 115, 115, 117, 101, 32, 24050, 26377, 26410, 32467, 26463, 20219, 21153]"

definition MSG_DISABLED :: pystr where \<comment> \<open>the repository is disabled\<close>
  "MSG_DISABLED = [35813, 20179, 24211, 24050, 20572, 29992, 65292, 19981, 33021, 27966, 21457,
   26032, 20219, 21153]"

definition MSG_IGNORED :: pystr where \<comment> \<open>ignored issues cannot be dispatched\<close>
  "MSG_IGNORED = [24050, 24573, 30053, 30340, 32, 73, 115, 115, 117, 101, 32, 19981, 33021, 27966, 21457]"

definition MSG_INACTIVE_USER :: pystr where \<comment> \<open>the user does not exist or is deactivated\<close>
  "MSG_INACTIVE_USER = [29992, 25143, 19981, 23384, 22312, 25110, 24050, 20572, 29992]"

definition MSG_NO_ISSUE :: pystr where \<comment> \<open>the issue does not exist\<close>
  "MSG_NO_ISSUE = [73, 115, 115, 117, 101, 32, 19981, 23384, 22312]"

definition MSG_CANNOT_IGNORE :: pystr where \<comment> \<open>only issues waiting for triage can be ignored\<close>
  "MSG_CANNOT_IGNORE = [21482, 26377, 24453, 22788, 29702, 32, 73, 115, 115, 117, 101, 32, 21487,
   20197, 24573, 30053]"

definition MSG_CANNOT_RESTORE :: pystr where \<comment> \<open>only ignored issues can be restored\<close>
  "MSG_CANNOT_RESTORE = [21482, 26377, 24050, 24573, 30053, 32, 73, 115, 115, 117, 101, 32, 21487,
   20197, 24674, 22797]"

definition MSG_ISSUE_FORBIDDEN :: pystr where \<comment> \<open>no permission to operate on this issue\<close>
  "MSG_ISSUE_FORBIDDEN = [27809, 26377, 26435, 38480, 25805, 20316, 35813, 32, 73, 115, 115, 117, 101]"

section \<open>Writing an issue\<close>

record issue_provider =
  ip_list_issues :: "(forge_repository \<Rightarrow> time option \<Rightarrow> db \<Rightarrow> (pyexc + forge_issue list) \<times> db) option"
  ip_list_open_issues :: "forge_repository \<Rightarrow> db \<Rightarrow> (pyexc + forge_issue list) \<times> db"
  ip_get_issue :: "forge_repository \<Rightarrow> int \<Rightarrow> db \<Rightarrow> (pyexc + forge_issue) \<times> db"

definition provider_repository :: "repository \<Rightarrow> forge_repository" where
  "provider_repository r =
     \<lparr>fr_provider = rp_provider r, fr_owner = rp_owner r, fr_name = rp_name r,
      fr_canonical_url = rp_canonical_url r, fr_default_branch = Some (rp_default_branch r),
      fr_is_private = Some False, fr_issues_enabled = Some True\<rparr>"

definition issue_key :: "int \<Rightarrow> int \<Rightarrow> issue \<Rightarrow> bool" where
  "issue_key repository_id number r = (is_repository_id r = repository_id \<and> is_number r = number)"

definition write_source :: "forge_issue \<Rightarrow> issue \<Rightarrow> issue" where
  "write_source s r =
     r\<lparr>is_external_id := fi_external_id s, is_title := fi_title s,
       is_body := (case fi_body s of None \<Rightarrow> [] | Some b \<Rightarrow> b), is_labels := fi_labels s,
       is_state := fi_state s, is_source_url := Some (fi_canonical_url s),
       is_source_updated_at := fi_updated_at s\<rparr>"

text \<open>The row of \<open>Issue(repository, external_id, number)\<close> with the column defaults.\<close>

definition new_issue :: "int \<Rightarrow> int \<Rightarrow> forge_issue \<Rightarrow> issue" where
  "new_issue i repository_id s =
     \<lparr>is_id = i, is_repository_id = repository_id, is_external_id = fi_external_id s,
      is_number = fi_number s, is_title = [], is_body = [], is_labels = [], is_state = fi_state s,
      is_source_url = None, is_source_updated_at = None, is_triage_state = Discovered,
      is_ignored_by = None, is_ignored_reason = None, is_ignored_at = None\<rparr>"

definition upsert_provider_issue :: "int \<Rightarrow> forge_issue \<Rightarrow> db \<Rightarrow> issue \<times> db" where
  "upsert_provider_issue repository_id s db =
     (case find (issue_key repository_id (fi_number s)) (issues db) of
        Some r \<Rightarrow>
          (write_source s r,
           db\<lparr>issues := sql_update (\<lambda>x. is_id x = is_id r) (write_source s) (issues db)\<rparr>)
      | None \<Rightarrow>
          (let r = write_source s (new_issue (fresh_id (map is_id (issues db))) repository_id s)
           in (r, db\<lparr>issues := issues db @ [r]\<rparr>)))"

fun upsert_issues :: "int \<Rightarrow> forge_issue list \<Rightarrow> db \<Rightarrow> db" where
  "upsert_issues repository_id [] db = db"
| "upsert_issues repository_id (s # ss) db =
     upsert_issues repository_id ss (snd (upsert_provider_issue repository_id s db))"

definition authorised :: "forge_repository \<Rightarrow> repository \<Rightarrow> bool" where
  "authorised s r =
     (rp_provider r = fr_provider s \<and> rp_owner r = fr_owner s \<and> rp_name r = fr_name s \<and> rp_is_enabled r)"

text \<open>
  The reads of \<open>add_provider_issue\<close>: the URL, the authorised repository it names, its provider, and the issue
  the provider returns.
\<close>

definition issue_source ::
  "(pystr \<Rightarrow> bool) \<Rightarrow> (nat \<Rightarrow> digit_kind) \<Rightarrow> (provider \<Rightarrow> issue_provider option) \<Rightarrow> pystr \<Rightarrow> db
    \<Rightarrow> (pyexc + int \<times> forge_issue) \<times> db" where
  "issue_source bad uni providers url db =
     (case parse_issue_url bad uni url None of
        Inl e \<Rightarrow> (Inl e, db)
      | Inr (source_repository, number) \<Rightarrow>
          (case find (authorised source_repository) (repositories db) of
             None \<Rightarrow> (Inl (raise_exc ValueError MSG_NOT_AUTHORISED), db)
           | Some r \<Rightarrow>
               (case providers (rp_provider r) of
                  None \<Rightarrow> (Inl (raise_exc ValueError MSG_NO_PROVIDER), db)
                | Some p \<Rightarrow>
                    (case ip_get_issue p source_repository number db of
                       (Inl e, db1) \<Rightarrow> (Inl e, db1)
                     | (Inr source, db1) \<Rightarrow> (Inr (rp_id r, source), db1)))))"

definition add_provider_issue ::
  "(pystr \<Rightarrow> bool) \<Rightarrow> (nat \<Rightarrow> digit_kind) \<Rightarrow> (provider \<Rightarrow> issue_provider option) \<Rightarrow> pystr \<Rightarrow> db
    \<Rightarrow> (pyexc + issue) \<times> db" where
  "add_provider_issue bad uni providers url db =
     (case issue_source bad uni providers url db of
        (Inl e, db1) \<Rightarrow> (Inl e, db1)
      | (Inr (repository_id, source), db1) \<Rightarrow>
          (let (r, db2) = upsert_provider_issue repository_id source db1 in (Inr r, db2)))"

section \<open>Synchronising a repository\<close>

definition update_repository :: "int \<Rightarrow> (repository \<Rightarrow> repository) \<Rightarrow> db \<Rightarrow> db" where
  "update_repository i f db = db\<lparr>repositories := sql_update (\<lambda>r. rp_id r = i) f (repositories db)\<rparr>"

definition sync_started :: "time \<Rightarrow> repository \<Rightarrow> repository" where
  "sync_started now r =
     r\<lparr>rp_sync_status := SyncRunning, rp_sync_started_at := Some now, rp_last_sync_error := None\<rparr>"

definition sync_failed :: "pystr \<Rightarrow> repository \<Rightarrow> repository" where
  "sync_failed message r = r\<lparr>rp_sync_status := SyncHasFailed, rp_last_sync_error := Some (take 1000 message)\<rparr>"

definition sync_succeeded :: "time \<Rightarrow> time \<Rightarrow> repository \<Rightarrow> repository" where
  "sync_succeeded started now r =
     r\<lparr>rp_sync_status := SyncSucceeded, rp_last_synced_at := Some now,
       rp_sync_cursor_updated_at := Some started\<rparr>"

text \<open>
  The call of the provider in \<open>sync_repository\<close>: everything for a full synchronisation, what changed since
  the stored cursor otherwise, the open issues when the provider has nothing better.
\<close>

definition fetch_sources ::
  "issue_provider \<Rightarrow> bool \<Rightarrow> repository \<Rightarrow> db \<Rightarrow> (pyexc + forge_issue list) \<times> db" where
  "fetch_sources p full r db =
     (case ip_list_issues p of
        Some list_issues \<Rightarrow>
          list_issues (provider_repository r) (if full then None else rp_sync_cursor_updated_at r) db
      | None \<Rightarrow> ip_list_open_issues p (provider_repository r) db)"

text \<open>
  \<open>sync_repository\<close> followed by the commit of its callers; \<open>now\<close> and \<open>later\<close> are the two readings of the
  clock.  A provider error is recorded on the row and raised again.
\<close>

definition sync_repository ::
  "issue_provider \<Rightarrow> bool \<Rightarrow> repository \<Rightarrow> time \<Rightarrow> time \<Rightarrow> db \<Rightarrow> (pyexc + int) \<times> db" where
  "sync_repository p full r now later db =
     (if rp_sync_status r = SyncRunning then (Inr 0, db)
      else case fetch_sources p full r (update_repository (rp_id r) (sync_started now) db) of
        (Inl e, db1) \<Rightarrow> (Inl e, update_repository (rp_id r) (sync_failed (exc_str e)) db1)
      | (Inr sources, db1) \<Rightarrow>
          (Inr (int (length sources)),
           update_repository (rp_id r) (sync_succeeded now later) (upsert_issues (rp_id r) sources db1)))"

section \<open>The poller\<close>

text \<open>
  \<open>_sync_one\<close>: no row or a disabled one is skipped; every failure is recorded on the row, also the missing
  provider (\<open>KeyError\<close>, whose text is the quoted key).
\<close>

definition sync_one ::
  "(provider \<Rightarrow> issue_provider option) \<Rightarrow> (provider \<Rightarrow> pystr) \<Rightarrow> bool \<Rightarrow> time \<Rightarrow> time \<Rightarrow> int \<Rightarrow> db \<Rightarrow> bool \<times> db"
where
  "sync_one providers key_text full now later i db =
     (case get_repository i db of
        None \<Rightarrow> (False, db)
      | Some r \<Rightarrow>
          if \<not> rp_is_enabled r then (False, db)
          else case providers (rp_provider r) of
            None \<Rightarrow> (False, update_repository i (sync_failed (key_text (rp_provider r))) db)
          | Some p \<Rightarrow>
              (case sync_repository p full r now later db of
                 (Inl e, db1) \<Rightarrow> (False, update_repository i (sync_failed (exc_str e)) db1)
               | (Inr _, db1) \<Rightarrow> (True, db1)))"

text \<open>\<open>_successful_syncs\<close> maps a repository to its count; every \<open>full_sync_every\<close>-th one is a full sync.\<close>

fun sync_each ::
  "(provider \<Rightarrow> issue_provider option) \<Rightarrow> (provider \<Rightarrow> pystr) \<Rightarrow> nat \<Rightarrow> time \<Rightarrow> time \<Rightarrow> int list \<Rightarrow>
    (int \<Rightarrow> nat option) \<times> db \<Rightarrow> (int \<Rightarrow> nat option) \<times> db"
where
  "sync_each providers key_text every now later [] (counts, db) = (counts, db)"
| "sync_each providers key_text every now later (i # is) (counts, db) =
     (let count = (case counts i of None \<Rightarrow> 0 | Some n \<Rightarrow> n);
          (ok, db1) = sync_one providers key_text (count mod every = 0) now later i db
      in sync_each providers key_text every now later is
           (if ok then counts(i \<mapsto> count + 1) else counts, db1))"

definition pollable :: "repository \<Rightarrow> bool" where
  "pollable r = (rp_is_enabled r \<and> rp_sync_status r \<noteq> SyncRunning)"

definition issue_poller_tick ::
  "bool \<Rightarrow> (provider \<Rightarrow> issue_provider option) \<Rightarrow> (provider \<Rightarrow> pystr) \<Rightarrow> nat \<Rightarrow> time \<Rightarrow> time \<Rightarrow>
    (int \<Rightarrow> nat option) \<times> db \<Rightarrow> (int \<Rightarrow> nat option) \<times> db"
where
  "issue_poller_tick can_run providers key_text every now later s =
     (if \<not> can_run then s
      else sync_each providers key_text every now later
             (map rp_id (filter pollable (repositories (snd s)))) s)"

section \<open>Dispatching\<close>

definition live_task_of :: "int \<Rightarrow> task \<Rightarrow> bool" where
  "live_task_of i t = (tk_issue_id t = i \<and> \<not> terminal (tk_status t))"

definition update_issue :: "int \<Rightarrow> (issue \<Rightarrow> issue) \<Rightarrow> db \<Rightarrow> db" where
  "update_issue i f db = db\<lparr>issues := sql_update (\<lambda>r. is_id r = i) f (issues db)\<rparr>"

text \<open>
  \<open>dispatch_issue\<close>: the inserted task and the triage state are flushed together; if the unique index
  refuses them, the transaction is rolled back.
\<close>

definition dispatch_issue ::
  "issue \<Rightarrow> int \<Rightarrow> pystr \<Rightarrow> time \<Rightarrow> db \<Rightarrow> (pyexc + task) \<times> db" where
  "dispatch_issue r creator instructions now db =
     (if is_state r \<noteq> IssueOpen \<or> is_triage_state r \<noteq> Discovered
        then (Inl (raise_exc ValueError MSG_NOT_PENDING), db)
      else if find (live_task_of (is_id r)) (tasks db) \<noteq> None
        then (Inl (raise_exc ValueError MSG_HAS_TASK), db)
      else case get_repository (is_repository_id r) db of
        None \<Rightarrow> (Inl (raise_exc AttributeError []), db)
      | Some repo \<Rightarrow>
          if \<not> rp_is_enabled repo then (Inl (raise_exc ValueError MSG_DISABLED), db)
          else if is_triage_state r = Ignored then (Inl (raise_exc ValueError MSG_IGNORED), db)
          else
            (let t = new_task (fresh_id (map tk_id (tasks db))) (is_id r) creator (strip instructions) now;
                 db' = (update_issue (is_id r) (is_triage_state_update (\<lambda>_. Dispatched)) db)
                         \<lparr>tasks := tasks db @ [t]\<rparr>
             in if active_index_ok (tasks db') then (Inr t, db')
                else (Inl (raise_exc ValueError MSG_HAS_TASK), db)))"

definition active_user :: "int \<Rightarrow> db \<Rightarrow> pyexc + user" where
  "active_user i db =
     (case get_user i db of
        None \<Rightarrow> Inl (raise_exc ValueError MSG_INACTIVE_USER)
      | Some u \<Rightarrow>
          if us_is_active u then Inr u else Inl (raise_exc ValueError MSG_INACTIVE_USER))"

text \<open>\<open>IssueCommands.dispatch\<close>\<close>

definition dispatch :: "int \<Rightarrow> int \<Rightarrow> pystr \<Rightarrow> time \<Rightarrow> db \<Rightarrow> (pyexc + int) \<times> db" where
  "dispatch issue_id actor_id instructions now db =
     (case active_user actor_id db of
        Inl e \<Rightarrow> (Inl e, db)
      | Inr u \<Rightarrow>
          (case get_issue_row issue_id db of
             None \<Rightarrow> (Inl (raise_exc ValueError MSG_NO_ISSUE), db)
           | Some r \<Rightarrow>
               (case dispatch_issue r (us_id u) instructions now db of
                  (Inl e, _) \<Rightarrow> (Inl e, db)
                | (Inr t, db') \<Rightarrow> (Inr (tk_id t), db'))))"

text \<open>
  \<open>add_and_dispatch\<close>: the upserted issue and the task are one transaction, so a refused dispatch leaves what
  the provider call left.
\<close>

definition add_and_dispatch ::
  "(pystr \<Rightarrow> bool) \<Rightarrow> (nat \<Rightarrow> digit_kind) \<Rightarrow> (provider \<Rightarrow> issue_provider option) \<Rightarrow> pystr \<Rightarrow> int \<Rightarrow> time \<Rightarrow> db
    \<Rightarrow> (pyexc + int) \<times> db" where
  "add_and_dispatch bad uni providers url actor_id now db =
     (case active_user actor_id db of
        Inl e \<Rightarrow> (Inl e, db)
      | Inr u \<Rightarrow>
          (case issue_source bad uni providers url db of
             (Inl e, db1) \<Rightarrow> (Inl e, db1)
           | (Inr (repository_id, source), db1) \<Rightarrow>
               (let (r, db2) = upsert_provider_issue repository_id source db1
                in case dispatch_issue r (us_id u) [] now db2 of
                     (Inl e, _) \<Rightarrow> (Inl e, db1)
                   | (Inr t, db3) \<Rightarrow> (Inr (tk_id t), db3))))"

section \<open>Triage by administrators\<close>

definition admin_issue :: "int \<Rightarrow> int \<Rightarrow> db \<Rightarrow> pyexc + issue" where
  "admin_issue issue_id actor_id db =
     (case get_issue_row issue_id db of
        None \<Rightarrow> Inl (raise_exc NotFound MSG_NO_ISSUE)
      | Some r \<Rightarrow>
          (case get_user actor_id db of
             None \<Rightarrow> Inl (raise_exc Forbidden MSG_ISSUE_FORBIDDEN)
           | Some u \<Rightarrow>
               if us_role u \<noteq> RoleAdmin then Inl (raise_exc Forbidden MSG_ISSUE_FORBIDDEN) else Inr r))"

definition ignore :: "int \<Rightarrow> int \<Rightarrow> pystr \<Rightarrow> time \<Rightarrow> db \<Rightarrow> (pyexc + int \<times> int) \<times> db" where
  "ignore issue_id actor_id reason now db =
     (case admin_issue issue_id actor_id db of
        Inl e \<Rightarrow> (Inl e, db)
      | Inr r \<Rightarrow>
          if is_triage_state r \<noteq> Discovered \<or> is_state r \<noteq> IssueOpen
          then (Inl (raise_exc Conflict MSG_CANNOT_IGNORE), db)
          else (Inr (is_number r, is_repository_id r),
                update_issue issue_id (\<lambda>x. x\<lparr>is_triage_state := Ignored, is_ignored_by := Some actor_id,
                    is_ignored_reason := (let s = take 1000 (strip reason) in if s = [] then None else Some s),
                    is_ignored_at := Some now\<rparr>) db))"

definition restore :: "int \<Rightarrow> int \<Rightarrow> db \<Rightarrow> (pyexc + int \<times> int) \<times> db" where
  "restore issue_id actor_id db =
     (case admin_issue issue_id actor_id db of
        Inl e \<Rightarrow> (Inl e, db)
      | Inr r \<Rightarrow>
          if is_triage_state r \<noteq> Ignored
          then (Inl (raise_exc Conflict MSG_CANNOT_RESTORE), db)
          else (Inr (is_number r, is_repository_id r),
                update_issue issue_id (\<lambda>x. x\<lparr>is_triage_state := Discovered, is_ignored_by := None,
                    is_ignored_reason := None, is_ignored_at := None\<rparr>) db))"

section \<open>The operations are effects\<close>

lemma get_issue_row_iff:
  "keys_ok db \<Longrightarrow> get_issue_row i db = Some r \<longleftrightarrow> r \<in> set (issues db) \<and> is_id r = i"
  unfolding get_issue_row_def keys_ok_def
  by (auto dest: find_SomeD intro: find_key_Some [where key = is_id])

lemma update_repository_simps [simp]:
  "tasks (update_repository i f db) = tasks db" "transitions (update_repository i f db) = transitions db"
  "issues (update_repository i f db) = issues db" "users (update_repository i f db) = users db"
  "triage_view (update_repository i f db) = triage_view db"
  by (simp_all add: update_repository_def triage_view_def)

lemma update_repository_effect:
  assumes "db_wf db" "\<And>r. rp_id (f r) = rp_id r"
  shows "task_effect db (update_repository i f db)"
proof -
  have "map rp_id (sql_update (\<lambda>r. rp_id r = i) f (repositories db)) = map rp_id (repositories db)"
    by (rule map_sql_update) (rule assms(2))
  then have "keys_ok (update_repository i f db)"
    using db_wfD(1) [OF assms(1)] by (simp add: keys_ok_def update_repository_def)
  then show ?thesis by (intro task_effect.other) simp_all
qed

lemma write_source_simps [simp]:
  "is_id (write_source s r) = is_id r" "is_triage_state (write_source s r) = is_triage_state r"
  "is_repository_id (write_source s r) = is_repository_id r" "is_number (write_source s r) = is_number r"
  by (simp_all add: write_source_def)

lemma new_issue_simps [simp]:
  "is_id (new_issue i k s) = i" "is_triage_state (new_issue i k s) = Discovered"
  "is_repository_id (new_issue i k s) = k" "is_number (new_issue i k s) = fi_number s"
  by (simp_all add: new_issue_def)

lemma upsert_effect:
  assumes "db_wf db"
  shows "task_effect db (snd (upsert_provider_issue rid s db))"
proof (cases "find (issue_key rid (fi_number s)) (issues db)")
  case None
  define i where "i = fresh_id (map is_id (issues db))"
  have "i \<notin> set (map is_id (issues db))" unfolding i_def by (rule fresh_id_notin)
  then have "keys_ok (db\<lparr>issues := issues db @ [write_source s (new_issue i rid s)]\<rparr>)"
    using db_wfD(1) [OF assms] by (simp add: keys_ok_def)
  then show ?thesis
    unfolding upsert_provider_issue_def None i_def [symmetric]
    by (intro task_effect.add_issue [where i = i]) (simp_all add: Let_def triage_view_def)
next
  case (Some r)
  have "map is_id (sql_update (\<lambda>x. is_id x = is_id r) (write_source s) (issues db)) = map is_id (issues db)"
    by (rule map_sql_update) simp
  then have "keys_ok (snd (upsert_provider_issue rid s db))"
    using db_wfD(1) [OF assms] by (simp add: upsert_provider_issue_def Some keys_ok_def)
  moreover have "triage_view (snd (upsert_provider_issue rid s db)) = triage_view db"
    unfolding upsert_provider_issue_def Some triage_view_def
    by (simp add: map_sql_update [where key = "\<lambda>r. (is_id r, is_triage_state r)"])
  ultimately show ?thesis
    by (intro task_effect.other) (simp_all add: upsert_provider_issue_def Some)
qed

lemma upsert_issues_effects: "db_wf db \<Longrightarrow> effects db (upsert_issues rid ss db)"
proof (induction ss arbitrary: db)
  case (Cons s ss)
  note e = upsert_effect [OF Cons.prems, of rid s]
  from Cons.IH [OF effect_wf [OF e Cons.prems]] e show ?case
    by (simp add: converse_rtranclp_into_rtranclp)
qed auto

text \<open>What a provider's methods may do to the database while they run: other connections' transactions.\<close>

definition quiet_call :: "(db \<Rightarrow> 'a \<times> db) \<Rightarrow> bool" where
  "quiet_call f \<longleftrightarrow> (\<forall>db. db_wf db \<longrightarrow> effects db (snd (f db)))"

definition provider_quiet :: "issue_provider \<Rightarrow> bool" where
  "provider_quiet p \<longleftrightarrow> (\<forall>r. quiet_call (ip_list_open_issues p r)) \<and> (\<forall>r n. quiet_call (ip_get_issue p r n))
     \<and> (\<forall>f r c. ip_list_issues p = Some f \<longrightarrow> quiet_call (f r c))"

lemma quiet_callD: "quiet_call f \<Longrightarrow> db_wf db \<Longrightarrow> f db = (r, db') \<Longrightarrow> effects db db'"
  unfolding quiet_call_def by (metis snd_conv)

lemma fetch_quiet: "provider_quiet p \<Longrightarrow> quiet_call (fetch_sources p full r)"
  unfolding provider_quiet_def fetch_sources_def quiet_call_def by (auto split: option.split)

lemma sync_keeps_id [simp]:
  "rp_id (sync_started t r) = rp_id r" "rp_id (sync_failed m r) = rp_id r" "rp_id (sync_succeeded t u r) = rp_id r"
  by (simp_all add: sync_started_def sync_failed_def sync_succeeded_def)

lemma update_repository_effects:
  "effects db0 db \<Longrightarrow> db_wf db \<Longrightarrow> (\<And>r. rp_id (f r) = rp_id r) \<Longrightarrow> effects db0 (update_repository i f db)"
  by (meson update_repository_effect rtranclp.rtrancl_into_rtrancl)

lemma sync_repository_effects:
  assumes "db_wf db" "provider_quiet p"
  shows "effects db (snd (sync_repository p full r now later db))"
proof (cases "rp_sync_status r = SyncRunning")
  case False
  let ?db = "update_repository (rp_id r) (sync_started now) db"
  obtain x db1 where f: "fetch_sources p full r ?db = (x, db1)" by fastforce
  have e0: "effects db ?db" by (rule update_repository_effects [OF _ assms(1)]) auto
  have e1: "effects ?db db1" by (rule quiet_callD [OF fetch_quiet [OF assms(2)] effects_wf [OF e0 assms(1)] f])
  note e = effects_trans [OF e0 e1]
  note wf = effects_wf [OF e assms(1)]
  show ?thesis
  proof (cases x)
    case (Inl err)
    with f False show ?thesis
      by (simp add: sync_repository_def update_repository_effects [OF e wf])
  next
    case (Inr sources)
    note u = upsert_issues_effects [OF wf, of "rp_id r" sources]
    from f False Inr show ?thesis
      by (simp add: sync_repository_def update_repository_effects [OF effects_trans [OF e u] effects_wf [OF u wf]])
  qed
qed (auto simp: sync_repository_def)

lemma sync_one_effects:
  assumes "db_wf db" "\<And>k p. providers k = Some p \<Longrightarrow> provider_quiet p"
  shows "effects db (snd (sync_one providers key full now later i db))"
proof (cases "get_repository i db")
  case (Some r)
  show ?thesis
  proof (cases "rp_is_enabled r")
    case True
    show ?thesis
    proof (cases "providers (rp_provider r)")
      case None
      with Some True show ?thesis
        by (simp add: sync_one_def update_repository_effects [OF rtranclp.rtrancl_refl assms(1)])
    next
      case p: (Some p)
      obtain x db1 where s: "sync_repository p full r now later db = (x, db1)" by fastforce
      have e: "effects db db1" using sync_repository_effects [OF assms(1) assms(2) [OF p]] s by (metis snd_conv)
      with Some True p s show ?thesis
        by (cases x) (simp_all add: sync_one_def update_repository_effects [OF e effects_wf [OF e assms(1)]])
    qed
  qed (auto simp: sync_one_def Some)
qed (auto simp: sync_one_def)

lemma issue_poller_effects:
  assumes "db_wf db" "\<And>k p. providers k = Some p \<Longrightarrow> provider_quiet p"
  shows "effects db (snd (issue_poller_tick can_run providers key every now later (counts, db)))"
proof -
  have "effects db (snd (sync_each providers key every now later ids (counts, db)))" for ids
    using assms(1)
  proof (induction ids arbitrary: counts db)
    case (Cons i ids)
    let ?full = "(case counts i of None \<Rightarrow> 0 | Some n \<Rightarrow> n) mod every = 0"
    obtain ok db1 where s: "sync_one providers key ?full now later i db = (ok, db1)" by fastforce
    have "effects db (snd (sync_one providers key ?full now later i db))"
      by (rule sync_one_effects [OF Cons.prems assms(2)])
    then have e: "effects db db1" by (simp add: s)
    from effects_trans [OF e Cons.IH [OF effects_wf [OF e Cons.prems]]] s show ?case
      by (simp add: Let_def)
  qed auto
  then show ?thesis by (auto simp: issue_poller_tick_def)
qed

lemma update_issue_effect:
  assumes "db_wf db" "get_issue_row i db = Some r" "is_triage_state r \<noteq> Dispatched"
    "\<And>x. is_id (f x) = is_id x \<and> is_triage_state (f x) = new"
  shows "task_effect db (update_issue i f db)"
proof -
  have keys: "keys_ok db" by (rule db_wfD(1) [OF assms(1)])
  have "map is_id (sql_update (\<lambda>x. is_id x = i) f (issues db)) = map is_id (issues db)"
    by (rule map_sql_update) (simp add: assms(4))
  with keys have "keys_ok (update_issue i f db)" by (simp add: keys_ok_def update_issue_def)
  moreover have "triage_view (update_issue i f db)
      = map (\<lambda>(j, s). (j, if j = i then new else s)) (triage_view db)"
    by (simp add: triage_view_def update_issue_def sql_update_def assms(4))
  moreover have "s \<noteq> Dispatched" if member: "(i, s) \<in> set (triage_view db)" for s
  proof -
    obtain x where "x \<in> set (issues db)" "is_id x = i" "s = is_triage_state x"
      using member unfolding triage_view_def set_map by blast
    then have "get_issue_row i db = Some x" by (simp add: get_issue_row_iff [OF keys])
    with assms(2,3) \<open>s = is_triage_state x\<close> show ?thesis by simp
  qed
  ultimately show ?thesis by (intro task_effect.triage) (auto simp: update_issue_def)
qed

lemma admin_issue_row: "admin_issue i a db = Inr r \<Longrightarrow> get_issue_row i db = Some r"
  by (auto simp: admin_issue_def split: option.splits if_splits)

lemma ignore_effects: "db_wf db \<Longrightarrow> effects db (snd (ignore i a reason now db))"
  unfolding ignore_def
  by (auto split: sum.split dest!: admin_issue_row intro!: r_into_rtranclp
      update_issue_effect [where new = Ignored])

lemma restore_effects: "db_wf db \<Longrightarrow> effects db (snd (restore i a db))"
  unfolding restore_def
  by (auto split: sum.split dest!: admin_issue_row intro!: r_into_rtranclp
      update_issue_effect [where new = Discovered])

text \<open>Under the invariant an issue waiting for triage has no live task.\<close>

lemma discovered_no_live:
  assumes "db_wf db" "get_issue_row i db = Some r" "is_triage_state r = Discovered" "t \<in> set (tasks db)"
    "tk_issue_id t = i"
  shows "dead t"
proof (rule ccontr)
  assume "\<not> dead t"
  have "(i, Discovered) \<in> set (triage_view db)"
    using assms(2,3) by (auto simp: get_issue_row_iff [OF db_wfD(1) [OF assms(1)]] triage_view_def image_iff)
  with \<open>\<not> dead t\<close> assms(4,5) db_wfD(5) [OF assms(1)] show False
    unfolding live_dispatched_def by blast
qed

definition dispatched_db :: "issue \<Rightarrow> task \<Rightarrow> db \<Rightarrow> db" where
  "dispatched_db r t db =
     (update_issue (is_id r) (is_triage_state_update (\<lambda>_. Dispatched)) db)\<lparr>tasks := tasks db @ [t]\<rparr>"

lemma dispatched_effect:
  assumes "db_wf db" "get_issue_row (is_id r) db = Some r" "is_triage_state r = Discovered"
    "tk_status t = Queued" "tk_claim_token t = None" "tk_id t = fresh_id (map tk_id (tasks db))"
    "tk_issue_id t = is_id r"
  shows "task_effect db (dispatched_db r t db)"
proof -
  have keys: "keys_ok db" by (rule db_wfD(1) [OF assms(1)])
  have "map is_id (sql_update (\<lambda>x. is_id x = is_id r) (is_triage_state_update (\<lambda>_. Dispatched)) (issues db))
      = map is_id (issues db)"
    by (rule map_sql_update) simp
  moreover have "tk_id t \<notin> set (map tk_id (tasks db))" unfolding assms(6) by (rule fresh_id_notin)
  ultimately have "keys_ok (dispatched_db r t db)"
    using keys by (simp add: keys_ok_def dispatched_db_def update_issue_def)
  moreover have "triage_view (dispatched_db r t db)
      = map (\<lambda>(j, s). (j, if j = tk_issue_id t then Dispatched else s)) (triage_view db)"
    by (simp add: triage_view_def dispatched_db_def update_issue_def sql_update_def assms(7))
  moreover have "(tk_issue_id t, Discovered) \<in> set (triage_view db)"
    using assms(2,3,7) by (auto simp: get_issue_row_iff [OF keys] triage_view_def image_iff)
  ultimately show ?thesis
    using assms(4-6) by (intro task_effect.dispatch [where t = t])
      (auto simp: dispatched_db_def update_issue_def)
qed

text \<open>What \<open>dispatch_issue\<close> does to a current row, on every branch.\<close>

lemma dispatch_issue_eq:
  assumes "db_wf db" "get_issue_row (is_id r) db = Some r"
  shows "dispatch_issue r creator ins now db =
    (if is_state r \<noteq> IssueOpen \<or> is_triage_state r \<noteq> Discovered
     then (Inl (raise_exc ValueError MSG_NOT_PENDING), db)
     else case get_repository (is_repository_id r) db of
       None \<Rightarrow> (Inl (raise_exc AttributeError []), db)
     | Some repo \<Rightarrow>
         if \<not> rp_is_enabled repo then (Inl (raise_exc ValueError MSG_DISABLED), db)
         else (let t = new_task (fresh_id (map tk_id (tasks db))) (is_id r) creator (strip ins) now
               in (Inr t, dispatched_db r t db)))"
proof (cases "is_state r \<noteq> IssueOpen \<or> is_triage_state r \<noteq> Discovered")
  case False
  have "find (live_task_of (is_id r)) (tasks db) = None"
    unfolding find_None_count sql_count_0_iff
    using discovered_no_live [OF assms] False dead_terminal by (auto simp: live_task_of_def)
  moreover have "active_index_ok (tasks (dispatched_db r t db))"
    if "t = new_task (fresh_id (map tk_id (tasks db))) (is_id r) creator (strip ins) now" for t
  proof -
    have "task_effect db (dispatched_db r t db)"
      using False by (intro dispatched_effect assms) (simp_all add: that new_task_def)
    then show ?thesis
      using db_wf_store_ok [OF effect_wf [OF _ assms(1)]] by (simp add: store_ok_def)
  qed
  ultimately show ?thesis
    using False by (simp add: dispatch_issue_def dispatched_db_def Let_def split: option.split)
qed (simp add: dispatch_issue_def)

lemma dispatch_issue_effects:
  assumes "db_wf db" "get_issue_row (is_id r) db = Some r"
  shows "effects db (snd (dispatch_issue r creator ins now db))"
  unfolding dispatch_issue_eq [OF assms] using assms
  by (auto simp: Let_def new_task_def split: option.split intro!: r_into_rtranclp dispatched_effect)

lemma upsert_row:
  assumes "db_wf db" "upsert_provider_issue rid s db = (r, db')"
  shows "get_issue_row (is_id r) db' = Some r"
proof -
  have "task_effect db db'" using upsert_effect [OF assms(1), of rid s] assms(2) by simp
  then have keys: "keys_ok db'" using effect_wf [OF _ assms(1)] by (simp add: db_wfD(1))
  have "r \<in> set (issues db')"
    using assms(2)
    by (auto simp: upsert_provider_issue_def set_sql_update Let_def dest!: find_SomeD split: option.splits)
  then show ?thesis by (simp add: get_issue_row_iff [OF keys])
qed

lemma issue_source_effects:
  assumes "db_wf db" "\<And>k p. providers k = Some p \<Longrightarrow> provider_quiet p"
  shows "effects db (snd (issue_source bad uni providers url db))"
proof -
  have "effects db d" if "providers k = Some p" "ip_get_issue p r n db = (x, d)" for k p r n x d
    using assms(2) [OF that(1)] that(2) assms(1) unfolding provider_quiet_def by (blast intro: quiet_callD)
  then show ?thesis
    unfolding issue_source_def by (auto split: sum.split option.split prod.split)
qed

lemma add_provider_issue_effects:
  assumes "db_wf db" "\<And>k p. providers k = Some p \<Longrightarrow> provider_quiet p"
  shows "effects db (snd (add_provider_issue bad uni providers url db))"
proof -
  obtain x db1 where s: "issue_source bad uni providers url db = (x, db1)" by fastforce
  have "effects db (snd (issue_source bad uni providers url db))"
    by (rule issue_source_effects [OF assms])
  then have e: "effects db db1" by (simp add: s)
  show ?thesis
  proof (cases x)
    case (Inr y)
    with s e upsert_effect [OF effects_wf [OF e assms(1)], of "fst y" "snd y"] show ?thesis
      by (auto simp: add_provider_issue_def Let_def case_prod_beta)
  qed (simp add: add_provider_issue_def s e)
qed

lemma add_and_dispatch_effects:
  assumes "db_wf db" "\<And>k p. providers k = Some p \<Longrightarrow> provider_quiet p"
  shows "effects db (snd (add_and_dispatch bad uni providers url a now db))"
proof -
  obtain x db1 where s: "issue_source bad uni providers url db = (x, db1)" by fastforce
  have "effects db (snd (issue_source bad uni providers url db))"
    by (rule issue_source_effects [OF assms])
  then have e: "effects db db1" by (simp add: s)
  note wf1 = effects_wf [OF e assms(1)]
  show ?thesis
  proof (cases "active_user a db")
    case u: (Inr u)
    show ?thesis
    proof (cases x)
      case (Inr y)
      obtain rid src where y: "y = (rid, src)" by fastforce
      obtain r db2 where r: "upsert_provider_issue rid src db1 = (r, db2)" by fastforce
      have e2: "effects db1 db2" using upsert_effect [OF wf1, of rid src] r by auto
      note wf2 = effects_wf [OF e2 wf1]
      obtain z db3 where z: "dispatch_issue r (us_id u) [] now db2 = (z, db3)" by fastforce
      have "effects db2 db3"
        using dispatch_issue_effects [OF wf2 upsert_row [OF wf1 r], of "us_id u" "[]" now] z by simp
      with e e2 have "effects db db3" by (meson effects_trans)
      with e s u Inr y r z show ?thesis by (cases z) (simp_all add: add_and_dispatch_def)
    qed (simp add: add_and_dispatch_def s e u)
  qed (auto simp: add_and_dispatch_def)
qed

lemma dispatch_effects:
  assumes "db_wf db"
  shows "effects db (snd (dispatch i a ins now db))"
proof (cases "get_issue_row i db")
  case (Some r)
  then have i: "is_id r = i" by (auto simp: get_issue_row_iff [OF db_wfD(1) [OF assms]])
  then have "effects db (snd (dispatch_issue r c ins now db))" for c
    using dispatch_issue_effects [OF assms] Some by simp
  with Some show ?thesis
    unfolding dispatch_def by (auto split: sum.split prod.split) (metis snd_conv)
qed (auto simp: dispatch_def split: sum.split)

section \<open>Dispatching is exclusive\<close>

definition dispatchable :: "int \<Rightarrow> int \<Rightarrow> db \<Rightarrow> bool" where
  "dispatchable i a db =
     (case (get_user a db, get_issue_row i db) of
        (Some u, Some r) \<Rightarrow>
          us_is_active u \<and> is_state r = IssueOpen \<and> is_triage_state r = Discovered
          \<and> (case get_repository (is_repository_id r) db of None \<Rightarrow> False | Some repo \<Rightarrow> rp_is_enabled repo)
      | _ \<Rightarrow> False)"

lemma get_user_id: "get_user a db = Some u \<Longrightarrow> us_id u = a"
  unfolding get_user_def by (drule find_SomeD) simp

lemma dispatch_eq:
  assumes "db_wf db"
  shows "dispatchable i a db \<Longrightarrow> \<exists>r. get_issue_row i db = Some r \<and>
      dispatch i a ins now db =
        (let t = new_task (fresh_id (map tk_id (tasks db))) i a (strip ins) now
         in (Inr (tk_id t), dispatched_db r t db))"
    and "\<not> dispatchable i a db \<Longrightarrow> \<exists>e. dispatch i a ins now db = (Inl e, db)
      \<and> exc_cls e \<in> {ValueError, AttributeError}"
proof -
  have i: "is_id r = i \<and> get_issue_row (is_id r) db = Some r" if "get_issue_row i db = Some r" for r
    using that by (auto simp: get_issue_row_iff [OF db_wfD(1) [OF assms]])
  have row: "dispatch_issue r c ins now db = (Inl e, db) \<and> exc_cls e \<in> {ValueError, AttributeError}"
    if "get_issue_row i db = Some r" "dispatch_issue r c ins now db = (Inl e, db')" for r c e db'
    using that i [OF that(1)] by (auto simp: dispatch_issue_eq [OF assms] Let_def split: if_splits option.splits)
  show "\<exists>r. get_issue_row i db = Some r \<and> dispatch i a ins now db =
        (let t = new_task (fresh_id (map tk_id (tasks db))) i a (strip ins) now
         in (Inr (tk_id t), dispatched_db r t db))" if ok: "dispatchable i a db"
  proof -
    obtain u r repo where f: "get_user a db = Some u" "get_issue_row i db = Some r" "us_is_active u"
      "is_state r = IssueOpen" "is_triage_state r = Discovered"
      "get_repository (is_repository_id r) db = Some repo" "rp_is_enabled repo"
      using ok by (auto simp: dispatchable_def split: option.splits)
    with i [OF f(2)] get_user_id [OF f(1)] show ?thesis
      by (simp add: dispatch_def active_user_def dispatch_issue_eq [OF assms] Let_def)
  qed
  show "\<exists>e. dispatch i a ins now db = (Inl e, db) \<and> exc_cls e \<in> {ValueError, AttributeError}"
    if bad: "\<not> dispatchable i a db"
  proof (cases "fst (dispatch i a ins now db)")
    case (Inl e)
    then show ?thesis
      using row by (auto simp: dispatch_def active_user_def
          split: sum.splits option.splits if_splits prod.splits)
  next
    case (Inr n)
    then obtain u r t db' where f: "get_user a db = Some u" "us_is_active u" "get_issue_row i db = Some r"
      "dispatch_issue r (us_id u) ins now db = (Inr t, db')"
      by (auto simp: dispatch_def active_user_def split: sum.splits option.splits if_splits prod.splits)
    with i [OF f(3)] have "dispatchable i a db"
      by (auto simp: dispatch_issue_eq [OF assms] dispatchable_def Let_def split: if_splits option.splits)
    with bad show ?thesis by simp
  qed
qed

lemma dispatched_db_simps [simp]:
  "tasks (dispatched_db r t db) = tasks db @ [t]" "users (dispatched_db r t db) = users db"
  by (simp_all add: dispatched_db_def update_issue_def)

lemma dispatched_triage:
  "get_issue_row (is_id r) db = Some r \<Longrightarrow>
     get_issue_row (is_id r) (dispatched_db r t db) = Some (r\<lparr>is_triage_state := Dispatched\<rparr>)"
proof -
  have "find (\<lambda>x. is_id x = i) (sql_update (\<lambda>x. is_id x = i) (is_triage_state_update (\<lambda>_. Dispatched)) rows)
      = map_option (is_triage_state_update (\<lambda>_. Dispatched)) (find (\<lambda>x. is_id x = i) rows)" for i and rows :: "issue list"
    by (induction rows) auto
  then show "get_issue_row (is_id r) db = Some r \<Longrightarrow>
     get_issue_row (is_id r) (dispatched_db r t db) = Some (r\<lparr>is_triage_state := Dispatched\<rparr>)"
    by (simp add: get_issue_row_def dispatched_db_def update_issue_def)
qed

text \<open>
  C21: Dispatching an issue succeeds exactly when an active user asks for an open, undecided issue of an enabled
  repository; otherwise nothing is written.  Success adds one queued task with the stripped instructions, makes
  it the only live task of the issue, keeps the invariant, and no second dispatch of the issue can succeed
  after it.  So the unique index behind the insert is never the line of defence.
\<close>

theorem dispatch_is_exclusive:
  assumes "db_wf db"
  shows "case dispatch i a ins now db of
      (Inl e, db') \<Rightarrow> db' = db \<and> \<not> dispatchable i a db \<and> exc_cls e \<in> {ValueError, AttributeError}
    | (Inr n, db') \<Rightarrow> dispatchable i a db \<and> db_wf db'
        \<and> tasks db' = tasks db @ [new_task n i a (strip ins) now] \<and> n \<notin> tk_id ` set (tasks db)
        \<and> filter (\<lambda>t. tk_issue_id t = i \<and> \<not> dead t) (tasks db') = [new_task n i a (strip ins) now]
        \<and> \<not> dispatchable i b db'"
proof (cases "dispatchable i a db")
  case False
  with dispatch_eq(2) [OF assms False, of ins now] show ?thesis by auto
next
  case True
  obtain r where r: "get_issue_row i db = Some r" and
    d: "dispatch i a ins now db =
        (let t = new_task (fresh_id (map tk_id (tasks db))) i a (strip ins) now
         in (Inr (tk_id t), dispatched_db r t db))"
    using dispatch_eq(1) [OF assms True] by blast
  define n where "n = fresh_id (map tk_id (tasks db))"
  define t where "t = new_task n i a (strip ins) now"
  have i: "is_id r = i" using r by (auto simp: get_issue_row_iff [OF db_wfD(1) [OF assms]])
  have d': "dispatch i a ins now db = (Inr n, dispatched_db r t db)"
    unfolding d n_def [symmetric] t_def [symmetric] by (simp add: Let_def) (simp add: t_def new_task_def)
  have disc: "is_triage_state r = Discovered"
    using True r by (auto simp: dispatchable_def split: option.splits)
  have "effects db (snd (dispatch i a ins now db))" by (rule dispatch_effects [OF assms])
  then have "db_wf (dispatched_db r t db)" unfolding d' snd_conv by (rule effects_wf [OF _ assms])
  moreover have "n \<notin> tk_id ` set (tasks db)"
    using fresh_id_notin [of "map tk_id (tasks db)"] by (simp add: n_def)
  moreover have "filter (\<lambda>t. tk_issue_id t = i \<and> \<not> dead t) (tasks db) = []"
    using discovered_no_live [OF assms r disc] by (auto simp: filter_empty_conv)
  moreover have "tk_issue_id t = i \<and> \<not> dead t"
    by (simp add: t_def new_task_def dead_def status_sets)
  moreover have "\<not> dispatchable i b (dispatched_db r t db)"
    using dispatched_triage [of r db t] r i by (auto simp: dispatchable_def split: option.splits)
  ultimately show ?thesis using True d' by (simp add: t_def)
qed

definition open_issue_db :: db where
  "open_issue_db = (issue_db Queued None)\<lparr>tasks := [],
     users := [\<lparr>us_id = 1, us_role = RoleUser, us_is_active = True, us_username = []\<rparr>],
     issues := map (is_triage_state_update (\<lambda>_. Discovered)) (issues (issue_db Queued None)),
     repositories := [\<lparr>rp_id = 1, rp_provider = Github, rp_owner = [], rp_name = [], rp_canonical_url = [],
       rp_default_branch = [], rp_fork_owner = None, rp_fork_url = None, rp_created_by = 1, rp_is_enabled = True, rp_sync_status = SyncIdle, rp_sync_started_at = None,
       rp_last_synced_at = None, rp_sync_cursor_updated_at = None, rp_last_sync_error = None\<rparr>]\<rparr>"

lemma open_issue_wf: "db_wf open_issue_db"
  by (simp add: open_issue_db_def wf_simps keys_ok_def)

theorem dispatch_is_exclusive_witness:
  "dispatchable 1 1 open_issue_db \<and> (\<exists>db'. dispatch 1 1 (U '' fix '') 5 open_issue_db = (Inr 1, db') \<and> db_wf db')"
proof -
  have d: "dispatchable 1 1 open_issue_db"
    by (simp add: dispatchable_def open_issue_db_def wf_simps get_user_def get_issue_row_def get_repository_def)
  obtain db' where "dispatch 1 1 (U '' fix '') 5 open_issue_db = (Inr 1, db')"
    using dispatch_eq(1) [OF open_issue_wf d, of "U '' fix ''" 5]
    by (auto simp: Let_def new_task_def fresh_id_def open_issue_db_def)
  with d dispatch_is_exclusive [OF open_issue_wf, of 1 1 "U '' fix ''" 5] show ?thesis by simp
qed

section \<open>Synchronising is one merge\<close>

text \<open>
  The reference: every stored issue of the repository that the provider lists takes over its fields, and the
  listed issues that are not stored are appended.
\<close>

definition listed :: "int \<Rightarrow> forge_issue list \<Rightarrow> issue \<Rightarrow> forge_issue option" where
  "listed rid ss r = (if is_repository_id r = rid then find (\<lambda>s. fi_number s = is_number r) ss else None)"

definition stored :: "int \<Rightarrow> issue list \<Rightarrow> forge_issue \<Rightarrow> bool" where
  "stored rid rows s = list_ex (issue_key rid (fi_number s)) rows"

definition mirror :: "int \<Rightarrow> forge_issue list \<Rightarrow> issue \<Rightarrow> issue" where
  "mirror rid ss r = (case listed rid ss r of None \<Rightarrow> r | Some s \<Rightarrow> write_source s r)"

fun fresh_rows :: "int \<Rightarrow> int \<Rightarrow> forge_issue list \<Rightarrow> issue list" where
  "fresh_rows rid i [] = []"
| "fresh_rows rid i (s # ss) = write_source s (new_issue i rid s) # fresh_rows rid (i + 1) ss"

definition merge_issues :: "int \<Rightarrow> forge_issue list \<Rightarrow> issue list \<Rightarrow> issue list" where
  "merge_issues rid ss rows =
     map (mirror rid ss) rows
     @ fresh_rows rid (fresh_id (map is_id rows)) (filter (\<lambda>s. \<not> stored rid rows s) ss)"

definition issue_numbers_ok :: "issue list \<Rightarrow> bool" where
  "issue_numbers_ok rows \<longleftrightarrow> distinct (map is_id rows)
     \<and> distinct (map (\<lambda>r. (is_repository_id r, is_number r)) rows)"

lemma issue_numbers_ok_cong:
  "map is_id a = map is_id b \<Longrightarrow> map (\<lambda>r. (is_repository_id r, is_number r)) a
     = map (\<lambda>r. (is_repository_id r, is_number r)) b \<Longrightarrow> issue_numbers_ok a = issue_numbers_ok b"
  by (simp only: issue_numbers_ok_def)

lemma foldr_max: "0 \<le> m \<Longrightarrow> foldr max xs (m :: int) = max (foldr max xs 0) m"
proof (induction xs)
  case (Cons x xs)
  then show ?case by (simp only: foldr_Cons o_apply max.assoc)
qed simp

lemma fresh_id_snoc: "fresh_id (ids @ [fresh_id ids]) = fresh_id ids + 1"
proof -
  have "foldr max (ids @ [fresh_id ids]) 0 = foldr max ids (fresh_id ids)"
    using fresh_id_pos [of ids] by simp
  also have "\<dots> = max (foldr max ids 0) (fresh_id ids)"
    using fresh_id_pos [of ids] by (intro foldr_max) simp
  finally show ?thesis by (simp add: fresh_id_def)
qed

lemma mirror_keys [simp]:
  "is_id (mirror rid ss r) = is_id r" "is_repository_id (mirror rid ss r) = is_repository_id r"
  "is_number (mirror rid ss r) = is_number r" "is_triage_state (mirror rid ss r) = is_triage_state r"
  by (simp_all add: mirror_def split: option.split)

lemma find_number_None: "n \<notin> fi_number ` set ss \<Longrightarrow> find (\<lambda>x. fi_number x = n) ss = None"
  by (induction ss) auto

lemma mirror_cons:
  assumes "fi_number s \<notin> fi_number ` set ss"
  shows "mirror rid ss (if issue_key rid (fi_number s) r then write_source s r else r) = mirror rid (s # ss) r"
proof -
  have "find (\<lambda>x. fi_number x = fi_number s) ss = None" by (rule find_number_None [OF assms])
  then show ?thesis
    by (auto simp: mirror_def listed_def issue_key_def)
qed

lemma stored_cong:
  assumes "map (\<lambda>r. (is_repository_id r, is_number r)) rows = map (\<lambda>r. (is_repository_id r, is_number r)) rows'"
  shows "stored rid rows s = stored rid rows' s"
proof -
  have eq: "stored rid xs s = list_ex (\<lambda>p. p = (rid, fi_number s)) (map (\<lambda>r. (is_repository_id r, is_number r)) xs)"
    for xs by (induction xs) (auto simp: stored_def issue_key_def)
  show ?thesis unfolding eq assms ..
qed

lemma upsert_issues_merge:
  "issue_numbers_ok (issues db) \<Longrightarrow> distinct (map fi_number ss) \<Longrightarrow>
     upsert_issues rid ss db = db\<lparr>issues := merge_issues rid ss (issues db)\<rparr>"
proof (induction ss arbitrary: db)
  case Nil
  have "mirror rid [] = (\<lambda>r. r)" by (rule ext) (simp add: mirror_def listed_def)
  then show ?case by (simp add: merge_issues_def)
next
  case (Cons s ss)
  have new: "fi_number s \<notin> fi_number ` set ss" and d: "distinct (map fi_number ss)"
    using Cons.prems(2) by simp_all
  let ?rows = "issues db" and ?k = "issue_key rid (fi_number s)"
  show ?case
  proof (cases "find ?k ?rows")
    case (Some r)
    then have r: "r \<in> set ?rows" "?k r" by (auto dest: find_SomeD)
    let ?rows' = "map (\<lambda>x. if ?k x then write_source s x else x) ?rows"
    have "(is_id x = is_id r) = ?k x" if "x \<in> set ?rows" for x
    proof -
      have "x = r" if "is_id x = is_id r"
        using key_unique [where key = is_id, OF _ \<open>x \<in> set ?rows\<close> r(1) that] Cons.prems(1)
        by (simp add: issue_numbers_ok_def)
      moreover have "x = r" if "?k x"
        using key_unique [where key = "\<lambda>r. (is_repository_id r, is_number r)", OF _ \<open>x \<in> set ?rows\<close> r(1)]
          Cons.prems(1) that r(2)
        by (simp add: issue_numbers_ok_def issue_key_def)
      ultimately show ?thesis using r(2) by blast
    qed
    then have "sql_update (\<lambda>x. is_id x = is_id r) (write_source s) ?rows = ?rows'"
      by (simp add: sql_update_def)
    then have step: "snd (upsert_provider_issue rid s db) = db\<lparr>issues := ?rows'\<rparr>"
      by (simp add: upsert_provider_issue_def Some)
    have ids: "map is_id ?rows' = map is_id ?rows"
      and nums: "map (\<lambda>r. (is_repository_id r, is_number r)) ?rows' = map (\<lambda>r. (is_repository_id r, is_number r)) ?rows"
      by auto
    have "issue_numbers_ok ?rows'" using issue_numbers_ok_cong [OF ids nums] Cons.prems(1) by blast
    then have ok: "issue_numbers_ok (issues (db\<lparr>issues := ?rows'\<rparr>))" by simp
    have "map (mirror rid ss) ?rows' = map (mirror rid (s # ss)) ?rows"
      using mirror_cons [OF new, of rid] by simp
    moreover have "stored rid ?rows s" using r by (auto simp: stored_def list_ex_iff)
    ultimately show ?thesis
      using Cons.IH [OF ok d] step by (simp add: merge_issues_def ids [unfolded map_map] stored_cong [OF nums])
  next
    case None
    define i where "i = fresh_id (map is_id ?rows)"
    let ?r = "write_source s (new_issue i rid s)"
    have step: "snd (upsert_provider_issue rid s db) = db\<lparr>issues := ?rows @ [?r]\<rparr>"
      by (simp add: upsert_provider_issue_def None i_def Let_def)
    have none: "\<not> ?k x" if "x \<in> set ?rows" for x
      using None that by (auto simp: find_None_iff)
    have nk: "(rid, fi_number s) \<notin> (\<lambda>r. (is_repository_id r, is_number r)) ` set ?rows"
    proof
      assume "(rid, fi_number s) \<in> (\<lambda>r. (is_repository_id r, is_number r)) ` set ?rows"
      then obtain x where "x \<in> set ?rows" "?k x" by (auto simp: issue_key_def)
      with none show False by blast
    qed
    have ok: "issue_numbers_ok (issues (db\<lparr>issues := ?rows @ [?r]\<rparr>))"
      using Cons.prems(1) nk fresh_id_notin [of "map is_id ?rows"]
      by (simp add: issue_numbers_ok_def i_def)
    have "mirror rid ss x = mirror rid (s # ss) x" if "x \<in> set ?rows" for x
      using mirror_cons [OF new, of rid x] none [OF that] by simp
    moreover have "mirror rid ss ?r = ?r"
    proof -
      have "find (\<lambda>x. fi_number x = fi_number s) ss = None" by (rule find_number_None [OF new])
      then show ?thesis by (simp add: mirror_def listed_def)
    qed
    moreover have "stored rid (?rows @ [?r]) x = stored rid ?rows x" if "x \<in> set ss" for x
      using new that by (force simp: stored_def issue_key_def)
    moreover have "\<not> stored rid ?rows s" using none by (auto simp: stored_def list_ex_iff)
    moreover have "fresh_id (map is_id (?rows @ [?r])) = i + 1" by (simp add: i_def fresh_id_snoc)
    ultimately show ?thesis
      using Cons.IH [OF ok d] step
      by (simp add: merge_issues_def i_def [symmetric] cong: filter_cong)
  qed
qed

text \<open>
  C22: A synchronisation whose provider lists its issues, each number once, equals one bulk merge: stored
  issues of the repository take over the listed fields, unknown ones are appended as undecided, every other
  issue and every triage decision stays, and the repository records success with the start time as the cursor
  of the next incremental call.  A provider that fails leaves the issues alone and its message on the row.
\<close>

theorem sync_is_one_merge:
  assumes "issue_numbers_ok (issues db)" "rp_sync_status r \<noteq> SyncRunning"
    "\<And>d. fetch_sources p full r d = (answer, d)" "case answer of Inl _ \<Rightarrow> True | Inr ss \<Rightarrow> distinct (map fi_number ss)"
  shows "sync_repository p full r now later db =
    (case answer of
       Inl e \<Rightarrow>
         (Inl e, update_repository (rp_id r) (\<lambda>x. sync_failed (exc_str e) (sync_started now x)) db)
     | Inr ss \<Rightarrow>
         (Inr (int (length ss)),
          (update_repository (rp_id r) (\<lambda>x. sync_succeeded now later (sync_started now x)) db)
            \<lparr>issues := merge_issues (rp_id r) ss (issues db)\<rparr>))
    \<and> (\<forall>x. is_triage_state (mirror (rp_id r) (case answer of Inl _ \<Rightarrow> [] | Inr ss \<Rightarrow> ss) x) = is_triage_state x)"
proof -
  have two: "update_repository i g (update_repository i f d) = update_repository i (\<lambda>x. g (f x)) d"
    if "\<And>x. rp_id (f x) = rp_id x" for i f g d
    by (auto simp: update_repository_def sql_update_def that)
  have swap: "update_repository i g (d\<lparr>issues := v\<rparr>) = (update_repository i g d)\<lparr>issues := v\<rparr>" for i g d v
    by (simp add: update_repository_def)
  from assms(2,3) show ?thesis
    using upsert_issues_merge [of "update_repository (rp_id r) (sync_started now) db"] assms(1,4)
    by (cases answer) (simp_all add: sync_repository_def two swap)
qed

definition sample_source :: "int \<Rightarrow> forge_issue" where
  "sample_source n = \<lparr>fi_external_id = [], fi_number = n, fi_title = U ''crash'', fi_body = None,
     fi_state = IssueOpen, fi_labels = [], fi_canonical_url = [], fi_updated_at = None\<rparr>"

theorem sync_is_one_merge_witness:
  "map is_number (issues (snd (sync_repository
       \<lparr>ip_list_issues = Some (\<lambda>_ _ d. (Inr [sample_source 7, sample_source 9], d)),
        ip_list_open_issues = (\<lambda>_ d. (Inr [], d)), ip_get_issue = (\<lambda>_ n d. (Inr (sample_source n), d))\<rparr>
       True (repositories open_issue_db ! 0) 5 6 open_issue_db))) = [7, 9]"
proof -
  let ?p = "\<lparr>ip_list_issues = Some (\<lambda>_ _ d. (Inr [sample_source 7, sample_source 9], d)),
        ip_list_open_issues = (\<lambda>_ d. (Inr [], d)), ip_get_issue = (\<lambda>_ n d. (Inr (sample_source n), d))\<rparr>"
  let ?r = "repositories open_issue_db ! 0"
  have "sync_repository ?p True ?r 5 6 open_issue_db =
    (case Inr [sample_source 7, sample_source 9] of
       Inl e \<Rightarrow>
         (Inl e, update_repository (rp_id ?r) (\<lambda>x. sync_failed (exc_str e) (sync_started 5 x)) open_issue_db)
     | Inr ss \<Rightarrow>
         (Inr (int (length ss)),
          (update_repository (rp_id ?r) (\<lambda>x. sync_succeeded 5 6 (sync_started 5 x)) open_issue_db)
            \<lparr>issues := merge_issues (rp_id ?r) ss (issues open_issue_db)\<rparr>))"
    by (rule conjunct1 [OF sync_is_one_merge])
      (simp_all add: issue_numbers_ok_def open_issue_db_def issue_db_def fetch_sources_def sample_source_def)
  then show ?thesis
    by (simp add: merge_issues_def stored_def issue_key_def open_issue_db_def issue_db_def
        sample_source_def)
qed

end
