(* ===== verification/Repository_Commands.thy ===== *)
theory Repository_Commands
  imports Issue_Service
begin

text \<open>
  \<open>coderus/application/repositories.py\<close>: adding, synchronising, enabling and disabling repositories, and the
  repair of interrupted synchronisations when the service starts (\<open>web/runtime.py\<close>).
\<close>

definition MSG_ADD_FORBIDDEN :: pystr where \<comment> \<open>no permission to add repositories\<close>
  "MSG_ADD_FORBIDDEN = [27809, 26377, 26435, 38480, 28155, 21152, 20179, 24211]"

definition MSG_NOT_PUBLIC :: pystr where \<comment> \<open>the repository must be public with issues enabled\<close>
  "MSG_NOT_PUBLIC = [20179, 24211, 24517, 39035, 20844, 24320, 19988, 21551, 29992, 32, 73, 115,
   115, 117, 101]"

definition MSG_NO_REPOSITORY :: pystr where \<comment> \<open>the repository does not exist\<close>
  "MSG_NO_REPOSITORY = [20179, 24211, 19981, 23384, 22312]"

definition MSG_SYNCING :: pystr where \<comment> \<open>the repository is being synchronised, refresh later\<close>
  "MSG_SYNCING = [20179, 24211, 27491, 22312, 21516, 27493, 65292, 35831, 31245, 21518, 21047,
   26032, 29366, 24577]"

definition MSG_SYNCING_TOGGLE :: pystr where \<comment> \<open>it cannot be toggled while it is being synchronised\<close>
  "MSG_SYNCING_TOGGLE = [20179, 24211, 27491, 22312, 21516, 27493, 65292, 24403, 21069, 19981,
   33021, 20462, 25913, 21551, 29992, 29366, 24577]"

definition MSG_SYNC_INTERRUPTED :: pystr where \<comment> \<open>the restart interrupted the synchronisation\<close>
  "MSG_SYNC_INTERRUPTED = [21516, 27493, 34987, 26381, 21153, 37325, 21551, 20013, 26029, 65292,
   35831, 37325, 26032, 21047, 26032]"

type_synonym 'a outside = "db \<Rightarrow> (pyexc + 'a) \<times> db"

record fork_result =
  fk_url :: pystr
  fk_owner :: pystr
  fk_created :: bool

definition admin_user :: "int \<Rightarrow> db \<Rightarrow> bool" where
  "admin_user i db = (case get_user i db of None \<Rightarrow> False | Some u \<Rightarrow> us_role u = RoleAdmin)"

text \<open>The two unique constraints of the table.\<close>

definition repository_keys_ok :: "repository list \<Rightarrow> bool" where
  "repository_keys_ok rows \<longleftrightarrow> distinct (map (\<lambda>r. (rp_provider r, rp_owner r, rp_name r)) rows)
     \<and> distinct (map rp_canonical_url rows)"

definition new_repository :: "int \<Rightarrow> forge_repository \<Rightarrow> fork_result option \<Rightarrow> int \<Rightarrow> repository" where
  "new_repository i m fork creator =
     \<lparr>rp_id = i, rp_provider = fr_provider m, rp_owner = fr_owner m, rp_name = fr_name m,
      rp_canonical_url = fr_canonical_url m,
      rp_default_branch = (if truthy (fr_default_branch m) then the (fr_default_branch m) else U ''main''),
      rp_fork_owner = map_option fk_owner fork, rp_fork_url = map_option fk_url fork,
      rp_created_by = creator, rp_is_enabled = True, rp_sync_status = SyncIdle, rp_sync_started_at = None,
      rp_last_synced_at = None, rp_sync_cursor_updated_at = None, rp_last_sync_error = None\<rparr>"

definition insert_repository ::
  "forge_repository \<Rightarrow> fork_result option \<Rightarrow> int \<Rightarrow> db \<Rightarrow> (pyexc + repository) \<times> db" where
  "insert_repository m fork creator db =
     (let r = new_repository (fresh_id (map rp_id (repositories db))) m fork creator
      in if repository_keys_ok (repositories db @ [r])
         then (Inr r, db\<lparr>repositories := repositories db @ [r]\<rparr>)
         else (Inl (raise_exc IntegrityError []), db))"

text \<open>
  \<open>add\<close>: \<open>get_metadata\<close> is the provider's \<open>get_repository\<close> on the canonical URL, \<open>ensure_fork\<close> the forge's
  method; a platform without provider raises \<open>KeyError\<close>.
\<close>

definition add_repository ::
  "(pystr \<Rightarrow> bool) \<Rightarrow> (provider \<Rightarrow> (pystr \<Rightarrow> forge_repository outside) option) \<Rightarrow> 'f registry \<Rightarrow>
    (pystr \<Rightarrow> pystr \<Rightarrow> fork_result outside) \<Rightarrow> pystr \<Rightarrow> int \<Rightarrow> db \<Rightarrow> (pyexc + repository) \<times> db" where
  "add_repository bad get_metadata reg ensure_fork url actor_id db =
     (if \<not> admin_user actor_id db then (Inl (raise_exc Forbidden MSG_ADD_FORBIDDEN), db)
      else case parse_repository_url bad url None of
        Inl e \<Rightarrow> (Inl e, db)
      | Inr parsed \<Rightarrow>
          (case get_metadata (fr_provider parsed) of
             None \<Rightarrow> (Inl (raise_exc KeyError (provider_text (fr_provider parsed))), db)
           | Some get \<Rightarrow>
               (case get (fr_canonical_url parsed) db of
                  (Inl e, db1) \<Rightarrow> (Inl e, db1)
                | (Inr m, db1) \<Rightarrow>
                    if fr_is_private m = Some True \<or> fr_issues_enabled m = Some False
                    then (Inl (raise_exc ValueError MSG_NOT_PUBLIC), db1)
                    else if registry_supports reg (fr_provider m) [EnsureFork]
                    then (case ensure_fork (fr_owner m) (fr_name m) db1 of
                            (Inl e, db2) \<Rightarrow> (Inl e, db2)
                          | (Inr fork, db2) \<Rightarrow> insert_repository m (Some fork) actor_id db2)
                    else insert_repository m None actor_id db1)))"

text \<open>\<open>sync\<close>: \<open>format_error\<close> is the injected formatter of the message shown to the user.\<close>

definition sync_command ::
  "(provider \<Rightarrow> issue_provider option) \<Rightarrow> (pyexc \<Rightarrow> pystr) \<Rightarrow> time \<Rightarrow> time \<Rightarrow> int \<Rightarrow> db \<Rightarrow> (pyexc + unit) \<times> db"
where
  "sync_command providers format_error now later i db =
     (case get_repository i db of
        None \<Rightarrow> (Inl (raise_exc NotFound MSG_NO_REPOSITORY), db)
      | Some r \<Rightarrow>
          if rp_sync_status r = SyncRunning then (Inl (raise_exc Conflict MSG_SYNCING), db)
          else
            (let failed = (\<lambda>e db1. (Inl (raise_exc exc_class.SyncFailed (take 1000 (format_error e))),
                   update_repository i (sync_failed (format_error e)) db1))
             in case providers (rp_provider r) of
                  None \<Rightarrow> failed (raise_exc KeyError (provider_text (rp_provider r))) db
                | Some p \<Rightarrow>
                    (case sync_repository p True r now later db of
                       (Inl e, db1) \<Rightarrow> failed e db1
                     | (Inr _, db1) \<Rightarrow> (Inr (), db1))))"

definition toggle_repository :: "int \<Rightarrow> db \<Rightarrow> (pyexc + bool) \<times> db" where
  "toggle_repository i db =
     (case get_repository i db of
        None \<Rightarrow> (Inl (raise_exc NotFound MSG_NO_REPOSITORY), db)
      | Some r \<Rightarrow>
          if rp_sync_status r = SyncRunning then (Inl (raise_exc Conflict MSG_SYNCING_TOGGLE), db)
          else (Inr (\<not> rp_is_enabled r),
                update_repository i (rp_is_enabled_update (\<lambda>_. \<not> rp_is_enabled r)) db))"

text \<open>The repair at the start of the service, so that no repository stays in synchronisation forever.\<close>

definition repair_interrupted_sync :: "db \<Rightarrow> db" where
  "repair_interrupted_sync db =
     db\<lparr>repositories := sql_update (\<lambda>r. rp_sync_status r = SyncRunning)
          (\<lambda>r. r\<lparr>rp_sync_status := SyncHasFailed, rp_sync_started_at := None,
                 rp_last_sync_error := Some MSG_SYNC_INTERRUPTED\<rparr>) (repositories db)\<rparr>"

section \<open>The operations are effects\<close>

lemma insert_repository_effects:
  assumes "db_wf db"
  shows "effects db (snd (insert_repository m fork c db))"
proof -
  let ?r = "new_repository (fresh_id (map rp_id (repositories db))) m fork c"
  have "rp_id ?r \<notin> set (map rp_id (repositories db))"
    unfolding new_repository_def repository.simps by (rule fresh_id_notin)
  then have "task_effect db (db\<lparr>repositories := repositories db @ [?r]\<rparr>)"
    using db_wfD(1) [OF assms] by (intro task_effect.other) (simp_all add: keys_ok_def triage_view_def)
  then show ?thesis by (auto simp: insert_repository_def Let_def)
qed

lemma add_repository_effects:
  assumes wf: "db_wf db" and meta: "\<And>k f u. get_metadata k = Some f \<Longrightarrow> quiet_call (f u)"
    and fork: "\<And>o' n. quiet_call (ensure_fork o' n)"
  shows "effects db (snd (add_repository bad get_metadata reg ensure_fork url a db))"
proof -
  have ins: "effects db (snd (insert_repository m f a d))" if "effects db d" for d m f
    using effects_trans [OF that insert_repository_effects [OF effects_wf [OF that wf]]] .
  have m: "effects db d" if "get_metadata k = Some f" "f u db = (x, d)" for k f u x d
    by (rule quiet_callD [OF meta [OF that(1)] wf that(2)])
  have e: "effects db d'" if "effects db d" "ensure_fork o' n d = (x, d')" for o' n x d d'
    using effects_trans [OF that(1) quiet_callD [OF fork effects_wf [OF that(1) wf] that(2)]] .
  show ?thesis
    unfolding add_repository_def
    by (auto split: sum.split option.split prod.split dest: m intro: ins e)
qed

lemma sync_command_effects:
  assumes "db_wf db" "\<And>k p. providers k = Some p \<Longrightarrow> provider_quiet p"
  shows "effects db (snd (sync_command providers fmt now later i db))"
proof (cases "get_repository i db")
  case (Some r)
  show ?thesis
  proof (cases "providers (rp_provider r)")
    case None
    with Some show ?thesis
      by (auto simp: sync_command_def Let_def intro!: update_repository_effects [OF _ assms(1)])
  next
    case p: (Some p)
    obtain x db1 where s: "sync_repository p True r now later db = (x, db1)" by fastforce
    have "effects db (snd (sync_repository p True r now later db))"
      by (rule sync_repository_effects [OF assms(1) assms(2) [OF p]])
    then have e: "effects db db1" by (simp add: s)
    with Some p s show ?thesis
      by (cases x) (auto simp: sync_command_def Let_def
          intro!: update_repository_effects [OF e effects_wf [OF e assms(1)]])
  qed
qed (auto simp: sync_command_def)

lemma toggle_repository_effects: "db_wf db \<Longrightarrow> effects db (snd (toggle_repository i db))"
  by (auto simp: toggle_repository_def split: option.split intro!: update_repository_effects)

lemma repair_effects:
  assumes "db_wf db"
  shows "effects db (repair_interrupted_sync db)"
proof -
  have "map rp_id (sql_update (\<lambda>r. rp_sync_status r = SyncRunning)
      (\<lambda>r. r\<lparr>rp_sync_status := SyncHasFailed, rp_sync_started_at := None,
             rp_last_sync_error := Some MSG_SYNC_INTERRUPTED\<rparr>) (repositories db)) = map rp_id (repositories db)"
    by (rule map_sql_update) simp
  then have "keys_ok (repair_interrupted_sync db)"
    using db_wfD(1) [OF assms] by (simp add: keys_ok_def repair_interrupted_sync_def)
  then have "task_effect db (repair_interrupted_sync db)"
    by (intro task_effect.other) (simp_all add: repair_interrupted_sync_def triage_view_def)
  then show ?thesis by blast
qed

lemma repair_none_running:
  "r \<in> set (repositories (repair_interrupted_sync db)) \<Longrightarrow> rp_sync_status r \<noteq> SyncRunning"
  by (auto simp: repair_interrupted_sync_def set_sql_update)

end
