(* ===== verification/System.thy ===== *)
theory System
  imports Workflow_Writes Task_Commands Repository_Commands
begin

text \<open>
  The whole task system: every transaction that any part of the program commits is a step of one transition
  relation on the database, in any order and with any arguments.  Operations that await a forge between two
  transactions are sequences of steps, interleaved with the steps of everyone else.
\<close>

section \<open>Steps\<close>

inductive sys_step :: "db \<Rightarrow> db \<Rightarrow> bool" where
  recover: "sys_step db (snd (recover_expired now db))"
| claim: "sys_step db (snd (claim_queued_task i gl ul ls token now db))"
| worker_writes: "sys_step db (perform w i k db)"
| begin_run: "sys_step db (snd (begin_agent_run i role now db))"
| finish_run: "sys_step db (finish_agent_run run_id st code out err report usage now db)"
| reviewed: "sys_step db (record_review i role dec fs db)"
| notified: "sys_step db (snd (notify_failed i type_name db))"
| cancel: "sys_step db (snd (request_cancel i actor now db))"
| close: "sys_step db (snd (close_task i actor now db))"
| feedback_synced: "feedback_ok (feedback db) \<Longrightarrow> sys_step db (snd (sync_write i p items pr_status now db))"
| republish: "sys_step db (snd (queue_existing_publish (reg :: nat registry) is_dir i actor db))"
| revise: "sys_step db (snd (queue_feedback_revision i actor ids now db))"
| polled: "sys_step db (snd (poll_write i outcome now db))"
| user_toggled: "sys_step db (snd (toggle_user current target now db))"
| issue_written: "sys_step db (snd (upsert_provider_issue rid source db))"
| sync_begins: "sys_step db (update_repository i (sync_started now) db)"
| sync_fails: "sys_step db (update_repository i (sync_failed msg) db)"
| sync_succeeds: "sys_step db (update_repository i (sync_succeeded started now) db)"
| repository_added: "sys_step db (snd (insert_repository m fork creator db))"
| repository_toggled: "sys_step db (snd (toggle_repository i db))"
| repaired: "sys_step db (repair_interrupted_sync db)"
| dispatched: "sys_step db (snd (dispatch i actor ins now db))"
| ignored: "sys_step db (snd (ignore i actor reason now db))"
| restored: "sys_step db (snd (restore i actor db))"

abbreviation sys_run :: "db \<Rightarrow> db \<Rightarrow> bool" where
  "sys_run \<equiv> sys_step\<^sup>*\<^sup>*"

inductive_cases sys_stepE: "sys_step db db'"

section \<open>Every step is a sequence of effects\<close>

lemma begin_run_effect:
  assumes "db_wf db"
  shows "task_effect db (snd (begin_agent_run i role now db))"
proof -
  have "fresh_id (map ar_id (agent_runs db)) \<notin> ar_id ` set (agent_runs db)"
    using fresh_id_notin [of "map ar_id (agent_runs db)"] by simp
  with db_wfD(1) [OF assms] show ?thesis
    by (intro task_effect.other) (simp_all add: begin_agent_run_def Let_def keys_ok_def triage_view_def)
qed

lemma finish_run_effect:
  assumes "db_wf db"
  shows "task_effect db (finish_agent_run run_id st code out err report usage now db)"
proof -
  have "map ar_id (agent_runs (finish_agent_run run_id st code out err report usage now db)) = map ar_id (agent_runs db)"
    by (simp add: finish_agent_run_def map_sql_update)
  with db_wfD(1) [OF assms] have "keys_ok (finish_agent_run run_id st code out err report usage now db)"
    by (simp add: keys_ok_def) (simp add: finish_agent_run_def)
  then show ?thesis by (intro task_effect.other) (simp_all add: finish_agent_run_def triage_view_def)
qed

lemma reviewed_effect: "db_wf db \<Longrightarrow> task_effect db (record_review i role dec fs db)"
  using db_wfD(1) [of db] by (intro task_effect.other) (simp_all add: record_review_def keys_ok_def triage_view_def)

lemma notified_effects: "db_wf db \<Longrightarrow> effects db (snd (notify_failed i type_name db))"
proof -
  have "task_effect db (replace_task i (\<lambda>t. t\<lparr>tk_failure_summary := x\<rparr>) db)" for x
    unfolding replace_task_def by (rule task_effect.tweak) (simp add: tweaked_def same_row_def)
  then show ?thesis by (auto simp: notify_failed_def split: option.split)
qed

theorem sys_step_effects:
  assumes "sys_step db db'" "db_wf db"
  shows "effects db db'"
  using assms
proof (induction rule: sys_step.induct)
  case (sync_begins db i now)
  then show ?case by (intro update_repository_effects) auto
next
  case (sync_fails db i msg)
  then show ?case by (intro update_repository_effects) auto
next
  case (sync_succeeds db i started now)
  then show ?case by (intro update_repository_effects) auto
qed (blast intro: recover_effects claim_effects perform_effects begin_run_effect finish_run_effect
    reviewed_effect notified_effects request_cancel_effects close_task_effects sync_write_effects
    queue_existing_publish_effects queue_feedback_revision_effects poll_write_effects toggle_user_effects
    upsert_effect insert_repository_effects toggle_repository_effects repair_effects dispatch_effects
    ignore_effects restore_effects)+

lemma sys_run_effects:
  assumes "sys_run db db'" "db_wf db"
  shows "effects db db'"
  using assms
proof (induction rule: rtranclp_induct)
  case (step y z)
  then show ?case by (meson effects_trans effects_wf sys_step_effects)
qed auto

lemma sys_run_wf: "sys_run db db' \<Longrightarrow> db_wf db \<Longrightarrow> db_wf db'"
  by (rule effects_wf [OF sys_run_effects])


section \<open>The abstract specification\<close>

text \<open>
  What the system promises about the life of its tasks, without the tables: a map from the tasks to their
  statuses, in which a step creates a queued task or moves one task along an edge of the automaton.
\<close>

type_synonym lifecycles = "int \<rightharpoonup> task_status"

inductive lifecycle_step :: "lifecycles \<Rightarrow> lifecycles \<Rightarrow> bool" where
  created: "m i = None \<Longrightarrow> lifecycle_step m (m(i \<mapsto> Queued))"
| moves: "m i = Some s \<Longrightarrow> edge s s' \<Longrightarrow> lifecycle_step m (m(i \<mapsto> s'))"

definition statuses :: "db \<Rightarrow> lifecycles" where
  "statuses db i = map_option tk_status (get_task i db)"

text \<open>The audit rows of a task, in the order they were written, as a path of the automaton.\<close>

definition trail :: "int \<Rightarrow> db \<Rightarrow> (task_status \<times> task_status) list" where
  "trail i db = map (\<lambda>x. (tr_from_status x, tr_to_status x)) (filter (\<lambda>x. tr_task_id x = i) (transitions db))"

fun path :: "task_status \<Rightarrow> (task_status \<times> task_status) list \<Rightarrow> task_status \<Rightarrow> bool" where
  "path s [] s' \<longleftrightarrow> s = s'"
| "path s ((a, b) # ps) s' \<longleftrightarrow> a = s \<and> edge a b \<and> path b ps s'"

definition audit_ok :: "db \<Rightarrow> bool" where
  "audit_ok db \<longleftrightarrow> list_all (\<lambda>t. path Queued (trail (tk_id t) db) (tk_status t)) (tasks db)
     \<and> list_all (\<lambda>x. tr_task_id x \<in> tk_id ` set (tasks db)) (transitions db)"

lemma path_snoc [simp]: "path s (ps @ [(a, b)]) s' \<longleftrightarrow> path s ps a \<and> edge a b \<and> b = s'"
  by (induction s ps s' rule: path.induct) auto

lemma audit_okD:
  assumes "audit_ok db"
  shows "t \<in> set (tasks db) \<Longrightarrow> path Queued (trail (tk_id t) db) (tk_status t)"
    and "x \<in> set (transitions db) \<Longrightarrow> tr_task_id x \<in> tk_id ` set (tasks db)"
  using assms by (simp_all add: audit_ok_def list_all_iff)

section \<open>The effects implement it\<close>

lemma get_task_map: "map_option tk_status (find (\<lambda>t. tk_id t = i) ts) =
    (if \<exists>t \<in> set ts. tk_id t = i then map_of (map (\<lambda>t. (tk_id t, tk_status t)) ts) i else None)"
  by (induction ts) auto

lemma statuses_rows:
  "map (\<lambda>t. (tk_id t, tk_status t)) (tasks db') = map (\<lambda>t. (tk_id t, tk_status t)) (tasks db) \<Longrightarrow>
   statuses db' = statuses db"
proof -
  assume rows: "map (\<lambda>t. (tk_id t, tk_status t)) (tasks db') = map (\<lambda>t. (tk_id t, tk_status t)) (tasks db)"
  from arg_cong [OF this, of "map fst"] have "map tk_id (tasks db') = map tk_id (tasks db)" by (simp add: o_def)
  from arg_cong [OF this, of set] have "tk_id ` set (tasks db') = tk_id ` set (tasks db)" by simp
  then have "(\<exists>t \<in> set (tasks db'). tk_id t = i) \<longleftrightarrow> (\<exists>t \<in> set (tasks db). tk_id t = i)" for i
    by (metis image_iff)
  with rows show "statuses db' = statuses db"
    by (auto simp: fun_eq_iff statuses_def get_task_def get_task_map)
qed

text \<open>The effect of moving one row, shared by plain moves and by moves that release the issue.\<close>

lemma move_audit:
  assumes "db_wf db" "audit_ok db" "get_task i db = Some t" "moved t (f t)"
    and tasks': "tasks db' = tasks (replace_task i f db)"
    and log': "transitions db' = transitions db @ [x]"
    and x: "tr_task_id x = i" "tr_from_status x = tk_status t" "tr_to_status x = tk_status (f t)"
  shows "audit_ok db'" "lifecycle_step (statuses db) (statuses db')"
proof -
  have t: "t \<in> set (tasks db)" "tk_id t = i" using assms(3) by (auto dest: get_task_SomeD)
  have f: "tk_id (f t) = i" "edge (tk_status t) (tk_status (f t))"
    using assms(4) t(2) by (simp_all add: moved_def same_row_def)
  have set': "set (tasks db') = insert (f t) (set (tasks db) - {t})"
    using set_replace [OF assms(1,3)] tasks' by simp
  have trail_i: "trail i db' = trail i db @ [(tk_status t, tk_status (f t))]"
    using x by (simp add: trail_def log')
  have trail_j: "trail j db' = trail j db" if "j \<noteq> i" for j
    using x that by (simp add: trail_def log')
  have "path Queued (trail (tk_id u) db') (tk_status u)" if u: "u \<in> set (tasks db')" for u
  proof (cases "u = f t")
    case True
    then show ?thesis using audit_okD(1) [OF assms(2) t(1)] t(2) f trail_i by simp
  next
    case False
    with u set' have old: "u \<in> set (tasks db)" "u \<noteq> t" by auto
    then have "tk_id u \<noteq> i" using wf_task_unique [OF assms(1,3)] by blast
    then show ?thesis using audit_okD(1) [OF assms(2) old(1)] trail_j by simp
  qed
  moreover have ids: "tk_id ` set (tasks db') = tk_id ` set (tasks db)"
    using set' t f(1) by auto
  moreover have "i \<in> tk_id ` set (tasks db)" using t by blast
  ultimately show "audit_ok db'"
    using audit_okD(2) [OF assms(2)] x(1) by (auto simp: audit_ok_def list_all_iff log')
  have same: "get_task j db' = get_task j db" if "j \<noteq> i" for j
  proof -
    have "distinct (map tk_id (tasks (replace_task i f db)))"
      using moved_rows(5) [OF assms(1,3), of f] assms(4) db_wfD(6) [OF assms(1)] by simp
    then have d': "distinct (map tk_id (tasks db'))" by (simp add: tasks')
    have "(u \<in> set (tasks db') \<and> tk_id u = j) \<longleftrightarrow> (u \<in> set (tasks db) \<and> tk_id u = j)" for u
      using set' that f(1) t(2) by auto
    then have "get_task j db' = Some u \<longleftrightarrow> get_task j db = Some u" for u
      by (simp add: get_task_iff [OF d'] get_task_iff [OF db_wfD(6) [OF assms(1)]])
    then show ?thesis by (metis not_None_eq)
  qed
  have "get_task i db' = Some (f t)"
  proof -
    have "distinct (map tk_id (tasks db'))"
      using moved_rows(5) [OF assms(1,3), of f] assms(4) db_wfD(6) [OF assms(1)] by (simp add: tasks')
    then show ?thesis using set' f(1) by (simp add: get_task_iff)
  qed
  with same have "statuses db' = (statuses db)(i \<mapsto> tk_status (f t))"
    by (auto simp: fun_eq_iff statuses_def)
  then show "lifecycle_step (statuses db) (statuses db')"
    using lifecycle_step.moves [of "statuses db" i "tk_status t"] assms(3) f(2) by (simp add: statuses_def)
qed


lemma rows_audit:
  assumes "audit_ok db" "transitions db' = transitions db"
    and rows: "map (\<lambda>t. (tk_id t, tk_status t)) (tasks db') = map (\<lambda>t. (tk_id t, tk_status t)) (tasks db)"
  shows "audit_ok db'"
proof -
  have trails: "trail j db' = trail j db" for j by (simp add: trail_def assms(2))
  have pairs: "(\<lambda>t. (tk_id t, tk_status t)) ` set (tasks db') = (\<lambda>t. (tk_id t, tk_status t)) ` set (tasks db)"
    using arg_cong [OF rows, of set] by simp
  have ids: "tk_id ` set (tasks db') = tk_id ` set (tasks db)"
    using arg_cong [OF pairs, of "image fst"] by (simp add: image_image)
  have "path Queued (trail (tk_id u) db') (tk_status u)" if u: "u \<in> set (tasks db')" for u
  proof -
    have "(tk_id u, tk_status u) \<in> (\<lambda>t. (tk_id t, tk_status t)) ` set (tasks db)"
      using pairs u by blast
    then show ?thesis using audit_okD(1) [OF assms(1)] by (auto simp: trails)
  qed
  then show ?thesis using audit_okD(2) [OF assms(1)] by (simp add: audit_ok_def list_all_iff assms(2) ids)
qed

lemma find_snoc: "find p (xs @ [y]) = (case find p xs of Some z \<Rightarrow> Some z | None \<Rightarrow> if p y then Some y else None)"
  by (induction xs) auto

text \<open>A new task: its row is the last one, under a fresh key no audit row mentions.\<close>

lemma dispatch_audit:
  assumes "audit_ok db" "tasks db' = tasks db @ [t]" "tk_status t = Queued"
    and fresh: "tk_id t = fresh_id (map tk_id (tasks db))" and log': "transitions db' = transitions db"
  shows "audit_ok db'" "lifecycle_step (statuses db) (statuses db')"
proof -
  have new: "tk_id t \<notin> tk_id ` set (tasks db)"
    using fresh_id_notin [of "map tk_id (tasks db)"] by (simp add: fresh)
  have trails: "trail j db' = trail j db" for j by (simp add: trail_def log')
  have "trail (tk_id t) db = []"
    unfolding trail_def map_is_Nil_conv filter_empty_conv using audit_okD(2) [OF assms(1)] new by metis
  then show "audit_ok db'"
    using audit_okD [OF assms(1)] assms(3) by (simp add: audit_ok_def list_all_iff assms(2) log' trails)
  have none: "get_task (tk_id t) db = None"
    unfolding get_task_def find_None_iff using new by (metis imageI)
  have "get_task j db' = (if j = tk_id t then Some t else get_task j db)" for j
  proof (cases "get_task j db")
    case None
    then show ?thesis by (auto simp: get_task_def assms(2) find_snoc)
  next
    case (Some u)
    then have "j \<noteq> tk_id t" using none by auto
    with Some show ?thesis by (simp add: get_task_def assms(2) find_snoc)
  qed
  then have "statuses db' = (statuses db)(tk_id t \<mapsto> Queued)"
    by (simp add: fun_eq_iff statuses_def assms(3))
  then show "lifecycle_step (statuses db) (statuses db')"
    using lifecycle_step.created [of "statuses db" "tk_id t"] none by (simp add: statuses_def)
qed

lemma effect_implements:
  assumes "task_effect db db'" "db_wf db" "audit_ok db"
  shows "audit_ok db' \<and> (statuses db' = statuses db \<or> lifecycle_step (statuses db) (statuses db'))"
  using assms
proof (induction rule: task_effect.induct)
  case (other db' db)
  then show ?case using rows_audit [of db db'] statuses_rows [of db' db] by simp
next
  case (tweak db p f)
  then have "map (\<lambda>t. (tk_id t, tk_status t)) (sql_update p f (tasks db)) =
      map (\<lambda>t. (tk_id t, tk_status t)) (tasks db)"
    by (auto simp: sql_update_def tweaked_def same_row_def)
  then show ?case
    using rows_audit [OF tweak.prems(2), of "db\<lparr>tasks := sql_update p f (tasks db)\<rparr>"]
      statuses_rows [of "db\<lparr>tasks := sql_update p f (tasks db)\<rparr>" db] by simp
next
  case (move i db t f a v)
  then show ?case
    using move_audit [where f = f, OF move.prems move.hyps, of "log_transition i (tk_status t) (tk_status (f t)) a v (replace_task i f db)"]
    by (simp add: log_transition_def replace_task_def)
next
  case (release i db t f db' a v)
  then show ?case using move_audit [where f = f, OF release.prems release.hyps(1,2,5,6)] by simp
next
  case (triage db' db i new)
  then show ?case using rows_audit [of db db'] statuses_rows [of db' db] by simp
next
  case (add_issue db' db i)
  then show ?case using rows_audit [of db db'] statuses_rows [of db' db] by simp
next
  case (dispatch db' db t)
  then show ?case using dispatch_audit [OF dispatch.prems(2) dispatch.hyps(1,2,4,7)] by simp
qed

lemma effects_implement:
  assumes "effects db db'" "db_wf db" "audit_ok db"
  shows "audit_ok db' \<and> lifecycle_step\<^sup>*\<^sup>* (statuses db) (statuses db')"
  using assms
proof (induction rule: rtranclp_induct)
  case (step y z)
  then have "audit_ok y" "lifecycle_step\<^sup>*\<^sup>* (statuses db) (statuses y)" "db_wf y"
    by (auto intro: effects_wf)
  with effect_implements [OF step.hyps(2)] show ?case by (auto intro: rtranclp.rtrancl_into_rtrancl)
qed simp


section \<open>Runs of the whole system\<close>

text \<open>
  C30: the invariant of the database.  From a database that satisfies it (an empty one does), whatever
  transactions commit in whatever order, a task carries a claim token exactly while its status is one a
  worker holds, the partial unique index over active tasks is respected, every task belongs to an existing
  issue, an issue has at most one task that can still run or be published, and the issue of such a task is
  dispatched, so that nobody can dispatch it a second time.
\<close>
theorem system_invariant:
  assumes "db_wf db" "sys_run db db'"
  shows "list_all (\<lambda>t. (tk_claim_token t \<noteq> None) = claimed (tk_status t)) (tasks db')
    \<and> active_index_ok (tasks db')
    \<and> list_all (\<lambda>t. list_ex (\<lambda>r. is_id r = tk_issue_id t) (issues db')) (tasks db')
    \<and> list_all (\<lambda>t. list_all (\<lambda>u. dead t \<or> dead u \<or> tk_issue_id t \<noteq> tk_issue_id u \<or> t = u) (tasks db')) (tasks db')
    \<and> list_all (\<lambda>t. dead t \<or> list_ex (\<lambda>r. is_id r = tk_issue_id t \<and> is_triage_state r = Dispatched) (issues db')) (tasks db')"
proof -
  have wf: "db_wf db'" by (rule sys_run_wf [OF assms(2,1)])
  note wfD = db_wfD [OF wf]
  have tokens: "list_all (\<lambda>t. (tk_claim_token t \<noteq> None) = claimed (tk_status t)) (tasks db')"
    using wfD(2) by (simp add: tokens_ok_def list_all_iff)
  have index: "active_index_ok (tasks db')" using db_wf_store_ok [OF wf] by (simp add: store_ok_def)
  have exist: "list_all (\<lambda>t. list_ex (\<lambda>r. is_id r = tk_issue_id t) (issues db')) (tasks db')"
    using wfD(3) by (fastforce simp: issues_exist_def list_all_iff list_ex_iff triage_view_def image_image)
  have taken: "list_all (\<lambda>t. dead t \<or> list_ex (\<lambda>r. is_id r = tk_issue_id t \<and> is_triage_state r = Dispatched) (issues db')) (tasks db')"
    unfolding list_all_iff
  proof
    fix t assume t: "t \<in> set (tasks db')"
    with exist obtain r where r: "r \<in> set (issues db')" "is_id r = tk_issue_id t"
      by (auto simp: list_all_iff list_ex_iff)
    then have "(tk_issue_id t, is_triage_state r) \<in> set (triage_view db')"
      by (force simp: triage_view_def)
    with t wfD(5) have "\<not> dead t \<Longrightarrow> is_triage_state r = Dispatched" by (simp add: live_dispatched_def)
    with r show "dead t \<or> list_ex (\<lambda>r. is_id r = tk_issue_id t \<and> is_triage_state r = Dispatched) (issues db')"
      by (auto simp: list_ex_iff)
  qed
  have key: "t = u" if "t \<in> set (tasks db')" "u \<in> set (tasks db')" "tk_id t = tk_id u" for t u
    using that wfD(6) by (meson distinct_map inj_onD)
  have single: "list_all (\<lambda>t. list_all (\<lambda>u. dead t \<or> dead u \<or> tk_issue_id t \<noteq> tk_issue_id u \<or> t = u) (tasks db')) (tasks db')"
    unfolding list_all_iff
  proof (intro ballI)
    fix t u assume "t \<in> set (tasks db')" "u \<in> set (tasks db')"
    from key [OF this] one_liveD [OF wfD(4) this]
    show "dead t \<or> dead u \<or> tk_issue_id t \<noteq> tk_issue_id u \<or> t = u" by blast
  qed
  from tokens index exist single taken show ?thesis by (intro conjI)
qed

definition claimed_db :: db where
  "claimed_db = snd (claim_queued_task 1 1 1 120 [7] 0 (issue_db Queued None))"

lemma queued_db_wf: "db_wf (issue_db Queued None)"
  by (simp add: wf_simps keys_ok_def)

lemma claimed_db_run: "sys_run (issue_db Queued None) claimed_db"
  unfolding claimed_db_def by (rule r_into_rtranclp [of sys_step, OF claim])

lemma claimed_db_status: "statuses claimed_db 1 = Some Preparing"
  by (simp add: claimed_db_def issue_db_def sample_simps statuses_def claim_queued_task_def update_tasks_def running_count_def
      user_running_count_def log_transition_def Let_def)

theorem system_invariant_witness:
  "active_index_ok (tasks claimed_db) \<and> list_all (\<lambda>t. (tk_claim_token t \<noteq> None) = claimed (tk_status t)) (tasks claimed_db)"
  using system_invariant [OF queued_db_wf claimed_db_run] by simp

text \<open>
  C31: the tables implement the abstract lifecycle.  Every run of the system is a run of the abstract
  specification on the statuses of the tasks: tasks are created queued and change status only along the
  edges of the automaton, and no task disappears.  The audit table is the record of that run: the rows of a
  task, in order, are a path of the automaton from queued to its present status, without a gap.
\<close>
theorem system_refines_lifecycle:
  assumes "db_wf db" "audit_ok db" "sys_run db db'"
  shows "lifecycle_step\<^sup>*\<^sup>* (statuses db) (statuses db')
    \<and> list_all (\<lambda>t. path Queued (trail (tk_id t) db') (tk_status t)) (tasks db')"
  using effects_implement [OF sys_run_effects [OF assms(3,1)] assms(1,2)] by (simp_all add: audit_ok_def)

theorem system_refines_lifecycle_witness:
  "lifecycle_step\<^sup>*\<^sup>* (statuses (issue_db Queued None)) (statuses claimed_db) \<and> statuses claimed_db 1 = Some Preparing"
proof (rule conjI [OF conjunct1 [OF system_refines_lifecycle, OF queued_db_wf _ claimed_db_run] claimed_db_status])
  show "audit_ok (issue_db Queued None)"
    by (simp add: audit_ok_def wf_simps trail_def)
qed

end
