(* ===== verification/Workflow_Settles.thy ===== *)
theory Workflow_Settles
  imports Workflow_Run System
begin

text \<open>
  What a run of the orchestrator leaves behind.  \<open>claim_status\<close> is the status of the task as far as its
  worker still holds it; \<open>worker_inv S\<close> says that a task still held has a status in \<open>S\<close> or is being cancelled.
  \<open>flows S m T\<close> is the triple from \<open>worker_inv S\<close> to \<open>worker_inv T\<close> under the exceptional postcondition all parts of the
  run share, and the lemmas \<open>flow\<close> are its rules for the transactions and for awaited services.
\<close>

named_theorems flow \<open>rules for the parts of a run\<close>

section \<open>The claim of a worker\<close>

definition claim_status :: "int \<Rightarrow> pystr \<Rightarrow> db \<Rightarrow> task_status option" where
  "claim_status i k d =
     (case get_task i d of
        None \<Rightarrow> None | Some t \<Rightarrow> if tk_claim_token t = Some k then Some (tk_status t) else None)"

lemma claim_status_Some:
  "claim_status i k d = Some s \<longleftrightarrow> (\<exists>t. get_task i d = Some t \<and> tk_claim_token t = Some k \<and> tk_status t = s)"
  by (auto simp: claim_status_def split: option.splits)

lemma claim_status_cong: "tasks d' = tasks d \<Longrightarrow> claim_status i k d' = claim_status i k d"
  by (simp add: claim_status_def get_task_def)

lemma claim_status_running:
  "db_wf d \<Longrightarrow> claim_status i k d = Some s \<Longrightarrow> s \<noteq> Cancelling \<Longrightarrow> running s"
  by (auto simp: claim_status_Some intro: wf_running)

lemma claim_status_move:
  assumes "get_task i d = Some t"
  shows "claim_status i k (move_task t new us a d) =
    (if tk_claim_token (apply_updates us (t\<lparr>tk_status := new\<rparr>)) = Some k
     then Some (tk_status (apply_updates us (t\<lparr>tk_status := new\<rparr>))) else None)"
proof -
  have "tk_id t = i" using assms by (auto dest: get_task_SomeD)
  with assms show ?thesis by (simp add: claim_status_def get_task_move)
qed

lemma claim_status_replace:
  assumes "\<And>t. tk_id (f t) = tk_id t \<and> tk_claim_token (f t) = tk_claim_token t \<and> tk_status (f t) = tk_status t"
  shows "claim_status i k (replace_task j f d) = claim_status i k d"
  using assms by (cases "i = j"; cases "get_task i d") (simp_all add: claim_status_def get_task_replace)

text \<open>A compare-and-set under the claim, from the holder's point of view.\<close>

lemma cas_claim:
  assumes "db_wf d" "expected \<noteq> []"
    and "\<And>t. get_task i d = Some t \<Longrightarrow> tk_status t \<in> set expected \<Longrightarrow> tk_claim_token t = Some k \<Longrightarrow>
        moved t (apply_updates us (t\<lparr>tk_status := new\<rparr>))"
  shows "cas_task_status i expected new us (Some k) a d =
    (case claim_status i k d of
       Some s \<Rightarrow> if s \<in> set expected then (Inr True, move_task (the (get_task i d)) new us a d) else (Inr False, d)
     | None \<Rightarrow> (Inr False, d))"
  by (subst cas_wf [OF assms(1,2)])
    (auto simp: claim_matches_token claim_status_def assms(3) split: option.split)

section \<open>Flows\<close>

definition plain :: "pyexc \<Rightarrow> bool" where
  "plain e = (exc_cls e \<notin> {BaseException, ClaimLost, TaskCancelled})"

definition released :: "int \<Rightarrow> pystr \<Rightarrow> db \<Rightarrow> bool" where
  "released i k d \<longleftrightarrow> (case claim_status i k d of None \<Rightarrow> True | Some s \<Rightarrow> s = Cancelling)"

definition held_in :: "int \<Rightarrow> pystr \<Rightarrow> task_status set \<Rightarrow> db \<Rightarrow> bool" where
  "held_in i k S d \<longleftrightarrow> (case claim_status i k d of None \<Rightarrow> True | Some s \<Rightarrow> s \<in> S \<or> s = Cancelling)"

definition worker_inv :: "int \<Rightarrow> pystr \<Rightarrow> task_status set \<Rightarrow> 'd world \<Rightarrow> bool" where
  "worker_inv i k S w \<longleftrightarrow> db_wf (w_db w) \<and> held_in i k S (w_db w)"

definition raised :: "int \<Rightarrow> pystr \<Rightarrow> pyexc \<Rightarrow> 'd world \<Rightarrow> bool" where
  "raised i k e w \<longleftrightarrow> db_wf (w_db w)
     \<and> (plain e \<or> exc_cls e \<in> {ClaimLost, TaskCancelled} \<and> released i k (w_db w))"

definition flows :: "int \<Rightarrow> pystr \<Rightarrow> task_status set \<Rightarrow> ('d, 'a) act \<Rightarrow> task_status set \<Rightarrow> bool" where
  "flows i k S m T = triple (worker_inv i k S) m (\<lambda>_. worker_inv i k T) (raised i k)"

lemma inv_mono: "worker_inv i k S w \<Longrightarrow> S \<subseteq> T \<Longrightarrow> worker_inv i k T w"
  by (auto simp: worker_inv_def held_in_def split: option.splits)

lemma inv_released: "worker_inv i k {} w \<longleftrightarrow> db_wf (w_db w) \<and> released i k (w_db w)"
  by (simp add: worker_inv_def held_in_def released_def split: option.split)

lemma inv_cong: "w_db w' = w_db w \<Longrightarrow> worker_inv i k S w' = worker_inv i k S w"
  by (simp add: worker_inv_def)

lemma flowsI:
  assumes "\<And>w r w'. worker_inv i k S w \<Longrightarrow> m w = (r, w') \<Longrightarrow> (case r of Inl e \<Rightarrow> raised i k e w' | Inr _ \<Rightarrow> worker_inv i k T w')"
  shows "flows i k S m T"
  unfolding flows_def by (rule tripleI) (use assms in force)+

lemma flowsD:
  assumes "flows i k S m T" "worker_inv i k S w" "m w = (r, w')"
  shows "case r of Inl e \<Rightarrow> raised i k e w' | Inr _ \<Rightarrow> worker_inv i k T w'"
  using assms unfolding flows_def by (cases r) (auto dest: tripleD)

lemma flows_weaken: "flows i k S m T \<Longrightarrow> S' \<subseteq> S \<Longrightarrow> T \<subseteq> T' \<Longrightarrow> flows i k S' m T'"
  unfolding flows_def by (erule triple_weaken) (auto intro: inv_mono)

lemma flows_seq:
  "flows i k S m R \<Longrightarrow> (\<And>x. flows i k R (f x) T) \<Longrightarrow> flows i k S (seq m f) T"
  unfolding flows_def by (rule triple_seq)

lemma flows_then [flow]:
  "flows i k S m S \<Longrightarrow> (\<And>x. flows i k S (f x) T) \<Longrightarrow> flows i k S (seq m f) T"
  by (rule flows_seq)

lemma flows_ret [flow]: "flows i k S (ret x) S"
  unfolding flows_def by (rule triple_ret)

lemma flows_throw: "plain e \<Longrightarrow> flows i k S (throw e) T"
  unfolding flows_def by (rule triple_throw) (simp add: raised_def worker_inv_def)

lemma flows_lift [flow]: "raises_only plain r \<Longrightarrow> flows i k S (lift r) S"
  unfolding flows_def by (rule triple_lift) (auto simp: raised_def worker_inv_def)

lemma flows_guard [flow]: "plain e \<Longrightarrow> flows i k S (guard_io b e) S"
  unfolding flows_def by (rule triple_guard) (auto simp: raised_def worker_inv_def)

lemma flows_if: "(b \<Longrightarrow> flows i k S m T) \<Longrightarrow> (\<not> b \<Longrightarrow> flows i k S n T) \<Longrightarrow> flows i k S (if b then m else n) T"
  by simp

text \<open>Computations that do not touch the database, and transactions that leave the tasks alone.\<close>

lemma flows_local: "(\<And>w r w'. m w = (r, w') \<Longrightarrow> w_db w' = w_db w \<and> raises_only plain r) \<Longrightarrow> flows i k S m S"
  by (rule flowsI) (force simp: worker_inv_def raised_def split: sum.split)

lemma flows_read_now [flow]: "flows i k S read_now S"
  by (rule flows_local) (auto simp: read_now_def)

lemma flows_token [flow]: "flows i k S token_urlsafe S"
  by (rule flows_local) (auto simp: token_urlsafe_def)

lemma flows_cancel_event [flow]: "flows i k S (cancel_event j) S"
  by (rule flows_local) (auto simp: cancel_event_def plain_def split: if_splits)

lemma flows_set_event [flow]: "flows i k S (set_event j v) S"
  by (rule flows_local) (auto simp: set_event_def)

definition tx_post :: "int \<Rightarrow> pystr \<Rightarrow> task_status set \<Rightarrow> pyexc + 'a \<Rightarrow> db \<Rightarrow> bool" where
  "tx_post i k T r d \<longleftrightarrow> db_wf d
     \<and> (case r of
          Inl e \<Rightarrow> plain e \<or> exc_cls e \<in> {ClaimLost, TaskCancelled} \<and> released i k d
        | Inr _ \<Rightarrow> held_in i k T d)"

lemma flows_tx:
  assumes "\<And>d r d'. db_wf d \<Longrightarrow> held_in i k S d \<Longrightarrow> f d = (r, d') \<Longrightarrow> tx_post i k T r d'"
  shows "flows i k S (tx f) T"
proof (rule flowsI)
  fix w :: "'b world" and r w'
  assume "worker_inv i k S w" "tx f w = (r, w')"
  with assms [of "w_db w" r "w_db w'"] show "case r of Inl e \<Rightarrow> raised i k e w' | Inr _ \<Rightarrow> worker_inv i k T w'"
    by (auto simp: tx_def tx_post_def worker_inv_def raised_def split: prod.splits sum.splits)
qed

lemma flows_tx_get:
  fixes f :: "db \<Rightarrow> 'a \<times> db"
  assumes "\<And>d. db_wf d \<Longrightarrow> effects d (snd (f d))" "\<And>d. tasks (snd (f d)) = tasks d"
  shows "flows i k S (tx_get f) S"
  unfolding tx_get_def
proof (rule flows_tx)
  fix d d' and r :: "pyexc + 'a"
  assume wf: "db_wf d" and st: "held_in i k S d"
    and f: "(case f d of (x, d') \<Rightarrow> (Inr x, d')) = (r, d')"
  from f have "d' = snd (f d)" "\<exists>x. r = Inr x" by (auto split: prod.splits)
  then have "claim_status i k d' = claim_status i k d" by (intro claim_status_cong) (simp add: assms(2))
  moreover have "db_wf d'" using effects_wf [OF assms(1) [OF wf] wf] \<open>d' = snd (f d)\<close> by simp
  ultimately show "tx_post i k S r d'"
    using st \<open>\<exists>x. r = Inr x\<close> by (auto simp: tx_post_def held_in_def)
qed


section \<open>The transactions\<close>

lemma expected_running: "STATUS_EXPECTED s = Some ex \<Longrightarrow> Cancelling \<notin> set ex"
  by (cases s) auto

lemma flows_set_status [flow]:
  assumes "STATUS_EXPECTED s = Some ex"
  shows "flows i k S (tx (set_status i s k)) {s}"
proof (rule flows_tx)
  fix d r d'
  assume wf: "db_wf d" and st: "held_in i k S d"
    and f: "set_status i s k d = (r, d')"
  have wf': "db_wf d'" using effects_wf [OF set_status_effects [OF wf, of i s k] wf] by (simp add: f)
  have moved: "moved t (apply_updates [] (t\<lparr>tk_status := s\<rparr>))"
    if "get_task i d = Some t" "tk_status t \<in> set ex" "tk_claim_token t = Some k" for t
  proof (rule apply_updates_moved)
    show "tk_status t \<noteq> Queued \<or> \<not> claimed s" using wf_token_claimed [OF wf that(1,3)] by (auto simp: CLAIMED_STATES_def)
  qed (use expected_edge [OF assms that(2)] in simp_all)
  have ne: "ex \<noteq> []" using assms STATUS_EXPECTED_not_Nil [of s] by blast
  have cas: "cas_task_status i ex s [] (Some k) ActorOrchestrator d =
      (case claim_status i k d of
         Some s' \<Rightarrow> if s' \<in> set ex then (Inr True, move_task (the (get_task i d)) s [] ActorOrchestrator d) else (Inr False, d)
       | None \<Rightarrow> (Inr False, d))"
    by (rule cas_claim [OF wf ne moved])
  show "tx_post i k {s} r d'"
  proof (cases "claim_status i k d")
    case None
    then have "cas_task_status i ex s [] (Some k) ActorOrchestrator d = (Inr False, d)" by (simp add: cas)
    with None f assms wf' show ?thesis
      by (auto simp: tx_post_def held_in_def set_status_def claim_status_def released_def plain_def missing_task_def claim_lost_def
          split: option.splits if_splits)
  next
    case (Some s0)
    then obtain t where t: "get_task i d = Some t" "tk_claim_token t = Some k" "tk_status t = s0"
      by (auto simp: claim_status_Some)
    show ?thesis
    proof (cases "s0 = Cancelling")
      case True
      then have "cas_task_status i ex s [] (Some k) ActorOrchestrator d = (Inr False, d)"
        using Some expected_running [OF assms] by (simp add: cas)
      with True Some t f assms wf' show ?thesis
        by (auto simp: tx_post_def held_in_def set_status_def released_def)
    next
      case False
      show ?thesis
      proof (cases "s0 \<in> set ex")
        case True
        with Some t have "cas_task_status i ex s [] (Some k) ActorOrchestrator d = (Inr True, move_task t s [] ActorOrchestrator d)"
          by (simp add: cas)
        with f assms t wf' show ?thesis
          by (auto simp: tx_post_def held_in_def set_status_def claim_status_move)
      next
        case other: False
        with Some have "cas_task_status i ex s [] (Some k) ActorOrchestrator d = (Inr False, d)" by (simp add: cas)
        moreover have "s0 \<noteq> Cancelled" "s0 \<noteq> Dismissed"
          using claim_status_running [OF wf Some False] by (auto simp: status_sets)
        ultimately show ?thesis using f assms t wf' False
          by (auto simp: tx_post_def held_in_def set_status_def plain_def)
      qed
    qed
  qed
qed

lemma get_task_replace_at:
  assumes "get_task i d = Some t" "tk_id (f t) = tk_id t"
  shows "get_task i (replace_task i f d) = Some (f t)"
proof -
  have "find (\<lambda>t. tk_id t = i) ts = Some t \<Longrightarrow> find (\<lambda>t. tk_id t = i) (sql_update (\<lambda>t. tk_id t = i) f ts) = Some (f t)" for ts
    using assms(2) by (induction ts) (auto split: if_splits)
  with assms(1) show ?thesis by (simp add: get_task_def replace_task_def)
qed

lemma flows_guarded_update:
  assumes "\<And>t. tk_status t = s \<Longrightarrow> tk_claim_token t = Some k \<Longrightarrow> tweaked t (f t)"
  shows "flows i k {s} (tx (guarded_update i s k f)) {s}"
proof (rule flows_tx)
  fix d r d'
  assume wf: "db_wf d" and st: "held_in i k {s} d"
    and upd: "guarded_update i s k f d = (r, d')"
  have wf': "db_wf d'" using effects_wf [OF guarded_update_effects [OF wf assms, of s k i] wf] upd by simp
  let ?q = "\<lambda>t. tk_status t = s \<and> tk_claim_token t = Some k"
  show "tx_post i k {s} r d'"
  proof (cases "claim_status i k d = Some s")
    case True
    then obtain t where t: "get_task i d = Some t" "tk_claim_token t = Some k" "tk_status t = s"
      by (auto simp: claim_status_Some)
    have "update_tasks (\<lambda>t. tk_id t = i \<and> ?q t) f d =
        (if active_index_ok (tasks (replace_task i f d)) then (Inr 1, replace_task i f d)
         else (Inl (raise_exc IntegrityError []), d))"
      using update_tasks_key [OF store_okD(1) [OF db_wf_store_ok [OF wf]] t(1), of ?q f] t by simp
    moreover have "claim_status i k (replace_task i f d) = Some s"
      using get_task_replace_at [OF t(1), of f] assms [OF t(3,2)] t
      by (simp add: claim_status_def tweaked_def same_row_def)
    ultimately show ?thesis using upd wf'
      by (auto simp: tx_post_def held_in_def guarded_update_def plain_def split: if_splits)
  next
    case False
    then have "update_tasks (\<lambda>t. tk_id t = i \<and> ?q t) f d = (Inr 0, d)"
      using get_task_iff [OF store_okD(1) [OF db_wf_store_ok [OF wf]], of i]
        store_okD(2) [OF db_wf_store_ok [OF wf]]
      by (intro update_tasks_miss) (auto simp: claim_status_Some)
    with upd st False wf' show ?thesis
      by (auto simp: tx_post_def held_in_def guarded_update_def claim_lost_def released_def split: option.splits)
  qed
qed

lemma flows_set_prepared [flow]: "flows i k {Preparing} (tx (set_prepared i k p)) {Preparing}"
  unfolding set_prepared_def by (rule flows_guarded_update) (simp add: tweaked_def same_row_def status_sets)

lemma flows_set_sealed [flow]: "flows i k {Sealing} (tx (set_sealed i k p)) {Sealing}"
  unfolding set_sealed_def by (rule flows_guarded_update) (simp add: tweaked_def same_row_def status_sets)

lemma flows_set_commit [flow]: "flows i k {Sealing} (tx (set_commit i k c)) {Sealing}"
  unfolding set_commit_def by (rule flows_guarded_update) (simp add: tweaked_def same_row_def status_sets)


lemma holder_row:
  assumes "db_wf d"
  shows "find (\<lambda>t. tk_id t = i \<and> tk_claim_token t = Some k \<and> q t) (tasks d) =
    (case claim_status i k d of None \<Rightarrow> None
     | Some s \<Rightarrow> if q (the (get_task i d)) then get_task i d else None)"
  by (auto simp: find_holder [OF db_wf_store_ok [OF assms]] claim_status_def split: option.splits)

lemma tx_postI:
  "db_wf d \<Longrightarrow> (\<And>e. r = Inl e \<Longrightarrow> plain e \<or> exc_cls e \<in> {ClaimLost, TaskCancelled} \<and> released i k d)
     \<Longrightarrow> (\<And>x. r = Inr x \<Longrightarrow> held_in i k T d) \<Longrightarrow> tx_post i k T r d"
  by (auto simp: tx_post_def split: sum.split)

lemma flows_begin_publication [flow]:
  assumes "S \<subseteq> {Preparing, Sealing}"
  shows "flows i k S (tx (begin_publication i k key now)) {Publishing}"
proof (rule flows_tx)
  fix d r d'
  assume wf: "db_wf d" and st: "held_in i k S d" and f: "begin_publication i k key now d = (r, d')"
  have wf': "db_wf d'" using effects_wf [OF begin_publication_effects [OF wf, of i k key now] wf] by (simp add: f)
  have cas: "cas_task_status i [Preparing, Sealing] Publishing [SetPublicationKey a, SetPublicationStartedAt b] (Some k) ActorPublisher d =
      (case claim_status i k d of
         Some s \<Rightarrow> if s \<in> set [Preparing, Sealing]
                    then (Inr True, move_task (the (get_task i d)) Publishing [SetPublicationKey a, SetPublicationStartedAt b] ActorPublisher d)
                    else (Inr False, d)
       | None \<Rightarrow> (Inr False, d))" for a b
    by (rule cas_claim [OF wf]) (auto simp: moved_def same_row_def token_step_def edge_def CLAIMED_STATES_def status_sets)
  show "tx_post i k {Publishing} r d'"
  proof (cases "claim_status i k d")
    case None
    then show ?thesis
      using f wf' holder_row [OF wf, of i k "\<lambda>_. True"]
      by (intro tx_postI) (auto simp: begin_publication_def claim_lost_def released_def)
  next
    case (Some s)
    then obtain t where t: "get_task i d = Some t" "tk_claim_token t = Some k" "tk_status t = s"
      by (auto simp: claim_status_Some)
    have s: "s = Cancelling \<or> s = Preparing \<or> s = Sealing" using st assms Some by (auto simp: held_in_def)
    have row: "find (\<lambda>t. tk_id t = i \<and> tk_claim_token t = Some k) (tasks d) = Some t"
      using holder_row [OF wf, of i k "\<lambda>_. True"] Some t by simp
    note f' = f [unfolded begin_publication_def row option.case Let_def cas Some]
    show ?thesis
    proof (cases "s = Cancelling")
      case True
      with f' Some wf' show ?thesis
        by (intro tx_postI) (auto simp: claim_lost_def released_def)
    next
      case False
      with s have "s \<in> set [Preparing, Sealing]" by auto
      with f' wf' t show ?thesis
        by (intro tx_postI) (auto simp: held_in_def claim_status_move)
    qed
  qed
qed

text \<open>Giving the claim up: after these transactions the caller holds a task at most in \<open>Cancelling\<close>.\<close>

lemma flows_awaiting_review [flow]: "flows i k {Publishing} (tx (awaiting_review i k p now)) {}"
proof (rule flows_tx)
  fix d r d'
  assume wf: "db_wf d" and st: "held_in i k {Publishing} d" and f: "awaiting_review i k p now d = (r, d')"
  have wf': "db_wf d'" using effects_wf [OF awaiting_review_effects [OF wf, of i k p now] wf] by (simp add: f)
  let ?q = "\<lambda>t. tk_status t \<in> {Publishing, Cancelling}"
  show "tx_post i k {} r d'"
  proof (cases "claim_status i k d")
    case None
    then show ?thesis
      using f wf' holder_row [OF wf, of i k ?q]
      by (intro tx_postI) (auto simp: awaiting_review_def claim_lost_def released_def)
  next
    case (Some s)
    then obtain t where t: "get_task i d = Some t" "tk_claim_token t = Some k" "tk_status t = s"
      by (auto simp: claim_status_Some)
    have s: "s = Publishing \<or> s = Cancelling" using st Some by (auto simp: held_in_def)
    have row: "find (\<lambda>t. tk_id t = i \<and> tk_claim_token t = Some k \<and> tk_status t \<in> {Publishing, Cancelling}) (tasks d) = Some t"
      using holder_row [OF wf, of i k ?q] Some t s by simp
    let ?us = "[SetPrUrl (Some (pb_url p)), SetPrNumber (Some (pb_number p)),
        SetPrState (Some (published_state p)), SetClaimToken None, SetClaimExpiresAt None,
        SetFailureCode None, SetFailureSummary None, SetFinishedAt (Some now)]"
    let ?new = "if tk_status t = Cancelling then Cancelled else AwaitingHumanReview"
    have cas: "cas_task_status i [tk_status t] ?new ?us (Some k) ActorPublisher d =
      (case claim_status i k d of
         Some s \<Rightarrow> if s \<in> set [tk_status t] then (Inr True, move_task (the (get_task i d)) ?new ?us ActorPublisher d)
                    else (Inr False, d)
       | None \<Rightarrow> (Inr False, d))"
      using s t by (intro cas_claim [OF wf]) (auto simp: moved_def same_row_def token_step_def CLAIMED_STATES_def status_sets)
    note f' = f [unfolded awaiting_review_def row option.case cas Some]
    with wf' t show ?thesis
      by (intro tx_postI) (auto simp: held_in_def claim_status_move)
  qed
qed


section \<open>What is awaited\<close>

text \<open>
  The rest of the program between two steps of the worker: it keeps the database well-formed, never hands
  the worker a claim it does not have, and takes a held task nowhere but to \<open>Cancelling\<close>
  (\<open>request_cancel\<close>) or away from the worker.  Services raise no exception of the orchestrator's own.
\<close>

definition rely :: "int \<Rightarrow> pystr \<Rightarrow> 'd world \<Rightarrow> 'd world \<Rightarrow> bool" where
  "rely i k w w' \<longleftrightarrow> (db_wf (w_db w) \<longrightarrow> db_wf (w_db w'))
     \<and> (case claim_status i k (w_db w') of
          None \<Rightarrow> True
        | Some s' \<Rightarrow> (case claim_status i k (w_db w) of None \<Rightarrow> False | Some s \<Rightarrow> s' = s \<or> s' = Cancelling))"

definition patient :: "int \<Rightarrow> pystr \<Rightarrow> ('d, 'a) act \<Rightarrow> bool" where
  "patient i k m \<longleftrightarrow> (\<forall>w. rely i k w (snd (m w)) \<and> raises_only plain (fst (m w)))"

text \<open>A runner reports a job as cancelled only when the task is being cancelled or the claim was lost.\<close>

definition honest_runner :: "int \<Rightarrow> pystr \<Rightarrow> ('d, job_result) act \<Rightarrow> bool" where
  "honest_runner i k m \<longleftrightarrow>
     (\<forall>w result. fst (m w) = Inr result \<longrightarrow> jr_status result = JobCancelled \<longrightarrow> released i k (w_db (snd (m w))))"

definition services_ok :: "('d, 'f) services \<Rightarrow> int \<Rightarrow> pystr \<Rightarrow> bool" where
  "services_ok sv i k \<longleftrightarrow>
     (\<forall>spec. patient i k (sv_run_agent sv spec)) \<and> (\<forall>spec. honest_runner i k (sv_run_agent sv spec))
     \<and> (\<forall>spec. patient i k (sv_cancel_agent sv spec)) \<and> (\<forall>s. patient i k (sv_sleep sv s))
     \<and> (\<forall>a b c d. patient i k (sv_prepare sv a b c d)) \<and> (\<forall>a. patient i k (sv_assert_has_changes sv a))
     \<and> (\<forall>a b. patient i k (sv_assert_branch sv a b)) \<and> (\<forall>a b. patient i k (sv_assert_clean_commit sv a b))
     \<and> (\<forall>a b. patient i k (sv_seal sv a b)) \<and> (\<forall>a. patient i k (sv_assert_no_secrets sv a))
     \<and> (\<forall>a b. patient i k (sv_assert_tree sv a b)) \<and> (\<forall>a b c d. patient i k (sv_commit sv a b c d))
     \<and> (\<forall>a b c. patient i k (sv_assert_committed_tree sv a b c)) \<and> (\<forall>f q. patient i k (sv_publish sv f q))
     \<and> (case sv_notify sv of None \<Rightarrow> True | Some f \<Rightarrow> \<forall>n. patient i k (f n))"

lemma rely_refl: "rely i k w w"
  by (simp add: rely_def split: option.split)

lemma rely_trans: "rely i k w w' \<Longrightarrow> rely i k w' w'' \<Longrightarrow> rely i k w w''"
  by (auto simp: rely_def split: option.splits)

lemma rely_held:
  assumes "rely i k w w'" "worker_inv i k S w"
  shows "worker_inv i k S w'"
  using assms by (auto simp: rely_def worker_inv_def held_in_def split: option.splits)

lemma patientD: "patient i k m \<Longrightarrow> m w = (r, w') \<Longrightarrow> rely i k w w' \<and> raises_only plain r"
  by (auto simp: patient_def dest: spec [of _ w])

lemma flows_patient: "patient i k m \<Longrightarrow> flows i k S m S"
proof (rule flowsI)
  fix w r w'
  assume p: "patient i k m" and w: "worker_inv i k S w" and m: "m w = (r, w')"
  have "worker_inv i k S w'" by (rule rely_held [OF _ w]) (use patientD [OF p m] in simp)
  with patientD [OF p m] show "case r of Inl e \<Rightarrow> raised i k e w' | Inr _ \<Rightarrow> worker_inv i k S w'"
    by (auto simp: raised_def worker_inv_def split: sum.split)
qed

lemma patient_triple:
  assumes "patient i k m"
  shows "triple (worker_inv i k S) m (\<lambda>_. worker_inv i k S) (\<lambda>e w. plain e \<and> worker_inv i k S w)"
  by (rule tripleI) (use patientD [OF assms] rely_held in fastforce)+

lemma await_agent_post:
  assumes "services_ok sv i k" "await_agent sv spec w = (r, w')"
  shows "rely i k w w' \<and> raises_only plain r
    \<and> (case r of Inl _ \<Rightarrow> True | Inr result \<Rightarrow> jr_status result = JobCancelled \<longrightarrow> released i k (w_db w'))"
proof -
  have run: "patient i k (sv_run_agent sv spec)" and honest: "honest_runner i k (sv_run_agent sv spec)"
    and sleep: "\<And>s. patient i k (sv_sleep sv s)"
    using assms(1) by (simp_all add: services_ok_def)
  have "rely i k w w' \<and> raises_only plain r
      \<and> (case r of Inl _ \<Rightarrow> True | Inr result \<Rightarrow> jr_status result = JobCancelled \<longrightarrow> released i k (w_db w'))"
    if "retry_from (sv_run_agent sv spec) (ret ()) (sv_sleep sv) 2 (1 / 4) j w = (r, w')" "j \<le> 2" for j w
    using that
  proof (induction "2 - j" arbitrary: j w rule: less_induct)
    case less
    obtain r1 w1 where op: "sv_run_agent sv spec w = (r1, w1)" by (metis surj_pair)
    note P1 = patientD [OF run op]
    have done_here: ?case if "r = r1" "w' = w1"
      using P1 honest op that unfolding honest_runner_def by (auto split: sum.split dest: spec [of _ w])
    note eq = less.prems(1) [unfolded retry_from.simps [of "sv_run_agent sv spec" _ _ 2 _ j] op]
    show ?case
    proof (cases "\<exists>e. r1 = Inl e \<and> isinstance e RetryableAgentError \<and> j \<noteq> 2")
      case False
      with eq less.prems(2) have "r = r1 \<and> w' = w1" by (auto split: sum.splits if_splits)
      with done_here show ?thesis by blast
    next
      case True
      obtain r2 w2 where sl: "sv_sleep sv (1 / 4 * 2 ^ j) w1 = (r2, w2)" by (metis surj_pair)
      note P2 = patientD [OF sleep sl]
      have w2: "rely i k w w2" using P1 P2 rely_trans by blast
      show ?thesis
      proof (cases r2)
        case (Inl e)
        with eq True less.prems(2) sl have "r = Inl e \<and> w' = w2" by (auto simp: ret_def split: if_splits)
        with P2 w2 Inl show ?thesis by simp
      next
        case (Inr u)
        with eq True less.prems(2) sl
        have "retry_from (sv_run_agent sv spec) (ret ()) (sv_sleep sv) 2 (1 / 4) (j + 1) w2 = (r, w')"
          by (auto simp: ret_def split: if_splits)
        moreover have "2 - (j + 1) < 2 - j" "j + 1 \<le> 2" using True less.prems(2) by auto
        ultimately have
          "rely i k w2 w' \<and> raises_only plain r
            \<and> (case r of Inl _ \<Rightarrow> True | Inr result \<Rightarrow> jr_status result = JobCancelled \<longrightarrow> released i k (w_db w'))"
          by (intro less.hyps)
        with w2 rely_trans show ?thesis by blast
      qed
    qed
  qed
  moreover have "retry_from (sv_run_agent sv spec) (ret ()) (sv_sleep sv) 2 (1 / 4) 0 w = (r, w')"
    using assms(2) by (simp add: await_agent_def retry_agent_operation_def)
  ultimately show ?thesis by blast
qed


section \<open>Stages\<close>

lemma plain_attribute [simp]: "plain attribute_error"
  by (simp add: plain_def attribute_error_def)

lemma plain_raise [simp]: "plain (raise_exc c m) \<longleftrightarrow> c \<notin> {BaseException, ClaimLost, TaskCancelled}"
  by (simp add: plain_def)

lemma agent_text_raises: "raises_only plain (agent_text lib ev)"
  by (simp add: agent_text_def split: json.split)

lemma last_agent_text_raises: "raises_only plain (last_agent_text lib m ls)"
proof (induction ls arbitrary: m)
  case (Cons l ls)
  then show ?case
    by (auto split: option.splits json.splits sum.splits dest: raises_onlyD [OF agent_text_raises])
qed simp

lemma final_message_raises: "raises_only plain (final_message lib s)"
  using last_agent_text_raises [of lib "[]" "splitlines s"]
  by (auto simp: final_message_def split: sum.split dest: raises_onlyD)

lemma parse_developer_report_raises: "raises_only plain (parse_developer_report lib s)"
  by (simp add: parse_developer_report_def split: option.split json.split)

lemma stage_report_raises: "raises_only plain (stage_report lib role result)"
  unfolding stage_report_def
  by (intro raises_only_if raises_only_bind final_message_raises parse_developer_report_raises) simp_all

lemma parse_report_raises [flow]: "raises_only plain (parse_report lib result)"
  unfolding parse_report_def by (intro raises_only_bind final_message_raises parse_developer_report_raises)

lemma flows_raise_after: "flows i k S m S \<Longrightarrow> plain e \<Longrightarrow> flows i k S (seq m (\<lambda>_. throw e)) R"
  by (intro flows_then flows_throw)

lemma flows_revoke [flow]: "flows i k S (revoke_stage sv token) S"
  by (rule flows_local) (auto simp: revoke_stage_def split: option.splits)

lemma flows_run_finished [flow]: "flows i k S (run_finished run_id st code out err report usage) S"
  unfolding run_finished_def
proof (intro flow flows_tx_get)
  fix now and d :: db
  assume "db_wf d"
  then show "effects d (snd ((), finish_agent_run run_id st code out err report usage now d))"
    by (auto intro: finish_run_effect)
qed (simp add: finish_agent_run_def)

lemma flows_run_raised: "plain e \<Longrightarrow> flows i k S (run_raised run_id usage e) T"
  unfolding run_raised_def by (intro flows_raise_after flow)

lemma issue_token_raises: "issue_token digest token now q b = (r, b') \<Longrightarrow> raises_only plain r"
  by (auto simp: issue_token_def check_request_def and_then_Inl guard_raise_def Let_def split: sum.splits if_splits)

lemma flows_issue: "flows i k S (issue_stage sv j st) S"
  unfolding issue_stage_def
proof (intro flows_if flow)
  fix now and token :: pystr
  show "flows i k S (\<lambda>w. case issue_token (sv_digest sv) token now
               (default_request (task_label j) (stage_value st) (Some (seconds (sv_stage_timeout sv + 300))))
               (w_broker w) of
          (Inl e, b) \<Rightarrow> (Inl e, w\<lparr>w_broker := b\<rparr>)
        | (Inr k, b) \<Rightarrow> (Inr (Some k), w\<lparr>w_broker := b\<rparr>)) S"
    by (rule flows_local) (auto split: prod.splits sum.splits dest!: issue_token_raises)
qed

lemma flows_catch_raised:
  assumes "flows i k S m S" "\<And>e. plain e \<Longrightarrow> flows i k UNIV (h e) UNIV"
    and "\<And>e w r w'. h e w = (r, w') \<Longrightarrow> \<exists>e'. r = Inl e'" "\<And>w e w'. m w = (Inl e, w') \<Longrightarrow> plain e"
  shows "flows i k S (catch m h) S"
proof (rule flowsI)
  fix w r w'
  assume w: "worker_inv i k S w" and run: "catch m h w = (r, w')"
  obtain r1 w1 where m: "m w = (r1, w1)" by (cases "m w")
  note P = flowsD [OF assms(1) w m]
  show "case r of Inl e \<Rightarrow> raised i k e w' | Inr _ \<Rightarrow> worker_inv i k S w'"
  proof (cases r1)
    case (Inl e)
    with P have "worker_inv i k UNIV w1" by (simp add: raised_def worker_inv_def held_in_def split: option.split)
    moreover have h: "h e w1 = (r, w')" using run m Inl by (simp add: catch_def)
    ultimately have "case r of Inl e \<Rightarrow> raised i k e w' | Inr _ \<Rightarrow> worker_inv i k UNIV w'"
      using flowsD [OF assms(2) _ h] assms(4) m Inl by blast
    with assms(3) [OF h] show ?thesis by auto
  qed (use P m run in \<open>auto simp: catch_def\<close>)
qed

lemma run_raised_raises: "run_raised run_id usage e w = (r, w') \<Longrightarrow> r = Inl e"
  by (auto simp: run_raised_def run_finished_def seq_def read_now_def tx_get_def tx_def throw_def split: prod.splits sum.splits)

lemma issue_stage_raises: "issue_stage sv j st w = (Inl e, w') \<Longrightarrow> plain e"
  by (auto simp: issue_stage_def seq_def read_now_def token_urlsafe_def ret_def split: prod.splits sum.splits if_splits
      dest!: issue_token_raises)

lemma job_spec_raises: "raises_only plain (job_spec s)"
  by (simp add: job_spec_def)


lemma flows_begin_run [flow]: "flows i k S (tx_get (begin_agent_run j role now)) S"
proof (rule flows_tx_get)
  show "effects d (snd (begin_agent_run j role now d))" if "db_wf d" for d
    using begin_run_effect [OF that] by blast
qed (simp add: begin_agent_run_def Let_def)

lemma flows_stage_start:
  assumes "STATUS_EXPECTED status = Some ex"
  shows "flows i k S (stage_start sv i status st role workspace prompt k) {status}"
  unfolding stage_start_def
proof (rule flows_seq [OF flows_set_status [OF assms]], intro flow)
  fix now and run :: "int \<times> int"
  obtain run_id attempt where run: "run = (run_id, attempt)" by (cases run)
  let ?issue = "catch (issue_stage sv i st) (run_raised run_id None)"
  have issue: "flows i k {status} ?issue {status}"
    by (rule flows_catch_raised [OF flows_issue flows_run_raised])
      (auto dest: run_raised_raises issue_stage_raises)
  have spec: "flows i k {status} (case job_spec js of
       Inl e \<Rightarrow> seq (revoke_stage sv token) (\<lambda>_. run_raised run_id None e)
     | Inr spec \<Rightarrow> ret \<lparr>rs_task = i, rs_run = run_id, rs_token = token, rs_spec = spec\<rparr>) {status}" for js token
    using job_spec_raises [of js] by (auto split: sum.split intro!: flow flows_run_raised)
  show "flows i k {status} (case run of (run_id, attempt) \<Rightarrow>
      seq (catch (issue_stage sv i st) (run_raised run_id None)) (\<lambda>token.
       case job_spec
              \<lparr>js_job_id = task_label i @ U ''-'' @ role_value role @ U ''-'' @ int_str attempt,
               js_stage = st, js_role = role, js_workspace = workspace, js_prompt = prompt,
               js_timeout_seconds = of_int (sv_stage_timeout sv), js_max_output_bytes = 1000000,
               js_output_schema = Some (if role = Developer then sv_developer_schema sv else sv_reviewer_schema sv),
               js_session_id = None, js_review_base = None, js_proxy_token = token\<rparr> of
         Inl e \<Rightarrow> seq (revoke_stage sv token) (\<lambda>_. run_raised run_id None e)
       | Inr spec \<Rightarrow> ret \<lparr>rs_task = i, rs_run = run_id, rs_token = token, rs_spec = spec\<rparr>)) {status}"
    unfolding run prod.case by (intro flows_then issue spec)
qed

text \<open>The end of a stage, for the outcome of its runner.\<close>

lemma flows_stage_result:
  "(jr_status result = JobCancelled \<Longrightarrow> S = {}) \<Longrightarrow> flows i k S (lift (stage_result role result)) S"
  unfolding flows_def
  by (rule triple_lift) (auto simp: stage_result_def raised_def worker_inv_def held_in_def released_def split: if_splits option.splits)

lemma stage_finish_post:
  assumes w: "worker_inv i k S w" and outcome: "raises_only plain outcome"
    and honest: "case outcome of Inl _ \<Rightarrow> True | Inr result \<Rightarrow> jr_status result = JobCancelled \<longrightarrow> released i k (w_db w)"
    and run: "stage_finish sv h outcome w = (r, w')"
  shows "case r of Inl e \<Rightarrow> raised i k e w' | Inr _ \<Rightarrow> worker_inv i k S w'"
proof -
  let ?usage = "stage_usage sv (rs_task h) (js_stage (rs_spec h)) w" and ?role = "js_role (rs_spec h)"
  let ?rest = "seq (revoke_stage sv (rs_token h)) (\<lambda>_.
           case and_then outcome (\<lambda>result. and_then (stage_report (sv_lib sv) ?role result) (\<lambda>report. Inr (result, report))) of
             Inl e \<Rightarrow> run_raised (rs_run h) ?usage e
           | Inr (result, report) \<Rightarrow>
               seq (run_finished (rs_run h) (run_status_of (jr_status result)) (jr_exit_code result) (Some (jr_stdout result))
                      (if jr_stderr result = [] then None else Some (py_last 2000 (jr_stderr result))) report ?usage)
                 (\<lambda>_. lift (stage_result ?role result)))"
  define S' where "S' = (case outcome of Inl _ \<Rightarrow> S | Inr result \<Rightarrow> if jr_status result = JobCancelled then {} else S)"
  have w': "worker_inv i k S' w"
    using w honest inv_released [of i k w] by (auto simp: S'_def worker_inv_def split: sum.splits)
  have "flows i k S' ?rest S'"
  proof (cases "and_then outcome (\<lambda>result. and_then (stage_report (sv_lib sv) ?role result) (\<lambda>report. Inr (result, report)))")
    case (Inl e)
    have "raises_only plain (and_then outcome (\<lambda>result. and_then (stage_report (sv_lib sv) ?role result) (\<lambda>report. Inr (result, report))))"
      by (intro raises_only_bind outcome stage_report_raises) simp
    with Inl have "plain e" by simp
    with Inl show ?thesis by (auto intro!: flow flows_run_raised)
  next
    case (Inr p)
    obtain result report where p: "p = (result, report)" by (cases p)
    with Inr have "outcome = Inr result" by (auto simp: and_then_Inr)
    then have "jr_status result = JobCancelled \<Longrightarrow> S' = {}" by (simp add: S'_def)
    with Inr p show ?thesis by (auto intro!: flow flows_stage_result)
  qed
  moreover have "?rest w = (r, w')" using run by (simp add: stage_finish_def Let_def)
  ultimately have "case r of Inl e \<Rightarrow> raised i k e w' | Inr _ \<Rightarrow> worker_inv i k S' w'"
    using flowsD w' by blast
  moreover have "S' \<subseteq> S" by (auto simp: S'_def split: sum.split)
  ultimately show ?thesis by (auto split: sum.split intro: inv_mono)
qed

lemma flows_child:
  assumes "services_ok sv i k"
  shows "flows i k S (child sv h) S"
proof (rule flowsI)
  fix w r w'
  assume w: "worker_inv i k S w" and run: "child sv h w = (r, w')"
  obtain outcome w1 where a: "await_agent sv (rs_spec h) w = (outcome, w1)" by (metis surj_pair)
  note P = await_agent_post [OF assms a]
  have "stage_finish sv h outcome w1 = (r, w')" using run a by (simp add: child_def)
  with P rely_held [OF _ w] show "case r of Inl e \<Rightarrow> raised i k e w' | Inr _ \<Rightarrow> worker_inv i k S w'"
    by (intro stage_finish_post) auto
qed

lemma flows_execute:
  assumes "services_ok sv i k" "STATUS_EXPECTED status = Some ex"
  shows "flows i k S (execute sv i status st role workspace prompt k) {status}"
  unfolding execute_def child_def [symmetric]
  by (rule flows_seq [OF flows_stage_start [OF assms(2)] flows_child [OF assms(1)]])

lemma flows_run_stage:
  assumes "services_ok sv i k" "STATUS_EXPECTED status = Some ex"
  shows "flows i k S (run_stage sv i status st role workspace prompt k) {status}"
  unfolding run_stage_def by (rule flows_then [OF flows_cancel_event flows_execute [OF assms]])

section \<open>The reviewers\<close>

lemma flows_cancelled_child:
  assumes "services_ok sv i k"
  shows "flows i k S (cancelled_child sv h) S"
proof (rule flowsI)
  fix w r w'
  assume w: "worker_inv i k S w" and run: "cancelled_child sv h w = (r, w')"
  have p: "patient i k (sv_cancel_agent sv (rs_spec h))" using assms by (simp add: services_ok_def)
  obtain c w1 where c: "sv_cancel_agent sv (rs_spec h) w = (c, w1)" by (metis surj_pair)
  note P = patientD [OF p c]
  define e where "e = (case c of Inl e \<Rightarrow> e | Inr _ \<Rightarrow> raise_exc CancelledError [])"
  have "stage_finish sv h (Inl e) w1 = (r, w')" using run c by (simp add: cancelled_child_def e_def split: sum.splits)
  moreover have "plain e" using P by (auto simp: e_def dest: raises_onlyD split: sum.split)
  ultimately show "case r of Inl e \<Rightarrow> raised i k e w' | Inr _ \<Rightarrow> worker_inv i k S w'"
    using P rely_held [OF _ w] by (intro stage_finish_post [of _ _ _ _ "Inl e"]) auto
qed


text \<open>Any exit of a child leaves the database well-formed; that is all its sibling needs to go on.\<close>

lemma after_flow:
  assumes "flows i k S m T" "worker_inv i k S w" "m w = (r, w')"
  shows "db_wf (w_db w')" "r = Inr x \<Longrightarrow> worker_inv i k T w'" "r = Inl e \<Longrightarrow> raised i k e w'"
  using flowsD [OF assms] by (auto simp: worker_inv_def raised_def split: sum.splits)

lemma inv_UNIV: "worker_inv i k UNIV w \<longleftrightarrow> db_wf (w_db w)"
  by (simp add: worker_inv_def held_in_def split: option.split)

definition both_inv :: "int \<Rightarrow> pystr \<Rightarrow> task_status set \<Rightarrow> pyexc + 'a \<Rightarrow> pyexc + 'b \<Rightarrow> 'd world \<Rightarrow> bool" where
  "both_inv i k S a b w \<longleftrightarrow> db_wf (w_db w) \<and> (\<forall>x y. a = Inr x \<longrightarrow> b = Inr y \<longrightarrow> worker_inv i k S w)"

lemma in_turn_post:
  assumes "services_ok sv i k" "worker_inv i k S w" "in_turn sv h1 h2 w = ((r1, r2), w')"
  shows "both_inv i k S r1 r2 w'"
proof -
  obtain r w1 where c1: "child sv h1 w = (r, w1)" by (cases "child sv h1 w")
  obtain q w2 where c2: "(if aborts r then cancelled_child sv h2 w1 else child sv h2 w1) = (q, w2)"
    by (metis surj_pair)
  have c2': "(if aborts r then cancelled_child sv h2 else child sv h2) w1 = (q, w2)"
    using c2 by (cases "aborts r") simp_all
  have eq: "r1 = r" "r2 = q" "w' = w2" using assms(3) c1 c2 by (simp_all add: in_turn_def)
  note F1 = after_flow [OF flows_child [OF assms(1)] assms(2) c1]
  have F2: "flows i k T (if aborts r then cancelled_child sv h2 else child sv h2) T" for T
    using flows_child [OF assms(1)] flows_cancelled_child [OF assms(1)] by simp
  have "db_wf (w_db w2)" using after_flow(1) [OF F2 _ c2', of UNIV] F1(1) by (simp add: inv_UNIV)
  moreover have "worker_inv i k S w2" if "r = Inr x" "q = Inr y" for x y
    using after_flow(2) [OF F2 F1(2) [OF that(1)] c2'] that(2) by blast
  ultimately show ?thesis by (simp add: both_inv_def eq)
qed

lemma run_children_post:
  assumes "services_ok sv i k" "both_inv i k S a b w" "run_children sv a b w = ((ra, rb), w')"
  shows "both_inv i k S ra rb w'"
proof -
  have wf: "worker_inv i k UNIV w" using assms(2) by (simp add: both_inv_def inv_UNIV)
  show ?thesis
  proof (cases a)
    case (Inl ea)
    show ?thesis
    proof (cases b)
      case (Inr hb)
      obtain q w1 where c: "cancelled_child sv hb w = (q, w1)" by (cases "cancelled_child sv hb w")
      have "db_wf (w_db w1)" by (rule after_flow(1) [OF flows_cancelled_child [OF assms(1)] wf c])
      with Inl Inr c assms(3) show ?thesis by (auto simp: run_children_def both_inv_def)
    qed (use Inl assms in \<open>auto simp: run_children_def both_inv_def\<close>)
  next
    case (Inr ha)
    show ?thesis
    proof (cases b)
      case (Inl eb)
      obtain q w1 where c: "cancelled_child sv ha w = (q, w1)" by (cases "cancelled_child sv ha w")
      have "db_wf (w_db w1)" by (rule after_flow(1) [OF flows_cancelled_child [OF assms(1)] wf c])
      with Inl Inr c assms(3) show ?thesis by (auto simp: run_children_def both_inv_def)
    next
      case b: (Inr hb)
      have w: "worker_inv i k S w" using assms(2) Inr b by (simp add: both_inv_def)
      obtain p q w1 where t: "in_turn sv ha hb w = ((p, q), w1)" by (metis prod.exhaust)
      obtain p' q' w2 where t': "in_turn sv hb ha w = ((p', q'), w2)" by (metis prod.exhaust)
      show ?thesis
        using in_turn_post [OF assms(1) w t] in_turn_post [OF assms(1) w t'] assms(3) Inr b t t'
        by (auto simp: run_children_def both_inv_def split: if_splits)
    qed
  qed
qed

lemma only_cancelled: "issubclass c CancelledError \<Longrightarrow> c = CancelledError"
  by (cases c) (simp_all add: issubclass_eval numeral_eq_Suc)

lemma group_result_raises:
  "raises_only plain (group_result interrupted a b)"
  by (auto simp: group_result_def Let_def aborts_def isinstance_def plain_def and_then_Inl raises_only_def
      split: sum.splits if_splits dest!: only_cancelled)


lemma flows_review_group:
  assumes "services_ok sv i k" "tk_id (lt_task t) = i"
  shows "flows i k {DeveloperWorking} (review_group sv t workspace report k) {Reviewing}"
proof (rule flowsI)
  fix w r w'
  assume w: "worker_inv i k {DeveloperWorking} w" and run: "review_group sv t workspace report k w = (r, w')"
  let ?start = "\<lambda>(st, role, focus). stage_start sv i Reviewing st role workspace (review_prompt t focus report) k"
  have start: "flows i k S (?start x) {Reviewing}" for S x
    by (cases x) (auto intro!: flows_stage_start)
  obtain a w1 where a: "?start (REVIEWER_SPECS ! 0) w = (a, w1)" by (metis surj_pair)
  obtain b w2 where b: "?start (REVIEWER_SPECS ! 1) w1 = (b, w2)" by (metis surj_pair)
  obtain ra rb w3 where c: "run_children sv a b w2 = ((ra, rb), w3)" by (metis prod.exhaust)
  have "review_group sv t workspace report k w = (group_result (sv_interrupted sv w3) ra rb, w3)"
    using a b c assms(2) by (simp add: review_group_def Let_def)
  with run have eq: "r = group_result (sv_interrupted sv w3) ra rb" "w' = w3" by auto
  have A: "db_wf (w_db w1)" "a = Inr x \<Longrightarrow> worker_inv i k {Reviewing} w1" for x
    using flowsD [OF start w a] by (auto simp: worker_inv_def raised_def split: sum.splits)
  have "db_wf (w_db w2)"
    by (rule after_flow(1) [OF start _ b, of UNIV]) (simp add: inv_UNIV A(1))
  moreover have "worker_inv i k {Reviewing} w2" if "a = Inr x" "b = Inr y" for x y
    using flowsD [OF start A(2) [OF that(1)] b] that(2) by simp
  ultimately have "both_inv i k {Reviewing} a b w2" by (simp add: both_inv_def)
  from run_children_post [OF assms(1) this c] have post: "both_inv i k {Reviewing} ra rb w3" .
  have "raises_only plain r" unfolding eq by (rule group_result_raises)
  moreover have "\<exists>x y. ra = Inr x \<and> rb = Inr y" if "r = Inr z" for z
    using that unfolding eq by (auto simp: group_result_def Let_def and_then_Inr split: if_splits)
  ultimately show "case r of Inl e \<Rightarrow> raised i k e w' | Inr _ \<Rightarrow> worker_inv i k {Reviewing} w'"
    using post unfolding eq(2) by (auto simp: both_inv_def raised_def split: sum.split)
qed

lemma review_result_raises: "raises_only plain (review_result lib s)"
  using final_message_raises [of lib s]
  by (auto simp: review_result_def parse_reviewer_result_def split: sum.splits option.splits json.splits)

lemma flows_record_review [flow]: "flows i k S (tx_get (\<lambda>d. ((), record_review j role dec fs d))) S"
proof (rule flows_tx_get)
  show "effects d (snd ((), record_review j role dec fs d))" if "db_wf d" for d
    using reviewed_effect [OF that] by auto
qed (simp add: record_review_def)

lemma flows_record_reviews: "flows i k S (record_reviews lib j rs fs) S"
proof (induction rs arbitrary: fs)
  case (Cons r rs)
  obtain role result where r: "r = (role, result)" by (cases r)
  show ?case
    unfolding r record_reviews.simps
    by (rule flows_then [OF flows_lift [OF review_result_raises]], split prod.split, intro allI impI,
        rule flows_then [OF flows_record_review Cons.IH])
qed (simp add: flow)

lemma flows_review_cycle:
  assumes "services_ok sv i k" "tk_id (lt_task t) = i"
  shows "flows i k {DeveloperWorking} (review_cycle sv t workspace report k) {Reviewing}"
  unfolding review_cycle_def
proof (rule flows_then [OF flows_cancel_event flows_seq [OF flows_review_group [OF assms]]])
  fix p :: "job_result \<times> job_result"
  show "flows i k {Reviewing} (case p of (a, b) \<Rightarrow>
      seq (record_reviews (sv_lib sv) (tk_id (lt_task t)) [(ReviewerA, a), (ReviewerB, b)] []) (\<lambda>findings.
        ret (deduplicate_findings (sv_lib sv) findings))) {Reviewing}"
    by (cases p) (simp only: prod.case, intro flows_then flows_record_reviews flows_ret)
qed


section \<open>Publication\<close>

lemma require_forge_raises: "raises_only plain (require_forge reg p)"
  by (simp add: require_forge_def split: option.split)

lemma publish_request_raises: "raises_only plain (publish_request resolve q)"
  by (simp add: publish_request_def)

lemma flows_publish:
  assumes "services_ok sv i k" "tk_id (lt_task t) = i" "S \<subseteq> {Preparing, Sealing}"
  shows "flows i k S (publish sv t workspace branch reports k) {Publishing}"
proof -
  have pub: "flows i k {Publishing} (sv_publish sv forge q) {Publishing}" for forge q
    using assms(1) by (intro flows_patient) (simp add: services_ok_def)
  show ?thesis
    unfolding publish_def Let_def assms(2)
    by (intro flows_then flows_lift require_forge_raises flows_guard flows_token flows_read_now
        flows_seq [OF flows_begin_publication [OF assms(3)]] publish_request_raises pub) simp_all
qed

lemma services_flow:
  assumes "services_ok sv i k"
  shows "flows i k S (sv_prepare sv j a b c) S" "flows i k S (sv_assert_has_changes sv a) S"
    "flows i k S (sv_assert_branch sv a b) S" "flows i k S (sv_assert_clean_commit sv a b) S"
    "flows i k S (sv_seal sv a b) S" "flows i k S (sv_assert_no_secrets sv a) S"
    "flows i k S (sv_assert_tree sv a b) S" "flows i k S (sv_commit sv a b c d) S"
    "flows i k S (sv_assert_committed_tree sv a b c) S"
  using assms by (simp_all add: services_ok_def flows_patient)

lemma flows_finalize:
  assumes "services_ok sv i k" "tk_id (lt_task t) = i"
  shows "flows i k S (finalize sv t workspace branch reports patch_name title k) {Publishing}"
proof -
  note sv = services_flow [OF assms(1)]
  have seal: "flows i k S (tx (set_status i Sealing k)) {Sealing}" by (rule flows_set_status) simp
  have pub: "flows i k {Sealing} (publish sv t workspace branch reports k) {Publishing}"
    by (rule flows_publish [OF assms]) simp
  show ?thesis
    unfolding finalize_def Let_def assms(2)
    by (intro flows_then [OF sv(2)] flows_seq [OF seal] flows_then [OF sv(5)] flows_then [OF flows_set_sealed]
        flows_then [OF sv(6)] flows_then [OF sv(7)] flows_then [OF sv(8)] flows_then [OF sv(9)]
        flows_then [OF flows_set_commit] pub)
qed

lemma flows_publish_existing:
  assumes "services_ok sv i k" "tk_id (lt_task t) = i"
  shows "flows i k {Preparing} (publish_existing sv t workspace commit reports k) {Publishing}"
  unfolding publish_existing_def
  by (intro flows_then [OF services_flow(4) [OF assms(1)]] flows_publish [OF assms]) simp

lemma flows_notify:
  assumes "services_ok sv i k"
  shows "flows i k {} (notify_published sv t p) {}"
proof (cases "sv_notify sv")
  case (Some f)
  have "patient i k (f n)" for n using assms Some by (simp add: services_ok_def)
  then have run: "triple (worker_inv i k {}) (f n) (\<lambda>_. worker_inv i k {}) (\<lambda>e w. plain e \<and> worker_inv i k {} w)" for n
    by (rule patient_triple)
  have warn: "flows i k {} (tx (notify_failed j name)) {}" for j name
  proof (rule flows_tx)
    fix d d' and r :: "pyexc + unit"
    assume wf: "db_wf d" and st: "held_in i k {} d" and n: "notify_failed j name d = (r, d')"
    have wf': "db_wf d'" using effects_wf [OF notified_effects [OF wf, of j name] wf] by (simp add: n)
    have "claim_status i k d' = claim_status i k d"
      using n claim_status_replace [of "\<lambda>t. t\<lparr>tk_failure_summary := Some (MSG_NOTIFY_FAILED @ name)\<rparr>" i k j d]
      by (auto simp: notify_failed_def split: option.splits)
    with st wf' n show "tx_post i k {} r d'"
      by (auto simp: tx_post_def held_in_def notify_failed_def split: option.splits)
  qed
  have handler: "triple (\<lambda>w. plain e \<and> worker_inv i k {} w)
      (if isinstance e Exception then tx (notify_failed j name) else throw e)
      (\<lambda>_. worker_inv i k {}) (raised i k)" for e j name
  proof (rule triple_if)
    show "triple (\<lambda>w. plain e \<and> worker_inv i k {} w) (tx (notify_failed j name)) (\<lambda>_. worker_inv i k {}) (raised i k)"
      by (rule triple_pre [OF warn [unfolded flows_def]]) simp
  qed (rule triple_throw, simp add: raised_def worker_inv_def)
  show ?thesis
    unfolding notify_published_def Some option.case flows_def
    by (rule triple_catch [OF run handler])
qed (simp add: notify_published_def flows_ret)


section \<open>The orchestrator\<close>

lemma flows_settle_published:
  assumes "services_ok sv i k" "tk_id (lt_task t) = i"
  shows "flows i k {Publishing} (settle_published sv t k p) {}"
  unfolding settle_published_def assms(2)
  by (intro flows_then [OF flows_read_now] flows_seq [OF flows_awaiting_review] flows_notify [OF assms(1)])

lemma flows_finalize_task:
  assumes "services_ok sv i k" "tk_id (lt_task t) = i"
  shows "flows i k S (finalize_task sv t workspace branch reports patch_name title k) {}"
  unfolding finalize_task_def by (rule flows_seq [OF flows_finalize [OF assms] flows_settle_published [OF assms]])

lemma flows_revise:
  assumes "services_ok sv i k" "tk_id (lt_task t) = i"
  shows "flows i k {Reviewing} (revise sv t workspace report findings k) {Reviewing, DeveloperRevising}"
proof (cases "findings = []")
  case True
  then show ?thesis by (auto simp: revise_def intro!: flows_weaken [OF flows_ret])
next
  case False
  have "flows i k {Reviewing} (run_stage sv i DeveloperRevising StageRevise Developer workspace prompt k) {DeveloperRevising}" for prompt
    by (rule flows_run_stage [OF assms(1)]) simp
  note stage = flows_seq [OF this]
  have "flows i k {Reviewing} (revise sv t workspace report findings k) {DeveloperRevising}"
    unfolding revise_def assms(2) if_not_P [OF False]
    by (intro stage flows_then flows_lift parse_report_raises services_flow(2) [OF assms(1)] flows_ret)
  then show ?thesis by (rule flows_weaken) auto
qed

lemma flows_run_new:
  assumes "services_ok sv i k" "tk_id (lt_task t) = i"
  shows "flows i k {Preparing} (run_new sv t k) {}"
proof -
  have "flows i k {Preparing} (run_stage sv i DeveloperWorking StageDevelop Developer ws prompt k) {DeveloperWorking}" for ws prompt
    by (rule flows_run_stage [OF assms(1)]) simp
  note develop = flows_seq [OF this]
  show ?thesis
    unfolding run_new_def Let_def assms(2)
    by (intro flows_then [OF services_flow(1) [OF assms(1)]] flows_then [OF flows_set_prepared] develop
        flows_then [OF flows_lift [OF parse_report_raises]] flows_then [OF services_flow(2) [OF assms(1)]]
        flows_seq [OF flows_review_cycle [OF assms]] flows_seq [OF flows_revise [OF assms]] flows_finalize_task [OF assms])
qed

lemma flows_read:
  assumes "\<And>d. snd (f d) = d" "\<And>d. raises_only plain (fst (f d))"
  shows "flows i k S (tx f) S"
proof (rule flows_local)
  fix w r w'
  assume "tx f w = (r, w')"
  with assms [of "w_db w"] show "w_db w' = w_db w \<and> raises_only plain r"
    by (auto simp: tx_def split: prod.splits)
qed

lemma flows_read_get: "flows i k S (tx_get (\<lambda>d. (g d, d))) S"
  by (rule flows_tx_get) simp_all

lemma existing_reports_read:
  "snd (existing_reports lib i d) = d" "raises_only plain (fst (existing_reports lib i d))"
  unfolding existing_reports_def
  by (auto split: option.split intro!: raises_only_bind parse_developer_report_raises)

lemma load_task_read:
  "snd (load_task i d) = d" "raises_only plain (fst (load_task i d))"
  "fst (load_task i d) = Inr t \<Longrightarrow> tk_id (lt_task t) = i"
  by (auto simp: load_task_def missing_task_def split: option.splits prod.splits dest: get_task_SomeD)

lemma mark_processed_effects:
  assumes "db_wf d"
  shows "effects d (mark_feedback_processed i ids now d)"
proof -
  have "task_effect d (mark_feedback_processed i ids now d)"
    using db_wfD(1) [OF assms]
    by (intro task_effect.other) (auto simp: mark_feedback_processed_def keys_ok_def triage_view_def map_sql_update)
  then show ?thesis by blast
qed

lemma flows_mark_processed: "flows i k S (tx_get (\<lambda>d. ((), mark_feedback_processed j ids now d))) S"
proof (rule flows_tx_get)
  show "effects d (snd ((), mark_feedback_processed j ids now d))" if "db_wf d" for d
    using mark_processed_effects [OF that] by simp
qed (simp add: mark_feedback_processed_def)

lemma flows_run_feedback_revision:
  assumes "services_ok sv i k" "tk_id (lt_task t) = i"
  shows "flows i k {Preparing} (run_feedback_revision sv t k) {}"
proof -
  have "flows i k {Preparing} (run_stage sv i DeveloperRevising StageRevise Developer ws prompt k) {DeveloperRevising}" for ws prompt
    by (rule flows_run_stage [OF assms(1)]) simp
  note stage = flows_seq [OF this]
  show ?thesis
    unfolding run_feedback_revision_def Let_def assms(2)
    by (intro flows_then [OF flows_guard] flows_then [OF flows_read_get] flows_then [OF services_flow(3) [OF assms(1)]]
        stage flows_then [OF flows_lift [OF parse_report_raises]] flows_seq [OF flows_finalize_task [OF assms]]
        flows_then [OF flows_read_now] flows_mark_processed) simp_all
qed

lemma flows_run_existing_publish:
  assumes "services_ok sv i k" "tk_id (lt_task t) = i"
  shows "flows i k {Preparing} (run_existing_publish sv t k) {}"
  unfolding run_existing_publish_def Let_def assms(2)
  by (intro flows_then [OF flows_guard] flows_then [OF services_flow(3) [OF assms(1)]]
      flows_then [OF flows_read [OF existing_reports_read]] flows_if
      flows_seq [OF flows_publish_existing [OF assms]] flows_settle_published [OF assms] flows_finalize_task [OF assms]) simp_all

lemma flows_run_loaded:
  assumes "services_ok sv i k" "tk_id (lt_task t) = i"
  shows "flows i k {Preparing} (run_loaded sv t k) {}"
  unfolding run_loaded_def
  by (intro flows_if flows_run_feedback_revision flows_run_existing_publish flows_run_new assms)


section \<open>Ending a run\<close>

definition settles :: "int \<Rightarrow> pystr \<Rightarrow> (db \<Rightarrow> (pyexc + unit) \<times> db) \<Rightarrow> db \<Rightarrow> bool" where
  "settles i k f d \<longleftrightarrow> fst (f d) = Inr () \<and> db_wf (snd (f d)) \<and> released i k (snd (f d))"

lemma cleared [simp]:
  "tk_claim_token (apply_updates (cancelled_updates now) t) = None"
  "tk_claim_token (apply_updates (failed_updates e now) t) = None"
  by (simp_all add: cancelled_updates_def failed_updates_def)

lemma claim_status_set_triage [simp]: "claim_status i k (set_triage a s d) = claim_status i k d"
  by (rule claim_status_cong) (simp add: set_triage_def)

lemma fail_settles:
  assumes "db_wf d"
  shows "settles i k (fail_task i k e now) d"
proof -
  have "db_wf (snd (fail_task i k e now d))" by (rule effects_wf [OF fail_task_effects [OF assms] assms])
  moreover have "claim_status i k (snd (fail_task i k e now d)) = None" if "claim_status i k d \<noteq> None"
    using that by (auto simp: fail_task_eq [OF assms] claim_status_move claim_status_Some)
  moreover have "snd (fail_task i k e now d) = d" if "claim_status i k d = None"
    using that by (auto simp: fail_task_eq [OF assms] claim_status_def split: option.splits if_splits)
  ultimately show ?thesis
    unfolding settles_def
    by (cases "claim_status i k d") (auto simp: released_def fail_task_eq [OF assms] split: option.splits)
qed

lemma cancel_settles:
  assumes "db_wf d" "released i k d"
  shows "settles i k (mark_cancelled i k now) d"
proof -
  have wf: "db_wf (snd (mark_cancelled i k now d))" by (rule effects_wf [OF mark_cancelled_effects [OF assms(1)] assms(1)])
  have cas: "cas_task_status i [Cancelling] Cancelled (cancelled_updates now) (Some k) ActorOrchestrator d =
      (case claim_status i k d of
         Some s \<Rightarrow> if s \<in> set [Cancelling]
                    then (Inr True, move_task (the (get_task i d)) Cancelled (cancelled_updates now) ActorOrchestrator d)
                    else (Inr False, d)
       | None \<Rightarrow> (Inr False, d))"
    by (rule cas_claim [OF assms(1)])
      (auto simp: moved_def same_row_def token_step_def cancelled_updates_def status_sets)
  show ?thesis
  proof (cases "claim_status i k d")
    case None
    with wf show ?thesis by (simp add: settles_def mark_cancelled_def cas released_def)
  next
    case (Some s)
    with assms(2) have s: "s = Cancelling" by (simp add: released_def)
    obtain t where t: "get_task i d = Some t" "tk_claim_token t = Some k"
      using Some by (auto simp: claim_status_Some)
    have "mark_cancelled i k now d = (Inr (), move_task t Cancelled (cancelled_updates now) ActorOrchestrator d)"
      by (simp add: mark_cancelled_def cas Some s t)
    with wf t show ?thesis by (simp add: settles_def released_def claim_status_move)
  qed
qed

lemma interrupt_settles:
  assumes "db_wf d"
  shows "settles i k (interrupt_task i k now) d"
proof -
  have wf: "db_wf (snd (interrupt_task i k now d))" by (rule effects_wf [OF interrupt_task_effects [OF assms] assms])
  show ?thesis
  proof (cases "claim_status i k d")
    case None
    then show ?thesis using assms
      by (auto simp: settles_def interrupt_task_def released_def claim_status_def split: option.splits)
  next
    case (Some s)
    then obtain t where t: "get_task i d = Some t" "tk_claim_token t = Some k" "tk_status t = s"
      by (auto simp: claim_status_Some)
    have run: "s = Cancelling \<or> running s" using claim_status_running [OF assms Some] by blast
    let ?us = "\<lambda>fc fs. [SetClaimToken None, SetClaimExpiresAt None, SetFailureCode fc, SetFailureSummary fs, SetFinishedAt (Some now)]"
    have cas: "cas_task_status i [s] new (?us fc fs) (Some k) ActorOrchestrator d =
        (Inr True, move_task t new (?us fc fs) ActorOrchestrator d)"
      if "new = (if s = Cancelling then Cancelled else ManualIntervention)" for new fc fs
      using run t running_edges(2) [of s] running_not_terminal [of s] that Some
      by (subst cas_claim [OF assms]) (auto simp: moved_def same_row_def token_step_def status_sets)
    have cancelling: "cas_task_status i [Cancelling] Cancelled (?us fc fs) (Some k) ActorOrchestrator d =
        (Inr True, move_task t Cancelled (?us fc fs) ActorOrchestrator d)" if "s = Cancelling" for fc fs
      using cas [of Cancelled fc fs] that by simp
    have "interrupt_task i k now d = (Inr (), move_task t (if s = Cancelling then Cancelled else ManualIntervention)
        (?us (if s = Cancelling then tk_failure_code t else Some WorkerInterrupted)
          (if s = Cancelling then tk_failure_summary t else Some MSG_WORKER_INTERRUPTED)) ActorOrchestrator d)"
      by (cases "s = Cancelling") (simp_all add: interrupt_task_def t Let_def cas cancelling)
    then show ?thesis using wf t by (simp add: settles_def claim_status_move released_def)
  qed
qed


lemma intervention_settles:
  assumes "db_wf d"
  shows "settles i k (manual_intervention i k code summary now) d"
proof -
  have wf: "db_wf (snd (manual_intervention i k code summary now d))"
    by (rule effects_wf [OF manual_intervention_effects [OF assms] assms])
  show ?thesis
  proof (cases "claim_status i k d")
    case None
    then show ?thesis using assms
      by (auto simp: settles_def manual_intervention_def released_def claim_status_def split: option.splits)
  next
    case (Some s)
    then obtain t where t: "get_task i d = Some t" "tk_claim_token t = Some k" "tk_status t = s"
      by (auto simp: claim_status_Some)
    show ?thesis
    proof (cases "s = Cancelling")
      case True
      with t assms Some show ?thesis by (simp add: settles_def manual_intervention_def released_def)
    next
      case False
      have run: "running s" by (rule claim_status_running [OF assms Some False])
      let ?us = "[SetClaimToken None, SetClaimExpiresAt None, SetFailureCode (Some code),
                       SetFailureSummary (Some summary), SetFinishedAt (Some now)]"
      have cas: "cas_task_status i [s] ManualIntervention ?us (Some k) ActorOrchestrator d =
          (Inr True, move_task t ManualIntervention ?us ActorOrchestrator d)"
        using run t running_edges(2) [of s] running_not_terminal [of s] Some
        by (subst cas_claim [OF assms]) (auto simp: moved_def same_row_def token_step_def status_sets)
      have "manual_intervention i k code summary now d = (Inr (), move_task t ManualIntervention ?us ActorOrchestrator d)"
        using running_not_terminal [OF run] False by (simp add: manual_intervention_def t cas)
      then show ?thesis using wf t by (simp add: settles_def claim_status_move released_def)
    qed
  qed
qed

lemma settles_tx:
  assumes "\<And>d. P d \<Longrightarrow> settles i k f d"
  shows "triple (\<lambda>w. P (w_db w)) (tx f) (\<lambda>_. worker_inv i k {}) E"
proof (rule tripleI)
  fix w :: "'a world" and e w'
  assume "P (w_db w)" "tx f w = (Inl e, w')"
  with assms [of "w_db w"] show "E e w'" by (auto simp: tx_def settles_def split: prod.splits)
next
  fix w :: "'a world" and x w'
  assume "P (w_db w)" "tx f w = (Inr x, w')"
  with assms [of "w_db w"] show "worker_inv i k {} w'"
    by (auto simp: tx_def settles_def inv_released split: prod.splits)
qed

lemma only_claim_lost: "issubclass c ClaimLost \<Longrightarrow> c = ClaimLost"
  by (cases c) (simp_all add: issubclass_eval numeral_eq_Suc)

lemma only_task_cancelled: "issubclass c TaskCancelled \<Longrightarrow> c = TaskCancelled"
  by (cases c) (simp_all add: issubclass_eval numeral_eq_Suc)

lemma exception_or_cancelled: "c \<noteq> BaseException \<Longrightarrow> c \<noteq> CancelledError \<Longrightarrow> issubclass c Exception"
  by (cases c) (simp_all add: issubclass_eval numeral_eq_Suc)

abbreviation ended :: "int \<Rightarrow> pystr \<Rightarrow> pyexc \<Rightarrow> 'd world \<Rightarrow> bool" where
  "ended i k e w \<equiv> worker_inv i k {} w \<and> exc_cls e = CancelledError"

lemma run_except_triple:
  "triple (raised i k e) (run_except i k e :: ('a, unit) act) (\<lambda>_. worker_inv i k {}) (ended i k)"
proof -
  have now: "triple (raised i k e :: 'a world \<Rightarrow> bool) read_now (\<lambda>_. raised i k e) (ended i k)"
    by (rule tripleI) (auto simp: read_now_def raised_def)
  have rel: "released i k (w_db w)" if "raised i k e w" "isinstance e ClaimLost \<or> isinstance e TaskCancelled" for w :: "'a world"
    using that by (auto simp: raised_def plain_def isinstance_def dest!: only_claim_lost only_task_cancelled)
  have wf: "db_wf (w_db w)" if "raised i k e w" for w :: "'a world"
    using that by (simp add: raised_def)
  show ?thesis
    unfolding run_except_def
  proof (intro triple_if triple_seq [OF now])
    show "triple (raised i k e :: 'a world \<Rightarrow> bool) (ret ()) (\<lambda>_. worker_inv i k {}) (ended i k)" if "isinstance e ClaimLost"
      using that rel wf by (intro triple_ret) (simp add: inv_released)
    show "triple (raised i k e :: 'a world \<Rightarrow> bool) (tx (mark_cancelled i k now)) (\<lambda>_. worker_inv i k {}) (ended i k)"
      if "isinstance e TaskCancelled" for now
      using that rel wf cancel_settles
      by (intro triple_pre [OF settles_tx [of "\<lambda>d. db_wf d \<and> released i k d"]]) auto
    show "triple (raised i k e :: 'a world \<Rightarrow> bool) (seq (tx (interrupt_task i k now)) (\<lambda>_. throw e)) (\<lambda>_. worker_inv i k {}) (ended i k)"
      if "isinstance e CancelledError" for now
    proof (rule triple_seq)
      show "triple (raised i k e :: 'a world \<Rightarrow> bool) (tx (interrupt_task i k now)) (\<lambda>_. worker_inv i k {}) (ended i k)"
        using wf interrupt_settles by (intro triple_pre [OF settles_tx [of db_wf]]) auto
      show "triple (worker_inv i k {} :: 'a world \<Rightarrow> bool) (throw e) (\<lambda>_. worker_inv i k {}) (ended i k)"
        using that by (intro triple_throw) (auto simp: isinstance_def dest: only_cancelled)
    qed
    show "triple (raised i k e :: 'a world \<Rightarrow> bool) (tx (manual_intervention i k DeveloperReportInvalid (py_last 2000 (exc_str e)) now))
        (\<lambda>_. worker_inv i k {}) (ended i k)" for now
      using wf intervention_settles by (intro triple_pre [OF settles_tx [of db_wf]]) auto
    show "triple (raised i k e :: 'a world \<Rightarrow> bool) (tx (fail_task i k e now)) (\<lambda>_. worker_inv i k {}) (ended i k)" for now
      using wf fail_settles by (intro triple_pre [OF settles_tx [of db_wf]]) auto
    show "triple (raised i k e :: 'a world \<Rightarrow> bool) (throw e) (\<lambda>_. worker_inv i k {}) (ended i k)"
      if "\<not> isinstance e ClaimLost" "\<not> isinstance e TaskCancelled" "\<not> isinstance e CancelledError" "\<not> isinstance e Exception"
      using that exception_or_cancelled [of "exc_cls e"]
      by (intro triple_throw) (cases "exc_cls e = CancelledError"; auto simp: raised_def plain_def isinstance_def)
  qed
qed


lemma load_and_run:
  assumes "services_ok sv i k"
  shows "flows i k {Preparing} (seq (tx (load_task i)) (\<lambda>t. run_loaded sv t k)) {}"
proof (rule flowsI)
  fix w r w'
  assume w: "worker_inv i k {Preparing} w" and run: "seq (tx (load_task i)) (\<lambda>t. run_loaded sv t k) w = (r, w')"
  show "case r of Inl e \<Rightarrow> raised i k e w' | Inr _ \<Rightarrow> worker_inv i k {} w'"
  proof (cases "fst (load_task i (w_db w))")
    case (Inl e)
    have "plain e" using load_task_read(2) [of i "w_db w"] Inl by simp
    moreover have "seq (tx (load_task i)) (\<lambda>t. run_loaded sv t k) w = (Inl e, w)"
      using Inl load_task_read(1) [of i "w_db w"] by (auto simp: seq_def tx_def split: prod.splits)
    ultimately show ?thesis using run w by (simp add: raised_def worker_inv_def)
  next
    case (Inr t)
    have "run_loaded sv t k w = (r, w')"
      using run Inr load_task_read(1) [of i "w_db w"] by (auto simp: seq_def tx_def split: prod.splits)
    then show ?thesis using flowsD [OF flows_run_loaded [OF assms load_task_read(3) [OF Inr]] w] by blast
  qed
qed

lemma run_claimed_triple:
  assumes "services_ok sv i k"
  shows "triple (worker_inv i k {Preparing}) (run_claimed sv i k)
    (\<lambda>_ w. worker_inv i k {} w \<and> w_events w i = None) (\<lambda>e w. ended i k e w \<and> w_events w i = None)"
  unfolding run_claimed_def
proof (rule triple_seq)
  show "triple (worker_inv i k {Preparing}) (set_event i (Some False)) (\<lambda>_. worker_inv i k {Preparing})
      (\<lambda>e w. ended i k e w \<and> w_events w i = None)"
    by (rule tripleI) (auto simp: set_event_def worker_inv_def)
  show "triple (worker_inv i k {Preparing})
      (finally_do (catch (seq (tx (load_task i)) (\<lambda>t. run_loaded sv t k)) (run_except i k)) (set_event i None))
      (\<lambda>_ w. worker_inv i k {} w \<and> w_events w i = None) (\<lambda>e w. ended i k e w \<and> w_events w i = None)"
  proof (rule triple_finally)
    show "triple (worker_inv i k {Preparing}) (catch (seq (tx (load_task i)) (\<lambda>t. run_loaded sv t k)) (run_except i k))
        (\<lambda>_. worker_inv i k {}) (ended i k)"
      by (rule triple_catch [OF load_and_run [OF assms, unfolded flows_def] run_except_triple])
  qed (rule tripleI; auto simp: set_event_def worker_inv_def)+
qed



text \<open>A worker whose services all fail at once.\<close>

definition failing :: "('d, 'a) act" where
  "failing = throw (raise_exc RuntimeError [])"

definition failing_services :: "(nat, nat) services" where
  "failing_services =
     \<lparr>sv_lib = table_lib [], sv_digest = (\<lambda>_. 0), sv_has_broker = False, sv_forges = (\<lambda>_. None), sv_stage_timeout = 60,
      sv_artifacts_root = [], sv_git_user_name = [], sv_git_user_email = [], sv_developer_schema = [],
      sv_reviewer_schema = [], sv_resolve = id, sv_is_dir = (\<lambda>_. True), sv_run_agent = (\<lambda>_. failing),
      sv_cancel_agent = (\<lambda>_. failing), sv_sleep = (\<lambda>_. failing), sv_a_first = (\<lambda>_. True), sv_interrupted = (\<lambda>_. False),
      sv_prepare = (\<lambda>_ _ _ _. failing), sv_assert_has_changes = (\<lambda>_. failing), sv_assert_branch = (\<lambda>_ _. failing),
      sv_assert_clean_commit = (\<lambda>_ _. failing), sv_seal = (\<lambda>_ _. failing), sv_assert_no_secrets = (\<lambda>_. failing),
      sv_assert_tree = (\<lambda>_ _. failing), sv_commit = (\<lambda>_ _ _ _. failing), sv_assert_committed_tree = (\<lambda>_ _ _. failing),
      sv_publish = (\<lambda>_ _. failing), sv_notify = Some (\<lambda>_. failing)\<rparr>"

definition claimed_world :: "nat world" where
  "claimed_world =
     \<lparr>w_db = (issue_db Preparing (Some [7]))\<lparr>tasks := map (\<lambda>t. t\<lparr>tk_claim_expires_at := Some 9\<rparr>) (tasks (issue_db Preparing (Some [7])))\<rparr>,
      w_broker = \<lparr>br_model = [], br_default_ttl = 1, br_leases = [], br_usage = []\<rparr>,
      w_events = (\<lambda>_. None), w_clock = (\<lambda>_. 5), w_secrets = (\<lambda>_. [1]), w_reads = 0\<rparr>"

lemma patient_failing: "patient i k failing"
  by (simp add: patient_def failing_def throw_def rely_refl)


text \<open>
  C34: a worker that lost its claim publishes nothing.  When the claim is gone before publication, or the
  task is not ready for it, \<open>publish\<close> raises before the forge is called: the forge could be any other.
\<close>

theorem stale_worker_never_publishes:
  assumes "db_wf (w_db w)" "tk_id (lt_task t) = i" "claim_status i k (w_db w) \<notin> {Some Preparing, Some Sealing}"
  shows "publish (sv\<lparr>sv_publish := other\<rparr>) t workspace branch reports k w = publish sv t workspace branch reports k w
    \<and> (\<exists>e. fst (publish sv t workspace branch reports k w) = Inl e)
    \<and> w_db (snd (publish sv t workspace branch reports k w)) = w_db w"
proof -
  have cas: "cas_task_status i [Preparing, Sealing] Publishing [SetPublicationKey a, SetPublicationStartedAt b] (Some k) ActorPublisher (w_db w) =
      (Inr False, w_db w)" for a b
    using assms(3) by (subst cas_claim [OF assms(1)])
      (auto simp: moved_def same_row_def token_step_def edge_def CLAIMED_STATES_def status_sets split: option.split)
  have "begin_publication i k key now (w_db w) = (Inl claim_lost, w_db w)" for key now
    by (simp add: begin_publication_def cas Let_def split: option.split)
  then show ?thesis
    by (auto simp: publish_def Let_def seq_def lift_def guard_io_def ret_def throw_def token_urlsafe_def read_now_def
        tx_def assms(2) split: sum.split)
qed

theorem stale_worker_never_publishes_witness:
  "publish (failing_services\<lparr>sv_publish := (\<lambda>_ _. ret \<lparr>pb_url = [], pb_number = 1, pb_state = None\<rparr>)\<rparr>)
      \<lparr>lt_task = hd (tasks (w_db claimed_world)), lt_creator = \<lparr>us_id = 1, us_role = RoleUser, us_is_active = True, us_username = []\<rparr>,
       lt_issue = hd (issues (w_db claimed_world)),
       lt_repository = hd (repositories open_issue_db)\<rparr> [] [] [] [8] claimed_world =
   publish failing_services
      \<lparr>lt_task = hd (tasks (w_db claimed_world)), lt_creator = \<lparr>us_id = 1, us_role = RoleUser, us_is_active = True, us_username = []\<rparr>,
       lt_issue = hd (issues (w_db claimed_world)),
       lt_repository = hd (repositories open_issue_db)\<rparr> [] [] [] [8] claimed_world"
  by (rule conjunct1 [OF stale_worker_never_publishes [where i = 1]])
    (simp_all add: claimed_world_def wf_simps claim_status_def)

end
