(* ===== verification/Model_Proxy.thy ===== *)
theory Model_Proxy
  imports Broker Json Py_Url
begin

text \<open>
  \<open>coderus/model_proxy/proxy.py\<close>: the local proxy through which the agents reach the model.  It checks the
  bearer token and the request, takes a permit from the broker, forwards, and accounts the output.

  Bytes are lists of numbers.  What the upstream server does is an argument: the client or the request fails
  (with an \<open>Exception\<close> or with a cancellation), or a response arrives whose body ends, breaks or is
  interrupted after some chunks; and a streamed answer may be abandoned by its consumer.
\<close>

section \<open>Checking a request\<close>

definition MAX_REQUEST_BYTES :: nat where "MAX_REQUEST_BYTES = 10 * 1024 * 1024"
definition MAX_OUTPUT_TOKENS :: int where "MAX_OUTPUT_TOKENS = 32768"
definition MAX_TOOLS :: nat where "MAX_TOOLS = 64"

definition HOP_BY_HOP_HEADERS :: "pystr list" where
  "HOP_BY_HOP_HEADERS = [U ''connection'', U ''content-length'', U ''host'', U ''keep-alive'',
     U ''proxy-authenticate'', U ''proxy-authorization'', U ''te'', U ''trailer'', U ''transfer-encoding'',
     U ''upgrade'']"

definition TOOL_FIELDS :: "(pystr \<times> pystr list) list" where
  "TOOL_FIELDS =
     [(U ''function'', [U ''type'', U ''name'', U ''description'', U ''parameters'', U ''strict'']),
      (U ''custom'', [U ''type'', U ''name'', U ''description'', U ''format'']),
      (U ''local_shell'', [U ''type''])]"

text \<open>\<open>partition(' ')\<close> splits at the first space.\<close>

definition bearer_token :: "pystr option \<Rightarrow> pystr option" where
  "bearer_token authorization =
     (case authorization of
        None \<Rightarrow> None
      | Some a \<Rightarrow>
          if 32 \<notin> set a \<or> ascii_lower (before 32 a) \<noteq> U ''bearer'' \<or> after 32 a = [] \<or> 32 \<in> set (after 32 a)
          then None else Some (after 32 a))"

definition forward_headers :: "(pystr \<times> pystr) list \<Rightarrow> (pystr \<times> pystr) list" where
  "forward_headers headers =
     filter (\<lambda>(name, _). ascii_lower name \<notin> set HOP_BY_HOP_HEADERS \<and> ascii_lower name \<noteq> U ''authorization'')
       headers"

text \<open>\<open>int(text)\<close>: surrounding whitespace, a sign, decimal digits with single underscores between them.\<close>

definition py_int :: "(nat \<Rightarrow> digit_kind) \<Rightarrow> pystr \<Rightarrow> int option" where
  "py_int uni s =
     (let t = strip s; negative = startswith t [45];
          u = (if startswith t [45] \<or> startswith t [43] then drop 1 t else t);
          groups = split_on 95 u; digits = concat groups
      in if list_all (\<lambda>g. g \<noteq> [] \<and> list_all (\<lambda>c. digit_of uni c \<notin> {NoDigit, DigitOnly}) g) groups
            \<and> length digits \<le> 4300
         then (let n = int (foldl (\<lambda>n c. 10 * n + decimal_value (digit_of uni c)) 0 digits)
               in Some (if negative then - n else n))
         else None)"

definition content_length :: "(nat \<Rightarrow> digit_kind) \<Rightarrow> pystr option \<Rightarrow> int option" where
  "content_length uni v =
     (case Option.bind v (py_int uni) of None \<Rightarrow> None | Some n \<Rightarrow> if 0 \<le> n then Some n else None)"

text \<open>
  One entry of \<open>tools\<close>: accepted, rejected, or a \<open>TypeError\<close>, because \<open>type not in _TOOL_FIELDS\<close> hashes the
  value and lists and objects have no hash.
\<close>

fun tool_name_ok :: "json option \<Rightarrow> bool" where
  "tool_name_ok (Some (JStr s)) = (s \<noteq> [])"
| "tool_name_ok _ = False"

definition check_typed_tool :: "(pystr \<times> json) list \<Rightarrow> pystr \<Rightarrow> bool" where
  "check_typed_tool d tool_type =
     (case map_of TOOL_FIELDS tool_type of
        None \<Rightarrow> False
      | Some allowed \<Rightarrow>
          set (map fst d) \<subseteq> set allowed
          \<and> (tool_type = U ''local_shell'' \<or> tool_name_ok (dict_get d (U ''name''))))"

fun check_tool :: "json \<Rightarrow> pyexc + bool" where
  "check_tool (JObj d) =
     (case dict_get d (U ''type'') of
        Some (JStr t) \<Rightarrow> Inr (check_typed_tool d t)
      | Some (JList _) \<Rightarrow> Inl (raise_exc TypeError (U ''unhashable type''))
      | Some (JObj _) \<Rightarrow> Inl (raise_exc TypeError (U ''unhashable type''))
      | _ \<Rightarrow> Inr False)"
| "check_tool _ = Inr False"

fun check_tools :: "json list \<Rightarrow> pyexc + bool" where
  "check_tools [] = Inr True"
| "check_tools (t # ts) = and_then (check_tool t) (\<lambda>ok. if ok then check_tools ts else Inr False)"

fun model_ok :: "json option \<Rightarrow> bool" where
  "model_ok (Some (JStr s)) = (s \<noteq> [])"
| "model_ok _ = False"

fun input_ok :: "json option \<Rightarrow> bool" where
  "input_ok (Some (JStr _)) = True"
| "input_ok (Some (JList _)) = True"
| "input_ok _ = False"

fun stream_ok :: "json option \<Rightarrow> bool" where
  "stream_ok None = True"
| "stream_ok (Some (JBool _)) = True"
| "stream_ok _ = False"

fun max_tokens_ok :: "json option \<Rightarrow> bool" where
  "max_tokens_ok None = True"
| "max_tokens_ok (Some JNull) = True"
| "max_tokens_ok (Some (JInt n)) = (1 \<le> n \<and> n \<le> MAX_OUTPUT_TOKENS)"
| "max_tokens_ok _ = False"

fun tools_of :: "json option \<Rightarrow> json list option" where
  "tools_of None = Some []"
| "tools_of (Some (JList ts)) = (if length ts \<le> MAX_TOOLS then Some ts else None)"
| "tools_of _ = None"

definition payload_ok :: "(pystr \<times> json) list \<Rightarrow> pyexc + bool" where
  "payload_ok d =
     (if \<not> model_ok (dict_get d (U ''model'')) \<or> \<not> input_ok (dict_get d (U ''input''))
         \<or> \<not> stream_ok (dict_get d (U ''stream'')) \<or> \<not> max_tokens_ok (dict_get d (U ''max_output_tokens''))
         \<or> dict_get_default d (U ''background'') (JBool False) \<noteq> JBool False
      then Inr False
      else case tools_of (dict_get d (U ''tools'')) of None \<Rightarrow> Inr False | Some ts \<Rightarrow> check_tools ts)"

fun dict_of :: "json option \<Rightarrow> (pystr \<times> json) list option" where
  "dict_of (Some (JObj d)) = Some d"
| "dict_of _ = None"

definition responses_payload ::
  "pylib \<Rightarrow> pystr \<Rightarrow> pystr option \<Rightarrow> pyexc + (pystr \<times> json) list option" where
  "responses_payload lib raw_body content_type =
     (if MAX_REQUEST_BYTES < length raw_body then Inr None
      else if content_type = None \<or> \<not> startswith (ascii_lower (the content_type)) (U ''application/json'')
        then Inr None
      else case dict_of (loads lib raw_body) of
        None \<Rightarrow> Inr None
      | Some d \<Rightarrow> and_then (payload_ok d) (\<lambda>ok. Inr (if ok then Some d else None)))"

text \<open>\<open>_read_request_body\<close>: the chunks joined, \<open>None\<close> for \<open>_RequestTooLarge\<close>.\<close>

fun read_request_body :: "pystr \<Rightarrow> pystr list \<Rightarrow> pystr option" where
  "read_request_body body [] = Some body"
| "read_request_body body (c # cs) =
     (if MAX_REQUEST_BYTES < length body + length c then None else read_request_body (body @ c) cs)"

section \<open>The upstream server\<close>

datatype stream_end = Ended | Broke | Interrupted

record upstream_response =
  ur_status :: int
  ur_content_type :: pystr
  ur_chunks :: "pystr list"
  ur_end :: stream_end

text \<open>The flag says whether what is raised is an \<open>Exception\<close>.\<close>

datatype upstream = ClientFails bool | SendFails bool | Answer upstream_response

text \<open>How far the consumer of a streamed answer gets: it may never start.\<close>

datatype consumer = NeverStarted | StopsAfter nat

datatype reply =
    Reply int pystr
  | Content int pystr
  | Stream int "pystr list"
  | Raised

definition cancelled_or_502 :: "bool \<Rightarrow> reply" where
  "cancelled_or_502 is_exception = (if is_exception then Reply 502 (U ''Upstream request failed'') else Raised)"

text \<open>The body of an error response: at most 16384 bytes; a chunk that would exceed them ends the reading.\<close>

fun read_error_body :: "pystr \<Rightarrow> pystr list \<Rightarrow> bool \<times> pystr" where
  "read_error_body body [] = (True, body)"
| "read_error_body body (c # cs) =
     (if 16384 < length body + length c then (False, body) else read_error_body (body @ c) cs)"

fun error_detail :: "json option \<Rightarrow> pystr option" where
  "error_detail (Some (JObj d)) =
     (case dict_get d (U ''error'') of
        Some (JObj e) \<Rightarrow> (case dict_get e (U ''message'') of Some (JStr m) \<Rightarrow> Some m | _ \<Rightarrow> None)
      | _ \<Rightarrow> None)"
| "error_detail _ = None"

text \<open>The diagnostic of an error response; \<open>None\<close> when the reading is interrupted.\<close>

definition upstream_message :: "pylib \<Rightarrow> (pystr \<Rightarrow> pystr) \<Rightarrow> upstream_response \<Rightarrow> pystr option" where
  "upstream_message lib redact r =
     (let status = U ''Upstream HTTP '' @ int_str (ur_status r);
          (complete, body) = read_error_body [] (ur_chunks r);
          described = status @ (case error_detail (loads lib body) of None \<Rightarrow> [] | Some m \<Rightarrow> U '': '' @ redact m)
      in if \<not> complete then Some described
         else case ur_end r of
           Ended \<Rightarrow> Some described | Broke \<Rightarrow> Some status | Interrupted \<Rightarrow> None)"

text \<open>\<open>_read_upstream_body\<close>: every chunk is accounted before it is kept.\<close>

datatype read_result = ReadBody pystr | ReadRejected pyexc | ReadBroke | ReadInterrupted

fun read_upstream_body ::
  "'d \<Rightarrow> pystr \<Rightarrow> pystr list \<Rightarrow> stream_end \<Rightarrow> 'd broker \<Rightarrow> read_result \<times> 'd broker" where
  "read_upstream_body d body [] en b =
     (case en of Ended \<Rightarrow> ReadBody body | Broke \<Rightarrow> ReadBroke | Interrupted \<Rightarrow> ReadInterrupted, b)"
| "read_upstream_body d body (c # cs) en b =
     (case record_output d (int (length c)) b of
        (Inl e, b') \<Rightarrow> (if isinstance e LeaseRejected then ReadRejected e else ReadBroke, b')
      | (Inr _, b') \<Rightarrow> read_upstream_body d (body @ c) cs en b')"

text \<open>
  \<open>body()\<close> of a streamed answer: the chunks the consumer sees.  When the budget is exceeded the stream ends with
  the error event \<open>_output_limit_sse_error\<close>.
\<close>

definition output_limit_sse_error :: pystr where
  "output_limit_sse_error =
     U ''event: error'' @ [10] @ U ''data: {'' @ [34] @ U ''type'' @ [34, 58, 34] @ U ''error'' @ [34, 44, 34]
     @ U ''code'' @ [34, 58, 34] @ U ''output_limit_exceeded'' @ [34, 44, 34] @ U ''message'' @ [34, 58, 34]
     @ U ''Model proxy output limit exceeded'' @ [34, 44, 34] @ U ''param'' @ [34] @ U '':null}'' @ [10, 10]
     @ U ''data: [DONE]'' @ [10, 10]"

fun stream_body :: "'d \<Rightarrow> nat \<Rightarrow> pystr list \<Rightarrow> 'd broker \<Rightarrow> pystr list \<times> 'd broker" where
  "stream_body d n [] b = ([], b)"
| "stream_body d 0 (c # cs) b = ([], b)"
| "stream_body d (Suc n) (c # cs) b =
     (case record_output d (int (length c)) b of
        (Inl e, b') \<Rightarrow> (if isinstance e LeaseRejected then [output_limit_sse_error] else [], b')
      | (Inr _, b') \<Rightarrow> (let (out, b'') = stream_body d n cs b' in (c # out, b'')))"

section \<open>The handler\<close>

record proxy_request =
  px_authorization :: "pystr option"
  px_query :: pystr
  px_content_length :: "pystr option"
  px_content_type :: "pystr option"
  px_chunks :: "pystr list"

definition unauthorised :: reply where
  "unauthorised = Reply 401 (U ''Invalid or expired bearer token'')"

text \<open>Everything before the permit: the token, the checks, the payload; \<open>Inr\<close> carries the requested model.\<close>

definition admit ::
  "pylib \<Rightarrow> (nat \<Rightarrow> digit_kind) \<Rightarrow> proxy_request \<Rightarrow> reply + pystr" where
  "admit lib uni q =
     (if px_query q \<noteq> [] then Inl (Reply 403 (U ''Endpoint is not permitted''))
      else if content_length uni (px_content_length q) = None \<and> px_content_length q \<noteq> None
        then Inl (Reply 400 (U ''Invalid Content-Length''))
      else if content_length uni (px_content_length q) \<noteq> None
          \<and> int MAX_REQUEST_BYTES < the (content_length uni (px_content_length q))
        then Inl (Reply 413 (U ''Request body too large''))
      else case read_request_body [] (px_chunks q) of
        None \<Rightarrow> Inl (Reply 413 (U ''Request body too large''))
      | Some raw \<Rightarrow>
          (case responses_payload lib raw (px_content_type q) of
             Inl _ \<Rightarrow> Inl Raised
           | Inr None \<Rightarrow> Inl (Reply 400 (U ''Invalid Responses request''))
           | Inr (Some d) \<Rightarrow>
               (case dict_get d (U ''model'') of
                  Some (JStr m) \<Rightarrow> Inr m | _ \<Rightarrow> Inl Raised)))"

text \<open>With a permit: forward, account, and release on every path the handler itself leaves by.\<close>

definition forward ::
  "pylib \<Rightarrow> (pystr \<Rightarrow> pystr) \<Rightarrow> 'd \<Rightarrow> upstream \<Rightarrow> consumer \<Rightarrow> 'd broker \<Rightarrow> reply \<times> 'd broker" where
  "forward lib redact d up consumer b =
     (case up of
        ClientFails is_exc \<Rightarrow> (cancelled_or_502 is_exc, release_lease d b)
      | SendFails is_exc \<Rightarrow> (cancelled_or_502 is_exc, release_lease d b)
      | Answer r \<Rightarrow>
          if 400 \<le> ur_status r \<and> ur_status r \<le> 599
          then (case upstream_message lib redact r of
                  None \<Rightarrow> (Raised, release_lease d b)
                | Some m \<Rightarrow> (Reply (ur_status r) m, set_upstream_error d (Some m) (release_lease d b)))
          else
            (let b1 = set_upstream_error d None b
             in if \<not> startswith (ascii_lower (ur_content_type r)) (U ''text/event-stream'')
                then (case read_upstream_body d [] (ur_chunks r) (ur_end r) b1 of
                        (ReadBody body, b2) \<Rightarrow> (Content (ur_status r) body, release_lease d b2)
                      | (ReadRejected e, b2) \<Rightarrow>
                          (Reply (case exc_status_code e of Some c \<Rightarrow> c | None \<Rightarrow> 500) (exc_str e), release_lease d b2)
                      | (ReadBroke, b2) \<Rightarrow> (cancelled_or_502 True, release_lease d b2)
                      | (ReadInterrupted, b2) \<Rightarrow> (Raised, release_lease d b2))
                else (case consumer of
                        NeverStarted \<Rightarrow> (Stream (ur_status r) [], b1)
                      | StopsAfter n \<Rightarrow>
                          (let (out, b2) = stream_body d n (ur_chunks r) b1
                           in (Stream (ur_status r) out, release_lease d b2)))))"

definition proxy_responses ::
  "pylib \<Rightarrow> (nat \<Rightarrow> digit_kind) \<Rightarrow> (pystr \<Rightarrow> pystr) \<Rightarrow> (pystr \<Rightarrow> 'd) \<Rightarrow> time \<Rightarrow> time \<Rightarrow> proxy_request \<Rightarrow>
    upstream \<Rightarrow> consumer \<Rightarrow> 'd broker \<Rightarrow> reply \<times> 'd broker" where
  "proxy_responses lib uni redact digest now later q up consumer b =
     (case bearer_token (px_authorization q) of
        None \<Rightarrow> (unauthorised, b)
      | Some token \<Rightarrow>
          (case validate_token (digest token) now b of
             (False, b1) \<Rightarrow> (unauthorised, b1)
           | (True, b1) \<Rightarrow>
               (case admit lib uni q of
                  Inl r \<Rightarrow> (r, b1)
                | Inr requested_model \<Rightarrow>
                    (case acquire_permit (digest token) later RESPONSES_ENDPOINT requested_model b1 of
                       (Inl e, b2) \<Rightarrow>
                         (Reply (case exc_status_code e of Some c \<Rightarrow> c | None \<Rightarrow> 500) (exc_str e), b2)
                     | (Inr _, b2) \<Rightarrow> forward lib redact (digest token) up consumer b2))))"

definition reject_other_endpoint :: "(pystr \<Rightarrow> 'd) \<Rightarrow> time \<Rightarrow> pystr option \<Rightarrow> 'd broker \<Rightarrow> reply \<times> 'd broker" where
  "reject_other_endpoint digest now authorization b =
     (case bearer_token authorization of
        None \<Rightarrow> (unauthorised, b)
      | Some token \<Rightarrow>
          (case validate_token (digest token) now b of
             (ok, b1) \<Rightarrow> (if ok then Reply 403 (U ''Endpoint is not permitted'') else unauthorised, b1)))"

section \<open>Permits do not leak\<close>

definition in_flight :: "'d \<Rightarrow> 'd broker \<Rightarrow> int option" where
  "in_flight d b = map_option bl_in_flight (get_lease d b)"

lemma record_output_lease [simp]: "get_lease d (snd (record_output e n b)) = get_lease d b"
  by (auto simp: record_output_def split: option.split)

lemma record_output_leaseD: "record_output e n b = (r, b') \<Longrightarrow> get_lease d b' = get_lease d b"
  using record_output_lease [of d e n b] by simp

lemma read_body_lease: "read_upstream_body d body cs en b = (r, b') \<Longrightarrow> get_lease e b' = get_lease e b"
  by (induction d body cs en b arbitrary: r b' rule: read_upstream_body.induct)
    (auto split: prod.splits sum.splits dest: record_output_leaseD)

lemma stream_body_lease: "stream_body d n cs b = (r, b') \<Longrightarrow> get_lease e b' = get_lease e b"
  by (induction d n cs b arbitrary: r b' rule: stream_body.induct)
    (auto split: prod.splits sum.splits dest: record_output_leaseD)

lemma in_flight_lease: "get_lease d b' = get_lease d b \<Longrightarrow> in_flight d b' = in_flight d b"
  by (simp add: in_flight_def)

lemma in_flight_release:
  "in_flight d b = Some n \<Longrightarrow> 0 < n \<Longrightarrow> in_flight d (release_lease d b) = Some (n - 1)"
  by (auto simp: in_flight_def release_lease_def)

lemma in_flight_set_error [simp]: "in_flight d (set_upstream_error d m b) = in_flight d b"
  by (auto simp: in_flight_def set_upstream_error_def split: option.split)

definition streamed :: "upstream \<Rightarrow> bool" where
  "streamed up = (case up of
     Answer r \<Rightarrow> \<not> (400 \<le> ur_status r \<and> ur_status r \<le> 599)
       \<and> startswith (ascii_lower (ur_content_type r)) (U ''text/event-stream'')
   | _ \<Rightarrow> False)"

lemma forward_in_flight:
  assumes "in_flight d b = Some n" "0 < n"
  shows "in_flight d (snd (forward lib redact d up consumer b)) =
    Some (if streamed up \<and> consumer = NeverStarted then n else n - 1)"
proof -
  note rel = in_flight_release [OF assms]
  show ?thesis
  proof (cases up)
    case (Answer r)
    let ?b = "set_upstream_error d None b"
    have b: "in_flight d ?b = Some n" using assms(1) by simp
    have read: "in_flight d (release_lease d b') = Some (n - 1)"
      if "read_upstream_body d [] (ur_chunks r) (ur_end r) ?b = (x, b')" for x b'
      using read_body_lease [OF that, of d] b assms(2) by (intro in_flight_release) (simp_all add: in_flight_def)
    have strm: "in_flight d (release_lease d b') = Some (n - 1)"
      if "stream_body d k (ur_chunks r) ?b = (x, b')" for k x b'
      using stream_body_lease [OF that, of d] b assms(2) by (intro in_flight_release) (simp_all add: in_flight_def)
    show ?thesis
      using rel b
      by (auto simp: forward_def Answer streamed_def Let_def dest: read strm
          split: option.split read_result.split consumer.split prod.split)
  qed (simp_all add: forward_def rel streamed_def)
qed

lemma acquire_in_flight:
  assumes "acquire_permit d now e m b = (Inr u, b')"
  shows "\<exists>l. get_lease d b = Some l \<and> in_flight d b' = Some (bl_in_flight l + 1)"
  using assms by (auto simp: acquire_permit_def in_flight_def split: option.splits if_splits)

lemma in_flight_remove: "in_flight d (snd (remove_lease d b)) = None"
  by (auto simp: in_flight_def remove_lease_def get_lease_def delete_conv' Let_def split: option.split)

lemma acquire_refused:
  assumes "acquire_permit d now e m b = (Inl x, b')" "in_flight d b' = Some n"
  shows "b' = b"
proof -
  have "b' = b \<or> b' = snd (remove_lease d b)"
    using assms(1) by (auto simp: acquire_permit_def split: option.splits if_splits)
  with assms(2) in_flight_remove [of d b] show ?thesis by auto
qed

lemma validate_in_flight:
  assumes "validate_token d now b = (ok, b')" "in_flight d b' = Some n"
  shows "b' = b \<and> ok"
proof -
  have "(b' = b \<and> ok) \<or> b' = snd (remove_lease d b) \<or> in_flight d b' = None"
    using assms(1) by (auto simp: validate_token_def in_flight_def split: option.splits if_splits)
  with assms(2) in_flight_remove [of d b] show ?thesis by auto
qed

lemma proxy_in_flight:
  assumes "proxy_responses lib uni redact digest now later q up consumer b = (r, b')"
    "bearer_token (px_authorization q) = Some token" "in_flight (digest token) b = Some n" "0 \<le> n"
    "in_flight (digest token) b' = Some n'"
  shows "n' = n \<or> n' = n + 1 \<and> streamed up \<and> consumer = NeverStarted"
proof -
  let ?d = "digest token"
  obtain ok b1 where v: "validate_token ?d now b = (ok, b1)" by fastforce
  show ?thesis
  proof (cases "ok \<and> (\<exists>m. admit lib uni q = Inr m)")
    case False
    then have "b' = b1" using assms(1,2) v
      by (auto simp: proxy_responses_def split: sum.splits bool.splits)
    with validate_in_flight [OF v] assms(3,5) show ?thesis by auto
  next
    case True
    then obtain m where m: "ok" "admit lib uni q = Inr m" by blast
    obtain x b2 where a: "acquire_permit ?d later RESPONSES_ENDPOINT m b1 = (x, b2)" by fastforce
    show ?thesis
    proof (cases x)
      case (Inl e)
      then have b': "b' = b2" using assms(1,2) v m a by (simp add: proxy_responses_def)
      have "b2 = b1" using acquire_refused [OF a [unfolded Inl]] assms(5) b' by blast
      with validate_in_flight [OF v] assms(3,5) b' show ?thesis by auto
    next
      case (Inr u)
      obtain l where l: "get_lease ?d b1 = Some l" "in_flight ?d b2 = Some (bl_in_flight l + 1)"
        using acquire_in_flight [OF a [unfolded Inr]] by blast
      have "in_flight ?d b1 = Some (bl_in_flight l)" using l(1) by (simp add: in_flight_def)
      from validate_in_flight [OF v this] have "b1 = b" by blast
      with l assms(3) have n: "bl_in_flight l = n" by (simp add: in_flight_def)
      have "b' = snd (forward lib redact ?d up consumer b2)"
        using assms(1,2) v m a Inr by (simp add: proxy_responses_def)
      with forward_in_flight [of ?d b2 "n + 1"] l(2) n assms(4,5) show ?thesis by (auto split: if_splits)
    qed
  qed
qed

text \<open>
  C26: A request through the proxy gives its permit back on every path the handler leaves by: whatever the
  token, the payload, the broker's answer, the upstream server and the way its body ends, the lease has as many
  requests in flight afterwards as before.  The one exception is an event stream whose consumer never starts to
  read: its generator never runs, its \<open>finally\<close> neither, and the permit stays taken, which with the default
  concurrency of one blocks every later request of the stage.
\<close>

theorem permits_are_returned:
  assumes "proxy_responses lib uni redact digest now later q up consumer b = (r, b')"
    "bearer_token (px_authorization q) = Some token" "in_flight (digest token) b = Some n" "0 \<le> n"
  shows "case in_flight (digest token) b' of
      None \<Rightarrow> True
    | Some n' \<Rightarrow> (if n' = n then True
        else n' = n + 1 \<and> streamed up \<and> consumer = NeverStarted
          \<and> (\<forall>l. get_lease (digest token) b' = Some l \<longrightarrow> bl_max_concurrency l = 1 \<longrightarrow>
               (\<forall>t e m. fst (acquire_permit (digest token) t e m b') \<noteq> Inr ())))"
proof (cases "in_flight (digest token) b'")
  case (Some n')
  note cases = proxy_in_flight [OF assms Some]
  have "fst (acquire_permit (digest token) t e m b') \<noteq> Inr ()"
    if "get_lease (digest token) b' = Some l" "bl_max_concurrency l = 1" "n' = n + 1" for l t e m
    using that Some assms(4) by (auto simp: acquire_permit_def in_flight_def split: option.splits)
  with cases Some show ?thesis by auto
qed simp

definition sse_answer :: upstream where
  "sse_answer = Answer \<lparr>ur_status = 200, ur_content_type = U ''text/event-stream'', ur_chunks = [], ur_end = Ended\<rparr>"

definition one_lease_broker :: "pystr broker" where
  "one_lease_broker = \<lparr>br_model = [109], br_default_ttl = 300,
     br_leases = [([116], \<lparr>bl_expires_at = 100, bl_task_id = [49], bl_stage = [50], bl_model = [109],
       bl_max_concurrency = 1, bl_in_flight = 0, bl_upstream_error = None\<rparr>)],
     br_usage = [(UsageKey [49] [50], \<lparr>bu_max_requests = 256, bu_max_output_bytes = 1000, bu_request_count = 0,
       bu_output_bytes = 0\<rparr>)]\<rparr>"

definition sample_request :: proxy_request where
  "sample_request = \<lparr>px_authorization = Some (U ''Bearer t''), px_query = [], px_content_length = None,
     px_content_type = Some (U ''application/json''), px_chunks = [[7]]\<rparr>"

definition sample_lib :: pylib where
  "sample_lib = table_lib [([7], JObj [(U ''model'', JStr [109]), (U ''input'', JStr [])])]"

theorem permits_are_returned_witness:
  "\<exists>r b'. proxy_responses sample_lib (\<lambda>_. NoDigit) id id 1 2 sample_request sse_answer NeverStarted
       one_lease_broker = (r, b') \<and> in_flight [116] b' = Some 1
     \<and> fst (acquire_permit [116] 3 RESPONSES_ENDPOINT [109] b') \<noteq> Inr ()"
proof -
  have token: "bearer_token (px_authorization sample_request) = Some [116]"
    by (simp add: bearer_token_def sample_request_def U_def before_def after_def ascii_lower_def)
  have admitted: "admit sample_lib (\<lambda>_. NoDigit) sample_request = Inr [109]"
    by (simp add: admit_def sample_request_def content_length_def MAX_REQUEST_BYTES_def
        responses_payload_def startswith_def ascii_lower_def U_def sample_lib_def table_lib_def payload_ok_def
        dict_get_def dict_get_default_def)
  obtain r b' where run: "proxy_responses sample_lib (\<lambda>_. NoDigit) id id 1 2 sample_request sse_answer NeverStarted
       one_lease_broker = (r, b')" by fastforce
  have lease: "\<exists>l. get_lease [116] b' = Some l \<and> bl_in_flight l = 1 \<and> bl_max_concurrency l = 1"
    using run by (auto simp: proxy_responses_def token admitted validate_token_def acquire_permit_def
        one_lease_broker_def get_lease_def get_usage_def lease_stage_def put_lease_def put_usage_def
        forward_def sse_answer_def startswith_def ascii_lower_def U_def set_upstream_error_def Let_def)
  then have f: "in_flight [116] b' = Some 1" by (auto simp: in_flight_def)
  have "in_flight (id [116]) one_lease_broker = Some 0"
    by (simp add: in_flight_def one_lease_broker_def get_lease_def)
  from permits_are_returned [OF run token this] f lease have
    "fst (acquire_permit [116] 3 RESPONSES_ENDPOINT [109] b') \<noteq> Inr ()" by auto
  with run f show ?thesis by blast
qed

end
