(* ===== verification/Http.thy ===== *)
theory Http
  imports Json Py_Url Complex_Main
begin

text \<open>
  \<open>coderus/forge/http.py\<close>: HTTP requests to the code platforms with bounded retries.

  Floating point numbers are rationals.  The environment of a call is explicit: the outcome of the \<open>k\<close>-th
  request, the readings of the clock and of the random generator in the \<open>k\<close>-th round.  \<open>float(..)\<close> of a header
  is the argument \<open>parse_float\<close>.
\<close>

record http_response =
  hr_status :: int
  hr_headers :: "(pystr \<times> pystr) list"
  hr_json :: "json option"

record retry_policy =
  rt_max_attempts :: nat
  rt_base_delay :: rat
  rt_max_delay :: rat
  rt_max_elapsed :: rat
  rt_jitter_ratio :: rat

definition retry_policy :: "retry_policy \<Rightarrow> pyexc + retry_policy" where
  "retry_policy p =
     (if rt_max_attempts p < 1 then Inl (raise_exc ValueError (U ''max_attempts must be positive''))
      else if rt_base_delay p < 0 \<or> rt_max_delay p < 0 \<or> rt_max_elapsed p \<le> 0
        then Inl (raise_exc ValueError (U ''retry durations are invalid''))
      else if \<not> (0 \<le> rt_jitter_ratio p \<and> rt_jitter_ratio p \<le> 1)
        then Inl (raise_exc ValueError (U ''jitter_ratio must be between zero and one''))
      else Inr p)"

definition DEFAULT_RETRY_POLICY :: retry_policy where
  "DEFAULT_RETRY_POLICY =
     \<lparr>rt_max_attempts = 3, rt_base_delay = 1 / 2, rt_max_delay = 5, rt_max_elapsed = 15, rt_jitter_ratio = 1 / 5\<rparr>"

definition retryable_status :: "int \<Rightarrow> bool" where
  "retryable_status s = (s \<in> {408, 425, 429} \<or> 500 \<le> s)"

text \<open>A float literal may be malformed, not finite, or a number.\<close>

datatype float_text = BadFloat | NotFinite | Finite rat

definition header :: "pystr \<Rightarrow> http_response \<Rightarrow> pystr option" where
  "header name r = map_option snd (find (\<lambda>(k, v). ascii_lower k = name) (hr_headers r))"

definition retry_after :: "(pystr \<Rightarrow> float_text) \<Rightarrow> http_response \<Rightarrow> rat option" where
  "retry_after parse_float r =
     (case header (U ''retry-after'') r of
        None \<Rightarrow> None
      | Some v \<Rightarrow> (case parse_float v of Finite d \<Rightarrow> if 0 \<le> d then Some d else None | _ \<Rightarrow> None))"

definition remote_error :: "pystr \<Rightarrow> int option \<Rightarrow> pyexc" where
  "remote_error msg code = \<lparr>exc_cls = ProviderRemoteError, exc_str = msg, exc_status_code = code\<rparr>"

text \<open>
  What the rounds of a call observe: \<open>None\<close> for a request that raised; the clock at the head of a round and
  after its request; a random number.
\<close>

record http_world =
  hw_outcome :: "nat \<Rightarrow> http_response option"
  hw_start :: rat
  hw_head :: "nat \<Rightarrow> rat"
  hw_after :: "nat \<Rightarrow> rat"
  hw_random :: "nat \<Rightarrow> rat"

definition backoff_delay :: "(pystr \<Rightarrow> float_text) \<Rightarrow> retry_policy \<Rightarrow> http_world \<Rightarrow> nat \<Rightarrow> rat" where
  "backoff_delay parse_float p w k =
     (let delay = (case Option.bind (hw_outcome w k) (retry_after parse_float) of
                     Some d \<Rightarrow> d
                   | None \<Rightarrow> rt_base_delay p * 2 ^ k * (1 + rt_jitter_ratio p * (2 * hw_random w k - 1)));
          remaining = hw_start w + rt_max_elapsed p - hw_after w k
      in min (min (max 0 delay) (rt_max_delay p)) remaining)"

text \<open>
  The loop, with the rounds left: the result, the sleeps and the number of requests made.
\<close>

fun backoff_loop ::
  "(pystr \<Rightarrow> float_text) \<Rightarrow> pystr \<Rightarrow> retry_policy \<Rightarrow> http_world \<Rightarrow> nat \<Rightarrow> nat
    \<Rightarrow> (pyexc + http_response) \<times> rat list \<times> nat" where
  "backoff_loop pf name p w k 0 = (Inl (raise_exc AttributeError (U ''unreachable'')), [], 0)"
| "backoff_loop pf name p w k (Suc n) =
     (let deadline = hw_start w + rt_max_elapsed p;
          expired = (Inl (remote_error (name @ U '' retry deadline exceeded'') None));
          again = (if deadline - hw_after w k \<le> 0 then (expired, [], 1)
                   else (let (r, sleeps, m) = backoff_loop pf name p w (Suc k) n
                         in (r, backoff_delay pf p w k # sleeps, Suc m)))
      in if k \<noteq> 0 \<and> deadline \<le> hw_head w k then (expired, [], 0)
         else case hw_outcome w k of
           None \<Rightarrow> if n = 0 then (Inl (remote_error (name @ U '' request failed'') None), [], 1) else again
         | Some r \<Rightarrow> if \<not> retryable_status (hr_status r) \<or> n = 0 then (Inr r, [], 1) else again)"

definition request_with_backoff ::
  "(pystr \<Rightarrow> float_text) \<Rightarrow> pystr \<Rightarrow> retry_policy \<Rightarrow> http_world \<Rightarrow> (pyexc + http_response) \<times> rat list \<times> nat" where
  "request_with_backoff pf name p w = backoff_loop pf name p w 0 (rt_max_attempts p)"

definition get_json_response ::
  "(pystr \<Rightarrow> float_text) \<Rightarrow> pystr \<Rightarrow> retry_policy \<Rightarrow> http_world \<Rightarrow> pyexc + json \<times> (pystr \<times> pystr) list" where
  "get_json_response pf name p w =
     and_then (fst (request_with_backoff pf name p w)) (\<lambda>r.
       if \<not> (200 \<le> hr_status r \<and> hr_status r < 300)
       then Inl (remote_error (name @ U '' request failed with status '' @ int_str (hr_status r))
                   (Some (hr_status r)))
       else case hr_json r of
         None \<Rightarrow> Inl (remote_error (name @ U '' returned an invalid response'') None)
       | Some j \<Rightarrow> Inr (j, hr_headers r))"

definition get_json ::
  "(pystr \<Rightarrow> float_text) \<Rightarrow> pystr \<Rightarrow> retry_policy \<Rightarrow> http_world \<Rightarrow> pyexc + json" where
  "get_json pf name p w = and_then (get_json_response pf name p w) (\<lambda>(j, _). Inr j)"

section \<open>Retries are bounded\<close>

definition failed_round :: "http_world \<Rightarrow> nat \<Rightarrow> bool" where
  "failed_round w k = (case hw_outcome w k of None \<Rightarrow> True | Some r \<Rightarrow> retryable_status (hr_status r))"

lemma backoff_delay_bounds:
  assumes "0 \<le> rt_max_delay p" "hw_after w k < hw_start w + rt_max_elapsed p"
  shows "0 \<le> backoff_delay pf p w k" "backoff_delay pf p w k \<le> rt_max_delay p"
    "backoff_delay pf p w k \<le> hw_start w + rt_max_elapsed p - hw_after w k"
  using assms by (simp_all add: backoff_delay_def Let_def)

definition again :: "(pystr \<Rightarrow> float_text) \<Rightarrow> pystr \<Rightarrow> retry_policy \<Rightarrow> http_world \<Rightarrow> nat \<Rightarrow> nat
    \<Rightarrow> (pyexc + http_response) \<times> rat list \<times> nat" where
  "again pf name p w k n =
     (case backoff_loop pf name p w (Suc k) n of
        (r, sleeps, m) \<Rightarrow> (r, backoff_delay pf p w k # sleeps, Suc m))"

text \<open>The five ways a round goes.\<close>

lemma backoff_cases:
  assumes "backoff_loop pf name p w k (Suc n) = res"
  obtains (expired) "k \<noteq> 0" "hw_start w + rt_max_elapsed p \<le> hw_head w k"
      "res = (Inl (remote_error (name @ U '' retry deadline exceeded'') None), [], 0)"
  | (answer) r where "hw_outcome w k = Some r" "\<not> retryable_status (hr_status r) \<or> n = 0" "res = (Inr r, [], 1)"
  | (failed) "hw_outcome w k = None" "n = 0" "res = (Inl (remote_error (name @ U '' request failed'') None), [], 1)"
  | (late) "failed_round w k" "n \<noteq> 0" "hw_start w + rt_max_elapsed p \<le> hw_after w k"
      "res = (Inl (remote_error (name @ U '' retry deadline exceeded'') None), [], 1)"
  | (again) "failed_round w k" "n \<noteq> 0" "hw_after w k < hw_start w + rt_max_elapsed p"
      "k = 0 \<or> hw_head w k < hw_start w + rt_max_elapsed p"
      "res = again pf name p w k n"
proof (cases "k \<noteq> 0 \<and> hw_start w + rt_max_elapsed p \<le> hw_head w k")
  case True
  with assms show ?thesis by (intro expired) (simp_all add: Let_def)
next
  case False
  show ?thesis
  proof (cases "failed_round w k \<and> n \<noteq> 0")
    case True
    then have eq: "res = (if hw_start w + rt_max_elapsed p - hw_after w k \<le> 0
        then (Inl (remote_error (name @ U '' retry deadline exceeded'') None), [], 1) else again pf name p w k n)"
      using assms False by (auto simp: Let_def again_def failed_round_def split: option.splits)
    show ?thesis
    proof (cases "hw_start w + rt_max_elapsed p \<le> hw_after w k")
      case True
      with eq \<open>failed_round w k \<and> n \<noteq> 0\<close> show ?thesis by (intro late) simp_all
    next
      case less: False
      with eq \<open>failed_round w k \<and> n \<noteq> 0\<close> False show ?thesis by (intro again) auto
    qed
  next
    case no_more: False
    show ?thesis
    proof (cases "hw_outcome w k")
      case None
      with assms no_more False show ?thesis by (intro failed) (auto simp: Let_def failed_round_def)
    next
      case (Some r)
      with no_more have "\<not> retryable_status (hr_status r) \<or> n = 0" by (simp add: failed_round_def)
      with assms Some False show ?thesis by (intro answer) (auto simp: Let_def)
    qed
  qed
qed

lemma backoff_facts:
  assumes "backoff_loop pf name p w k n = (r, sleeps, m)" "0 < n" "0 \<le> rt_max_delay p"
  shows "m \<le> n \<and> (k = 0 \<longrightarrow> 1 \<le> m) \<and> list_all (\<lambda>s. 0 \<le> s \<and> s \<le> rt_max_delay p) sleeps
    \<and> (\<forall>j. k \<le> j \<and> j + 1 < k + m \<longrightarrow> failed_round w j)
    \<and> (case r of Inl e \<Rightarrow> exc_cls e = ProviderRemoteError
       | Inr x \<Rightarrow> 1 \<le> m \<and> hw_outcome w (k + m - 1) = Some x \<and> (\<not> retryable_status (hr_status x) \<or> m = n))"
  using assms
proof (induction n arbitrary: k r sleeps m)
  case (Suc n)
  from Suc.prems(1) show ?case
  proof (cases rule: backoff_cases)
    case again
    obtain r' s' m' where rest: "backoff_loop pf name p w (Suc k) n = (r', s', m')" by (metis prod_cases3)
    note IH = Suc.IH [OF rest _ Suc.prems(3)]
    have eq: "r = r'" "sleeps = backoff_delay pf p w k # s'" "m = Suc m'"
      using again(5) by (simp_all add: again_def rest)
    have "failed_round w j" if "k \<le> j" "j + 1 < k + m" for j
      using that again(1) IH again(2) eq(3) by (cases "j = k") auto
    moreover have "case r of Inl e \<Rightarrow> exc_cls e = ProviderRemoteError
       | Inr x \<Rightarrow> 1 \<le> m \<and> hw_outcome w (k + m - 1) = Some x \<and> (\<not> retryable_status (hr_status x) \<or> m = Suc n)"
      using IH again(2) eq by (cases r') auto
    ultimately show ?thesis
      using IH again(2) eq backoff_delay_bounds(1,2) [OF Suc.prems(3) again(3), of pf] by auto
  qed (auto simp: remote_error_def)
qed simp

text \<open>If the clock moves on by every sleep, the sleeps fit into the time the policy allows.\<close>

lemma backoff_elapsed:
  assumes "backoff_loop pf name p w k n = (r, sleeps, m)" "0 \<le> rt_max_delay p"
    "\<And>j. hw_after w j + backoff_delay pf p w j \<le> hw_head w (Suc j)" "\<And>j. hw_head w j \<le> hw_after w j"
  shows "sleeps = [] \<or> sum_list sleeps \<le> hw_start w + rt_max_elapsed p - hw_after w k"
  using assms(1)
proof (induction n arbitrary: k r sleeps m)
  case (Suc n)
  from Suc.prems show ?case
  proof (cases rule: backoff_cases)
    case again
    obtain r' s' m' where rest: "backoff_loop pf name p w (Suc k) n = (r', s', m')" by (metis prod_cases3)
    have eq: "sleeps = backoff_delay pf p w k # s'"
      using again(5) by (simp add: again_def rest)
    have "hw_after w k + backoff_delay pf p w k \<le> hw_after w (Suc k)"
      using assms(3) [of k] assms(4) [of "Suc k"] by linarith
    with Suc.IH [OF rest] backoff_delay_bounds(3) [OF assms(2) again(3), of pf] eq
    show ?thesis by auto
  qed auto
qed simp


definition sample_world :: http_world where
  "sample_world = \<lparr>hw_outcome = (\<lambda>k. if k = 0 then None else Some \<lparr>hr_status = 200, hr_headers = [], hr_json = None\<rparr>),
     hw_start = 0, hw_head = (\<lambda>k. 6 * of_nat k), hw_after = (\<lambda>k. 6 * of_nat k + 1), hw_random = (\<lambda>k. 1 / 2)\<rparr>"


end
