(* ===== verification/Review_Models.thy ===== *)
theory Review_Models
  imports Json Exceptions Py_Url
begin

text \<open>
  \<open>coderus/pr_review/models.py\<close>: repository paths, the changed line ranges of a pull request, and the validated
  output of a review.

  The ranges are an association list from (path, side) to intervals.  pydantic's validation of the decoded JSON
  is written out field by field (strict types, extra fields forbidden); a rejected value is \<open>None\<close>.
\<close>

section \<open>Paths\<close>

definition windows_absolute :: "pystr \<Rightarrow> bool" where
  "windows_absolute p = (case p of c # d # e # _ \<Rightarrow> is_alpha c \<and> d = 58 \<and> e = 47 | _ \<Rightarrow> False)"

definition to_slashes :: "pystr \<Rightarrow> pystr" where
  "to_slashes s = map (\<lambda>c. if c = 92 then 47 else c) s"

definition normalize_repository_path :: "pystr \<Rightarrow> pystr option" where
  "normalize_repository_path file_path =
     (let path = to_slashes file_path
      in if path = [] \<or> startswith path (U ''/'') \<or> windows_absolute path then None
         else if list_ex (\<lambda>c. c < 32 \<and> c \<noteq> 9 \<or> c = 127) path then None
         else if list_ex (\<lambda>part. part \<in> {[], U ''.'', U ''..''}) (split_on 47 path) then None
         else Some (join_with [47] (split_on 47 path)))"

definition safe_path :: "pystr \<Rightarrow> bool" where
  "safe_path p \<longleftrightarrow> p \<noteq> [] \<and> hd p \<noteq> 47 \<and> \<not> windows_absolute p \<and> 92 \<notin> set p
     \<and> list_all (\<lambda>c. (32 \<le> c \<or> c = 9) \<and> c \<noteq> 127) p
     \<and> list_all (\<lambda>part. part \<notin> {[], U ''.'', U ''..''}) (split_on 47 p)"

lemma to_slashes_no_backslash [simp]: "92 \<notin> set (to_slashes s)"
  by (auto simp: to_slashes_def)

lemma to_slashes_id: "92 \<notin> set s \<Longrightarrow> to_slashes s = s"
  by (induction s) (auto simp: to_slashes_def)

lemma nested_if:
  "((if A then None else if \<not> B then None else if \<not> C then None else Some q) = Some p)
     = (p = q \<and> \<not> A \<and> B \<and> C)"
  by auto

lemma normalize_Some:
  "normalize_repository_path s = Some p \<longleftrightarrow> p = to_slashes s \<and> safe_path (to_slashes s)"
proof -
  let ?q = "to_slashes s"
  have slash: "startswith ?q (U ''/'') \<longleftrightarrow> ?q \<noteq> [] \<and> hd ?q = 47"
    by (cases ?q) (auto simp: startswith_def U_def)
  have chars: "list_ex (\<lambda>c. c < 32 \<and> c \<noteq> 9 \<or> c = 127) ?q \<longleftrightarrow> \<not> list_all (\<lambda>c. (32 \<le> c \<or> c = 9) \<and> c \<noteq> 127) ?q"
    unfolding list_ex_iff list_all_iff by (meson not_less)
  have parts: "list_ex (\<lambda>part. part \<in> X) xs \<longleftrightarrow> \<not> list_all (\<lambda>part. part \<notin> X) xs" for X and xs :: "pystr list"
    unfolding list_ex_iff list_all_iff by blast
  show ?thesis
    unfolding normalize_repository_path_def safe_path_def Let_def slash chars parts join_split
      nested_if using to_slashes_no_backslash [of s] by blast
qed

lemma normalize_safe: "normalize_repository_path s = Some p \<Longrightarrow> safe_path p"
  by (auto simp: normalize_Some)

lemma normalize_length: "normalize_repository_path s = Some p \<Longrightarrow> length p = length s"
  by (auto simp: normalize_Some to_slashes_def)

lemma normalize_idem: "normalize_repository_path s = Some p \<Longrightarrow> normalize_repository_path p = Some p"
  by (simp add: normalize_Some to_slashes_id)

section \<open>Changed ranges\<close>

record changed_ranges =
  cr_ranges :: "((pystr \<times> pystr) \<times> (int \<times> int) list) list"
  cr_comparison_sha :: "pystr option"
  cr_changed_file_count :: int
  cr_additions :: int
  cr_deletions :: int

definition SIDES :: "pystr list" where
  "SIDES = [U ''LEFT'', U ''RIGHT'']"

definition intervals :: "changed_ranges \<Rightarrow> pystr \<Rightarrow> pystr \<Rightarrow> (int \<times> int) list" where
  "intervals r path side = (case map_of (cr_ranges r) (path, side) of None \<Rightarrow> [] | Some xs \<Rightarrow> xs)"

definition overlaps :: "int \<Rightarrow> int \<Rightarrow> (int \<times> int) list \<Rightarrow> (int \<times> int) list" where
  "overlaps start stop xs =
     map (\<lambda>(s, e). (max start s, min stop e)) (filter (\<lambda>(s, e). max start s \<le> min stop e) xs)"

text \<open>\<open>overlaps[0]\<close> when there is exactly one.\<close>

fun only_one :: "'a list \<Rightarrow> 'a option" where
  "only_one [x] = Some x"
| "only_one _ = None"

lemma only_one_iff: "only_one xs = Some x \<longleftrightarrow> xs = [x]"
  by (cases xs rule: only_one.cases) auto

definition clip :: "changed_ranges \<Rightarrow> pystr \<Rightarrow> pystr \<Rightarrow> int \<Rightarrow> int \<Rightarrow> (int \<times> int) option" where
  "clip r file_path side start stop =
     (case normalize_repository_path file_path of
        None \<Rightarrow> None
      | Some path \<Rightarrow>
          if side \<notin> set SIDES \<or> start < 1 \<or> stop < start then None
          else case only_one (dedupe_by id [] (overlaps start stop (intervals r path side))) of
            Some (s, e) \<Rightarrow> if s - start + stop - e \<le> 1 then Some (s, e) else None
          | None \<Rightarrow> None)"

definition contains :: "changed_ranges \<Rightarrow> pystr \<Rightarrow> pystr \<Rightarrow> int \<Rightarrow> int \<Rightarrow> bool" where
  "contains r file_path side start stop = (clip r file_path side start stop = Some (start, stop))"

definition REASON_INVALID :: pystr where \<comment> \<open>the path, side or line range is invalid\<close>
  "REASON_INVALID = [25991, 20214, 36335, 24452, 12289, 29256, 26412, 20391, 25110, 34892, 21495,
   33539, 22260, 26080, 25928]"

definition REASON_NO_LINES :: pystr where \<comment> \<open>the file has no locatable changed lines on this side\<close>
  "REASON_NO_LINES = [35813, 25991, 20214, 22312, 25351, 23450, 29256, 26412, 20391, 27809, 26377,
   21487, 23450, 20301, 30340, 20462, 25913, 34892]"

definition REASON_NOT_COVERED :: pystr where \<comment> \<open>the lines do not cover the changed lines\<close>
  "REASON_NOT_COVERED = [24847, 35265, 34892, 21495, 26410, 35206, 30422, 26412, 27425, 20462, 25913, 34892]"

definition REASON_SEVERAL :: pystr where \<comment> \<open>the range spans several separate changed intervals\<close>
  "REASON_SEVERAL = [24847, 35265, 33539, 22260, 36328, 36234, 22810, 20010, 19981, 36830, 32493,
   30340, 20462, 25913, 21306, 38388]"

definition REASON_CONTEXT :: pystr where \<comment> \<open>the range has more than one unchanged line of context\<close>
  "REASON_CONTEXT = [24847, 35265, 33539, 22260, 21253, 21547, 36229, 36807, 19968, 34892, 26410,
   20462, 25913, 30340, 19978, 19979, 25991, 65292, 26080, 27861, 23433, 20840, 32553, 23567, 23450,
   20301, 33539, 22260]"

text \<open>\<open>len\<close> of the set of overlaps is the number of distinct ones.\<close>

definition rejection_reason :: "changed_ranges \<Rightarrow> pystr \<Rightarrow> pystr \<Rightarrow> int \<Rightarrow> int \<Rightarrow> pystr option" where
  "rejection_reason r file_path side start stop =
     (if clip r file_path side start stop \<noteq> None then None
      else case normalize_repository_path file_path of
        None \<Rightarrow> Some REASON_INVALID
      | Some path \<Rightarrow>
          if side \<notin> set SIDES \<or> start < 1 \<or> stop < start then Some REASON_INVALID
          else if intervals r path side = [] then Some REASON_NO_LINES
          else (let found = overlaps start stop (intervals r path side)
                in if found = [] then Some REASON_NOT_COVERED
                   else if 1 < length (remdups found) then Some REASON_SEVERAL
                   else Some REASON_CONTEXT))"

subsection \<open>What a clipped range is\<close>

lemma overlaps_mem:
  "x \<in> set (overlaps start stop xs) \<longleftrightarrow>
     (\<exists>s e. (s, e) \<in> set xs \<and> x = (max start s, min stop e) \<and> max start s \<le> min stop e)"
  by (auto simp: overlaps_def)

lemma dedupe_id_set: "set (dedupe_by id [] xs) = set xs"
  using keys_dedupe_by [of id "[]" xs] by simp

lemma dedupe_id_distinct: "distinct (dedupe_by id [] xs)"
  using distinct_dedupe_by [of id "[]" xs] by simp

lemma dedupe_id_single: "dedupe_by id [] xs = [x] \<longleftrightarrow> set xs = {x}"
proof
  assume "dedupe_by id [] xs = [x]"
  then show "set xs = {x}" using dedupe_id_set [of xs] by simp
next
  assume "set xs = {x}"
  then have "set (dedupe_by id [] xs) = {x}" by (simp add: dedupe_id_set)
  then have "length (dedupe_by id [] xs) = 1"
    using distinct_card [OF dedupe_id_distinct [of xs]] by simp
  then obtain y where "dedupe_by id [] xs = [y]" by (auto simp: length_Suc_conv)
  with \<open>set (dedupe_by id [] xs) = {x}\<close> show "dedupe_by id [] xs = [x]" by simp
qed

lemma only_one_set: "set xs = {x} \<Longrightarrow> only_one (dedupe_by id [] xs) = Some x"
  by (simp add: only_one_iff dedupe_id_single)

lemma clip_Some_iff:
  "clip r file_path side start stop = Some (s, e) \<longleftrightarrow>
     (\<exists>path. normalize_repository_path file_path = Some path \<and> side \<in> set SIDES \<and> 1 \<le> start \<and> start \<le> stop
        \<and> set (overlaps start stop (intervals r path side)) = {(s, e)} \<and> s - start + stop - e \<le> 1)"
  unfolding clip_def
  by (auto simp: only_one_iff dedupe_id_single dest: only_one_set split: option.splits if_splits)

text \<open>
  The range that remains lies within the one asked for and within a changed interval, and at most one line was
  given up.
\<close>

lemma clip_within:
  assumes "clip r file_path side start stop = Some (s, e)"
  obtains path a b where "normalize_repository_path file_path = Some path" "(a, b) \<in> set (intervals r path side)"
    "start \<le> s" "s \<le> e" "e \<le> stop" "a \<le> s" "e \<le> b" "stop - start \<le> e - s + 1"
proof -
  obtain path where p: "normalize_repository_path file_path = Some path"
    "set (overlaps start stop (intervals r path side)) = {(s, e)}" "s - start + stop - e \<le> 1"
    using assms by (auto simp: clip_Some_iff)
  then have "(s, e) \<in> set (overlaps start stop (intervals r path side))" by simp
  then obtain a b where "(a, b) \<in> set (intervals r path side)" "s = max start a" "e = min stop b" "s \<le> e"
    by (auto simp: overlaps_mem)
  with p show ?thesis by (intro that) auto
qed

lemma overlaps_clipped:
  assumes "set (overlaps start stop xs) = {(s, e)}"
  shows "set (overlaps s e xs) = {(s, e)}"
proof -
  have "(s, e) \<in> set (overlaps start stop xs)" using assms by simp
  then obtain a b where ab: "(a, b) \<in> set xs" "s = max start a" "e = min stop b" "s \<le> e"
    by (auto simp: overlaps_mem)
  have "(max s a', min e b') = (s, e)" if "(a', b') \<in> set xs" "max s a' \<le> min e b'" for a' b'
  proof -
    have "(max start a', min stop b') \<in> set (overlaps start stop xs)"
      using that ab(2,3) by (auto simp: overlaps_mem)
    with assms have "max start a' = s" "min stop b' = e" by auto
    then show ?thesis by auto
  qed
  moreover have "(s, e) \<in> set (overlaps s e xs)"
    unfolding overlaps_mem using ab by (intro exI [of _ a] exI [of _ b]) auto
  ultimately show ?thesis
    by (intro subset_antisym subsetI) (auto simp only: overlaps_mem singleton_iff empty_subsetI insert_subset)
qed

lemma clip_contained:
  assumes "clip r file_path side start stop = Some (s, e)"
  shows "contains r file_path side s e"
proof -
  obtain path where p: "normalize_repository_path file_path = Some path" "side \<in> set SIDES" "1 \<le> start"
    "set (overlaps start stop (intervals r path side)) = {(s, e)}"
    using assms by (auto simp: clip_Some_iff)
  have "start \<le> s" "s \<le> e" by (rule clip_within [OF assms]; simp)+
  with p overlaps_clipped [OF p(4)] show ?thesis by (auto simp: contains_def clip_Some_iff)
qed

lemma rejection_iff: "rejection_reason r file_path side start stop = None \<longleftrightarrow> clip r file_path side start stop \<noteq> None"
  by (auto simp: rejection_reason_def Let_def split: option.splits)

lemma remdups_many: "1 < length (remdups xs) \<longleftrightarrow> (\<exists>x \<in> set xs. \<exists>y \<in> set xs. x \<noteq> y)"
proof -
  have "length (remdups xs) = card (set xs)" by (simp add: length_remdups_card_conv)
  moreover have "1 < card (set xs) \<longleftrightarrow> (\<exists>x \<in> set xs. \<exists>y \<in> set xs. x \<noteq> y)"
  proof
    assume "1 < card (set xs)"
    then show "\<exists>x \<in> set xs. \<exists>y \<in> set xs. x \<noteq> y"
      by (metis card_le_Suc0_iff_eq finite_set not_less One_nat_def)
  next
    assume "\<exists>x \<in> set xs. \<exists>y \<in> set xs. x \<noteq> y"
    then show "1 < card (set xs)" by (metis card_le_Suc0_iff_eq finite_set not_less One_nat_def)
  qed
  ultimately show ?thesis by simp
qed

text \<open>
  C27: Clipping a finding to the changed lines is sound and exact.  The clipped range lies within the range asked
  for and within one changed interval of that file and side, gives up at most one line, and is itself accepted
  unchanged; a range is contained exactly when it lies within the changed lines as its only overlap; and a
  rejection reason exists exactly for the ranges that cannot be clipped, naming an invalid location, no changed
  lines, no overlap, several overlaps or too much context, in that order.
\<close>

theorem clip_is_sound_and_exact:
  "(case clip r f side start stop of
      None \<Rightarrow> rejection_reason r f side start stop \<noteq> None
    | Some (s, e) \<Rightarrow>
        rejection_reason r f side start stop = None \<and> contains r f side s e
        \<and> start \<le> s \<and> s \<le> e \<and> e \<le> stop \<and> stop - start \<le> e - s + 1
        \<and> (\<exists>path a b. normalize_repository_path f = Some path \<and> (a, b) \<in> set (intervals r path side)
             \<and> a \<le> s \<and> e \<le> b))
    \<and> (contains r f side start stop \<longleftrightarrow>
        (\<exists>path. normalize_repository_path f = Some path \<and> side \<in> set SIDES \<and> 1 \<le> start \<and> start \<le> stop
           \<and> set (overlaps start stop (intervals r path side)) = {(start, stop)}))
    \<and> (if rejection_reason r f side start stop = Some REASON_SEVERAL
        then \<exists>path x y. normalize_repository_path f = Some path \<and> x \<noteq> y
           \<and> {x, y} \<subseteq> set (overlaps start stop (intervals r path side)) else True)"
proof (intro conjI)
  show "case clip r f side start stop of
      None \<Rightarrow> rejection_reason r f side start stop \<noteq> None
    | Some (s, e) \<Rightarrow>
        rejection_reason r f side start stop = None \<and> contains r f side s e
        \<and> start \<le> s \<and> s \<le> e \<and> e \<le> stop \<and> stop - start \<le> e - s + 1
        \<and> (\<exists>path a b. normalize_repository_path f = Some path \<and> (a, b) \<in> set (intervals r path side)
             \<and> a \<le> s \<and> e \<le> b)"
  proof (cases "clip r f side start stop")
    case None
    then show ?thesis by (simp add: rejection_iff)
  next
    case (Some x)
    obtain s e where x: "x = (s, e)" by fastforce
    note c = Some [unfolded x]
    show ?thesis
      by (rule clip_within [OF c]) (use c clip_contained [OF c] in \<open>auto simp: rejection_iff x\<close>)
  qed
  show "contains r f side start stop \<longleftrightarrow>
        (\<exists>path. normalize_repository_path f = Some path \<and> side \<in> set SIDES \<and> 1 \<le> start \<and> start \<le> stop
           \<and> set (overlaps start stop (intervals r path side)) = {(start, stop)})"
    by (auto simp: contains_def clip_Some_iff)
  have differ: "REASON_SEVERAL \<noteq> REASON_INVALID" "REASON_SEVERAL \<noteq> REASON_NO_LINES"
    "REASON_SEVERAL \<noteq> REASON_NOT_COVERED" "REASON_SEVERAL \<noteq> REASON_CONTEXT"
    by (simp_all add: REASON_SEVERAL_def REASON_INVALID_def REASON_NO_LINES_def REASON_NOT_COVERED_def
        REASON_CONTEXT_def)
  show "if rejection_reason r f side start stop = Some REASON_SEVERAL
        then \<exists>path x y. normalize_repository_path f = Some path \<and> x \<noteq> y
           \<and> {x, y} \<subseteq> set (overlaps start stop (intervals r path side)) else True"
  proof (cases "rejection_reason r f side start stop = Some REASON_SEVERAL")
    case several: True
    then obtain path where path: "normalize_repository_path f = Some path"
      using differ by (cases "normalize_repository_path f") (simp_all add: rejection_reason_def split: if_splits)
    let ?found = "overlaps start stop (intervals r path side)"
    have "1 < length (remdups ?found)"
      using several path differ by (simp add: rejection_reason_def Let_def split: if_splits)
    then obtain x y where "x \<in> set ?found" "y \<in> set ?found" "x \<noteq> y" unfolding remdups_many by blast
    with path have "\<exists>path x y. normalize_repository_path f = Some path \<and> x \<noteq> y
           \<and> {x, y} \<subseteq> set (overlaps start stop (intervals r path side))" by blast
    then show ?thesis unfolding if_P [OF several] .
  qed simp
qed

section \<open>Review output\<close>

record review_finding =
  rf_priority :: pystr
  rf_title :: pystr
  rf_file_path :: pystr
  rf_line_side :: pystr
  rf_line_start :: int
  rf_line_end :: int
  rf_problem :: pystr
  rf_impact :: pystr
  rf_suggestion :: pystr

record review_output =
  ro_comparison_sha :: "pystr option"
  ro_change_summary :: "pystr list"
  ro_findings :: "review_finding list"

definition cjk :: "nat \<Rightarrow> bool" where
  "cjk c = (19968 \<le> c \<and> c \<le> 40959)"

definition chinese_field :: "pystr \<Rightarrow> bool" where
  "chinese_field s = (strip s \<noteq> [] \<and> list_ex cjk s)"

definition PRIORITIES :: "pystr list" where
  "PRIORITIES = [U ''P0'', U ''P1'', U ''P2'', U ''P3'']"

text \<open>A field of strict type and bounded length.\<close>

fun bounded_str :: "nat \<Rightarrow> json option \<Rightarrow> pystr option" where
  "bounded_str n (Some (JStr s)) = (if s \<noteq> [] \<and> length s \<le> n then Some s else None)"
| "bounded_str n _ = None"

fun literal_str :: "pystr list \<Rightarrow> json option \<Rightarrow> pystr option" where
  "literal_str xs (Some (JStr s)) = (if s \<in> set xs then Some s else None)"
| "literal_str xs _ = None"

fun positive_int :: "json option \<Rightarrow> int option" where
  "positive_int (Some (JInt n)) = (if 0 < n then Some n else None)"
| "positive_int _ = None"

definition chinese_str :: "nat \<Rightarrow> json option \<Rightarrow> pystr option" where
  "chinese_str n v = Option.bind (bounded_str n v) (\<lambda>s. if chinese_field s then Some s else None)"

definition FINDING_FIELDS :: "pystr list" where
  "FINDING_FIELDS = [U ''priority'', U ''title'', U ''file_path'', U ''line_side'', U ''line_start'',
     U ''line_end'', U ''problem'', U ''impact'', U ''suggestion'']"

definition validate_finding_fields :: "(pystr \<times> json) list \<Rightarrow> review_finding option" where
  "validate_finding_fields d =
     (if \<not> set (map fst d) \<subseteq> set FINDING_FIELDS then None
      else Option.bind (literal_str PRIORITIES (dict_get d (U ''priority''))) (\<lambda>priority.
       Option.bind (chinese_str 200 (dict_get d (U ''title''))) (\<lambda>title.
       Option.bind (bounded_str 512 (dict_get d (U ''file_path''))) (\<lambda>raw_path.
       Option.bind (normalize_repository_path raw_path) (\<lambda>path.
       Option.bind (literal_str SIDES (dict_get d (U ''line_side''))) (\<lambda>side.
       Option.bind (positive_int (dict_get d (U ''line_start''))) (\<lambda>start.
       Option.bind (positive_int (dict_get d (U ''line_end''))) (\<lambda>stop.
       Option.bind (chinese_str 2000 (dict_get d (U ''problem''))) (\<lambda>problem.
       Option.bind (chinese_str 2000 (dict_get d (U ''impact''))) (\<lambda>impact.
       Option.bind (chinese_str 2000 (dict_get d (U ''suggestion''))) (\<lambda>suggestion.
         if stop < start then None
         else Some \<lparr>rf_priority = priority, rf_title = title, rf_file_path = path, rf_line_side = side,
                    rf_line_start = start, rf_line_end = stop, rf_problem = problem, rf_impact = impact,
                    rf_suggestion = suggestion\<rparr>)))))))))))"

fun validate_finding_json :: "json \<Rightarrow> review_finding option" where
  "validate_finding_json (JObj d) = validate_finding_fields d"
| "validate_finding_json _ = None"

fun all_some :: "'a option list \<Rightarrow> 'a list option" where
  "all_some [] = Some []"
| "all_some (None # xs) = None"
| "all_some (Some x # xs) = map_option ((#) x) (all_some xs)"

definition summary_sentence_ok :: "pystr \<Rightarrow> bool" where
  "summary_sentence_ok s =
     (s = strip s \<and> s \<noteq> [] \<and> length s \<le> 300 \<and> 10 \<notin> set s \<and> 13 \<notin> set s \<and> list_ex cjk s)"

fun str_of :: "json \<Rightarrow> pystr option" where
  "str_of (JStr s) = Some s"
| "str_of _ = None"

fun list_of :: "json option \<Rightarrow> json list option" where
  "list_of (Some (JList xs)) = Some xs"
| "list_of _ = None"

definition validate_summary :: "json option \<Rightarrow> pystr list option" where
  "validate_summary v =
     Option.bind (Option.bind (list_of v) (\<lambda>xs. all_some (map str_of xs))) (\<lambda>ss.
       if ss \<noteq> [] \<and> length ss \<le> 5 \<and> list_all summary_sentence_ok ss then Some ss else None)"

definition validate_output_fields :: "(pystr \<times> json) list \<Rightarrow> review_output option" where
  "validate_output_fields d =
     (if \<not> set (map fst d) \<subseteq> {U ''change_summary'', U ''findings''} then None
      else Option.bind (validate_summary (dict_get d (U ''change_summary''))) (\<lambda>summary.
           Option.bind (Option.bind (list_of (dict_get d (U ''findings'')))
                          (\<lambda>xs. all_some (map validate_finding_json xs))) (\<lambda>findings.
             Some \<lparr>ro_comparison_sha = None, ro_change_summary = summary, ro_findings = findings\<rparr>)))"

text \<open>\<open>ReviewOutput.model_validate\<close>\<close>

fun validate_output :: "json \<Rightarrow> review_output option" where
  "validate_output (JObj d) = validate_output_fields d"
| "validate_output _ = None"

subsection \<open>What validation guarantees\<close>

definition finding_ok :: "review_finding \<Rightarrow> bool" where
  "finding_ok f \<longleftrightarrow> rf_priority f \<in> set PRIORITIES \<and> rf_line_side f \<in> set SIDES \<and> safe_path (rf_file_path f)
     \<and> 1 \<le> rf_line_start f \<and> rf_line_start f \<le> rf_line_end f
     \<and> chinese_field (rf_title f) \<and> length (rf_title f) \<le> 200 \<and> length (rf_file_path f) \<le> 512
     \<and> (\<forall>s \<in> {rf_problem f, rf_impact f, rf_suggestion f}. chinese_field s \<and> length s \<le> 2000)"

definition output_ok :: "review_output \<Rightarrow> bool" where
  "output_ok out \<longleftrightarrow> 1 \<le> length (ro_change_summary out) \<and> length (ro_change_summary out) \<le> 5
     \<and> list_all summary_sentence_ok (ro_change_summary out) \<and> list_all finding_ok (ro_findings out)"

lemma bounded_str_Some: "bounded_str n v = Some s \<longleftrightarrow> v = Some (JStr s) \<and> s \<noteq> [] \<and> length s \<le> n"
  by (cases "(n, v)" rule: bounded_str.cases) auto

lemma literal_str_Some: "literal_str xs v = Some s \<longleftrightarrow> v = Some (JStr s) \<and> s \<in> set xs"
  by (cases "(xs, v)" rule: literal_str.cases) auto

lemma positive_int_Some: "positive_int v = Some n \<longleftrightarrow> v = Some (JInt n) \<and> 0 < n"
  by (cases v rule: positive_int.cases) auto

lemma chinese_str_Some:
  "chinese_str n v = Some s \<longleftrightarrow> v = Some (JStr s) \<and> length s \<le> n \<and> chinese_field s"
proof -
  have "s \<noteq> []" if "chinese_field s" using that by (auto simp: chinese_field_def)
  then show ?thesis
    unfolding chinese_str_def bind_eq_Some_conv bounded_str_Some by (auto split: if_splits)
qed

lemmas field_simps' = bounded_str_Some literal_str_Some positive_int_Some chinese_str_Some

lemma all_some_iff: "all_some xs = Some ys \<longleftrightarrow> xs = map Some ys"
proof (induction xs arbitrary: ys)
  case (Cons x xs)
  show ?case
  proof (cases x)
    case (Some a)
    with Cons show ?thesis by (cases ys) auto
  qed auto
qed auto

lemma finding_validated:
  assumes "validate_finding_json v = Some f"
  shows "finding_ok f"
proof -
  obtain d where "v = JObj d" using assms by (cases v) auto
  with assms show ?thesis
    by (auto simp: validate_finding_fields_def bind_eq_Some_conv field_simps' finding_ok_def
        normalize_length normalize_safe split: if_splits)
qed

lemma output_validated:
  assumes "validate_output v = Some out"
  shows "output_ok out"
proof -
  obtain d where "v = JObj d" using assms by (cases v) auto
  with assms obtain xs where s: "validate_summary (dict_get d (U ''change_summary'')) = Some (ro_change_summary out)"
    and xs: "map validate_finding_json xs = map Some (ro_findings out)"
    by (auto simp: validate_output_fields_def bind_eq_Some_conv all_some_iff split: if_splits)
  have "finding_ok f" if "f \<in> set (ro_findings out)" for f
  proof -
    have "Some f \<in> set (map validate_finding_json xs)" using that by (simp add: xs)
    then show ?thesis by (auto dest: finding_validated [OF sym])
  qed
  with s show ?thesis
    by (auto simp: output_ok_def validate_summary_def bind_eq_Some_conv list_all_iff Suc_le_eq split: if_splits)
qed

end
