(* ===== verification/Pr_Review_Store.thy ===== *)
theory Pr_Review_Store
  imports Lease Forge_Registry Forge_Urls Review_Models Complex_Main "HOL-Library.Product_Lexorder"
begin

text \<open>
  The table of pull request reviews: how a review is enqueued (\<open>application/reviews.py\<close>,
  \<open>pr_review/service.py\<close>), scheduled and recovered (\<open>pr_review/scheduler.py\<close>), and the statements with which
  \<open>PRReviewOrchestrator\<close> moves a row (\<open>pr_review/orchestrator.py\<close>).  Each is one transaction.  Every
  statement of a worker carries the expected status and the worker's claim token in its \<open>WHERE\<close> clause.
\<close>

section \<open>Rows\<close>

datatype review_status = RvQueued | RvPreparing | RvReviewing | RvCommenting | RvCompleted | RvFailed

text \<open>\<open>structured_result\<close>: the redacted output, the findings without a line and the audit counts.\<close>

record review_audit =
  ra_comparison_sha :: pystr
  ra_changed_files :: int
  ra_additions :: int
  ra_deletions :: int
  ra_generated :: nat
  ra_validated :: nat
  ra_filtered :: int

record stored_review =
  sd_output :: review_output
  sd_unlocated :: "(review_finding \<times> pystr) list"
  sd_audit :: review_audit

record review_row =
  pr_id :: int
  pr_repository_id :: int
  pr_pr_number :: int
  pr_pr_url :: pystr
  pr_status :: review_status
  pr_base_sha :: "pystr option"
  pr_head_sha :: "pystr option"
  pr_workspace_path :: "pystr option"
  pr_source_chat_id :: pystr
  pr_source_message_id :: pystr
  pr_source_sender_open_id :: pystr
  pr_structured_result :: "stored_review option"
  pr_comment_url :: "pystr option"
  pr_review_key :: "pystr option"
  pr_claim_token :: "pystr option"
  pr_claim_expires_at :: "time option"
  pr_failure_code :: "task_error_code option"
  pr_failure_summary :: "pystr option"
  pr_created_at :: time
  pr_started_at :: "time option"
  pr_finished_at :: "time option"

definition RUNNING_STATUSES :: "review_status list" where
  "RUNNING_STATUSES = [RvPreparing, RvReviewing, RvCommenting]"

definition ACTIVE_STATUSES :: "review_status list" where
  "ACTIVE_STATUSES = [RvPreparing, RvReviewing, RvCommenting]"

lemma review_status_sets:
  "s \<in> set RUNNING_STATUSES \<longleftrightarrow> s = RvPreparing \<or> s = RvReviewing \<or> s = RvCommenting"
  "s \<in> set ACTIVE_STATUSES \<longleftrightarrow> s = RvPreparing \<or> s = RvReviewing \<or> s = RvCommenting"
  by (auto simp: RUNNING_STATUSES_def ACTIVE_STATUSES_def)

section \<open>Enqueueing\<close>

definition MSG_NOT_AUTHORISED :: pystr where \<comment> \<open>the repository of the pull request is not authorised\<close>
  "MSG_NOT_AUTHORISED = [35813, 32, 80, 82, 32, 25152, 23646, 20179, 24211, 26410, 30001, 31649,
   29702, 21592, 25480, 26435]"

definition review_repository :: "forge_repository \<Rightarrow> db \<Rightarrow> repository option" where
  "review_repository src db =
     find (\<lambda>r. rp_provider r = fr_provider src \<and> rp_owner r = fr_owner src \<and> rp_name r = fr_name src
       \<and> rp_is_enabled r) (repositories db)"

definition new_review ::
  "int \<Rightarrow> int \<Rightarrow> int \<Rightarrow> pystr \<Rightarrow> pystr \<Rightarrow> pystr \<Rightarrow> pystr \<Rightarrow> pystr \<Rightarrow> time \<Rightarrow> review_row" where
  "new_review i repository number url key chat message sender now =
     \<lparr>pr_id = i, pr_repository_id = repository, pr_pr_number = number, pr_pr_url = url, pr_status = RvQueued,
      pr_base_sha = None, pr_head_sha = None, pr_workspace_path = None, pr_source_chat_id = chat,
      pr_source_message_id = message, pr_source_sender_open_id = sender, pr_structured_result = None,
      pr_comment_url = None, pr_review_key = Some key, pr_claim_token = None, pr_claim_expires_at = None,
      pr_failure_code = None, pr_failure_summary = None, pr_created_at = now, pr_started_at = None,
      pr_finished_at = None\<rparr>"

record review_source =
  so_chat_id :: pystr
  so_message_id :: pystr
  so_sender_id :: pystr

text \<open>
  \<open>enqueue_pr_review\<close>.  \<open>key\<close> is the result of \<open>secrets.token_urlsafe(32)\<close>; the unique index on the message
  makes \<open>flush\<close> raise for a message that was enqueued before.
\<close>

definition enqueue_pr_review ::
  "(pystr \<Rightarrow> bool) \<Rightarrow> (nat \<Rightarrow> digit_kind) \<Rightarrow> pystr \<Rightarrow> review_source \<Rightarrow> pystr \<Rightarrow> time \<Rightarrow> db \<Rightarrow> review_row list
    \<Rightarrow> (pyexc + review_row) \<times> review_row list" where
  "enqueue_pr_review bad uni url source key now db rows =
     (case parse_pull_request_url bad uni url of
        Inl e \<Rightarrow> (Inl e, rows)
      | Inr (src, number) \<Rightarrow>
          (case review_repository src db of
             None \<Rightarrow> (Inl (raise_exc ValueError MSG_NOT_AUTHORISED), rows)
           | Some repo \<Rightarrow>
               (let row = new_review (fresh_id (map pr_id rows)) (rp_id repo) number url key (so_chat_id source)
                            (so_message_id source) (so_sender_id source) now
                in if so_message_id source \<in> pr_source_message_id ` set rows
                   then (Inl (raise_exc IntegrityError []), rows)
                   else (Inr row, rows @ [row]))))"

text \<open>\<open>ReviewCommands.enqueue\<close>: the platform must be able to read the request and to comment on it.\<close>

definition enqueue_review ::
  "(pystr \<Rightarrow> bool) \<Rightarrow> (nat \<Rightarrow> digit_kind) \<Rightarrow> 'f registry \<Rightarrow> pystr \<Rightarrow> review_source \<Rightarrow> pystr \<Rightarrow> time \<Rightarrow> db
    \<Rightarrow> review_row list \<Rightarrow> (pyexc + int) \<times> review_row list" where
  "enqueue_review bad uni forges url source key now db rows =
     (case parse_pull_request_url bad uni url of
        Inl e \<Rightarrow> (Inl e, rows)
      | Inr (src, number) \<Rightarrow>
          if \<not> registry_supports forges (fr_provider src) [GetPullRequest, PublishPrComment]
          then (Inl (raise_exc ForgeNotConfigured (platform_name (fr_provider src) @ MSG_NOT_CONFIGURED)), rows)
          else (case enqueue_pr_review bad uni url source key now db rows of
                  (Inl e, rows') \<Rightarrow> (Inl e, rows')
                | (Inr row, rows') \<Rightarrow> (Inr (pr_id row), rows')))"

section \<open>The statements of the worker\<close>

text \<open>\<open>_claim\<close>: \<open>token\<close> and \<open>key\<close> are the two random tokens, \<open>key\<close> for rows older than the column.\<close>

definition claim_review :: "int \<Rightarrow> pystr \<Rightarrow> pystr \<Rightarrow> time \<Rightarrow> review_row list \<Rightarrow> pystr option \<times> review_row list" where
  "claim_review i token key now rows =
     (let p = (\<lambda>r. pr_id r = i \<and> pr_status r = RvQueued)
      in (if sql_count p rows = 1 then Some token else None,
          sql_update p (\<lambda>r. r\<lparr>pr_status := RvPreparing, pr_base_sha := None, pr_head_sha := None,
            pr_workspace_path := None, pr_structured_result := None, pr_comment_url := None,
            pr_failure_code := None, pr_failure_summary := None,
            pr_review_key := (case pr_review_key r of None \<Rightarrow> Some key | Some k \<Rightarrow> Some k),
            pr_claim_token := Some token, pr_claim_expires_at := Some (now + seconds CLAIM_LEASE_SECONDS),
            pr_started_at := Some now, pr_finished_at := None\<rparr>) rows))"

definition owned_by :: "int \<Rightarrow> review_status \<Rightarrow> pystr \<Rightarrow> review_row \<Rightarrow> bool" where
  "owned_by i expected token r =
     (pr_id r = i \<and> pr_status r = expected \<and> pr_claim_token r = Some token)"

text \<open>\<open>_expected_update\<close> and the four operations that are calls of it.\<close>

definition expected_update ::
  "int \<Rightarrow> review_status \<Rightarrow> pystr \<Rightarrow> (review_row \<Rightarrow> review_row) \<Rightarrow> review_row list
    \<Rightarrow> (pyexc + unit) \<times> review_row list" where
  "expected_update i expected token f rows =
     (if sql_count (owned_by i expected token) rows \<noteq> 1 then Inl (raise_exc PRClaimLost []) else Inr (),
      sql_update (owned_by i expected token) f rows)"

definition record_revision ::
  "int \<Rightarrow> review_status \<Rightarrow> pystr \<Rightarrow> pystr \<Rightarrow> pystr \<Rightarrow> review_row list \<Rightarrow> (pyexc + unit) \<times> review_row list" where
  "record_revision i expected token base head =
     expected_update i expected token (\<lambda>r. r\<lparr>pr_base_sha := Some base, pr_head_sha := Some head\<rparr>)"

definition review_transition ::
  "int \<Rightarrow> review_status \<Rightarrow> review_status \<Rightarrow> pystr \<Rightarrow> review_row list \<Rightarrow> (pyexc + unit) \<times> review_row list" where
  "review_transition i expected new token = expected_update i expected token (\<lambda>r. r\<lparr>pr_status := new\<rparr>)"

definition set_commenting ::
  "int \<Rightarrow> review_status \<Rightarrow> pystr \<Rightarrow> stored_review \<Rightarrow> review_row list \<Rightarrow> (pyexc + unit) \<times> review_row list" where
  "set_commenting i expected token result =
     expected_update i expected token (\<lambda>r. r\<lparr>pr_status := RvCommenting, pr_structured_result := Some result\<rparr>)"

definition complete_review ::
  "int \<Rightarrow> review_status \<Rightarrow> pystr \<Rightarrow> pystr \<Rightarrow> time \<Rightarrow> review_row list \<Rightarrow> (pyexc + unit) \<times> review_row list" where
  "complete_review i expected token url now =
     expected_update i expected token (\<lambda>r. r\<lparr>pr_status := RvCompleted, pr_comment_url := Some url,
       pr_claim_token := None, pr_claim_expires_at := None, pr_failure_code := None,
       pr_failure_summary := None, pr_finished_at := Some now\<rparr>)"

definition fail_review ::
  "int \<Rightarrow> review_status \<Rightarrow> pystr \<Rightarrow> pyexc \<Rightarrow> pystr \<Rightarrow> time \<Rightarrow> review_row list \<Rightarrow> bool \<times> review_row list" where
  "fail_review i expected token e summary now rows =
     (sql_count (owned_by i expected token) rows = 1,
      sql_update (owned_by i expected token) (\<lambda>r. r\<lparr>pr_status := RvFailed, pr_claim_token := None,
        pr_claim_expires_at := None, pr_failure_code := Some (classify_exception e),
        pr_failure_summary := Some summary, pr_finished_at := Some now\<rparr>) rows)"

definition MSG_NOTIFY_FAILED :: pystr where \<comment> \<open>the notification failed\<close>
  "MSG_NOTIFY_FAILED = [39134, 20070, 36890, 30693, 22833, 36133, 65306]"

definition record_notification_failure ::
  "int \<Rightarrow> review_status \<Rightarrow> pystr \<Rightarrow> review_row list \<Rightarrow> review_row list" where
  "record_notification_failure i expected kind rows =
     (let summary = MSG_NOTIFY_FAILED @ kind
      in sql_update (\<lambda>r. pr_id r = i \<and> pr_status r = expected)
           (\<lambda>r. r\<lparr>pr_failure_summary := (case pr_failure_summary r of
                None \<Rightarrow> Some summary | Some s \<Rightarrow> Some (s @ [65307] @ summary))\<rparr>) rows)"

text \<open>\<open>_renew_claim\<close> and \<open>_heartbeat\<close> use the lease of \<open>tasks/lease.py\<close> on this table.\<close>

definition review_lease_model :: "review_row lease_model" where
  "review_lease_model = \<lparr>lm_id = pr_id, lm_active = (\<lambda>r. pr_status r \<in> set ACTIVE_STATUSES),
     lm_token = pr_claim_token, lm_expires_at = pr_claim_expires_at,
     lm_set_expires_at = (\<lambda>e r. r\<lparr>pr_claim_expires_at := e\<rparr>)\<rparr>"

interpretation review_lease: lease_columns review_lease_model
  by unfold_locales (simp_all add: review_lease_model_def)

definition renew_review :: "int \<Rightarrow> pystr \<Rightarrow> time \<Rightarrow> review_row list \<Rightarrow> bool \<times> review_row list" where
  "renew_review i token now rows = lease_renew review_lease_model CLAIM_LEASE_SECONDS i token now rows"

text \<open>\<open>_load_task\<close>: the repository is the row's foreign key, so it is there.\<close>

record task_context =
  tc_id :: int
  tc_provider :: provider
  tc_owner :: pystr
  tc_name :: pystr
  tc_repository_url :: pystr
  tc_pr_number :: int
  tc_source_chat_id :: pystr
  tc_review_key :: pystr

definition MSG_NO_REVIEW :: pystr where \<comment> \<open>the review does not exist\<close>
  "MSG_NO_REVIEW = [26816, 35270, 20219, 21153, 19981, 23384, 22312]"

definition MSG_NO_KEY :: pystr where \<comment> \<open>the review lacks its idempotency key\<close>
  "MSG_NO_KEY = [26816, 35270, 20219, 21153, 32570, 23569, 24130, 31561, 38190]"

definition get_review :: "int \<Rightarrow> review_row list \<Rightarrow> review_row option" where
  "get_review i rows = find (\<lambda>r. pr_id r = i) rows"

definition load_review :: "int \<Rightarrow> db \<Rightarrow> review_row list \<Rightarrow> pyexc + task_context" where
  "load_review i db rows =
     (case get_review i rows of
        None \<Rightarrow> Inl (raise_exc PRReviewError MSG_NO_REVIEW)
      | Some r \<Rightarrow>
          (case pr_review_key r of
             None \<Rightarrow> Inl (raise_exc PRReviewError MSG_NO_KEY)
           | Some key \<Rightarrow>
               (case get_repository (pr_repository_id r) db of
                  None \<Rightarrow> Inl (raise_exc AttributeError [])
                | Some repo \<Rightarrow>
                    Inr \<lparr>tc_id = pr_id r, tc_provider = rp_provider repo, tc_owner = rp_owner repo,
                      tc_name = rp_name repo, tc_repository_url = rp_canonical_url repo,
                      tc_pr_number = pr_pr_number r, tc_source_chat_id = pr_source_chat_id r,
                      tc_review_key = key\<rparr>)))"

section \<open>The scheduler\<close>

definition review_expired :: "time \<Rightarrow> review_row \<Rightarrow> bool" where
  "review_expired now r =
     (pr_status r \<in> set RUNNING_STATUSES
      \<and> (case pr_claim_expires_at r of None \<Rightarrow> True | Some e \<Rightarrow> e \<le> now))"

definition recover_reviews :: "time \<Rightarrow> review_row list \<Rightarrow> nat \<times> review_row list" where
  "recover_reviews now rows =
     (sql_count (review_expired now) rows,
      sql_update (review_expired now) (\<lambda>r. r\<lparr>pr_status := RvQueued, pr_claim_token := None,
        pr_claim_expires_at := None, pr_started_at := None, pr_finished_at := None,
        pr_failure_code := None, pr_failure_summary := None\<rparr>) rows)"

definition queued_reviews :: "review_row list \<Rightarrow> review_row list" where
  "queued_reviews rows =
     sort_key (\<lambda>r. (pr_created_at r, pr_id r)) (filter (\<lambda>r. pr_status r = RvQueued) rows)"

text \<open>
  \<open>tick\<close>: \<open>workers\<close> are the entries of \<open>_running\<close> with their \<open>done()\<close> flags.  The result is the keys of the
  new \<open>_running\<close> and the review whose worker is started, if any.
\<close>

definition review_tick ::
  "bool \<Rightarrow> time \<Rightarrow> (int \<times> bool) list \<Rightarrow> review_row list \<Rightarrow> (int list \<times> int option) \<times> review_row list" where
  "review_tick can_claim now workers rows =
     (if \<not> can_claim then ((map fst workers, None), rows)
      else
        (let rows' = snd (recover_reviews now rows);
             busy = map fst (filter (\<lambda>w. \<not> snd w) workers)
         in if busy \<noteq> [] then ((busy, None), rows')
            else case queued_reviews rows' of
                   [] \<Rightarrow> (([], None), rows')
                 | r # _ \<Rightarrow> (([pr_id r], Some (pr_id r)), rows')))"

text \<open>One turn of \<open>_loop\<close>: the outcome of the tick, the new failure count and last error, and the delay.\<close>

definition review_loop_turn ::
  "rat \<Rightarrow> pyexc option \<Rightarrow> nat \<Rightarrow> (nat \<times> pystr option) \<times> rat" where
  "review_loop_turn poll_seconds failure failures =
     (case failure of
        None \<Rightarrow> ((0, None), poll_seconds)
      | Some e \<Rightarrow> ((failures + 1, Some (class_name (exc_cls e))),
                   min 60 (max 1 poll_seconds * 2 ^ min failures 6)))"

section \<open>The life of a review\<close>

text \<open>
  Everything that writes the table, in any order: requests, the scheduler's recovery, and the statements of the
  workers with whatever token they hold.
\<close>

datatype 'f review_op =
    RvEnqueue "pystr \<Rightarrow> bool" "nat \<Rightarrow> digit_kind" "'f registry" pystr review_source pystr time db
  | RvClaim int pystr pystr time
  | RvRecord int review_status pystr pystr pystr
  | RvStart int pystr
  | RvComment int pystr stored_review
  | RvComplete int pystr pystr time
  | RvFail int review_status pystr pyexc pystr time
  | RvRenew int pystr time
  | RvNote int review_status pystr
  | RvRecover time

fun review_apply :: "'f review_op \<Rightarrow> review_row list \<Rightarrow> review_row list" where
  "review_apply (RvEnqueue bad uni forges url source key now db) rows = snd (enqueue_review bad uni forges url source key now db rows)"
| "review_apply (RvClaim i k key now) rows = snd (claim_review i k key now rows)"
| "review_apply (RvRecord i s k base head) rows = snd (record_revision i s k base head rows)"
| "review_apply (RvStart i k) rows = snd (review_transition i RvPreparing RvReviewing k rows)"
| "review_apply (RvComment i k result) rows = snd (set_commenting i RvReviewing k result rows)"
| "review_apply (RvComplete i k url now) rows = snd (complete_review i RvCommenting k url now rows)"
| "review_apply (RvFail i s k e summary now) rows = snd (fail_review i s k e summary now rows)"
| "review_apply (RvRenew i k now) rows = snd (renew_review i k now rows)"
| "review_apply (RvNote i s kind) rows = record_notification_failure i s kind rows"
| "review_apply (RvRecover now) rows = snd (recover_reviews now rows)"

definition review_row_ok :: "review_row \<Rightarrow> bool" where
  "review_row_ok r \<longleftrightarrow>
     (pr_claim_token r \<noteq> None \<longleftrightarrow> pr_status r \<in> set ACTIVE_STATUSES)
     \<and> (pr_claim_expires_at r \<noteq> None \<longleftrightarrow> pr_status r \<in> set ACTIVE_STATUSES)
     \<and> (pr_comment_url r \<noteq> None \<longleftrightarrow> pr_status r = RvCompleted)
     \<and> (pr_status r \<in> {RvCommenting, RvCompleted} \<longrightarrow> pr_structured_result r \<noteq> None)
     \<and> (pr_status r = RvFailed \<longrightarrow> pr_failure_code r \<noteq> None \<and> pr_failure_summary r \<noteq> None)
     \<and> (pr_finished_at r \<noteq> None \<longleftrightarrow> pr_status r \<in> {RvCompleted, RvFailed})
     \<and> (pr_status r \<in> set ACTIVE_STATUSES \<longrightarrow> pr_started_at r \<noteq> None)"

definition review_rows_ok :: "review_row list \<Rightarrow> bool" where
  "review_rows_ok rows \<longleftrightarrow> distinct (map pr_id rows) \<and> distinct (map pr_source_message_id rows)
     \<and> list_all review_row_ok rows"

text \<open>The status graph: forward one stage at a time, to failure from every stage, and back to the queue.\<close>

fun review_edge :: "review_status \<Rightarrow> review_status \<Rightarrow> bool" where
  "review_edge RvQueued s = (s = RvPreparing)"
| "review_edge RvPreparing s = (s \<in> {RvReviewing, RvFailed, RvQueued})"
| "review_edge RvReviewing s = (s \<in> {RvCommenting, RvFailed, RvQueued})"
| "review_edge RvCommenting s = (s \<in> {RvCompleted, RvFailed, RvQueued})"
| "review_edge RvCompleted s = False"
| "review_edge RvFailed s = False"

definition review_evolves :: "review_row list \<Rightarrow> review_row list \<Rightarrow> bool" where
  "review_evolves rows rows' \<longleftrightarrow> review_rows_ok rows' \<and>
     (\<forall>r \<in> set rows. \<exists>r' \<in> set rows'. pr_id r' = pr_id r
        \<and> pr_source_message_id r' = pr_source_message_id r \<and> review_edge\<^sup>*\<^sup>* (pr_status r) (pr_status r'))"

lemma evolves_refl: "review_rows_ok rows \<Longrightarrow> review_evolves rows rows"
  by (auto simp: review_evolves_def)

lemma evolves_trans:
  assumes "review_evolves a b" "review_evolves b c"
  shows "review_evolves a c"
  unfolding review_evolves_def
proof (intro conjI ballI)
  fix r assume "r \<in> set a"
  with assms(1) obtain s where s: "s \<in> set b" "pr_id s = pr_id r"
    "pr_source_message_id s = pr_source_message_id r" "review_edge\<^sup>*\<^sup>* (pr_status r) (pr_status s)"
    by (auto simp: review_evolves_def)
  with assms(2) show "\<exists>r' \<in> set c. pr_id r' = pr_id r \<and> pr_source_message_id r' = pr_source_message_id r
      \<and> review_edge\<^sup>*\<^sup>* (pr_status r) (pr_status r')"
    unfolding review_evolves_def by (metis rtranclp_trans)
qed (use assms(2) in \<open>simp add: review_evolves_def\<close>)

text \<open>The rule all statements share: judge the statement on one sound row it selects.\<close>

lemma update_evolves:
  assumes "review_rows_ok rows"
    and "\<And>r. pr_id (f r) = pr_id r \<and> pr_source_message_id (f r) = pr_source_message_id r"
    and "\<And>r. review_row_ok r \<Longrightarrow> p r \<Longrightarrow> review_row_ok (f r)
            \<and> (pr_status (f r) = pr_status r \<or> review_edge (pr_status r) (pr_status (f r)))"
  shows "review_evolves rows (sql_update p f rows)"
  unfolding review_evolves_def review_rows_ok_def
proof (intro conjI ballI)
  show "distinct (map pr_id (sql_update p f rows))"
    "distinct (map pr_source_message_id (sql_update p f rows))"
    using assms(1,2) by (simp_all add: review_rows_ok_def map_sql_update)
  show "list_all review_row_ok (sql_update p f rows)"
    using assms(1,3) by (auto simp: review_rows_ok_def list_all_iff set_sql_update)
  fix r assume r: "r \<in> set rows"
  then have "(if p r then f r else r) \<in> set (sql_update p f rows)" by (auto simp: set_sql_update)
  moreover have "review_edge\<^sup>*\<^sup>* (pr_status r) (pr_status (if p r then f r else r))"
  proof (cases "p r")
    case True
    have "review_row_ok r" using assms(1) r by (simp add: review_rows_ok_def list_all_iff)
    from assms(3) [OF this True] True show ?thesis by auto
  qed simp
  ultimately show "\<exists>r' \<in> set (sql_update p f rows). pr_id r' = pr_id r
      \<and> pr_source_message_id r' = pr_source_message_id r \<and> review_edge\<^sup>*\<^sup>* (pr_status r) (pr_status r')"
    using assms(2) by (intro bexI [of _ "if p r then f r else r"]) auto
qed

lemma enqueue_evolves:
  assumes "review_rows_ok rows"
  shows "review_evolves rows (snd (enqueue_review bad uni forges url source key now db rows))"
proof -
  have row: "review_row_ok (new_review i repository number url key chat message sender now)"
    for i repository number message sender chat
    by (simp add: review_row_ok_def new_review_def review_status_sets)
  have new: "review_evolves rows (rows @ [new_review (fresh_id (map pr_id rows)) repository number url key chat message sender now])"
    if "message \<notin> pr_source_message_id ` set rows" for repository number chat message sender
    using assms that row fresh_id_notin [of "map pr_id rows"]
    by (auto simp: review_evolves_def review_rows_ok_def new_review_def)
  show ?thesis
    using evolves_refl [OF assms] new
    by (auto simp: enqueue_review_def enqueue_pr_review_def Let_def split: sum.split prod.split option.split)
qed

lemma apply_evolves:
  assumes "review_rows_ok rows"
  shows "review_evolves rows (review_apply op rows)"
proof (cases op)
  case (RvEnqueue bad uni forges url source key now db)
  then show ?thesis by (simp add: enqueue_evolves [OF assms])
next
  case (RvClaim i k key now)
  have "review_evolves rows (snd (claim_review i k key now rows))"
    unfolding claim_review_def Let_def snd_conv
    by (rule update_evolves [OF assms]) (auto simp: review_row_ok_def review_status_sets)
  with RvClaim show ?thesis by simp
next
  case (RvRecord i s k base head)
  have "review_evolves rows (snd (record_revision i s k base head rows))"
    unfolding record_revision_def expected_update_def snd_conv
    by (rule update_evolves [OF assms]) (auto simp: review_row_ok_def)
  with RvRecord show ?thesis by simp
next
  case (RvStart i k)
  have "review_evolves rows (snd (review_transition i RvPreparing RvReviewing k rows))"
    unfolding review_transition_def expected_update_def snd_conv
    by (rule update_evolves [OF assms]) (auto simp: review_row_ok_def review_status_sets owned_by_def)
  with RvStart show ?thesis by simp
next
  case (RvComment i k result)
  have "review_evolves rows (snd (set_commenting i RvReviewing k result rows))"
    unfolding set_commenting_def expected_update_def snd_conv
    by (rule update_evolves [OF assms]) (auto simp: review_row_ok_def review_status_sets owned_by_def)
  with RvComment show ?thesis by simp
next
  case (RvComplete i k url now)
  have "review_evolves rows (snd (complete_review i RvCommenting k url now rows))"
    unfolding complete_review_def expected_update_def snd_conv
    by (rule update_evolves [OF assms]) (auto simp: review_row_ok_def review_status_sets owned_by_def)
  with RvComplete show ?thesis by simp
next
  case (RvFail i s k e summary now)
  let ?f = "\<lambda>r. r\<lparr>pr_status := RvFailed, pr_claim_token := None, pr_claim_expires_at := None,
    pr_failure_code := Some (classify_exception e), pr_failure_summary := Some summary, pr_finished_at := Some now\<rparr>"
  have sound: "review_row_ok (?f r) \<and> (pr_status (?f r) = pr_status r \<or> review_edge (pr_status r) (pr_status (?f r)))"
    if "review_row_ok r" "owned_by i s k r" for r
  proof -
    have a: "pr_status r \<in> set ACTIVE_STATUSES" using that by (simp add: review_row_ok_def owned_by_def)
    then have "review_edge (pr_status r) RvFailed" "pr_status r \<noteq> RvCompleted"
      unfolding review_status_sets by auto
    moreover from this(2) have "pr_comment_url r = None" using that(1) by (simp add: review_row_ok_def)
    ultimately show ?thesis by (simp add: review_row_ok_def review_status_sets)
  qed
  have "review_evolves rows (snd (fail_review i s k e summary now rows))"
    unfolding fail_review_def snd_conv by (rule update_evolves [OF assms _ sound]) simp_all
  with RvFail show ?thesis by simp
next
  case (RvRenew i k now)
  have "review_evolves rows (snd (renew_review i k now rows))"
    unfolding renew_review_def lease_renew_def snd_conv
    by (rule update_evolves [OF assms])
      (auto simp: review_row_ok_def lease_held_def review_lease_model_def)
  with RvRenew show ?thesis by simp
next
  case (RvNote i s kind)
  have "review_evolves rows (record_notification_failure i s kind rows)"
    unfolding record_notification_failure_def Let_def
    by (rule update_evolves [OF assms]) (auto simp: review_row_ok_def split: option.splits)
  with RvNote show ?thesis by simp
next
  case (RvRecover now)
  have "review_evolves rows (snd (recover_reviews now rows))"
    unfolding recover_reviews_def snd_conv
    by (rule update_evolves [OF assms]) (auto simp: review_row_ok_def review_status_sets review_expired_def)
  with RvRecover show ?thesis by simp
qed

lemma terminal_review_stays:
  assumes "review_edge\<^sup>*\<^sup>* s t" "s = RvCompleted \<or> s = RvFailed"
  shows "t = s"
  using assms by (induction rule: rtranclp_induct) auto

text \<open>A worker's statement in a table with distinct keys: it found its row, or it wrote nothing.\<close>

lemma expected_update_cases:
  assumes "distinct (map pr_id rows)"
  shows "if \<exists>r. get_review i rows = Some r \<and> owned_by i s k r
         then fst (expected_update i s k f rows) = Inr ()
         else expected_update i s k f rows = (Inl (raise_exc PRClaimLost []), rows)"
proof -
  let ?o = "owned_by i s k"
  have key: "?o r \<Longrightarrow> pr_id r = i" for r by (simp add: owned_by_def)
  have one: "sql_count ?o rows = 1 \<longleftrightarrow> (\<exists>r \<in> set rows. ?o r)"
    by (rule sql_count_key_iff [OF assms key])
  have "(\<exists>r. get_review i rows = Some r \<and> ?o r) \<longleftrightarrow> (\<exists>r \<in> set rows. ?o r)"
    using find_key_Some [OF assms, of _ "\<lambda>r. pr_id r = i" i] key
    by (auto simp: get_review_def dest!: find_SomeD)
  with one show ?thesis
    by (auto simp: expected_update_def intro: sql_update_id)
qed

section \<open>Properties\<close>

text \<open>
  C35: the table of reviews stays sound and reviews move only along the status graph, whatever requests,
  recoveries and workers (stale ones too) do to it and in whatever order.  A row carries a claim exactly
  while it is being worked on, a comment exactly when it is completed, a code and a summary when it failed;
  keys and messages stay unique; a completed or failed review never changes its status again.
\<close>

theorem review_rows_stay_sound:
  assumes "review_rows_ok rows"
  shows "review_rows_ok (fold review_apply ops rows)
    \<and> (\<forall>r \<in> set rows. \<exists>r' \<in> set (fold review_apply ops rows). pr_id r' = pr_id r
         \<and> pr_source_message_id r' = pr_source_message_id r
         \<and> review_edge\<^sup>*\<^sup>* (pr_status r) (pr_status r')
         \<and> (pr_status r \<in> {RvCompleted, RvFailed} \<longrightarrow> pr_status r' = pr_status r))"
proof -
  have "review_evolves rows (fold review_apply ops rows)"
    using assms
  proof (induction ops arbitrary: rows)
    case (Cons op ops)
    have step: "review_evolves rows (review_apply op rows)" by (rule apply_evolves [OF Cons.prems])
    then have "review_rows_ok (review_apply op rows)" by (simp add: review_evolves_def)
    from evolves_trans [OF step Cons.IH [OF this]] show ?case by simp
  qed (simp add: evolves_refl)
  then show ?thesis
    unfolding review_evolves_def using terminal_review_stays by (metis insertE singletonD)
qed

definition sample_review :: review_row where
  "sample_review = new_review 1 1 7 [117] [107] [99] [109] [115] 0"

theorem review_rows_stay_sound_witness:
  "review_rows_ok (fold review_apply
     [RvClaim 1 [5] [6] 1, RvStart 1 [5], RvRecover 1, RvStart 1 [4] :: nat review_op] [sample_review])
   \<and> map pr_status (fold review_apply
     [RvClaim 1 [5] [6] 1, RvStart 1 [5], RvRecover 1, RvStart 1 [4] :: nat review_op] [sample_review]) = [RvReviewing]"
proof (intro conjI)
  have "review_rows_ok [sample_review]"
    by (simp add: review_rows_ok_def review_row_ok_def sample_review_def new_review_def review_status_sets)
  then show "review_rows_ok (fold review_apply
     [RvClaim 1 [5] [6] 1, RvStart 1 [5], RvRecover 1, RvStart 1 [4] :: nat review_op] [sample_review])"
    using review_rows_stay_sound by blast
qed (simp add: sample_review_def new_review_def claim_review_def review_transition_def expected_update_def
    owned_by_def recover_reviews_def review_expired_def review_status_sets seconds_def CLAIM_LEASE_SECONDS_def)

text \<open>Recovery frees exactly the expired rows, and the tick takes the oldest queued review when nothing runs.\<close>

lemma recover_reviews_frees:
  assumes "review_rows_ok rows"
  shows "list_all (\<lambda>r. \<not> review_expired now r) (snd (recover_reviews now rows))"
  by (auto simp: recover_reviews_def list_all_iff set_sql_update review_expired_def review_status_sets)

lemma review_tick_starts_oldest:
  assumes "review_tick True now workers rows = ((busy, Some i), rows')"
  shows "list_all snd workers \<and> busy = [i] \<and> (\<exists>r \<in> set rows'. pr_id r = i \<and> pr_status r = RvQueued
    \<and> (\<forall>s \<in> set rows'. pr_status s = RvQueued \<longrightarrow> (pr_created_at r, i) \<le> (pr_created_at s, pr_id s)))"
proof -
  let ?q = "queued_reviews rows'" and ?key = "\<lambda>r. (pr_created_at r, pr_id r)"
  have workers: "list_all snd workers"
    using assms by (auto simp: review_tick_def Let_def list_all_iff filter_empty_conv split: if_splits list.splits)
  obtain r rs where q: "?q = r # rs" "pr_id r = i" "busy = [i]"
    using assms by (auto simp: review_tick_def Let_def split: if_splits list.splits)
  have "sorted (map ?key ?q)" by (simp add: queued_reviews_def)
  then have "\<forall>s \<in> set ?q. ?key r \<le> ?key s" using q(1) by auto
  moreover have "set ?q = {s \<in> set rows'. pr_status s = RvQueued}" by (simp add: queued_reviews_def)
  moreover have "r \<in> set ?q" using q(1) by simp
  ultimately show ?thesis using workers q(2,3) by blast
qed

end
