(* ===== verification/Py_Re.thy ===== *)
theory Py_Re
  imports Py_Url
begin

text \<open>
  The part of Python's \<open>re\<close> the program uses: patterns over text with the backtracking order of the matcher, so
  that the first element of \<open>ends\<close> is the match \<open>re\<close> finds.  \<open>alnum\<close> stands for the Unicode database's
  classification of the characters beyond ASCII.
\<close>

datatype re =
    REps
  | RChar "nat \<Rightarrow> bool"
  | RBound
  | RSeq re re
  | ROr re re
  | RStar re

text \<open>A position in the text: the character before it and the text after it.\<close>

type_synonym cursor = "nat option \<times> pystr"

definition word_char :: "(nat \<Rightarrow> bool) \<Rightarrow> nat \<Rightarrow> bool" where
  "word_char alnum c = ((if c < 128 then is_alnum c else alnum c) \<or> c = 95)"

definition at_boundary :: "(nat \<Rightarrow> bool) \<Rightarrow> cursor \<Rightarrow> bool" where
  "at_boundary alnum p =
     ((case fst p of None \<Rightarrow> False | Some c \<Rightarrow> word_char alnum c)
      \<noteq> (case snd p of [] \<Rightarrow> False | c # _ \<Rightarrow> word_char alnum c))"

text \<open>Greedy repetition: longest first, every round consuming something.\<close>

primrec repeat_ends :: "(cursor \<Rightarrow> cursor list) \<Rightarrow> nat \<Rightarrow> cursor \<Rightarrow> cursor list" where
  "repeat_ends f 0 p = [p]"
| "repeat_ends f (Suc n) p =
     concat (map (\<lambda>q. if length (snd q) < length (snd p) then repeat_ends f n q else []) (f p)) @ [p]"

primrec ends :: "(nat \<Rightarrow> bool) \<Rightarrow> re \<Rightarrow> cursor \<Rightarrow> cursor list" where
  "ends alnum REps p = [p]"
| "ends alnum (RChar f) p = (case snd p of [] \<Rightarrow> [] | c # cs \<Rightarrow> if f c then [(Some c, cs)] else [])"
| "ends alnum RBound p = (if at_boundary alnum p then [p] else [])"
| "ends alnum (RSeq a b) p = concat (map (ends alnum b) (ends alnum a p))"
| "ends alnum (ROr a b) p = ends alnum a p @ ends alnum b p"
| "ends alnum (RStar a) p = repeat_ends (ends alnum a) (length (snd p)) p"

text \<open>\<open>bool(re.search(..))\<close>, and \<open>re.sub\<close> for a pattern that matches no empty text.\<close>

fun re_search :: "(nat \<Rightarrow> bool) \<Rightarrow> re \<Rightarrow> nat option \<Rightarrow> pystr \<Rightarrow> bool" where
  "re_search alnum r before_char [] = (ends alnum r (before_char, []) \<noteq> [])"
| "re_search alnum r before_char (c # cs) =
     (ends alnum r (before_char, c # cs) \<noteq> [] \<or> re_search alnum r (Some c) cs)"

definition search :: "(nat \<Rightarrow> bool) \<Rightarrow> re \<Rightarrow> pystr \<Rightarrow> bool" where
  "search alnum r s = re_search alnum r None s"

function sub_from :: "(nat \<Rightarrow> bool) \<Rightarrow> re \<Rightarrow> pystr \<Rightarrow> nat option \<Rightarrow> pystr \<Rightarrow> pystr" where
  "sub_from alnum r new before_char [] = []"
| "sub_from alnum r new before_char (c # cs) =
     (case ends alnum r (before_char, c # cs) of
        [] \<Rightarrow> c # sub_from alnum r new (Some c) cs
      | q # _ \<Rightarrow> if length (snd q) \<le> length cs then new @ sub_from alnum r new (fst q) (snd q)
                else c # sub_from alnum r new (Some c) cs)"
  by pat_completeness auto

termination
  by (relation "measure (\<lambda>(_, _, _, _, s). length s)") auto

definition re_sub :: "(nat \<Rightarrow> bool) \<Rightarrow> re \<Rightarrow> pystr \<Rightarrow> pystr \<Rightarrow> pystr" where
  "re_sub alnum r new s = sub_from alnum r new None s"

section \<open>Building patterns\<close>

text \<open>
  \<open>re.IGNORECASE\<close> on a letter: its two cases, and the four letters beyond ASCII that Unicode folds to i, s
  and k.
\<close>

definition fold_char :: "nat \<Rightarrow> nat \<Rightarrow> bool" where
  "fold_char a c =
     (c = a \<or> 97 \<le> a \<and> a \<le> 122 \<and> c + 32 = a \<or> a = 105 \<and> (c = 304 \<or> c = 305) \<or> a = 115 \<and> c = 383
      \<or> a = 107 \<and> c = 8490)"

definition RLit :: "string \<Rightarrow> re" where
  "RLit s = foldr (\<lambda>c r. RSeq (RChar (\<lambda>x. x = c)) r) (U s) REps"

definition RLitI :: "string \<Rightarrow> re" where
  "RLitI s = foldr (\<lambda>c r. RSeq (RChar (fold_char c)) r) (U s) REps"

definition ROpt :: "re \<Rightarrow> re" where
  "ROpt r = ROr r REps"

definition RPlus :: "re \<Rightarrow> re" where
  "RPlus r = RSeq r (RStar r)"

definition ROneOf :: "re list \<Rightarrow> re" where
  "ROneOf rs = foldr ROr (butlast rs) (last rs)"

definition RSeqs :: "re list \<Rightarrow> re" where
  "RSeqs rs = foldr RSeq rs REps"

definition RAny :: re where \<comment> \<open>the dot, without \<open>DOTALL\<close>\<close>
  "RAny = RChar (\<lambda>c. c \<noteq> 10)"

definition RDigit :: "(nat \<Rightarrow> bool) \<Rightarrow> re" where \<comment> \<open>the class of decimal digits\<close>
  "RDigit dec = RChar (\<lambda>c. 48 \<le> c \<and> c \<le> 57 \<or> 128 \<le> c \<and> dec c)"

definition RSpace :: re where
  "RSpace = RChar isspace"

section \<open>Matches are where they say\<close>

lemma repeat_ends_suffix:
  assumes "\<And>p q. q \<in> set (f p) \<Longrightarrow> suffix (snd q) (snd p)"
  shows "q \<in> set (repeat_ends f n p) \<Longrightarrow> suffix (snd q) (snd p)"
proof (induction n arbitrary: p)
  case (Suc n)
  then show ?case by (auto split: if_splits dest: assms intro: suffix_order.trans)
qed simp

lemma ends_suffix: "q \<in> set (ends alnum r p) \<Longrightarrow> suffix (snd q) (snd p)"
proof (induction r arbitrary: p q)
  case (RSeq a b)
  from RSeq.prems obtain m where m: "m \<in> set (ends alnum a p)" "q \<in> set (ends alnum b m)" by auto
  from suffix_order.trans [OF RSeq.IH(2) [OF m(2)] RSeq.IH(1) [OF m(1)]] show ?case .
next
  case (RStar a)
  from repeat_ends_suffix [OF RStar.IH] RStar.prems show ?case by simp
qed (auto split: list.splits if_splits intro: suffix_ConsI)

text \<open>What no pattern finds, no substitution changes.\<close>

lemma sub_from_unmatched: "\<not> re_search alnum r b s \<Longrightarrow> sub_from alnum r new b s = s"
  by (induction alnum r b s rule: re_search.induct) auto

lemma re_sub_unmatched: "\<not> search alnum r s \<Longrightarrow> re_sub alnum r new s = s"
  by (simp add: re_sub_def search_def sub_from_unmatched)

end
