(* ===== verification/Py_Text.thy ===== *)
theory Py_Text
  imports Py_Url
begin

text \<open>
  More of Python's text library, for the review output: \<open>html.escape\<close>, \<open>urllib.parse.quote\<close>, \<open>str.split\<close> on
  a longer separator, \<open>str.split()\<close>, \<open>PurePosixPath.name\<close> and \<open>shlex.split\<close>.
\<close>

section \<open>Escaping\<close>

text \<open>\<open>html.escape(s, quote=False)\<close>\<close>

fun html_char :: "nat \<Rightarrow> pystr" where
  "html_char c = (if c = 38 then U ''&amp;'' else if c = 60 then U ''&lt;'' else if c = 62 then U ''&gt;'' else [c])"

definition html_escape :: "pystr \<Rightarrow> pystr" where
  "html_escape s = concat (map html_char s)"

lemma html_char_no_angle: "60 \<notin> set (html_char c)" "62 \<notin> set (html_char c)"
  by (simp_all add: U_def)

lemma html_escape_no_angle [simp]: "60 \<notin> set (html_escape s)" "62 \<notin> set (html_escape s)"
  using html_char_no_angle by (auto simp: html_escape_def simp del: html_char.simps)

text \<open>The UTF-8 bytes of a code point (surrogates do not occur in the modelled strings).\<close>

definition utf8 :: "nat \<Rightarrow> nat list" where
  "utf8 c =
     (if c < 128 then [c]
      else if c < 2048 then [192 + c div 64, 128 + c mod 64]
      else if c < 65536 then [224 + c div 4096, 128 + c div 64 mod 64, 128 + c mod 64]
      else [240 + c div 262144 mod 8, 128 + c div 4096 mod 64, 128 + c div 64 mod 64, 128 + c mod 64])"

definition hex_digit :: "nat \<Rightarrow> nat" where
  "hex_digit d = (if d < 10 then 48 + d else 55 + d)"

definition unreserved :: "nat \<Rightarrow> bool" where
  "unreserved c = (is_alnum c \<or> c \<in> {45, 46, 95, 126})"

definition quote_byte :: "pystr \<Rightarrow> nat \<Rightarrow> pystr" where
  "quote_byte safe b = (if unreserved b \<or> b \<in> set safe then [b] else [37, hex_digit (b div 16), hex_digit (b mod 16)])"

text \<open>\<open>quote(s, safe=..)\<close>\<close>

definition quote :: "pystr \<Rightarrow> pystr \<Rightarrow> pystr" where
  "quote safe s = concat (map (quote_byte safe) (concat (map utf8 s)))"

lemma utf8_bytes: "list_all (\<lambda>b. b < 256) (utf8 c)"
proof -
  have m: "x + n mod 64 < 256" if "x \<le> 192" for x n :: nat
    using that mod_less_divisor [of 64 n] by linarith
  consider "c < 128" | "128 \<le> c" "c < 2048" | "2048 \<le> c" "c < 65536" | "65536 \<le> c" by linarith
  then show ?thesis
  proof cases
    case 2
    have "c div 64 < 32" using 2(2) by simp
    with 2 m show ?thesis by (simp add: utf8_def)
  next
    case 3
    have "c div 4096 < 16" using 3(2) by simp
    with 3 m show ?thesis by (simp add: utf8_def)
  next
    case 4
    have "c div 262144 mod 8 < 8" by simp
    with 4 m show ?thesis by (simp add: utf8_def)
  qed (simp add: utf8_def)
qed

lemma utf8_byte: "b \<in> set (utf8 c) \<Longrightarrow> b < 256"
  using utf8_bytes [of c] by (simp add: list_all_iff)

lemma hex_digit_unreserved: "d < 16 \<Longrightarrow> unreserved (hex_digit d)"
  by (auto simp: hex_digit_def unreserved_def is_alnum_def is_alpha_def)

text \<open>A quoted text holds unreserved characters, the safe ones and percent signs.\<close>

lemma quote_byte_char:
  assumes "b < 256" "x \<in> set (quote_byte safe b)"
  shows "unreserved x \<or> x \<in> set safe \<or> x = 37"
proof -
  have "b div 16 < 16" "b mod 16 < 16" using assms(1) by simp_all
  then have "unreserved (hex_digit (b div 16))" "unreserved (hex_digit (b mod 16))"
    by (simp_all add: hex_digit_unreserved)
  with assms(2) show ?thesis by (auto simp: quote_byte_def split: if_splits)
qed

lemma quote_char: "x \<in> set (quote safe s) \<Longrightarrow> unreserved x \<or> x \<in> set safe \<or> x = 37"
  unfolding quote_def by (auto dest: utf8_byte dest!: quote_byte_char)

lemma quote_notin: "\<not> unreserved c \<Longrightarrow> c \<notin> set safe \<Longrightarrow> c \<noteq> 37 \<Longrightarrow> c \<notin> set (quote safe s)"
  by (blast dest: quote_char)

section \<open>Splitting\<close>

text \<open>\<open>s.split(sep)\<close> for a non-empty separator; \<open>word\<close> is the reversed current part.\<close>

function split_str_acc :: "pystr \<Rightarrow> pystr \<Rightarrow> pystr \<Rightarrow> pystr list" where
  "split_str_acc sep word [] = [rev word]"
| "split_str_acc sep word (c # cs) =
     (if sep \<noteq> [] \<and> startswith (c # cs) sep
      then rev word # split_str_acc sep [] (drop (length sep) (c # cs))
      else split_str_acc sep (c # word) cs)"
  by pat_completeness auto

termination
  by (relation "measure (\<lambda>(_, _, s). length s)") auto

definition split_str :: "pystr \<Rightarrow> pystr \<Rightarrow> pystr list" where
  "split_str sep s = split_str_acc sep [] s"

text \<open>\<open>s.split()\<close>: the words between runs of whitespace.\<close>

fun words_acc :: "pystr \<Rightarrow> pystr \<Rightarrow> pystr list" where
  "words_acc word [] = (if word = [] then [] else [rev word])"
| "words_acc word (c # cs) =
     (if isspace c then (if word = [] then words_acc [] cs else rev word # words_acc [] cs)
      else words_acc (c # word) cs)"

definition words :: "pystr \<Rightarrow> pystr list" where
  "words s = words_acc [] s"

text \<open>\<open>s.replace(old, new)\<close> for a non-empty \<open>old\<close>.\<close>

definition replace_str :: "pystr \<Rightarrow> pystr \<Rightarrow> pystr \<Rightarrow> pystr" where
  "replace_str old new s = join_with new (split_str old s)"

text \<open>\<open>Path(p).name\<close> on POSIX: the last part that is neither empty nor a dot.\<close>

definition path_name :: "pystr \<Rightarrow> pystr" where
  "path_name p =
     (let parts = filter (\<lambda>x. x \<noteq> [] \<and> x \<noteq> U ''.'') (split_on 47 p) in if parts = [] then [] else last parts)"

section \<open>shlex.split\<close>

text \<open>
  The POSIX lexer with \<open>whitespace_split\<close> and without comments: between words, in a word, in a quotation, after
  a backslash in either.  \<open>None\<close> is the \<open>ValueError\<close> of an open quotation or a final backslash.
\<close>

datatype shlex_state = InGap | InWord | InQuote nat | Escaped | QuoteEscaped nat

definition shlex_space :: "nat \<Rightarrow> bool" where
  "shlex_space c = (c \<in> {32, 9, 13, 10})"

fun shlex_run :: "shlex_state \<Rightarrow> pystr \<Rightarrow> bool \<Rightarrow> pystr \<Rightarrow> pystr list option" where
  "shlex_run InGap word quoted [] = Some (if quoted \<or> word \<noteq> [] then [rev word] else [])"
| "shlex_run InWord word quoted [] = Some (if quoted \<or> word \<noteq> [] then [rev word] else [])"
| "shlex_run (InQuote q) word quoted [] = None"
| "shlex_run Escaped word quoted [] = None"
| "shlex_run (QuoteEscaped q) word quoted [] = None"
| "shlex_run InGap word quoted (c # cs) =
     (if shlex_space c
      then (if quoted \<or> word \<noteq> [] then map_option ((#) (rev word)) (shlex_run InGap [] False cs)
            else shlex_run InGap [] False cs)
      else if c = 92 then shlex_run Escaped word quoted cs
      else if c = 34 \<or> c = 39 then shlex_run (InQuote c) word quoted cs
      else shlex_run InWord [c] quoted cs)"
| "shlex_run InWord word quoted (c # cs) =
     (if shlex_space c
      then (if quoted \<or> word \<noteq> [] then map_option ((#) (rev word)) (shlex_run InGap [] False cs)
            else shlex_run InGap [] False cs)
      else if c = 34 \<or> c = 39 then shlex_run (InQuote c) word quoted cs
      else if c = 92 then shlex_run Escaped word quoted cs
      else shlex_run InWord (c # word) quoted cs)"
| "shlex_run (InQuote q) word quoted (c # cs) =
     (if c = q then shlex_run InWord word True cs
      else if c = 92 \<and> q = 34 then shlex_run (QuoteEscaped q) word True cs
      else shlex_run (InQuote q) (c # word) True cs)"
| "shlex_run Escaped word quoted (c # cs) = shlex_run InWord (c # word) quoted cs"
| "shlex_run (QuoteEscaped q) word quoted (c # cs) =
     shlex_run (InQuote q) (if c \<noteq> 92 \<and> c \<noteq> q then c # 92 # word else c # word) quoted cs"

definition shlex_split :: "pystr \<Rightarrow> pystr list option" where
  "shlex_split s = shlex_run InGap [] False s"

end
