(* ===== verification/Redaction.thy ===== *)
theory Redaction
  imports Py_Re Py_Text Review_Models Runner_Protocol
begin

text \<open>
  What keeps credentials and server paths out of texts that leave the server:
  \<open>PRReviewOrchestrator._redact_text\<close>, \<open>_redact_output\<close> and \<open>_agent_failure_detail\<close>
  (\<open>pr_review/orchestrator.py\<close>) and the extraction of model transport errors (\<open>pr_review/upstream_errors.py\<close>).
\<close>

section \<open>Replacing secrets\<close>

definition REDACTED :: pystr where
  "REDACTED = U ''[REDACTED]''"

text \<open>\<open>_redact_text\<close>: longest first.  The set of secrets is a list without repetitions, in the set's order.\<close>

definition longest_first :: "pystr list \<Rightarrow> pystr list" where
  "longest_first secrets = sort_key (\<lambda>s. - int (length s)) secrets"

definition redact_text :: "pystr list \<Rightarrow> pystr \<Rightarrow> pystr" where
  "redact_text secrets value = foldl (\<lambda>v s. replace_str s REDACTED v) value (longest_first secrets)"

definition path_spellings :: "pystr \<Rightarrow> pystr list" where
  "path_spellings p = [p, map (\<lambda>c. if c = 92 then 47 else c) p, map (\<lambda>c. if c = 47 then 92 else c) p]"

text \<open>The sensitive values of a review: the stage's proxy token, the model's secrets and the workspace.\<close>

definition sensitive_values :: "pystr option \<Rightarrow> pystr list \<Rightarrow> pystr \<Rightarrow> pystr list" where
  "sensitive_values proxy_token extra absolute =
     remdups (filter (\<lambda>s. s \<noteq> [])
       ((case proxy_token of None \<Rightarrow> [] | Some t \<Rightarrow> [t]) @ extra @ path_spellings absolute))"

section \<open>Redacting a review\<close>

definition finding_json :: "review_finding \<Rightarrow> (pystr \<times> json) list" where
  "finding_json f = zip FINDING_FIELDS [JStr (rf_priority f), JStr (rf_title f), JStr (rf_file_path f),
     JStr (rf_line_side f), JInt (rf_line_start f), JInt (rf_line_end f), JStr (rf_problem f),
     JStr (rf_impact f), JStr (rf_suggestion f)]"

text \<open>\<open>output.model_dump(mode="json")\<close>; the private attribute is not dumped.\<close>

definition output_json :: "review_output \<Rightarrow> json" where
  "output_json out = JObj [(U ''change_summary'', JList (map JStr (ro_change_summary out))),
     (U ''findings'', JList (map (JObj \<circ> finding_json) (ro_findings out)))]"

fun redact_json :: "pystr list \<Rightarrow> json \<Rightarrow> json" where
  "redact_json secrets (JStr s) = JStr (redact_text secrets s)"
| "redact_json secrets (JList xs) = JList (map (redact_json secrets) xs)"
| "redact_json secrets (JObj d) = JObj (map (\<lambda>(k, v). (k, redact_json secrets v)) d)"
| "redact_json secrets v = v"

definition redact_output :: "pystr list \<Rightarrow> review_output \<Rightarrow> pyexc + review_output" where
  "redact_output secrets out =
     (case validate_output (redact_json secrets (output_json out)) of
        None \<Rightarrow> Inl (raise_exc ValidationError [])
      | Some safe \<Rightarrow> Inr safe)"

section \<open>Model transport errors\<close>

definition MAX_UPSTREAM :: nat where
  "MAX_UPSTREAM = 280"

definition URL_PATTERN :: re where
  "URL_PATTERN = RSeqs [ROr (RSeq (RLit ''http'') (ROpt (RLit ''s''))) (RSeq (RLit ''ws'') (ROpt (RLit ''s''))),
     RLit ''://'', RPlus (RChar (\<lambda>c. \<not> isspace c \<and> c \<notin> {34, 60, 62}))]"

definition BEARER_PATTERN :: re where
  "BEARER_PATTERN = RSeqs [RBound, RLitI ''bearer'', RPlus RSpace, RPlus (RChar (\<lambda>c. \<not> isspace c))]"

definition KEY_PATTERN :: re where
  "KEY_PATTERN = RSeqs [RBound, RLit ''sk-'', RPlus (RChar (\<lambda>c. is_alnum c \<or> c = 95 \<or> c = 45))]"

definition CREDENTIAL_PATTERN :: re where
  "CREDENTIAL_PATTERN =
     (let gap = ROpt (RChar (\<lambda>c. c \<in> {32, 95, 45})); quoted = (\<lambda>q. RSeqs [RChar (\<lambda>c. c = q),
            RStar (RChar (\<lambda>c. c \<noteq> q)), RChar (\<lambda>c. c = q)])
      in RSeqs [ROneOf [RSeqs [RLitI ''api'', gap, RLitI ''key'', ROpt (RLitI '' provided'')],
                  RSeqs [RLitI ''access'', gap, RLitI ''token''], RLitI ''token'', RLitI ''secret'',
                  RLitI ''authorization''],
           ROpt (RChar (\<lambda>c. c \<in> {34, 39})), RStar RSpace, RChar (\<lambda>c. c \<in> {58, 61}), RStar RSpace,
           ROneOf [quoted 34, quoted 39, RPlus (RChar (\<lambda>c. \<not> isspace c \<and> c \<notin> {44, 59}))]])"

definition redact_upstream_message :: "(nat \<Rightarrow> bool) \<Rightarrow> pystr \<Rightarrow> pystr list \<Rightarrow> pystr" where
  "redact_upstream_message alnum message secrets =
     (let m = redact_text (filter (\<lambda>s. s \<noteq> []) secrets) message;
          m = re_sub alnum URL_PATTERN (U ''[URL REDACTED]'') m;
          m = re_sub alnum BEARER_PATTERN (U ''Bearer [REDACTED]'') m;
          m = re_sub alnum KEY_PATTERN REDACTED m;
          m = re_sub alnum CREDENTIAL_PATTERN (U ''credential=[REDACTED]'') m
      in take MAX_UPSTREAM (join_with [32] (words m)))"

text \<open>\<open>dec\<close> is the Unicode database's class of decimal digits beyond ASCII.\<close>

definition error_status :: "(nat \<Rightarrow> bool) \<Rightarrow> re" where
  "error_status dec = RSeqs [RBound, RChar (\<lambda>c. c \<in> {52, 53}), RDigit dec, RDigit dec, RBound]"

definition UPSTREAM_PATTERN :: "(nat \<Rightarrow> bool) \<Rightarrow> re" where
  "UPSTREAM_PATTERN dec = ROneOf
     [error_status dec, RLitI ''high demand'', RSeqs [RLitI ''rate'', ROpt RAny, RLitI ''limit''],
      RLitI ''too many requests'', RLitI ''overload'', RLitI ''quota'',
      RSeqs [RLitI ''invalid'', RAny, RLitI ''api'', RAny, RLitI ''key''],
      RSeqs [RLitI ''incorrect'', RAny, RLitI ''api'', RAny, RLitI ''key''], RLitI ''authentication'',
      RLitI ''unauthorized'', RLitI ''service unavailable'', RLitI ''bad gateway'',
      RSeqs [RLitI ''model'', RStar RAny, ROr (RLitI ''not found'') (RLitI ''does not exist'')],
      RSeqs [RLitI ''context'', RAny, RLitI ''length''], RLitI ''context window'',
      RSeqs [RLitI ''invalid'', RAny, RLitI ''request''],
      RSeqs [RLitI ''failed to '', ROr (RLitI ''send'') (RLitI ''connect'')],
      RLitI ''error sending request'', RLitI ''stream disconnect'',
      RSeqs [RLitI ''connection '', ROr (RLitI ''reset'') (RLitI ''refused'')],
      RLitI ''request timed out'', RLitI ''server error'', RLitI ''upstream'']"

definition STDERR_PATTERN :: "(nat \<Rightarrow> bool) \<Rightarrow> re" where
  "STDERR_PATTERN dec = ROneOf
     [RLitI ''model call failed'', RLitI ''unexpected status'',
      RSeqs [RLitI ''error'', RStar RAny, error_status dec]]"

record unicode_classes =
  uc_alnum :: "nat \<Rightarrow> bool"
  uc_decimal :: "nat \<Rightarrow> bool"

definition upstream_like :: "unicode_classes \<Rightarrow> pystr \<Rightarrow> bool" where
  "upstream_like uc = search (uc_alnum uc) (UPSTREAM_PATTERN (uc_decimal uc))"

fun json_dict :: "json option \<Rightarrow> (pystr \<times> json) list option" where
  "json_dict (Some (JObj d)) = Some d"
| "json_dict _ = None"

definition event_message :: "(pystr \<times> json) list \<Rightarrow> json option" where
  "event_message d =
     (if dict_get d (U ''type'') = Some (JStr (U ''error'')) then dict_get d (U ''message'')
      else if dict_get d (U ''type'') = Some (JStr (U ''turn.failed''))
        then (case json_dict (dict_get d (U ''error'')) of None \<Rightarrow> None | Some e \<Rightarrow> dict_get e (U ''message''))
      else None)"

definition line_candidate :: "unicode_classes \<Rightarrow> pylib \<Rightarrow> pystr \<Rightarrow> pystr option" where
  "line_candidate uc lib line =
     (case json_dict (loads lib line) of
        None \<Rightarrow> None
      | Some d \<Rightarrow>
          (case event_message d of
             Some (JStr m) \<Rightarrow> if upstream_like uc m then Some m else None
           | _ \<Rightarrow> None))"

definition upstream_candidates :: "unicode_classes \<Rightarrow> pylib \<Rightarrow> job_result \<Rightarrow> pystr list" where
  "upstream_candidates uc lib result =
     (let events = List.map_filter (line_candidate uc lib) (splitlines (jr_stdout result))
      in if events \<noteq> [] then events
         else filter (\<lambda>l. search (uc_alnum uc) (STDERR_PATTERN (uc_decimal uc)) l \<and> upstream_like uc l)
                (splitlines (jr_stderr result)))"

definition upstream_error_message ::
  "unicode_classes \<Rightarrow> pylib \<Rightarrow> job_result \<Rightarrow> pystr option \<Rightarrow> pystr \<Rightarrow> pystr list \<Rightarrow> pystr option" where
  "upstream_error_message uc lib result proxy_token absolute known_secrets =
     (if jr_output_truncated result then None
      else (let candidates = upstream_candidates uc lib result
            in if candidates = [] then None
               else Some (redact_upstream_message (uc_alnum uc) (last candidates)
                      (sensitive_values proxy_token known_secrets absolute))))"

section \<open>The detail of a failed job\<close>

definition MSG_NO_DETAIL :: pystr where \<comment> \<open>the agent wrote no diagnosis\<close>
  "MSG_NO_DETAIL = [20195, 29702, 36827, 31243, 26410, 36755, 20986, 35786, 26029, 20449, 24687]"

definition failure_part :: "pystr list \<Rightarrow> pystr \<Rightarrow> pystr \<Rightarrow> pystr list" where
  "failure_part secrets label stream =
     (if strip stream = [] then []
      else [label @ U '': '' @ join_with [32] (words (py_last 400 (redact_text secrets (strip stream))))])"

definition agent_failure_detail :: "job_result \<Rightarrow> pystr option \<Rightarrow> pystr \<Rightarrow> pystr" where
  "agent_failure_detail result proxy_token absolute =
     (let secrets = sensitive_values proxy_token [] absolute;
          parts = failure_part secrets (U ''stderr'') (jr_stderr result)
                    @ failure_part secrets (U ''stdout'') (jr_stdout result)
      in if parts = [] then MSG_NO_DETAIL else join_with (U '' | '') parts)"

section \<open>Replacement removes\<close>

text \<open>
  \<open>split_str_acc\<close> reads the text once.  The separator starts nowhere in the part collected so far, so no part
  contains it; the parts put together again with the separator are the text.
\<close>

lemma split_acc_parts:
  assumes "sep \<noteq> []" "p \<in> set (split_str_acc sep word s)"
    "\<And>t. suffix t (rev word) \<Longrightarrow> t \<noteq> [] \<Longrightarrow> \<not> startswith (t @ s) sep"
  shows "\<not> contains_str sep p"
  using assms
proof (induction sep word s rule: split_str_acc.induct)
  case (1 sep word)
  then show ?case
    by (auto simp: contains_str_def list_ex_iff set_suffixes_eq startswith_iff)
next
  case (2 sep word c cs)
  have word: "\<not> contains_str sep (rev word)"
  proof
    assume "contains_str sep (rev word)"
    then obtain t where t: "suffix t (rev word)" "startswith t sep"
      by (auto simp: contains_str_def list_ex_iff set_suffixes_eq)
    then have "t \<noteq> []" "startswith (t @ c # cs) sep" using 2(3) by (auto simp: startswith_iff)
    with 2(5) t(1) show False by blast
  qed
  show ?case
  proof (cases "startswith (c # cs) sep")
    case True
    with 2(1,3,4) word show ?thesis by auto
  next
    case False
    have "\<not> startswith (t @ cs) sep" if t: "suffix t (rev (c # word))" "t \<noteq> []" for t
    proof -
      obtain u where u: "t = u @ [c]" "suffix u (rev word)" using t by (auto simp: suffix_snoc)
      show ?thesis
      proof (cases "u = []")
        case True
        with u False show ?thesis by simp
      next
        case False
        from 2(5) [OF u(2) False] u(1) show ?thesis by simp
      qed
    qed
    with 2(2) [OF _ 2(3)] 2(4) False show ?thesis by simp
  qed
qed

lemma split_str_parts: "sep \<noteq> [] \<Longrightarrow> p \<in> set (split_str sep s) \<Longrightarrow> \<not> contains_str sep p"
  unfolding split_str_def by (erule split_acc_parts) (auto simp: suffix_def)

lemma split_acc_infix:
  "p \<in> set (split_str_acc sep word s) \<Longrightarrow> \<exists>l r. rev word @ s = l @ p @ r"
proof (induction sep word s rule: split_str_acc.induct)
  case (1 sep word)
  then show ?case by (intro exI [of _ "[]"]) simp
next
  case (2 sep word c cs)
  show ?case
  proof (cases "sep \<noteq> [] \<and> startswith (c # cs) sep")
    case True
    then obtain rest where rest: "c # cs = sep @ rest" by (auto simp: startswith_iff)
    show ?thesis
    proof (cases "p = rev word")
      case True
      then show ?thesis by (intro exI [of _ "[]"] exI [of _ "c # cs"]) simp
    next
      case False
      with 2(3) True have "p \<in> set (split_str_acc sep [] (drop (length sep) (c # cs)))" by simp
      from 2(1) [OF True this] obtain l r where "rest = l @ p @ r" using rest by auto
      then show ?thesis using rest by (intro exI [of _ "rev word @ sep @ l"] exI [of _ r]) simp
    qed
  next
    case False
    with 2(2) 2(3) show ?thesis by simp
  qed
qed

lemma contains_part: "p \<in> set (split_str sep s) \<Longrightarrow> contains_str k p \<Longrightarrow> contains_str k s"
  unfolding split_str_def contains_str_iff by (drule split_acc_infix) (metis append.assoc append_Nil rev.simps(1))

text \<open>A text without brackets cannot lie across a replacement.\<close>

lemma contains_bracket:
  assumes "b \<notin> set k" "contains_str k (x @ b # y)"
  shows "contains_str k x \<or> contains_str k y"
proof -
  obtain l r where e: "x @ b # y = l @ k @ r" using assms(2) by (auto simp: contains_str_iff)
  show ?thesis
  proof (cases "length (l @ k) \<le> length x")
    case True
    have "l @ k = take (length (l @ k)) (x @ b # y)" by (simp add: e)
    also have "\<dots> = take (length (l @ k)) x" using True by simp
    finally have "x = l @ k @ drop (length (l @ k)) x" by (metis append.assoc append_take_drop_id)
    then show ?thesis unfolding contains_str_iff by blast
  next
    case False
    have "length x < length l"
    proof (rule ccontr)
      assume "\<not> length x < length l"
      with False have "(l @ k @ r) ! length x = k ! (length x - length l)" "length x - length l < length k"
        by (auto simp: nth_append)
      moreover have "(l @ k @ r) ! length x = b" by (simp flip: e)
      ultimately show False using assms(1) nth_mem by metis
    qed
    then have "drop (length x + 1) (l @ k @ r) = drop (length x + 1) l @ k @ r" by simp
    then have "y = drop (length x + 1) l @ k @ r" by (simp flip: e)
    then show ?thesis unfolding contains_str_iff by blast
  qed
qed

text \<open>Values that redaction can be held to: not empty, no brackets and no part of the mark itself.\<close>

definition plain_secret :: "pystr \<Rightarrow> bool" where
  "plain_secret k \<longleftrightarrow> k \<noteq> [] \<and> 91 \<notin> set k \<and> 93 \<notin> set k \<and> \<not> contains_str k (U ''REDACTED'')"

lemma contains_join:
  assumes "plain_secret k" "contains_str k (join_with REDACTED ps)"
  shows "\<exists>p \<in> set ps. contains_str k p"
  using assms(2)
proof (induction REDACTED ps rule: join_with.induct)
  case 1
  with assms(1) show ?case by (simp add: contains_str_iff plain_secret_def)
next
  case (3 w v vs)
  have mark: "REDACTED = 91 # U ''REDACTED'' @ [93]" by (simp add: REDACTED_def U_def)
  have "91 \<notin> set k" "93 \<notin> set k" "\<not> contains_str k (U ''REDACTED'')"
    using assms(1) by (simp_all add: plain_secret_def)
  moreover have "contains_str k (w @ 91 # U ''REDACTED'' @ 93 # join_with REDACTED (v # vs))"
    using 3(2) by (simp add: mark)
  ultimately have "contains_str k w \<or> contains_str k (join_with REDACTED (v # vs))"
    by (auto dest!: contains_bracket)
  with 3(1) show ?case by auto
qed simp

lemma replace_removes: "plain_secret k \<Longrightarrow> \<not> contains_str k (replace_str k REDACTED s)"
  unfolding replace_str_def using contains_join split_str_parts plain_secret_def by blast

lemma replace_keeps: "plain_secret k \<Longrightarrow> contains_str k (replace_str old REDACTED s) \<Longrightarrow> contains_str k s"
  unfolding replace_str_def using contains_join contains_part by blast

lemma fold_keeps:
  "plain_secret k \<Longrightarrow> contains_str k (foldl (\<lambda>v s. replace_str s REDACTED v) value ss) \<Longrightarrow> contains_str k value"
  by (induction ss arbitrary: "value") (auto dest: replace_keeps)

lemma redact_text_removes:
  assumes "plain_secret k" "k \<in> set secrets"
  shows "\<not> contains_str k (redact_text secrets value)"
proof -
  have "\<not> contains_str k (foldl (\<lambda>v s. replace_str s REDACTED v) x ss)" if "k \<in> set ss" for ss x
    using that
  proof (induction ss arbitrary: x)
    case (Cons s ss)
    show ?case
    proof (cases "k \<in> set ss")
      case False
      with Cons.prems have "s = k" by simp
      then show ?thesis using fold_keeps [OF assms(1)] replace_removes [OF assms(1)] by auto
    qed (simp add: Cons.IH)
  qed simp
  then show ?thesis using assms(2) by (simp add: redact_text_def longest_first_def)
qed

lemma redact_text_chars:
  assumes "c \<in> set (redact_text secrets value)"
  shows "c \<in> set value \<union> set REDACTED"
proof -
  have part: "c \<in> set (join_with REDACTED ps) \<Longrightarrow> c \<in> set REDACTED \<union> \<Union> (set ` set ps)" for c ps
    by (induction REDACTED ps rule: join_with.induct) auto
  have inside: "set p \<subseteq> set s" if "p \<in> set (split_str sep s)" for p sep s
    using that split_acc_infix [of p sep "[]" s] by (auto simp: split_str_def)
  have step: "set (replace_str s REDACTED v) \<subseteq> set v \<union> set REDACTED" for s v
    using part [of _ "split_str s v"] inside by (fastforce simp: replace_str_def)
  have "set (foldl (\<lambda>v s. replace_str s REDACTED v) x ss) \<subseteq> set x \<union> set REDACTED" for ss x
  proof (induction ss arbitrary: x)
    case (Cons s ss)
    from Cons.IH [of "replace_str s REDACTED x"] step [of s x] show ?case by auto
  qed simp
  with assms show ?thesis unfolding redact_text_def by blast
qed

definition finding_texts :: "review_finding \<Rightarrow> pystr list" where
  "finding_texts f = [rf_priority f, rf_title f, rf_file_path f, rf_line_side f, rf_problem f, rf_impact f,
     rf_suggestion f]"

lemma redact_finding:
  assumes "finding_ok f" "validate_finding_json (redact_json secrets (JObj (finding_json f))) = Some f'"
  shows "finding_texts f' = map (redact_text secrets) (finding_texts f)
    \<and> rf_line_start f' = rf_line_start f \<and> rf_line_end f' = rf_line_end f"
proof -
  let ?r = "redact_text secrets"
  have d: "map (\<lambda>(k, v). (k, redact_json secrets v)) (finding_json f) = zip FINDING_FIELDS
     [JStr (?r (rf_priority f)), JStr (?r (rf_title f)), JStr (?r (rf_file_path f)), JStr (?r (rf_line_side f)),
      JInt (rf_line_start f), JInt (rf_line_end f), JStr (?r (rf_problem f)), JStr (?r (rf_impact f)),
      JStr (?r (rf_suggestion f))]"
    by (simp add: finding_json_def FINDING_FIELDS_def)
  have get: "map (dict_get (zip FINDING_FIELDS [a, b, c, d, e, g, h, i, j])) FINDING_FIELDS
      = map Some [a, b, c, d, e, g, h, i, j]" for a b c d e g h i j :: json
    by (simp add: FINDING_FIELDS_def dict_get_def U_def)
  have "92 \<notin> set (rf_file_path f)" using assms(1) by (simp add: finding_ok_def safe_path_def)
  then have "92 \<notin> set (?r (rf_file_path f))"
    using redact_text_chars [of 92 secrets "rf_file_path f"] by (auto simp: REDACTED_def U_def)
  then have path: "normalize_repository_path (?r (rf_file_path f)) = Some p \<Longrightarrow> p = ?r (rf_file_path f)" for p
    by (simp add: normalize_Some to_slashes_id)
  show ?thesis
    using assms(2) get path unfolding redact_json.simps d validate_finding_json.simps
    by (auto simp: validate_finding_fields_def bind_eq_Some_conv field_simps' FINDING_FIELDS_def
        finding_texts_def split: if_splits)
qed

lemma validate_two_lists:
  assumes "validate_output (JObj [(U ''change_summary'', JList xs), (U ''findings'', JList ys)]) = Some out"
  shows "validate_summary (Some (JList xs)) = Some (ro_change_summary out)
    \<and> map validate_finding_json ys = map Some (ro_findings out)"
  using assms
  by (auto simp: validate_output_fields_def bind_eq_Some_conv all_some_iff dict_get_def U_def split: if_splits)

lemma redact_output_parts:
  assumes "output_ok out" "redact_output secrets out = Inr safe"
  shows "ro_change_summary safe = map (redact_text secrets) (ro_change_summary out)
    \<and> list_all2 (\<lambda>f f'. finding_texts f' = map (redact_text secrets) (finding_texts f)
         \<and> rf_line_start f' = rf_line_start f \<and> rf_line_end f' = rf_line_end f) (ro_findings out) (ro_findings safe)"
proof -
  let ?s = "map (JStr \<circ> redact_text secrets) (ro_change_summary out)"
    and ?f = "map (\<lambda>f. redact_json secrets (JObj (finding_json f))) (ro_findings out)"
  have json: "redact_json secrets (output_json out) = JObj [(U ''change_summary'', JList ?s), (U ''findings'', JList ?f)]"
    by (simp add: output_json_def comp_def)
  have valid: "validate_output (redact_json secrets (output_json out)) = Some safe"
    using assms(2) by (simp add: redact_output_def split: option.splits)
  from validate_two_lists [OF this [unfolded json]]
  have s: "validate_summary (Some (JList ?s)) = Some (ro_change_summary safe)"
    and f: "map validate_finding_json ?f = map Some (ro_findings safe)" by blast+
  have "map str_of ?s = map Some (ro_change_summary safe)"
    using s by (auto simp: validate_summary_def bind_eq_Some_conv all_some_iff simp del: map_map split: if_splits)
  then have "map Some (map (redact_text secrets) (ro_change_summary out)) = map Some (ro_change_summary safe)"
    by (simp add: comp_def)
  then have summary: "ro_change_summary safe = map (redact_text secrets) (ro_change_summary out)"
    by (metis inj_Some list.inj_map inj_eq)
  have "list_all2 (\<lambda>f f'. validate_finding_json (redact_json secrets (JObj (finding_json f))) = Some f')
      (ro_findings out) (ro_findings safe)"
    using f by (simp add: list_all2_conv_all_nth list_eq_iff_nth_eq)
  moreover have "list_all finding_ok (ro_findings out)" using assms(1) by (simp add: output_ok_def)
  ultimately have "list_all2 (\<lambda>f f'. finding_texts f' = map (redact_text secrets) (finding_texts f)
         \<and> rf_line_start f' = rf_line_start f \<and> rf_line_end f' = rf_line_end f) (ro_findings out) (ro_findings safe)"
    unfolding list_all2_conv_all_nth list_all_length using redact_finding by blast
  with summary show ?thesis by blast
qed

section \<open>Properties\<close>

text \<open>
  C36: nothing sensitive leaves with a review.  Redaction either raises (the redacted text breaks a rule of the
  output) or gives an output that is valid again, has the same summary sentences and findings at the same
  lines, and in whose texts no sensitive value occurs any more, replaced in whatever order.  It holds for
  values that are not part of the replacement mark and have no brackets.
\<close>

theorem review_output_is_redacted:
  assumes "output_ok out" "redact_output secrets out = Inr safe"
  shows "output_ok safe \<and> length (ro_change_summary safe) = length (ro_change_summary out)
    \<and> map (\<lambda>f. (rf_line_start f, rf_line_end f)) (ro_findings safe)
        = map (\<lambda>f. (rf_line_start f, rf_line_end f)) (ro_findings out)
    \<and> (\<forall>k \<in> set secrets. plain_secret k \<longrightarrow>
         list_all (\<lambda>s. \<not> contains_str k s) (ro_change_summary safe @ concat (map finding_texts (ro_findings safe))))"
proof -
  note parts = redact_output_parts [OF assms]
  have "output_ok safe"
    using assms(2) by (auto simp: redact_output_def split: option.splits dest: output_validated)
  moreover have "map (\<lambda>f. (rf_line_start f, rf_line_end f)) (ro_findings safe)
      = map (\<lambda>f. (rf_line_start f, rf_line_end f)) (ro_findings out)"
    using parts by (auto simp: list_all2_conv_all_nth intro: nth_equalityI)
  moreover have "\<not> contains_str k s"
    if "k \<in> set secrets" "plain_secret k" "s \<in> set (ro_change_summary safe @ concat (map finding_texts (ro_findings safe)))"
    for k s
  proof -
    have "\<exists>x. s = redact_text secrets x"
      using that(3) parts by (fastforce simp: list_all2_conv_all_nth in_set_conv_nth [of _ "ro_findings safe"])
    then show ?thesis using redact_text_removes that(1,2) by blast
  qed
  ultimately show ?thesis using parts by (simp add: list_all_iff)
qed

definition leaky_output :: review_output where
  "leaky_output = \<lparr>ro_comparison_sha = None, ro_change_summary = [[19968, 115, 107, 45, 49]], ro_findings = []\<rparr>"

theorem review_output_is_redacted_witness:
  "\<exists>safe. redact_output [U ''sk-1''] leaky_output = Inr safe \<and> \<not> contains_str (U ''sk-1'') (hd (ro_change_summary safe))"
proof -
  have s: "redact_text [[115, 107, 45, 49]] [19968, 115, 107, 45, 49] = [19968, 91, 82, 69, 68, 65, 67, 84, 69, 68, 93]"
    by (simp add: redact_text_def longest_first_def replace_str_def split_str_def startswith_def U_def REDACTED_def)
  have ok: "output_ok leaky_output"
    by (simp add: output_ok_def leaky_output_def summary_sentence_ok_def strip_def lstrip_def rstrip_def
        isspace_def cjk_def)
  have safe: "redact_output [U ''sk-1''] leaky_output
      = Inr \<lparr>ro_comparison_sha = None, ro_change_summary = [19968 # REDACTED], ro_findings = []\<rparr>"
    by (simp add: redact_output_def output_json_def leaky_output_def s validate_output_fields_def dict_get_def
        validate_summary_def summary_sentence_ok_def strip_def lstrip_def rstrip_def isspace_def cjk_def
        REDACTED_def U_def)
  have "plain_secret (U ''sk-1'')"
    by (simp add: plain_secret_def contains_str_def startswith_def U_def)
  with review_output_is_redacted [OF ok safe] safe show ?thesis by simp
qed

end
