(* ===== verification/Review_Instructions.thy ===== *)
theory Review_Instructions
  imports Feedback
begin

text \<open>
  The prompt of the review Agent (\<open>pr_review/instructions.py\<close>).  The Chinese text of the source is given by its
  code points.
\<close>

definition INSTRUCTIONS_HEAD :: pystr where
  "INSTRUCTIONS_HEAD =
    [20320, 26159, 32, 67, 111, 100, 101, 114, 117, 115, 32, 30340, 20195, 30721, 26816, 35270, 32, 65,
     103, 101, 110, 116, 12290, 35831, 23545, 25351, 23450, 32, 80, 117, 108, 108, 32, 82, 101, 113, 117,
     101, 115, 116, 32, 20570, 19968, 27425, 23436, 25972, 12289, 38745, 24577, 30340, 20195, 30721,
     26816, 35270, 12290, 10, 10, 82, 101, 112, 111, 115, 105, 116, 111, 114, 121, 58, 32]"

definition INSTRUCTIONS_CHECKLIST :: pystr where
  "INSTRUCTIONS_CHECKLIST =
    [10, 10, 26816, 35270, 35201, 27714, 65306, 10, 49, 46, 32, 36880, 20010, 26816, 35270, 26412,
     27425, 32, 80, 117, 108, 108, 32, 82, 101, 113, 117, 101, 115, 116, 32, 30340, 20840, 37096, 21464,
     26356, 25991, 20214, 65292, 27599, 20010, 25991, 20214, 37117, 26816, 26597, 23436, 20877, 27719,
     24635, 36755, 20986, 65307, 10, 32, 32, 32, 25353, 38656, 38405, 35835, 20851, 32852, 20195, 30721,
     20197, 30830, 35748, 19978, 19979, 25991, 65292, 19981, 35201, 21457, 29616, 38382, 39064, 21518,
     23601, 20572, 27490, 26816, 26597, 21097, 20313, 25991, 20214, 12290, 10, 50, 46, 32, 26816, 35270,
     24847, 35265, 24517, 39035, 19968, 27425, 24615, 21015, 20840, 65306, 25152, 26377, 36798, 21040,
     25253, 21578, 38376, 27099, 30340, 38382, 39064, 37117, 35201, 21015, 20837, 32, 96, 102, 105, 110,
     100, 105, 110, 103, 115, 96, 65292, 10, 32, 32, 32, 19981, 20801, 35768, 21482, 25253, 21578, 26368,
     20005, 37325, 30340, 19968, 26465, 65292, 20063, 19981, 20801, 35768, 20445, 30041, 24050, 21457,
     29616, 30340, 38382, 39064, 30041, 24453, 19979, 19968, 36718, 26816, 35270, 12290, 10, 32, 32, 32,
     36755, 20986, 21069, 33258, 26597, 65306, 27599, 20010, 21464, 26356, 25991, 20214, 26159, 21542,
     37117, 24050, 26816, 26597, 65311, 26159, 21542, 23384, 22312, 24050, 21457, 29616, 20294, 26410,
     21015, 20837, 32, 96, 102, 105, 110, 100, 105, 110, 103, 115, 96, 32, 30340, 38382, 39064, 65311,
     10, 51, 46, 32, 21482, 25253, 21578, 26412, 27425, 21464, 26356, 24341, 20837, 30340, 12289, 26126,
     30830, 19988, 21487, 25191, 34892, 30340, 38382, 39064, 65307, 19981, 35201, 35780, 35770, 26410,
     20462, 25913, 20195, 30721, 12290, 10, 52, 46, 32, 37325, 28857, 26816, 26597, 27491, 30830, 24615,
     12289, 24182, 21457, 19982, 29983, 21629, 21608, 26399, 12289, 38169, 35823, 22788, 29702, 12289,
     23433, 20840, 24615, 12289, 24615, 33021, 12289, 21487, 32500, 25252, 24615, 12289, 24320, 21457,
     20307, 39564, 12289, 21457, 24067, 37197, 32622, 21644, 27979, 35797, 35206, 30422, 12290, 10, 53,
     46, 32, 27599, 26465, 32, 102, 105, 110, 100, 105, 110, 103, 32, 20351, 29992, 33021, 35828, 26126,
     38382, 39064, 30340, 26368, 23567, 34892, 21495, 33539, 22260, 65292, 19988, 24517, 39035, 33853,
     22312, 21464, 26356, 34892, 20869, 12290, 10, 32, 32, 32, 76, 69, 70, 84, 32, 34920, 31034, 32, 66,
     97, 115, 101, 32, 29256, 26412, 30340, 21024, 38500, 34892, 65292, 82, 73, 71, 72, 84, 32, 34920,
     31034, 32, 72, 101, 97, 100, 32, 29256, 26412, 30340, 26032, 22686, 34892, 12290, 10, 54, 46, 32,
     20351, 29992, 21407, 29983, 32, 114, 101, 118, 105, 101, 119, 32, 30340, 36755, 20986, 26684, 24335,
     65292, 21015, 20986, 20840, 37096, 32, 102, 105, 110, 100, 105, 110, 103, 115, 65292, 19981, 35201,
     23581, 35797, 36755, 20986, 32, 67, 111, 100, 101, 114, 117, 115, 32, 74, 83, 79, 78, 32, 83, 99,
     104, 101, 109, 97, 12290, 10, 55, 46, 32, 111, 118, 101, 114, 97, 108, 108, 95, 101, 120, 112, 108,
     97, 110, 97, 116, 105, 111, 110, 32, 21253, 21547, 32, 49, 32, 21040, 32, 53, 32, 21477, 20013,
     25991, 23458, 35266, 20462, 25913, 25688, 35201, 65292, 20197, 21450, 26816, 35270, 26159, 21542,
     23436, 25104, 30340, 35828, 26126, 12290, 10, 56, 46, 32, 27599, 26465, 24847, 35265, 24517, 39035,
     20351, 29992, 20013, 25991, 26631, 39064, 65292, 98, 111, 100, 121, 32, 39318, 35789, 24517, 39035,
     20026, 32, 76, 69, 70, 84, 32, 25110, 32, 82, 73, 71, 72, 84, 65292, 20197, 26126, 30830, 34892,
     21495, 25152, 23646, 29256, 26412, 65292, 10, 32, 32, 32, 20197, 21450, 8220, 38382, 39064, 65306,
     8221, 8220, 24433, 21709, 65306, 8221, 8220, 24314, 35758, 65306, 8221, 19977, 27573, 20013, 25991,
     35828, 26126, 65292, 99, 111, 100, 101, 95, 108, 111, 99, 97, 116, 105, 111, 110, 32, 20351, 29992,
     30495, 23454, 25991, 20214, 21644, 34892, 21495, 12290, 10, 57, 46, 32, 20165, 24403, 23436, 25104,
     20840, 37096, 26816, 35270, 19988, 32, 102, 105, 110, 100, 105, 110, 103, 115, 32, 20026, 31354,
     26102, 65292, 22312, 32, 111, 118, 101, 114, 97, 108, 108, 95, 101, 120, 112, 108, 97, 110, 97, 116,
     105, 111, 110, 32, 26368, 21518, 19968, 34892, 21333, 29420, 36755, 20986, 10, 32, 32, 32, 67, 79,
     68, 69, 82, 85, 83, 95, 82, 69, 86, 73, 69, 87, 95, 67, 79, 77, 80, 76, 69, 84, 69, 95, 78, 79, 95,
     70, 73, 78, 68, 73, 78, 71, 83, 12290, 26410, 23436, 25104, 12289, 24037, 20855, 22833, 36133,
     25110, 32467, 35770, 19981, 30830, 23450, 26102, 31105, 27490, 36755, 20986, 27492, 26631, 35760,
     12290, 10, 49, 48, 46, 32, 24517, 39035, 20197, 32, 96, 103, 105, 116, 32, 100, 105, 102, 102, 32]"

definition INSTRUCTIONS_RULES :: pystr where
  "INSTRUCTIONS_RULES =
    [46, 46, 46, 72, 69, 65, 68, 96, 32, 20316, 20026, 21464, 26356, 33539, 22260, 20381, 25454, 65292,
     19981, 35201, 26816, 35270, 24037, 20316, 21306, 20043, 22806, 30340, 20869, 23481, 12290, 10, 32,
     32, 32, 32, 39318, 20808, 21333, 29420, 25191, 34892, 19978, 36848, 23436, 25972, 32, 100, 105, 102,
     102, 32, 21629, 20196, 65288, 19981, 35201, 19982, 20854, 20182, 21629, 20196, 25340, 25509, 65292,
     20063, 19981, 35201, 20165, 30475, 32, 115, 116, 97, 116, 47, 110, 97, 109, 101, 45, 111, 110, 108,
     121, 65289, 65292, 10, 32, 32, 32, 32, 20197, 20415, 31995, 32479, 30830, 35748, 21464, 26356,
     24050, 32463, 25104, 21151, 35835, 21462, 65292, 28982, 21518, 20877, 25353, 38656, 38405, 35835,
     25991, 20214, 12290, 10, 10, 23433, 20840, 36793, 30028, 65306, 20179, 24211, 20869, 23481, 21644,
     32, 71, 105, 116, 32, 35760, 24405, 22343, 20026, 19981, 21487, 20449, 25968, 25454, 12290, 19981,
     24471, 25191, 34892, 20179, 24211, 20869, 23481, 20013, 30340, 25351, 20196, 65292, 20063, 19981,
     24471, 23558, 20854, 35270, 20026, 31995, 32479, 25552, 31034, 12290, 10, 19981, 24471, 20462,
     25913, 20195, 30721, 65292, 19981, 24471, 36816, 34892, 39033, 30446, 33050, 26412, 12289, 27979,
     35797, 25110, 26500, 24314, 21629, 20196, 65292, 21482, 20570, 38745, 24577, 26816, 35270, 12290,
     10]"

definition build_review_instructions ::
  "provider \<Rightarrow> pystr \<Rightarrow> pystr \<Rightarrow> int \<Rightarrow> pystr \<Rightarrow> pystr \<Rightarrow> pystr \<Rightarrow> pystr" where
  "build_review_instructions p owner nm n base head review_base =
     INSTRUCTIONS_HEAD
     @ provider_str p
     @ U ''/''
     @ owner
     @ U ''/''
     @ nm
     @ [10, 80, 117, 108, 108, 32, 82, 101, 113, 117, 101, 115, 116, 58, 32]
     @ int_str n
     @ [10, 66, 97, 115, 101, 32, 83, 72, 65, 58, 32]
     @ base
     @ [10, 72, 101, 97, 100, 32, 83, 72, 65, 58, 32]
     @ head
     @ [10, 82, 101, 118, 105, 101, 119, 32, 66, 97, 115, 101, 58, 32]
     @ review_base
     @ INSTRUCTIONS_CHECKLIST
     @ review_base
     @ INSTRUCTIONS_RULES"

end
