(* ===== verification/Review_Result.thy ===== *)
theory Review_Result
  imports Review_Models Py_Text Schema
begin

text \<open>
  \<open>coderus/pr_review/result.py\<close>: from the output of the review agent to the comment that is published.

  The agent's JSON is decoded and validated, findings are clipped to the changed lines or set aside, and the rest
  is rendered as Markdown that ends with a marker by which the comment is found again.  The free-form report
  that some agent versions print instead of JSON is parsed by \<open>native\<close>, an argument here.
\<close>

definition MAX_REVIEW_OUTPUT_CHARS :: nat where "MAX_REVIEW_OUTPUT_CHARS = 65536"

definition output_error :: "pystr \<Rightarrow> pyexc" where
  "output_error msg = raise_exc ReviewOutputError msg"

section \<open>Events of the agent\<close>

fun event_of :: "json option \<Rightarrow> (pystr \<times> json) list option" where
  "event_of (Some (JObj d)) = Some d"
| "event_of _ = None"

definition str_is :: "json option \<Rightarrow> pystr \<Rightarrow> bool" where
  "str_is v s = (v = Some (JStr s))"

fun json_str :: "json option \<Rightarrow> pystr option" where
  "json_str (Some (JStr s)) = Some s"
| "json_str _ = None"

text \<open>The completed item of a line, when the line is such an event.\<close>

definition completed_item :: "pylib \<Rightarrow> pystr \<Rightarrow> (pystr \<times> json) list option" where
  "completed_item lib line =
     Option.bind (event_of (loads lib line)) (\<lambda>d.
       if str_is (dict_get d (U ''type'')) (U ''item.completed'') then event_of (dict_get d (U ''item'')) else None)"

definition review_agent_text :: "pylib \<Rightarrow> pystr \<Rightarrow> pystr option" where
  "review_agent_text lib line =
     Option.bind (completed_item lib line) (\<lambda>item.
       if str_is (dict_get item (U ''type'')) (U ''agent_message'') then json_str (dict_get item (U ''text'')) else None)"

fun last_message :: "pylib \<Rightarrow> pystr option \<Rightarrow> pystr list \<Rightarrow> pystr option" where
  "last_message lib found [] = found"
| "last_message lib found (l # ls) =
     last_message lib (case review_agent_text lib l of None \<Rightarrow> found | Some t \<Rightarrow> Some t) ls"

definition final_agent_message :: "pylib \<Rightarrow> pystr \<Rightarrow> pystr option" where
  "final_agent_message lib stdout = last_message lib None (splitlines stdout)"

section \<open>The inspection of the changes\<close>

definition SAFE_DIFF_OPTIONS :: "pystr list" where
  "SAFE_DIFF_OPTIONS = [U ''--check'', U ''--find-copies'', U ''--find-renames'', U ''--histogram'',
     U ''--minimal'', U ''--name-only'', U ''--name-status'', U ''--no-color'', U ''--no-ext-diff'',
     U ''--patience'', U ''--stat'']"

definition decimals :: "(nat \<Rightarrow> digit_kind) \<Rightarrow> pystr \<Rightarrow> bool" where
  "decimals uni s = (s \<noteq> [] \<and> list_all (\<lambda>c. digit_of uni c \<notin> {NoDigit, DigitOnly}) s)"

text \<open>\<open>_SAFE_DIFF_OPTION_VALUE.fullmatch\<close>\<close>

definition safe_diff_value :: "(nat \<Rightarrow> digit_kind) \<Rightarrow> pystr \<Rightarrow> bool" where
  "safe_diff_value uni t =
     (startswith t (U ''-U'') \<and> decimals uni (drop 2 t)
      \<or> startswith t (U ''--unified='') \<and> decimals uni (drop 10 t)
      \<or> startswith t (U ''--find-copies='')
          \<and> (decimals uni (drop 14 t) \<or> endswith t (U ''%'') \<and> decimals uni (butlast (drop 14 t)))
      \<or> startswith t (U ''--find-renames='')
          \<and> (decimals uni (drop 15 t) \<or> endswith t (U ''%'') \<and> decimals uni (butlast (drop 15 t)))
      \<or> startswith t (U ''--diff-filter='') \<and> drop 14 t \<noteq> []
          \<and> list_all (\<lambda>c. 65 \<le> c \<and> c \<le> 90 \<or> c = 42) (drop 14 t))"

definition skip_pager :: "pystr list \<Rightarrow> pystr list" where
  "skip_pager tokens = dropWhile (\<lambda>t. t = U ''--no-pager'') (drop 1 tokens)"

definition is_safe_git_segment :: "pystr list \<Rightarrow> bool" where
  "is_safe_git_segment tokens =
     (tokens \<noteq> [] \<and> path_name (hd tokens) = U ''git''
      \<and> (case skip_pager tokens of [] \<Rightarrow> False | t # _ \<Rightarrow> t \<in> {U ''diff'', U ''status''}))"

definition references_comparison :: "pystr \<Rightarrow> pystr \<Rightarrow> bool" where
  "references_comparison token comparison =
     (token \<in> {comparison, comparison @ U ''..HEAD'', comparison @ U ''...HEAD''})"

definition is_target_git_diff :: "(nat \<Rightarrow> digit_kind) \<Rightarrow> pystr list \<Rightarrow> pystr \<Rightarrow> bool" where
  "is_target_git_diff uni tokens comparison_sha =
     (case skip_pager tokens of
        [] \<Rightarrow> False
      | t # arguments \<Rightarrow>
          (let revisions = takeWhile (\<lambda>x. x \<noteq> U ''--'') arguments;
               named = filter (\<lambda>x. \<not> startswith x (U ''-'')) revisions
           in t = U ''diff'' \<and> U ''--no-index'' \<notin> set arguments
              \<and> list_all (\<lambda>x. startswith x (U ''-'') \<longrightarrow> x \<in> set SAFE_DIFF_OPTIONS \<or> safe_diff_value uni x) revisions
              \<and> length named = 1
              \<and> list_ex (references_comparison (hd named)) [comparison_sha, U ''coderus-review-base'']))"

text \<open>An ampersand that is not part of a double one.\<close>

fun single_ampersand :: "nat option \<Rightarrow> pystr \<Rightarrow> bool" where
  "single_ampersand prev [] = False"
| "single_ampersand prev (c # cs) =
     (c = 38 \<and> prev \<noteq> Some 38 \<and> (cs = [] \<or> hd cs \<noteq> 38) \<or> single_ampersand (Some c) cs)"

definition git_script :: "pystr \<Rightarrow> pystr option" where
  "git_script command =
     (case shlex_split command of
        None \<Rightarrow> None
      | Some outer \<Rightarrow>
          if outer = [] then None
          else if path_name (hd outer) \<in> {U ''bash'', U ''dash'', U ''sh'', U ''zsh''}
            then (if length outer = 3 \<and> outer ! 1 \<in> {U ''-c'', U ''-lc''} then Some (outer ! 2) else None)
          else if path_name (hd outer) = U ''git'' then Some command else None)"

fun all_split :: "pystr list \<Rightarrow> pystr list list option" where
  "all_split [] = Some []"
| "all_split (s # ss) =
     Option.bind (shlex_split (strip s)) (\<lambda>t. map_option ((#) t) (all_split ss))"

definition is_fixed_base_git_diff :: "(nat \<Rightarrow> digit_kind) \<Rightarrow> pystr \<Rightarrow> pystr \<Rightarrow> bool" where
  "is_fixed_base_git_diff uni command comparison_sha =
     (case git_script command of
        None \<Rightarrow> False
      | Some script \<Rightarrow>
          if 124 \<in> set script \<or> 59 \<in> set script \<or> 10 \<in> set script \<or> single_ampersand None script then False
          else case all_split (split_str (U ''&&'') script) of
            None \<Rightarrow> False
          | Some segments \<Rightarrow>
              segments \<noteq> [] \<and> list_all is_safe_git_segment segments
              \<and> list_ex (\<lambda>tokens. is_target_git_diff uni tokens comparison_sha) segments)"

definition inspection_line :: "pylib \<Rightarrow> (nat \<Rightarrow> digit_kind) \<Rightarrow> pystr \<Rightarrow> pystr \<Rightarrow> bool" where
  "inspection_line lib uni comparison_sha line =
     (case completed_item lib line of
        None \<Rightarrow> False
      | Some item \<Rightarrow>
          str_is (dict_get item (U ''type'')) (U ''command_execution'')
          \<and> str_is (dict_get item (U ''status'')) (U ''completed'')
          \<and> dict_get item (U ''exit_code'') \<in> {Some (JInt 0), Some (JBool False), Some (JFloat (U ''0.0'')),
             Some (JFloat (U ''-0.0''))}
          \<and> (case json_str (dict_get item (U ''command'')) of
               None \<Rightarrow> False | Some c \<Rightarrow> is_fixed_base_git_diff uni c comparison_sha))"

definition has_successful_git_inspection :: "pylib \<Rightarrow> (nat \<Rightarrow> digit_kind) \<Rightarrow> pystr \<Rightarrow> pystr \<Rightarrow> bool" where
  "has_successful_git_inspection lib uni stdout comparison_sha =
     list_ex (inspection_line lib uni comparison_sha) (splitlines stdout)"

section \<open>Decoding\<close>

text \<open>
  A fenced block: the opening line, then the shortest text before a line with the closing fence.
\<close>

definition fence :: pystr where "fence = U ''```''"

definition open_fence :: "pystr \<Rightarrow> pystr option" where
  "open_fence s =
     (if startswith s (U ''```json'')
      then (let r = dropWhile (\<lambda>c. c = 32 \<or> c = 9) (drop 7 s);
                r' = (if startswith r [13] then drop 1 r else r)
            in if startswith r' [10] then Some (drop 1 r') else None)
      else None)"

fun close_fence :: "pystr \<Rightarrow> pystr \<Rightarrow> (pystr \<times> pystr) option" where
  "close_fence payload [] = None"
| "close_fence payload (c # cs) =
     (if startswith (c # cs) (13 # 10 # fence) then Some (rev payload, drop 5 (c # cs))
      else if startswith (c # cs) (10 # fence) then Some (rev payload, drop 4 (c # cs))
      else close_fence (c # payload) cs)"

text \<open>The matches of the pattern from left to right: the text before, the payload, the text after.\<close>

definition fenced_at :: "pystr \<Rightarrow> (pystr \<times> pystr) option" where
  "fenced_at s = Option.bind (open_fence s) (close_fence [])"

fun find_fenced :: "pystr \<Rightarrow> pystr \<Rightarrow> (pystr \<times> pystr \<times> pystr) option" where
  "find_fenced pre [] = None"
| "find_fenced pre (c # cs) =
     (case fenced_at (c # cs) of
        Some (payload, rest) \<Rightarrow> Some (rev pre, payload, rest)
      | None \<Rightarrow> find_fenced (c # pre) cs)"

text \<open>\<open>_extract_fenced_json\<close>: exactly one block, nothing after it and no other fence pre it.\<close>

definition MSG_ONE_BLOCK :: pystr where \<comment> \<open>the output must be complete JSON or a single JSON block\<close>
  "MSG_ONE_BLOCK = [26816, 35270, 36755, 20986, 24517, 39035, 26159, 23436, 25972, 32, 74, 83, 79,
   78, 32, 25110, 21333, 19968, 32, 74, 83, 79, 78, 32, 20195, 30721, 22359]"

definition MSG_BAD_JSON :: pystr where \<comment> \<open>the review result is not valid JSON\<close>
  "MSG_BAD_JSON = [26816, 35270, 32467, 26524, 19981, 26159, 26377, 25928, 32, 74, 83, 79, 78]"

definition MSG_TOO_LONG :: pystr where \<comment> \<open>the review output is too long\<close>
  "MSG_TOO_LONG = [26816, 35270, 36755, 20986, 36807, 38271]"

definition MSG_BAD_FORMAT :: pystr where \<comment> \<open>the format of the review result is invalid\<close>
  "MSG_BAD_FORMAT = [26816, 35270, 32467, 26524, 26684, 24335, 26080, 25928]"

definition MSG_NO_MESSAGE :: pystr where \<comment> \<open>the agent returned no message event\<close>
  "MSG_NO_MESSAGE = [67, 111, 100, 101, 120, 32, 26410, 36820, 22238, 26377, 25928, 30340, 32, 65,
   103, 101, 110, 116, 32, 28040, 24687, 20107, 20214]"

definition MSG_NO_INSPECTION :: pystr where \<comment> \<open>the agent did not inspect the changes\<close>
  "MSG_NO_INSPECTION = [67, 111, 100, 101, 120, 32, 26410, 25104, 21151, 23436, 25104, 32, 71, 105,
   116, 32, 21464, 26356, 26816, 26597]"

definition extract_fenced_json :: "pylib \<Rightarrow> pystr \<Rightarrow> pyexc + json" where
  "extract_fenced_json lib s =
     (case find_fenced [] s of
        None \<Rightarrow> Inl (output_error MSG_ONE_BLOCK)
      | Some (pre, payload, rest) \<Rightarrow>
          if find_fenced [] rest \<noteq> None then Inl (output_error MSG_ONE_BLOCK)
          else if contains_str fence pre \<or> strip rest \<noteq> [] then Inl (output_error MSG_ONE_BLOCK)
          else case loads lib payload of
            None \<Rightarrow> Inl (output_error MSG_BAD_JSON) | Some v \<Rightarrow> Inr v)"

text \<open>
  \<open>parse_review_output\<close>.  \<open>context\<close> is \<open>None\<close> when not all of the four optional arguments are given, else the
  comparison commit together with the parser of the free-form report for the others.
\<close>

definition parse_review_output ::
  "pylib \<Rightarrow> (nat \<Rightarrow> digit_kind) \<Rightarrow> (pystr \<times> (pystr \<Rightarrow> pyexc + review_output)) option \<Rightarrow> pystr
    \<Rightarrow> pyexc + review_output" where
  "parse_review_output lib uni context stdout =
     (let message = final_agent_message lib stdout;
          raw = (case message of None \<Rightarrow> stdout | Some m \<Rightarrow> m);
          payload = strip raw;
          validated = (\<lambda>v. case validate_output v of
                         None \<Rightarrow> Inl (output_error MSG_BAD_FORMAT) | Some out \<Rightarrow> Inr out)
      in if MAX_REVIEW_OUTPUT_CHARS < length raw then Inl (output_error MSG_TOO_LONG)
         else if context \<noteq> None \<and> message = None then Inl (output_error MSG_NO_MESSAGE)
         else if context \<noteq> None \<and> \<not> has_successful_git_inspection lib uni stdout (fst (the context))
           then Inl (output_error MSG_NO_INSPECTION)
         else case loads lib payload of
           Some v \<Rightarrow> validated v
         | None \<Rightarrow>
             (case extract_fenced_json lib payload of
                Inr v \<Rightarrow> validated v
              | Inl e \<Rightarrow>
                  (case (context, message) of
                     (Some (_, native), Some m) \<Rightarrow> native m
                   | _ \<Rightarrow> Inl e)))"

section \<open>The sections of a free-form finding\<close>

definition LABEL_PROBLEM :: pystr where "LABEL_PROBLEM = [38382, 39064]"
definition LABEL_IMPACT :: pystr where "LABEL_IMPACT = [24433, 21709]"
definition LABEL_SUGGESTION :: pystr where "LABEL_SUGGESTION = [24314, 35758]"

definition LABELS :: "pystr list" where
  "LABELS = [LABEL_PROBLEM, LABEL_IMPACT, LABEL_SUGGESTION]"

definition find_label :: "pystr \<Rightarrow> pystr option" where
  "find_label s = find (startswith s) LABELS"

definition skip_stars :: "pystr \<Rightarrow> pystr" where
  "skip_stars s = (if startswith s (U ''**'') then drop 2 s else s)"

definition skip_bullet :: "pystr \<Rightarrow> pystr" where
  "skip_bullet s =
     (case s of c # d # r \<Rightarrow> if c \<in> {45, 42, 43} \<and> isspace d then lstrip (d # r) else s | _ \<Rightarrow> s)"

text \<open>The substitution that turns a bullet, bold markers and either colon into the label and a wide colon.\<close>

definition normalize_label :: "pystr \<Rightarrow> pystr" where
  "normalize_label line =
     (let s = skip_stars (skip_bullet line)
      in case find_label s of
           None \<Rightarrow> line
         | Some l \<Rightarrow>
             (let r = lstrip (skip_stars (drop (length l) s))
              in if r \<noteq> [] \<and> hd r \<in> {58, 65306} then l @ [65306] @ lstrip (drop 1 r) else line))"

definition label_value :: "pystr \<Rightarrow> (pystr \<times> pystr) option" where
  "label_value line =
     (case find_label line of
        None \<Rightarrow> None
      | Some l \<Rightarrow>
          (let r = drop (length l) line; r' = (if startswith r [65306] then drop 1 r else r)
           in if 10 \<in> set (lstrip r') then None else Some (l, strip r')))"

definition MSG_DUPLICATE_LABEL :: pystr where \<comment> \<open>a label occurs twice\<close>
  "MSG_DUPLICATE_LABEL = [21407, 29983, 26816, 35270, 24847, 35265, 21253, 21547, 37325, 22797,
   27491, 25991, 26631, 31614]"

definition MSG_BAD_NATIVE :: pystr where \<comment> \<open>the finding is malformed\<close>
  "MSG_BAD_NATIVE = [21407, 29983, 26816, 35270, 24847, 35265, 26684, 24335, 26080, 25928]"

fun collect_fields ::
  "(pystr \<times> pystr) list \<Rightarrow> pystr option \<Rightarrow> pystr list \<Rightarrow> pyexc + (pystr \<times> pystr) list" where
  "collect_fields found current [] = Inr found"
| "collect_fields found current (line # ls) =
     (case label_value line of
        Some (label, v) \<Rightarrow>
          if label \<in> fst ` set found then Inl (output_error MSG_DUPLICATE_LABEL)
          else collect_fields (if v = [] then found else found @ [(label, v)]) (Some label) ls
      | None \<Rightarrow>
          (case current of
             None \<Rightarrow> Inl (output_error MSG_BAD_NATIVE)
           | Some l \<Rightarrow>
               if l \<in> fst ` set found then Inl (output_error MSG_BAD_NATIVE)
               else collect_fields (found @ [(l, line)]) current ls))"

definition structured_finding_details :: "pystr \<Rightarrow> pyexc + pystr \<times> pystr \<times> pystr" where
  "structured_finding_details body =
     and_then (collect_fields [] None
                 (map normalize_label (filter (\<lambda>l. l \<noteq> []) (map strip (splitlines body))))) (\<lambda>found.
       case (map_of found LABEL_PROBLEM, map_of found LABEL_IMPACT, map_of found LABEL_SUGGESTION) of
         (Some p, Some i, Some s) \<Rightarrow> Inr (p, i, s)
       | _ \<Rightarrow> Inl (output_error MSG_BAD_NATIVE))"

section \<open>Locating findings\<close>

definition relocate :: "changed_ranges \<Rightarrow> review_finding \<Rightarrow> review_finding option" where
  "relocate r f =
     map_option (\<lambda>(s, e). f\<lparr>rf_line_start := s, rf_line_end := e\<rparr>)
       (clip r (rf_file_path f) (rf_line_side f) (rf_line_start f) (rf_line_end f))"

fun keep_located :: "changed_ranges \<Rightarrow> review_finding list \<Rightarrow> review_finding list" where
  "keep_located r [] = []"
| "keep_located r (f # fs) =
     (case relocate r f of None \<Rightarrow> keep_located r fs | Some g \<Rightarrow> g # keep_located r fs)"

definition validate_findings :: "changed_ranges \<Rightarrow> review_output \<Rightarrow> review_output" where
  "validate_findings r out =
     out\<lparr>ro_comparison_sha := cr_comparison_sha r, ro_findings := keep_located r (ro_findings out)\<rparr>"

definition finding_rejection :: "changed_ranges \<Rightarrow> review_finding \<Rightarrow> pystr option" where
  "finding_rejection r f =
     rejection_reason r (rf_file_path f) (rf_line_side f) (rf_line_start f) (rf_line_end f)"

fun unlocated_findings :: "changed_ranges \<Rightarrow> review_finding list \<Rightarrow> (review_finding \<times> pystr) list" where
  "unlocated_findings r [] = []"
| "unlocated_findings r (f # fs) =
     (case finding_rejection r f of
        None \<Rightarrow> unlocated_findings r fs | Some reason \<Rightarrow> (f, reason) # unlocated_findings r fs)"

definition finding_key :: "review_finding \<Rightarrow> pystr \<times> pystr \<times> int \<times> int \<times> pystr \<times> pystr \<times> pystr" where
  "finding_key f = (rf_file_path f, rf_line_side f, rf_line_start f, rf_line_end f, rf_priority f, rf_title f,
     rf_problem f)"

definition unique_findings :: "review_output \<Rightarrow> review_finding list" where
  "unique_findings out = dedupe_by finding_key [] (ro_findings out)"

definition located :: "changed_ranges \<Rightarrow> review_finding \<Rightarrow> bool" where
  "located r f = contains r (rf_file_path f) (rf_line_side f) (rf_line_start f) (rf_line_end f)"

lemma relocate_located:
  assumes "relocate r f = Some g"
  shows "located r g" "finding_ok f \<Longrightarrow> finding_ok g" "rf_line_start f \<le> rf_line_start g"
    "rf_line_end g \<le> rf_line_end f"
proof -
  obtain s e where c: "clip r (rf_file_path f) (rf_line_side f) (rf_line_start f) (rf_line_end f) = Some (s, e)"
    and g: "g = f\<lparr>rf_line_start := s, rf_line_end := e\<rparr>"
    using assms by (auto simp: relocate_def)
  show "located r g" using clip_contained [OF c] by (simp add: located_def g)
  have "rf_line_start f \<le> s" "s \<le> e" "e \<le> rf_line_end f" by (rule clip_within [OF c]; simp)+
  then show "finding_ok f \<Longrightarrow> finding_ok g" "rf_line_start f \<le> rf_line_start g" "rf_line_end g \<le> rf_line_end f"
    by (auto simp: g finding_ok_def)
qed

lemma relocate_stable: "located r f \<Longrightarrow> relocate r f = Some f"
  by (simp add: located_def contains_def relocate_def)

lemma relocate_None: "relocate r f = None \<longleftrightarrow> finding_rejection r f \<noteq> None"
  unfolding relocate_def finding_rejection_def rejection_iff option.map_disc_iff by blast

lemma rejection_None: "finding_rejection r f = None \<longleftrightarrow> relocate r f \<noteq> None"
  using relocate_None [of r f] by (cases "relocate r f"; cases "finding_rejection r f") simp_all

lemma keep_located_all: "f \<in> set (keep_located r fs) \<Longrightarrow> \<exists>g \<in> set fs. relocate r g = Some f"
  by (induction r fs rule: keep_located.induct) (auto split: option.splits)

lemma keep_located_id: "list_all (located r) fs \<Longrightarrow> keep_located r fs = fs"
  by (induction fs) (simp_all add: relocate_stable)

lemma located_partition: "length (keep_located r fs) + length (unlocated_findings r fs) = length fs"
proof (induction fs)
  case (Cons f fs)
  show ?case
  proof (cases "relocate r f")
    case None
    then obtain reason where "finding_rejection r f = Some reason" using relocate_None by blast
    with None Cons show ?thesis by simp
  next
    case (Some g)
    then have "finding_rejection r f = None" by (simp add: rejection_None)
    with Some Cons show ?thesis by simp
  qed
qed simp

lemma unlocated_iff:
  "(f, reason) \<in> set (unlocated_findings r fs) \<longleftrightarrow> f \<in> set fs \<and> finding_rejection r f = Some reason"
  by (induction fs) (auto split: option.split)

text \<open>
  C28: Only findings that point at changed lines are published, and none disappears.  Every finding that
  validation keeps comes from one of the review, still validates, lies within the changed lines of its file and
  side and within the lines it named; the others are exactly those set aside with a reason; and validating the
  result again changes nothing.
\<close>

theorem published_findings_are_located:
  assumes "output_ok out"
  shows "output_ok (validate_findings r out)
    \<and> (\<forall>f \<in> set (ro_findings (validate_findings r out)). located r f
         \<and> (\<exists>g \<in> set (ro_findings out). rf_file_path g = rf_file_path f \<and> rf_title g = rf_title f
              \<and> rf_line_start g \<le> rf_line_start f \<and> rf_line_end f \<le> rf_line_end g))
    \<and> length (ro_findings (validate_findings r out)) + length (unlocated_findings r (ro_findings out))
        = length (ro_findings out)
    \<and> (\<forall>f reason. (f, reason) \<in> set (unlocated_findings r (ro_findings out)) \<longrightarrow>
         f \<in> set (ro_findings out) \<and> relocate r f = None)
    \<and> validate_findings r (validate_findings r out) = validate_findings r out"
proof -
  let ?kept = "keep_located r (ro_findings out)"
  have kept: "located r f \<and> finding_ok f \<and> (\<exists>g \<in> set (ro_findings out). rf_file_path g = rf_file_path f
      \<and> rf_title g = rf_title f \<and> rf_line_start g \<le> rf_line_start f \<and> rf_line_end f \<le> rf_line_end g)"
    if f: "f \<in> set ?kept" for f
  proof -
    obtain g where g: "g \<in> set (ro_findings out)" "relocate r g = Some f"
      using keep_located_all [OF f] by blast
    moreover have "finding_ok g" using assms g(1) by (simp add: output_ok_def list_all_iff)
    moreover have "rf_file_path g = rf_file_path f" "rf_title g = rf_title f"
      using g(2) by (auto simp: relocate_def)
    ultimately show ?thesis using relocate_located [OF g(2)] by blast
  qed
  then have "keep_located r ?kept = ?kept" by (intro keep_located_id) (simp add: list_all_iff)
  moreover have "output_ok (validate_findings r out)"
    using assms kept by (simp add: output_ok_def validate_findings_def list_all_iff)
  ultimately show ?thesis
    using kept located_partition [of r "ro_findings out"] relocate_None [of r]
    by (auto simp: validate_findings_def unlocated_iff)
qed

definition sample_finding :: "int \<Rightarrow> int \<Rightarrow> review_finding" where
  "sample_finding s e = \<lparr>rf_priority = U ''P1'', rf_title = [19968], rf_file_path = [97], rf_line_side = U ''RIGHT'',
     rf_line_start = s, rf_line_end = e, rf_problem = [19968], rf_impact = [19968], rf_suggestion = [19968]\<rparr>"

definition sample_ranges :: changed_ranges where
  "sample_ranges = \<lparr>cr_ranges = [(([97], U ''RIGHT''), [(10, 12)])], cr_comparison_sha = None,
     cr_changed_file_count = 1, cr_additions = 3, cr_deletions = 0\<rparr>"

theorem published_findings_are_located_witness:
  "ro_findings (validate_findings sample_ranges
      \<lparr>ro_comparison_sha = None, ro_change_summary = [[19968]],
       ro_findings = [sample_finding 9 12, sample_finding 20 20]\<rparr>) = [sample_finding 10 12]
   \<and> output_ok (validate_findings sample_ranges
      \<lparr>ro_comparison_sha = None, ro_change_summary = [[19968]],
       ro_findings = [sample_finding 9 12, sample_finding 20 20]\<rparr>)"
proof -
  let ?out = "\<lparr>ro_comparison_sha = None, ro_change_summary = [[19968]],
       ro_findings = [sample_finding 9 12, sample_finding 20 20]\<rparr>"
  have "output_ok ?out"
    by (simp add: output_ok_def summary_sentence_ok_def finding_ok_def sample_finding_def safe_path_def
        windows_absolute_def chinese_field_def cjk_def strip_def lstrip_def rstrip_def isspace_def
        PRIORITIES_def SIDES_def U_def)
  moreover have "ro_findings (validate_findings sample_ranges ?out) = [sample_finding 10 12]"
    by (simp add: validate_findings_def relocate_def sample_ranges_def sample_finding_def clip_def
        normalize_repository_path_def to_slashes_def startswith_def windows_absolute_def U_def SIDES_def
        intervals_def overlaps_def)
  ultimately show ?thesis using published_findings_are_located [of ?out sample_ranges] by blast
qed

end
