(* ===== verification/Review_Comment.thy ===== *)
theory Review_Comment
  imports Review_Result
begin

text \<open>
  The comment of a review (\<open>render_pr_comment\<close> of \<open>coderus/pr_review/result.py\<close>) and its neutralisation of the
  text that the model wrote.
\<close>

section \<open>Escaping\<close>

definition markdown_special :: "nat \<Rightarrow> bool" where
  "markdown_special c =
     (c \<in> {92, 96, 42, 95, 123, 125, 91, 93, 40, 41, 35, 43, 45, 46, 33, 124})"

definition escape_markdown :: "pystr \<Rightarrow> pystr" where
  "escape_markdown s =
     concat (map (\<lambda>c. if markdown_special c then [92, c] else [c])
       (html_escape (join_with [32] (splitlines s))))"

fun longest_run :: "nat \<Rightarrow> nat \<Rightarrow> pystr \<Rightarrow> nat" where
  "longest_run best run [] = max best run"
| "longest_run best run (c # cs) =
     (if c = 96 then longest_run best (run + 1) cs else longest_run (max best run) 0 cs)"

definition code_span :: "pystr \<Rightarrow> pystr" where
  "code_span s =
     (let delimiter = replicate (longest_run 0 0 s + 1) 96 in delimiter @ html_escape s @ delimiter)"

section \<open>The comment\<close>

definition PRIORITY_LABELS :: "(pystr \<times> pystr) list" where
  "PRIORITY_LABELS =
     [(U ''P0'', [80, 48, 32, 38459, 26029]), (U ''P1'', [80, 49, 32, 20005, 37325]), (U ''P2'', [80, 50, 32, 19968, 33324]), (U ''P3'', [80, 51, 32, 24314, 35758])]"

definition priority_label :: "pystr \<Rightarrow> pystr" where
  "priority_label p = (case map_of PRIORITY_LABELS p of None \<Rightarrow> [] | Some l \<Rightarrow> l)"

definition host_of_provider :: "provider \<Rightarrow> pystr" where
  "host_of_provider p = (case p of Github \<Rightarrow> U ''github.com'' | Gitcode \<Rightarrow> U ''gitcode.com'')"

record comment_input =
  ci_provider :: provider
  ci_owner :: pystr
  ci_name :: pystr
  ci_base_sha :: pystr
  ci_head_sha :: pystr
  ci_review_key :: pystr
  ci_changed_file_count :: "nat option"
  ci_additions :: "nat option"
  ci_deletions :: "nat option"
  ci_filtered :: nat
  ci_comparison_sha :: "pystr option"
  ci_pending :: "(review_finding \<times> pystr) list"

definition review_marker :: "comment_input \<Rightarrow> pystr" where
  "review_marker q =
     U ''<!-- coderus-pr-review:'' @ ci_review_key q @ U '':'' @ ci_base_sha q @ U '':'' @ ci_head_sha q @ U '' -->''"

definition conclusion_text :: "comment_input \<Rightarrow> nat \<Rightarrow> pystr" where
  "conclusion_text q n =
     (if ci_pending q \<noteq> [] then
        nat_str n @ [32, 26465, 24050, 23450, 20301, 24847, 35265, 65307] @ nat_str (length
         (ci_pending q)) @ [32, 26465, 24847, 35265, 24453, 20154, 24037, 30830, 35748, 65288,
         20301, 32622, 26410, 39564, 35777, 65289]
      else if 0 < n then
        [21457, 29616, 32] @ nat_str n @ [32, 39033, 38656, 35201, 22788, 29702, 30340, 38382, 39064]
        @ (if 0 < ci_filtered q
           then [65307, 21478, 26377, 32] @ nat_str (ci_filtered q) @ [32, 26465, 24847, 35265,
            22240, 26080, 27861, 23433, 20840, 23450, 20301, 26410, 21457, 24067] else [])
      else if 0 < ci_filtered q then
        nat_str (ci_filtered q) @ [32, 26465, 24847, 35265, 22240, 26080, 27861, 23433, 20840,
         23450, 20301, 26410, 21457, 24067, 65292, 38656, 20154, 24037, 22797, 26680]
      else [26410, 21457, 29616, 38656, 35201, 21453, 39304, 30340, 20855, 20307, 38382, 39064])"

definition input_sections :: "comment_input \<Rightarrow> pystr list" where
  "input_sections q =
     (case ci_changed_file_count q of
        None \<Rightarrow> []
      | Some n \<Rightarrow>
          [[45, 32, 26816, 35270, 36755, 20837, 65306] @ nat_str n @ [32, 20010, 21464, 26356, 25991, 20214]
           @ (case (ci_additions q, ci_deletions q) of
                (Some a, Some d) \<Rightarrow> [65292, 43] @ nat_str a @ U '' / -'' @ nat_str d
              | _ \<Rightarrow> [])])"

fun summary_sections :: "nat \<Rightarrow> pystr list \<Rightarrow> pystr list" where
  "summary_sections k [] = []"
| "summary_sections k (s # ss) =
     (U ''  '' @ nat_str k @ U ''. '' @ escape_markdown s) # summary_sections (k + 1) ss"

text \<open>\<open>comparison_sha or output._comparison_sha or base_sha\<close> for the old side, the head for the new one.\<close>

definition linked_sha :: "comment_input \<Rightarrow> review_output \<Rightarrow> review_finding \<Rightarrow> pystr" where
  "linked_sha q out f =
     (if rf_line_side f = U ''LEFT''
      then (if truthy (ci_comparison_sha q) then the (ci_comparison_sha q)
            else if truthy (ro_comparison_sha out) then the (ro_comparison_sha out) else ci_base_sha q)
      else ci_head_sha q)"

definition finding_url :: "comment_input \<Rightarrow> review_output \<Rightarrow> review_finding \<Rightarrow> pystr" where
  "finding_url q out f =
     U ''https://'' @ host_of_provider (ci_provider q) @ U ''/'' @ quote [] (ci_owner q) @ U ''/''
     @ quote [] (ci_name q) @ U ''/blob/'' @ quote [] (linked_sha q out f) @ U ''/''
     @ quote [47] (rf_file_path f) @ U ''#L'' @ int_str (rf_line_start f) @ U ''-L'' @ int_str (rf_line_end f)"

definition version_label :: "review_finding \<Rightarrow> pystr" where
  "version_label f = (if rf_line_side f = U ''LEFT'' then [21407, 29256, 26412] else [26032, 29256, 26412])"

definition detail_sections :: "review_finding \<Rightarrow> pystr list" where
  "detail_sections f =
     [[45, 32, 38382, 39064, 35828, 26126, 65306] @ escape_markdown (rf_problem f), [45, 32, 24433,
      21709, 20998, 26512, 65306] @ escape_markdown (rf_impact f),
      [45, 32, 20462, 25913, 24314, 35758, 65306] @ escape_markdown (rf_suggestion f)]"

definition finding_sections :: "comment_input \<Rightarrow> review_output \<Rightarrow> nat \<Rightarrow> review_finding \<Rightarrow> pystr list" where
  "finding_sections q out k f =
     [[], U ''### '' @ nat_str k @ U ''. ['' @ priority_label (rf_priority f) @ U ''] ''
            @ escape_markdown (rf_title f),
      [], [45, 32, 25991, 20214, 65306] @ code_span (rf_file_path f),
      [45, 32, 20195, 30721, 33539, 22260, 65306, 91] @ version_label f @ [31532, 32] @ int_str
       (rf_line_start f) @ U ''-''
        @ int_str (rf_line_end f) @ [32, 34892, 93, 40] @ finding_url q out f @ U '')'']
     @ detail_sections f"

fun all_finding_sections :: "comment_input \<Rightarrow> review_output \<Rightarrow> nat \<Rightarrow> review_finding list \<Rightarrow> pystr list" where
  "all_finding_sections q out k [] = []"
| "all_finding_sections q out k (f # fs) =
     finding_sections q out k f @ all_finding_sections q out (k + 1) fs"

definition pending_sections :: "nat \<Rightarrow> review_finding \<times> pystr \<Rightarrow> pystr list" where
  "pending_sections k p =
     (case p of (f, reason) \<Rightarrow>
        [[], [35, 35, 35, 32, 24453, 30830, 35748, 32] @ nat_str k @ U ''. '' @ escape_markdown
         (rf_title f), [],
         [45, 32, 27169, 22411, 24314, 35758, 20248, 20808, 32423, 65306] @ priority_label (rf_priority f),
         [45, 32, 27169, 22411, 25152, 25351, 25991, 20214, 65306] @ code_span (rf_file_path f),
         [45, 32, 27169, 22411, 25152, 25351, 33539, 22260, 65288, 26410, 39564, 35777, 65289,
          65306] @ version_label f @ [31532, 32] @ int_str (rf_line_start f) @ U ''-''
           @ int_str (rf_line_end f) @ [32, 34892],
         [45, 32, 26080, 27861, 23450, 20301, 21407, 22240, 65306] @ escape_markdown reason]
        @ detail_sections f)"

fun all_pending_sections :: "nat \<Rightarrow> (review_finding \<times> pystr) list \<Rightarrow> pystr list" where
  "all_pending_sections k [] = []"
| "all_pending_sections k (p # ps) = pending_sections k p @ all_pending_sections (k + 1) ps"

definition comment_sections :: "comment_input \<Rightarrow> review_output \<Rightarrow> pystr list" where
  "comment_sections q out =
     (let findings = unique_findings out
      in [[35, 35, 32, 67, 111, 100, 101, 114, 117, 115, 32, 20195, 30721, 26816, 35270], [45, 32,
       26816, 35270, 29256, 26412, 65306] @ code_span (ci_head_sha q)]
         @ input_sections q
         @ [[45, 32, 80, 82, 32, 20462, 25913, 25688, 35201, 65306]] @ summary_sections 1
          (ro_change_summary out)
         @ [[45, 32, 32467, 35770, 65306] @ conclusion_text q (length findings)]
         @ all_finding_sections q out 1 findings
         @ (if ci_pending q = [] then []
            else [[], [35, 35, 32, 24453, 20154, 24037, 30830, 35748, 65288, 20301, 32622, 26410,
             39564, 35777, 65289], [],
                  [20197, 19979, 20026, 27169, 22411, 25552, 20986, 30340, 30097, 20284, 38382,
                   39064, 65292, 23578, 26410, 30830, 35748, 20854, 20301, 32622, 21450, 26377,
                   25928, 24615, 65292, 19981, 20316, 20026, 24050, 30830, 35748, 32570, 38519,
                   12290]]
                 @ all_pending_sections 1 (ci_pending q))
         @ [[], U ''> '' @ [26412, 27425, 20026, 38745, 24577, 20195, 30721, 26816, 35270, 65292, 26410, 25191,
          34892, 39033, 30446, 27979, 35797, 12290]])"

text \<open>The quoted remark and the marker close the comment.\<close>

definition render_pr_comment :: "comment_input \<Rightarrow> review_output \<Rightarrow> pystr \<times> pystr" where
  "render_pr_comment q out = (join_with [10] (comment_sections q out @ [review_marker q]), review_marker q)"

section \<open>The text of the model stays in its place\<close>

text \<open>Neither a line feed nor an opening angle bracket.\<close>

definition tame :: "pystr \<Rightarrow> bool" where
  "tame s \<longleftrightarrow> 10 \<notin> set s \<and> 60 \<notin> set s"

lemma tame_simps [simp]:
  "tame []" "tame (c # s) \<longleftrightarrow> c \<noteq> 10 \<and> c \<noteq> 60 \<and> tame s" "tame (s @ t) \<longleftrightarrow> tame s \<and> tame t"
  by (auto simp: tame_def)

lemma tame_nat_str [simp]: "tame (nat_str n)"
  using nat_str_digits [of n] by (force simp: tame_def)

lemma tame_int_str [simp]: "tame (int_str i)"
  by (simp add: int_str_def)

lemma html_escape_newline: "10 \<in> set (html_escape s) \<longleftrightarrow> 10 \<in> set s"
proof -
  have "10 \<in> set (html_char c) \<longleftrightarrow> c = 10" for c by (simp add: U_def)
  then show ?thesis by (auto simp: html_escape_def simp del: html_char.simps)
qed

lemma join_space_newline: "10 \<in> set (join_with [32] ls) \<longleftrightarrow> (\<exists>l \<in> set ls. 10 \<in> set l)"
  by (induction "[32::nat]" ls rule: join_with.induct) auto

lemma escape_char: "x \<in> set (if markdown_special c then [92, c] else [c]) \<Longrightarrow> x = 92 \<or> x = c"
  by (cases "markdown_special c") auto

lemma tame_escape_markdown [simp]: "tame (escape_markdown s)"
proof -
  let ?h = "html_escape (join_with [32] (splitlines s))"
  have "line_break 10" by (simp add: line_break_def)
  then have "10 \<notin> set l" if "l \<in> set (splitlines s)" for l
    using splitlines_no_breaks [OF that] unfolding list_all_iff by blast
  then have "10 \<notin> set ?h" by (simp add: html_escape_newline join_space_newline)
  moreover have "60 \<notin> set ?h" by simp
  moreover have "x = 92 \<or> x \<in> set ?h" if "x \<in> set (escape_markdown s)" for x
    using that escape_char unfolding escape_markdown_def set_concat set_map by blast
  ultimately show ?thesis unfolding tame_def by force
qed

lemma tame_code_span: "10 \<notin> set s \<Longrightarrow> tame (code_span s)"
  by (simp add: tame_def code_span_def Let_def html_escape_newline)

lemma tame_quote [simp]: "60 \<notin> set safe \<Longrightarrow> 10 \<notin> set safe \<Longrightarrow> tame (quote safe s)"
  using quote_notin [of 60 safe s] quote_notin [of 10 safe s]
  by (simp add: tame_def unreserved_def is_alnum_def is_alpha_def)

lemma tame_priority [simp]: "tame (priority_label p)"
  by (auto simp: priority_label_def PRIORITY_LABELS_def split: option.split dest: map_of_SomeD)

lemma tame_host [simp]: "tame (host_of_provider p)"
  by (cases p) (simp_all add: host_of_provider_def U_def)

lemma tame_url [simp]: "tame (finding_url q out f)"
  by (simp add: finding_url_def U_def)

lemma tame_version [simp]: "tame (version_label f)"
  by (simp add: version_label_def)

lemma safe_path_newline: "safe_path p \<Longrightarrow> 10 \<notin> set p"
  by (auto simp: safe_path_def list_all_iff)

lemma tame_details: "list_all tame (detail_sections f)"
  by (simp add: detail_sections_def)

lemma tame_finding: "safe_path (rf_file_path f) \<Longrightarrow> list_all tame (finding_sections q out k f)"
  by (simp add: finding_sections_def tame_details tame_code_span safe_path_newline U_def)

lemma tame_findings:
  "list_all (\<lambda>f. safe_path (rf_file_path f)) fs \<Longrightarrow> list_all tame (all_finding_sections q out k fs)"
  by (induction fs arbitrary: k) (simp_all add: tame_finding)

lemma tame_pending: "safe_path (rf_file_path (fst p)) \<Longrightarrow> list_all tame (pending_sections k p)"
  by (simp add: pending_sections_def case_prod_beta tame_details tame_code_span safe_path_newline U_def)

lemma tame_pendings:
  "list_all (\<lambda>p. safe_path (rf_file_path (fst p))) ps \<Longrightarrow> list_all tame (all_pending_sections k ps)"
  by (induction ps arbitrary: k) (simp_all add: tame_pending)

lemma tame_summaries: "list_all tame (summary_sections k ss)"
  by (induction ss arbitrary: k) (simp_all add: U_def)

lemma tame_inputs: "list_all tame (input_sections q)"
  by (simp add: input_sections_def U_def split: option.split)

lemma tame_conclusion: "tame (conclusion_text q n)"
  by (simp add: conclusion_text_def)

lemma tame_sections:
  assumes "output_ok out" "list_all (\<lambda>p. safe_path (rf_file_path (fst p))) (ci_pending q)" "10 \<notin> set (ci_head_sha q)"
  shows "list_all tame (comment_sections q out)"
proof -
  have "list_all (\<lambda>f. safe_path (rf_file_path f)) (unique_findings out)"
    using assms(1) set_dedupe_by_subset [of finding_key "[]" "ro_findings out"]
    by (auto simp: unique_findings_def output_ok_def list_all_iff finding_ok_def)
  with assms(2,3) show ?thesis
    by (simp add: comment_sections_def Let_def tame_findings tame_pendings tame_summaries tame_inputs
        tame_conclusion tame_code_span U_def)
qed

text \<open>
  C29: The model that writes a review cannot forge the structure of the comment.  Whatever Chinese text its
  findings contain, the lines of the rendered comment are exactly the sections of the template followed by the
  marker, and the only opening angle bracket is the one that starts the marker: no finding can add a line, an
  HTML comment or a second marker, so the marker the publisher searches for is its own.
\<close>

theorem comment_structure_is_safe:
  assumes "output_ok out" "list_all (\<lambda>p. safe_path (rf_file_path (fst p))) (ci_pending q)"
    "tame (ci_review_key q)" "tame (ci_base_sha q)" "tame (ci_head_sha q)"
  shows "split_on 10 (fst (render_pr_comment q out)) = comment_sections q out @ [review_marker q]
    \<and> filter (\<lambda>c. c = 60) (fst (render_pr_comment q out)) = [60]
    \<and> (\<exists>pre. fst (render_pr_comment q out) = pre @ [10] @ review_marker q \<and> 60 \<notin> set pre)"
proof -
  let ?s = "comment_sections q out" and ?m = "review_marker q"
  have tame: "list_all tame ?s"
    using assms by (intro tame_sections) (simp_all add: tame_def)
  have marker: "10 \<notin> set ?m" "filter (\<lambda>c. c = 60) ?m = [60]"
    using assms(3-5) by (auto simp: review_marker_def U_def tame_def filter_empty_conv)
  have ne: "?s \<noteq> []" by (simp add: comment_sections_def Let_def)
  have comment: "fst (render_pr_comment q out) = join_with [10] (?s @ [?m])"
    by (simp add: render_pr_comment_def)
  have "split_on 10 (join_with [10] (?s @ [?m])) = ?s @ [?m]"
    using tame marker(1) by (intro split_join) (auto simp: list_all_iff tame_def)
  moreover have snoc: "join_with [10] (xs @ [m]) = join_with [10] xs @ [10] @ m" if "xs \<noteq> []" for xs m
    using that by (induction "[10::nat]" xs rule: join_with.induct) auto
  moreover have "60 \<notin> set (join_with [10] xs)" if "list_all tame xs" for xs
    using that by (induction "[10::nat]" xs rule: join_with.induct) (auto simp: tame_def)
  then have "60 \<notin> set (join_with [10] ?s)" using tame by blast
  moreover from this have "filter (\<lambda>c. c = 60) (join_with [10] ?s) = []" by (auto simp: filter_empty_conv)
  ultimately show ?thesis
    using snoc [OF ne, of ?m] marker(2) unfolding comment
    by (intro conjI exI [of _ "join_with [10] ?s"]) simp_all
qed

definition sample_comment :: comment_input where
  "sample_comment = \<lparr>ci_provider = Github, ci_owner = [97], ci_name = [98], ci_base_sha = [99], ci_head_sha = [100],
     ci_review_key = [107], ci_changed_file_count = None, ci_additions = None, ci_deletions = None,
     ci_filtered = 0, ci_comparison_sha = None, ci_pending = []\<rparr>"

theorem comment_structure_is_safe_witness:
  "filter (\<lambda>c. c = 60) (fst (render_pr_comment sample_comment
     \<lparr>ro_comparison_sha = None, ro_change_summary = [[19968, 60]],
      ro_findings = [(sample_finding 9 12)\<lparr>rf_title := [19968, 10, 60]\<rparr>]\<rparr>)) = [60]"
proof -
  let ?out = "\<lparr>ro_comparison_sha = None, ro_change_summary = [[19968, 60]],
      ro_findings = [(sample_finding 9 12)\<lparr>rf_title := [19968, 10, 60]\<rparr>]\<rparr>"
  have "output_ok ?out"
    by (simp add: output_ok_def summary_sentence_ok_def finding_ok_def sample_finding_def safe_path_def
        windows_absolute_def chinese_field_def cjk_def strip_def lstrip_def rstrip_def isspace_def
        PRIORITIES_def SIDES_def U_def)
  moreover have "list_all (\<lambda>p. safe_path (rf_file_path (fst p))) (ci_pending sample_comment)"
    "tame (ci_review_key sample_comment)" "tame (ci_base_sha sample_comment)" "tame (ci_head_sha sample_comment)"
    by (simp_all add: sample_comment_def)
  ultimately show ?thesis using comment_structure_is_safe [of ?out sample_comment] by blast
qed

end
