(* ===== verification/Pr_Review_Run.thy ===== *)
theory Pr_Review_Run
  imports Pr_Review_Store Redaction Review_Instructions Review_Comment Broker Review_Result
begin

text \<open>
  \<open>PRReviewOrchestrator.run\<close> (\<open>pr_review/orchestrator.py\<close>) as a coroutine over the statements of
  \<open>Pr_Review_Store\<close>.

  Its world is the database, the table of reviews, the credential broker, the event \<open>claim_lost\<close>, the locals
  \<open>state\<close> and \<open>task\<close> that the exception handler reads, and the streams of clock readings and random tokens.
  \<open>x_posts\<close> records each comment handed to the code platform together with the review's row at that moment; the
  program does not read it.  What is awaited (platform, git workspace, Agent runner, notifier) is a field of
  \<open>review_services\<close>: a computation that may change the world, since other coroutines and the heartbeat thread
  run meanwhile.
\<close>

section \<open>The world\<close>

record review_post =
  po_row :: "review_row option"
  po_body :: pystr
  po_marker :: pystr

record 'd review_world =
  x_db :: db
  x_rows :: "review_row list"
  x_broker :: "'d broker"
  x_lost :: bool
  x_state :: review_status
  x_task :: "task_context option"
  x_posts :: "review_post list"
  x_clock :: "nat \<Rightarrow> time"
  x_secrets :: "nat \<Rightarrow> pystr"
  x_reads :: nat

type_synonym ('d, 'a) ract = "('d review_world, 'a) io"

record review_input =
  ri_ranges :: changed_ranges
  ri_unified_diff :: pystr
  ri_review_base :: pystr

text \<open>
  \<open>rsv_post\<close> is \<open>wait_for(publish_pr_comment(..), 90)\<close> and gives the comment's URL; \<open>rsv_wait_lost\<close> is
  \<open>wait_for(claim_lost.wait(), 300)\<close> and tells whether the event was set in time.
\<close>

record ('d, 'f) review_services =
  rsv_lib :: pylib
  rsv_digits :: "nat \<Rightarrow> digit_kind"
  rsv_classes :: unicode_classes
  rsv_digest :: "pystr \<Rightarrow> 'd"
  rsv_has_broker :: bool
  rsv_forges :: "'f registry"
  rsv_stage_timeout :: int
  rsv_model_secrets :: "pystr list"
  rsv_schema :: pystr
  rsv_resolve :: "pystr \<Rightarrow> pystr"
  rsv_native :: "review_input \<Rightarrow> pystr \<Rightarrow> pystr \<Rightarrow> pystr \<Rightarrow> pyexc + review_output"
  rsv_get_pull_request :: "'f \<Rightarrow> pystr \<Rightarrow> pystr \<Rightarrow> int \<Rightarrow> ('d, pull_details) ract"
  rsv_resolve_head :: "pystr \<Rightarrow> pystr \<Rightarrow> ('d, pystr option) ract"
  rsv_prepare :: "task_context \<Rightarrow> pull_details \<Rightarrow> ('d, pystr) ract"
  rsv_review_input :: "pystr \<Rightarrow> pystr \<Rightarrow> pystr \<Rightarrow> ('d, review_input) ract"
  rsv_assert_pristine :: "pystr \<Rightarrow> pystr \<Rightarrow> pystr \<Rightarrow> ('d, unit) ract"
  rsv_run_agent :: "job_spec \<Rightarrow> ('d, job_result) ract"
  rsv_sleep :: "rat \<Rightarrow> ('d, unit) ract"
  rsv_wait_lost :: "('d, bool) ract"
  rsv_post :: "'f \<Rightarrow> pystr \<Rightarrow> pystr \<Rightarrow> int \<Rightarrow> pystr \<Rightarrow> pystr \<Rightarrow> ('d, pystr) ract"
  rsv_notify :: "(pystr \<Rightarrow> pystr \<Rightarrow> ('d, unit) ract) option"

definition review_now :: "('d, time) ract" where
  "review_now w = (Inr (x_clock w (x_reads w)), w\<lparr>x_reads := x_reads w + 1\<rparr>)"

definition review_secret :: "('d, pystr) ract" where
  "review_secret w = (Inr (x_secrets w (x_reads w)), w\<lparr>x_reads := x_reads w + 1\<rparr>)"

definition rows_tx :: "(review_row list \<Rightarrow> (pyexc + 'a) \<times> review_row list) \<Rightarrow> ('d, 'a) ract" where
  "rows_tx f w = (case f (x_rows w) of (r, rows) \<Rightarrow> (r, w\<lparr>x_rows := rows\<rparr>))"

text \<open>A statement of the worker with the current value of its local \<open>state\<close>.\<close>

definition state_tx :: "(review_status \<Rightarrow> review_row list \<Rightarrow> (pyexc + 'a) \<times> review_row list) \<Rightarrow> ('d, 'a) ract" where
  "state_tx f w = rows_tx (f (x_state w)) w"

definition set_state :: "review_status \<Rightarrow> ('d, unit) ract" where
  "set_state s w = (Inr (), w\<lparr>x_state := s\<rparr>)"

definition claim_gone :: pyexc where
  "claim_gone = raise_exc PRClaimLost []"

text \<open>\<open>_assert_claim\<close>\<close>

definition assert_review_claim :: "int \<Rightarrow> pystr \<Rightarrow> ('d, unit) ract" where
  "assert_review_claim i k w =
     (if x_lost w then (Inl claim_gone, w)
      else case renew_review i k (x_clock w (x_reads w)) (x_rows w) of
        (True, rows) \<Rightarrow> (Inr (), w\<lparr>x_rows := rows, x_reads := x_reads w + 1\<rparr>)
      | (False, rows) \<Rightarrow> (Inl claim_gone, w\<lparr>x_rows := rows, x_reads := x_reads w + 1, x_lost := True\<rparr>))"

definition assert_not_lost :: "('d, unit) ract" where
  "assert_not_lost w = (if x_lost w then Inl claim_gone else Inr (), w)"

section \<open>The revision under review\<close>

definition review_error :: "pystr \<Rightarrow> pyexc" where
  "review_error m = raise_exc PRReviewError m"

definition MSG_MERGED :: pystr where "MSG_MERGED = [80, 82, 32, 24050, 21512, 24182]"
definition MSG_CLOSED :: pystr where "MSG_CLOSED = [80, 82, 32, 24050, 20851, 38381]"
definition MSG_REVISION_CHANGED :: pystr where "MSG_REVISION_CHANGED = [80, 82, 32, 29256, 26412,
 24050, 21464, 21270]"
definition MSG_HEAD_MOVED :: pystr where "MSG_HEAD_MOVED = [26816, 35270, 26399, 38388, 28304,
 20998, 25903, 26377, 26032, 25552, 20132, 65292, 35831, 37325, 26032, 21457, 36215, 26816, 35270]"
definition MSG_BASE_MOVED :: pystr where "MSG_BASE_MOVED = [26816, 35270, 26399, 38388, 30446,
 26631, 20998, 25903, 26377, 26032, 25552, 20132, 65292, 35831, 37325, 26032, 21457, 36215, 26816,
 35270]"
definition MSG_NO_COMPARISON :: pystr where "MSG_NO_COMPARISON = [26080, 27861, 30830, 35748, 32,
 80, 82, 32, 30340, 23454, 38469, 27604, 36739, 22522, 20934]"

text \<open>\<open>_validate_pr\<close>; its callers never pass the expected shas.\<close>

definition validate_pr :: "pystr option \<Rightarrow> pystr option \<Rightarrow> pystr option \<Rightarrow> pull_details \<Rightarrow> pyexc + unit" where
  "validate_pr base_ref head_ref head_url d =
     (if pd_merged d then Inl (review_error MSG_MERGED)
      else if pd_state d \<noteq> U ''open'' then Inl (review_error MSG_CLOSED)
      else if base_ref \<notin> {None, Some (pd_base_ref d)} \<or> head_ref \<notin> {None, Some (pd_head_ref d)}
              \<or> head_url \<notin> {None, Some (pd_head_repository_url d)}
        then Inl (review_error MSG_REVISION_CHANGED)
      else Inr ())"

definition review_forge :: "('d, 'f) review_services \<Rightarrow> task_context \<Rightarrow> ('d, 'f) ract" where
  "review_forge sv t = lift (require_forge (rsv_forges sv) (tc_provider t))"

definition get_details :: "('d, 'f) review_services \<Rightarrow> task_context \<Rightarrow> ('d, pull_details) ract" where
  "get_details sv t =
     seq (review_forge sv t) (\<lambda>forge. rsv_get_pull_request sv forge (tc_owner t) (tc_name t) (tc_pr_number t))"

definition live_head :: "('d, 'f) review_services \<Rightarrow> pull_details \<Rightarrow> ('d, pystr option) ract" where
  "live_head sv d = rsv_resolve_head sv (pd_head_repository_url d) (pd_head_ref d)"

definition live_base :: "('d, 'f) review_services \<Rightarrow> task_context \<Rightarrow> pull_details \<Rightarrow> ('d, pystr option) ract" where
  "live_base sv t d = rsv_resolve_head sv (tc_repository_url t) (pd_base_ref d)"

definition record_details :: "int \<Rightarrow> pystr \<Rightarrow> pull_details \<Rightarrow> ('d, unit) ract" where
  "record_details i k d = state_tx (\<lambda>s. record_revision i s k (pd_base_sha d) (pd_head_sha d))"

definition with_head :: "pystr option \<Rightarrow> pull_details \<Rightarrow> pull_details" where
  "with_head h d = (case h of None \<Rightarrow> d | Some s \<Rightarrow> d\<lparr>pd_head_sha := s\<rparr>)"

definition with_base :: "pystr option \<Rightarrow> pull_details \<Rightarrow> pull_details" where
  "with_base b d = (case b of None \<Rightarrow> d | Some s \<Rightarrow> d\<lparr>pd_base_sha := s\<rparr>)"

text \<open>The details with the live tips of the branches, and the head the platform reported.\<close>

definition live_details :: "('d, 'f) review_services \<Rightarrow> task_context \<Rightarrow> int \<Rightarrow> pystr \<Rightarrow> ('d, pull_details \<times> pystr) ract" where
  "live_details sv t i k =
     seq (get_details sv t) (\<lambda>d.
     seq (live_head sv d) (\<lambda>h.
     seq (live_base sv t d) (\<lambda>b.
       (let d' = with_base b (with_head h d)
        in seq (record_details i k d') (\<lambda>_. seq (lift (validate_pr None None None d')) (\<lambda>_. ret (d', pd_head_sha d)))))))"

text \<open>\<open>for attempt in range(3)\<close>: the argument counts the attempts that are left after this one.\<close>

primrec prepare_attempts ::
  "nat \<Rightarrow> ('d, 'f) review_services \<Rightarrow> task_context \<Rightarrow> int \<Rightarrow> pystr \<Rightarrow> pull_details \<Rightarrow> ('d, pystr \<times> pull_details) ract" where
  "prepare_attempts 0 sv t i k d = seq (rsv_prepare sv t d) (\<lambda>ws. ret (ws, d))"
| "prepare_attempts (Suc n) sv t i k d =
     catch (seq (rsv_prepare sv t d) (\<lambda>ws. ret (ws, d))) (\<lambda>e.
       if \<not> isinstance e RevisionChanged then throw e
       else
         seq (assert_review_claim i k) (\<lambda>_.
         seq (live_base sv t d) (\<lambda>b.
         seq (live_head sv d) (\<lambda>h.
           if b = None \<or> h = None then throw e
           else (let d' = with_base b (with_head h d)
                 in seq (record_details i k d') (\<lambda>_. prepare_attempts n sv t i k d'))))))"

text \<open>The second look at the pull request, after the Agent has finished.\<close>

definition recheck_revision ::
  "('d, 'f) review_services \<Rightarrow> task_context \<Rightarrow> pull_details \<Rightarrow> pystr \<Rightarrow> ('d, unit) ract" where
  "recheck_revision sv t d api_head =
     seq (get_details sv t) (\<lambda>current.
     seq (lift (validate_pr (Some (pd_base_ref d)) (Some (pd_head_ref d)) (Some (pd_head_repository_url d)) current)) (\<lambda>_.
     seq (live_head sv d) (\<lambda>h.
     seq (case h of
            Some s \<Rightarrow> guard_io (s \<noteq> pd_head_sha d) (review_error MSG_HEAD_MOVED)
          | None \<Rightarrow> guard_io (pd_head_sha current \<notin> {pd_head_sha d, api_head}) (review_error MSG_REVISION_CHANGED)) (\<lambda>_.
     seq (live_base sv t d) (\<lambda>b.
       case b of
         Some s \<Rightarrow> guard_io (s \<noteq> pd_base_sha d) (review_error MSG_BASE_MOVED)
       | None \<Rightarrow> guard_io (pd_base_sha current \<noteq> pd_base_sha d) (review_error MSG_REVISION_CHANGED))))))"

section \<open>The Agent\<close>

definition AGENT_JOB_ATTEMPTS :: nat where "AGENT_JOB_ATTEMPTS = 2"
definition UPSTREAM_MAX_RETRIES :: nat where "UPSTREAM_MAX_RETRIES = 3"
definition UPSTREAM_RETRY_SECONDS :: int where "UPSTREAM_RETRY_SECONDS = 300"
definition PR_REVIEW_MAX_OUTPUT_BYTES :: int where "PR_REVIEW_MAX_OUTPUT_BYTES = 5000000"

text \<open>\<open>_notify\<close>\<close>

definition notify_review ::
  "('d, 'f) review_services \<Rightarrow> int \<Rightarrow> pystr \<Rightarrow> pystr \<Rightarrow> review_status \<Rightarrow> ('d, unit) ract" where
  "notify_review sv i chat message expected =
     (case rsv_notify sv of
        None \<Rightarrow> ret ()
      | Some notify \<Rightarrow>
          if chat = [] then ret ()
          else catch (notify chat message) (\<lambda>e.
            if isinstance e Exception
            then rows_tx (\<lambda>rows. (Inr (), record_notification_failure i expected (class_name (exc_cls e)) rows))
            else throw e))"

definition wait_upstream_retry :: "('d, 'f) review_services \<Rightarrow> ('d, unit) ract" where
  "wait_upstream_retry sv = seq (rsv_wait_lost sv) (\<lambda>lost. guard_io lost claim_gone)"

definition review_label :: "int \<Rightarrow> pystr" where
  "review_label i = U ''RV-'' @ int_str i"

definition MSG_UPSTREAM :: pystr where "MSG_UPSTREAM = [19978, 28216, 27169, 22411, 38169, 35823, 65306]"

definition retry_notice :: "int \<Rightarrow> pystr \<Rightarrow> nat \<Rightarrow> pystr" where
  "retry_notice i upstream attempt =
     review_label i @ U '' '' @ MSG_UPSTREAM @ upstream @ [12290, 23558, 22312, 32, 53, 32, 20998,
      38047, 21518, 36827, 34892, 31532, 32] @ nat_str attempt @ U ''/''
       @ nat_str UPSTREAM_MAX_RETRIES @ [32, 27425, 37325, 35797, 12290]"

definition upstream_exhausted :: "pystr \<Rightarrow> pyexc" where
  "upstream_exhausted upstream =
     raise_exc ReviewUpstreamFailure (MSG_UPSTREAM @ upstream @ [65307, 24050, 37325, 35797, 32] @ nat_str UPSTREAM_MAX_RETRIES
       @ [32, 27425, 20173, 22833, 36133, 65292, 26412, 20219, 21153, 24050, 32467, 26463, 65292,
        35831, 37325, 26032, 21457, 36865, 8220, 26816, 35270, 32] @ U ''<PR URL>'' @ [8221, 35302,
        21457, 20219, 21153, 12290])"

fun job_status_value :: "job_status \<Rightarrow> pystr" where
  "job_status_value JobSucceeded = U ''succeeded''"
| "job_status_value JobFailed = U ''failed''"
| "job_status_value JobTimedOut = U ''timed_out''"
| "job_status_value JobCancelled = U ''cancelled''"

definition agent_failure :: "job_status \<Rightarrow> pyexc" where
  "agent_failure s = raise_exc ReviewAgentFailure ([67, 111, 100, 101, 120, 32, 26816, 35270, 22833,
   36133, 65288] @ job_status_value s @ [65289])"

text \<open>\<open>take_upstream_error\<close> of the broker, when there is a token.\<close>

definition take_error :: "('d, 'f) review_services \<Rightarrow> pystr option \<Rightarrow> ('d, pystr option) ract" where
  "take_error sv token w =
     (if truthy token \<and> rsv_has_broker sv
      then case take_upstream_error (rsv_digest sv (the token)) (x_broker w) of (m, b) \<Rightarrow> (Inr m, w\<lparr>x_broker := b\<rparr>)
      else (Inr None, w))"

definition run_review_agent ::
  "('d, 'f) review_services \<Rightarrow> job_spec \<Rightarrow> 'd review_world \<Rightarrow> (pyexc + job_result) \<times> 'd review_world" where
  "run_review_agent sv spec =
     retry_agent_operation (seq (take_error sv (js_proxy_token spec)) (\<lambda>_. rsv_run_agent sv spec)) (ret ())
       (rsv_sleep sv) 2 (1 / 4)"

text \<open>One round of the loop over the attempts: the result that ends it, or \<open>None\<close> to go on.\<close>

definition review_attempt ::
  "('d, 'f) review_services \<Rightarrow> task_context \<Rightarrow> job_spec \<Rightarrow> nat \<Rightarrow> ('d, job_result option) ract" where
  "review_attempt sv t spec attempt =
     seq assert_not_lost (\<lambda>_.
     seq (run_review_agent sv spec) (\<lambda>result.
       if jr_status result = JobSucceeded then ret (Some result)
       else
         seq (take_error sv (js_proxy_token spec)) (\<lambda>stored.
           (let found = upstream_error_message (rsv_classes sv) (rsv_lib sv) result (js_proxy_token spec)
                          (rsv_resolve sv (js_workspace spec)) (rsv_model_secrets sv);
                upstream = (if truthy stored then stored else found)
            in if jr_status result = JobFailed \<and> upstream \<noteq> None then
                 (if attempt = UPSTREAM_MAX_RETRIES + 1 then throw (upstream_exhausted (the upstream))
                  else seq assert_not_lost (\<lambda>_.
                       seq (notify_review sv (tc_id t) (tc_source_chat_id t)
                              (retry_notice (tc_id t) (the upstream) attempt) RvReviewing) (\<lambda>_.
                       seq (wait_upstream_retry sv) (\<lambda>_. ret None))))
               else if jr_status result \<noteq> JobFailed \<or> AGENT_JOB_ATTEMPTS \<le> attempt
                 then throw (agent_failure (jr_status result))
               else ret None))))"

fun review_attempts ::
  "('d, 'f) review_services \<Rightarrow> task_context \<Rightarrow> job_spec \<Rightarrow> nat list \<Rightarrow> ('d, job_result) ract" where
  "review_attempts sv t spec [] = throw (raise_exc RuntimeError (U ''unreachable''))"
| "review_attempts sv t spec (attempt # rest) =
     seq (review_attempt sv t spec attempt) (\<lambda>r.
       case r of Some result \<Rightarrow> ret result | None \<Rightarrow> review_attempts sv t spec rest)"

text \<open>\<open>issued_stage_token\<close> around the body; without a broker there is no token.\<close>

definition review_token_ttl :: "int \<Rightarrow> int" where
  "review_token_ttl timeout =
     timeout * (int UPSTREAM_MAX_RETRIES + 1) + UPSTREAM_RETRY_SECONDS * int UPSTREAM_MAX_RETRIES + 300"

definition issue_review_token :: "('d, 'f) review_services \<Rightarrow> task_context \<Rightarrow> ('d, pystr) ract" where
  "issue_review_token sv t =
     seq review_now (\<lambda>now. seq review_secret (\<lambda>token w.
       case issue_token (rsv_digest sv) token now
              (default_request (U ''task-'' @ int_str (tc_id t)) (stage_value StagePrReview)
                 (Some (seconds (review_token_ttl (rsv_stage_timeout sv))))) (x_broker w) of
         (r, b) \<Rightarrow> (r, w\<lparr>x_broker := b\<rparr>)))"

definition revoke_review_token :: "('d, 'f) review_services \<Rightarrow> pystr \<Rightarrow> ('d, unit) ract" where
  "revoke_review_token sv k w =
     (Inr (), w\<lparr>x_broker := (if k = [] then x_broker w else snd (remove_lease (rsv_digest sv k) (x_broker w)))\<rparr>)"

definition with_review_token ::
  "('d, 'f) review_services \<Rightarrow> task_context \<Rightarrow> (pystr option \<Rightarrow> ('d, 'a) ract) \<Rightarrow> ('d, 'a) ract" where
  "with_review_token sv t body =
     (if \<not> rsv_has_broker sv then body None
      else seq (issue_review_token sv t) (\<lambda>k. finally_do (body (Some k)) (revoke_review_token sv k)))"

definition fallback_summary :: "changed_ranges \<Rightarrow> pystr" where
  "fallback_summary r =
     [26412, 27425, 32, 80, 82, 32, 28041, 21450, 32] @ int_str (cr_changed_file_count r) @ [32,
      20010, 21464, 26356, 25991, 20214, 65292, 26032, 22686, 32] @ int_str (cr_additions r)
       @ [32, 34892, 24182, 21024, 38500, 32] @ int_str (cr_deletions r) @ [32, 34892, 12290]"

definition MSG_BAD_OUTPUT :: pystr where "MSG_BAD_OUTPUT = [67, 111, 100, 101, 120, 32, 26816,
 35270, 36755, 20986, 26080, 25928, 65306]"

definition review_spec ::
  "('d, 'f) review_services \<Rightarrow> task_context \<Rightarrow> pystr \<Rightarrow> pystr \<Rightarrow> pystr option \<Rightarrow> pystr \<Rightarrow> job_spec" where
  "review_spec sv t workspace prompt token review_base =
     \<lparr>js_job_id = U ''pr-review-'' @ int_str (tc_id t), js_stage = StagePrReview, js_role = PrReviewer,
      js_workspace = workspace, js_prompt = prompt, js_timeout_seconds = of_int (rsv_stage_timeout sv),
      js_max_output_bytes = PR_REVIEW_MAX_OUTPUT_BYTES, js_output_schema = Some (rsv_schema sv),
      js_session_id = None, js_review_base = Some review_base, js_proxy_token = token\<rparr>"

definition review_parsed ::
  "('d, 'f) review_services \<Rightarrow> pystr \<Rightarrow> review_input \<Rightarrow> pystr \<Rightarrow> pystr \<Rightarrow> pyexc + review_output" where
  "review_parsed sv workspace material base stdout =
     (case parse_review_output (rsv_lib sv) (rsv_digits sv)
             (Some (base, rsv_native sv material workspace (fallback_summary (ri_ranges material)))) stdout of
        Inl e \<Rightarrow> Inl (if isinstance e ReviewOutputError then review_error (MSG_BAD_OUTPUT @ exc_str e) else e)
      | Inr out \<Rightarrow> Inr out)"

text \<open>\<open>_run_review\<close>\<close>

definition run_review ::
  "('d, 'f) review_services \<Rightarrow> task_context \<Rightarrow> pystr \<Rightarrow> pystr \<Rightarrow> pystr \<Rightarrow> review_input
    \<Rightarrow> ('d, review_output \<times> pystr option) ract" where
  "run_review sv t workspace base head material =
     (let prompt = build_review_instructions (tc_provider t) (tc_owner t) (tc_name t) (tc_pr_number t) base head
                     (ri_review_base material)
      in with_review_token sv t (\<lambda>token.
           seq (lift (job_spec (review_spec sv t workspace prompt token (ri_review_base material)))) (\<lambda>spec.
           seq (review_attempts sv t spec [1 ..< UPSTREAM_MAX_RETRIES + 2]) (\<lambda>result.
           seq (lift (review_parsed sv workspace material base (jr_stdout result))) (\<lambda>out. ret (out, token))))))"

section \<open>The comment\<close>

definition redact_pending ::
  "pystr list \<Rightarrow> pystr list \<Rightarrow> (review_finding \<times> pystr) list \<Rightarrow> pyexc + (review_finding \<times> pystr) list" where
  "redact_pending secrets summary =
     map_raise (\<lambda>(f, reason).
       and_then (redact_output secrets \<lparr>ro_comparison_sha = None, ro_change_summary = summary, ro_findings = [f]\<rparr>)
         (\<lambda>safe. Inr (hd (ro_findings safe), reason)))"

definition review_record ::
  "changed_ranges \<Rightarrow> pystr \<Rightarrow> review_output \<Rightarrow> review_output \<Rightarrow> (review_finding \<times> pystr) list \<Rightarrow> stored_review" where
  "review_record ranges comparison generated output pending =
     \<lparr>sd_output = output, sd_unlocated = pending,
      sd_audit = \<lparr>ra_comparison_sha = comparison, ra_changed_files = cr_changed_file_count ranges,
        ra_additions = cr_additions ranges, ra_deletions = cr_deletions ranges,
        ra_generated = length (ro_findings generated), ra_validated = length (ro_findings output),
        ra_filtered = int (length (ro_findings generated)) - int (length (ro_findings output))\<rparr>\<rparr>"

definition comment_input_of ::
  "task_context \<Rightarrow> pull_details \<Rightarrow> changed_ranges \<Rightarrow> nat \<Rightarrow> (review_finding \<times> pystr) list \<Rightarrow> comment_input" where
  "comment_input_of t d ranges filtered pending =
     \<lparr>ci_provider = tc_provider t, ci_owner = tc_owner t, ci_name = tc_name t, ci_base_sha = pd_base_sha d,
      ci_head_sha = pd_head_sha d, ci_review_key = tc_review_key t,
      ci_changed_file_count = Some (nat (cr_changed_file_count ranges)), ci_additions = Some (nat (cr_additions ranges)),
      ci_deletions = Some (nat (cr_deletions ranges)), ci_filtered = filtered,
      ci_comparison_sha = cr_comparison_sha ranges, ci_pending = pending\<rparr>"

definition LGTM_COMMENT :: pystr where
  "LGTM_COMMENT = U ''/lgtm''"

definition lgtm_marker :: "pystr \<Rightarrow> pystr" where
  "lgtm_marker head = U ''<!-- coderus-pr-review-lgtm:'' @ head @ U '' -->''"

definition post_comment ::
  "('d, 'f) review_services \<Rightarrow> task_context \<Rightarrow> pystr \<Rightarrow> pystr \<Rightarrow> ('d, pystr) ract" where
  "post_comment sv t body marker =
     seq (review_forge sv t) (\<lambda>forge w.
       rsv_post sv forge (tc_owner t) (tc_name t) (tc_pr_number t) body marker
         (w\<lparr>x_posts := x_posts w @
             [\<lparr>po_row = get_review (tc_id t) (x_rows w), po_body = body, po_marker = marker\<rparr>]\<rparr>))"

text \<open>The comment, and the approval when the Agent had no findings at all.\<close>

definition post_review ::
  "('d, 'f) review_services \<Rightarrow> task_context \<Rightarrow> int \<Rightarrow> pystr \<Rightarrow> pystr \<Rightarrow> pystr \<times> pystr \<Rightarrow> bool \<Rightarrow> ('d, pystr) ract" where
  "post_review sv t i k head rendered no_findings =
     seq (assert_review_claim i k) (\<lambda>_.
     seq (post_comment sv t (fst rendered) (snd rendered)) (\<lambda>url.
       if no_findings
       then seq (assert_review_claim i k) (\<lambda>_.
            seq (post_comment sv t (LGTM_COMMENT @ [10] @ lgtm_marker head) (lgtm_marker head)) (\<lambda>_. ret url))
       else ret url))"

section \<open>The run\<close>

text \<open>From the prepared workspace to the redacted output, the findings without a line and the counts.\<close>

definition review_output_of ::
  "('d, 'f) review_services \<Rightarrow> task_context \<Rightarrow> int \<Rightarrow> pystr \<Rightarrow> pystr \<Rightarrow> pull_details \<Rightarrow> pystr
    \<Rightarrow> ('d, changed_ranges \<times> stored_review \<times> review_output) ract" where
  "review_output_of sv t i k workspace d api_head =
     seq (assert_review_claim i k) (\<lambda>_.
     seq (rsv_review_input sv workspace (pd_base_sha d) (pd_head_sha d)) (\<lambda>material.
       (case cr_comparison_sha (ri_ranges material) of
          None \<Rightarrow> throw (review_error MSG_NO_COMPARISON)
        | Some comparison \<Rightarrow>
            (let ranges = ri_ranges material in
             seq (assert_review_claim i k) (\<lambda>_.
             seq (run_review sv t workspace comparison (pd_head_sha d) material) (\<lambda>(generated, token).
             seq (assert_review_claim i k) (\<lambda>_.
             seq (rsv_assert_pristine sv workspace (pd_head_sha d) comparison) (\<lambda>_.
             seq (assert_review_claim i k) (\<lambda>_.
               (let pending = unlocated_findings ranges (ro_findings generated);
                    output = validate_findings ranges generated;
                    secrets = sensitive_values token (rsv_model_secrets sv) (rsv_resolve sv workspace) in
                seq (assert_review_claim i k) (\<lambda>_.
                seq (recheck_revision sv t d api_head) (\<lambda>_.
                seq (lift (redact_output secrets output)) (\<lambda>safe.
                seq (lift (redact_pending secrets (ro_change_summary generated) pending)) (\<lambda>safe_pending.
                  ret (ranges, review_record ranges comparison generated safe safe_pending, generated)))))))))))))))"

definition publish_review ::
  "('d, 'f) review_services \<Rightarrow> task_context \<Rightarrow> int \<Rightarrow> pystr \<Rightarrow> pull_details \<Rightarrow> changed_ranges \<Rightarrow> stored_review
    \<Rightarrow> review_output \<Rightarrow> ('d, pystr) ract" where
  "publish_review sv t i k d ranges result generated =
     seq (state_tx (\<lambda>s. set_commenting i s k result)) (\<lambda>_.
     seq (set_state RvCommenting) (\<lambda>_.
     seq (post_review sv t i k (pd_head_sha d)
            (render_pr_comment (comment_input_of t d ranges (nat (ra_filtered (sd_audit result))) (sd_unlocated result))
               (sd_output result))
            (ro_findings generated = [])) (\<lambda>url.
     seq review_now (\<lambda>now.
     seq (state_tx (\<lambda>s. complete_review i s k url now)) (\<lambda>_. ret url)))))"

definition load_context :: "int \<Rightarrow> ('d, task_context) ract" where
  "load_context i w =
     (case load_review i (x_db w) (x_rows w) of
        Inl e \<Rightarrow> (Inl e, w) | Inr t \<Rightarrow> (Inr t, w\<lparr>x_task := Some t\<rparr>))"

definition review_body :: "('d, 'f) review_services \<Rightarrow> int \<Rightarrow> pystr \<Rightarrow> ('d, task_context \<times> pystr) ract" where
  "review_body sv i k =
     seq (load_context i) (\<lambda>t.
     seq (assert_review_claim i k) (\<lambda>_.
     seq (live_details sv t i k) (\<lambda>(d, api_head).
     seq (assert_review_claim i k) (\<lambda>_.
     seq (prepare_attempts 2 sv t i k d) (\<lambda>(workspace, d').
     seq (state_tx (\<lambda>s. review_transition i s RvReviewing k)) (\<lambda>_.
     seq (set_state RvReviewing) (\<lambda>_.
     seq (review_output_of sv t i k workspace d' api_head) (\<lambda>(ranges, result, generated).
     seq (publish_review sv t i k d' ranges result generated) (\<lambda>url. ret (t, url))))))))))"

text \<open>\<open>_safe_summary\<close> and the \<open>except\<close> clauses.\<close>

definition safe_summary :: "pyexc \<Rightarrow> pystr" where
  "safe_summary e =
     (if isinstance e PRReviewError \<or> isinstance e ReviewOutputError \<or> isinstance e PRWorkspaceError
      then take 500 (exc_str e) else class_name (exc_cls e))"

definition MSG_FAILED :: pystr where "MSG_FAILED = [32, 26816, 35270, 22833, 36133, 65306]"
definition MSG_COMPLETED :: pystr where "MSG_COMPLETED = [32, 26816, 35270, 23436, 25104, 65292,
 24050, 21457, 24067, 32, 80, 82, 32, 35780, 35770, 65306]"

definition review_except :: "('d, 'f) review_services \<Rightarrow> int \<Rightarrow> pystr \<Rightarrow> pyexc \<Rightarrow> ('d, (task_context \<times> pystr) option) ract" where
  "review_except sv i k e =
     (if isinstance e PRClaimLost then ret None
      else if \<not> isinstance e Exception then throw e
      else
        seq review_now (\<lambda>now.
        seq (state_tx (\<lambda>s rows. case fail_review i s k e (safe_summary e) now rows of (ok, rows') \<Rightarrow> (Inr ok, rows'))) (\<lambda>ok w.
          (case x_task w of
             None \<Rightarrow> (Inr None, w)
           | Some t \<Rightarrow>
               if \<not> ok then (Inr None, w)
               else seq (notify_review sv (tc_id t) (tc_source_chat_id t)
                      (review_label (tc_id t) @ MSG_FAILED @ safe_summary e) RvFailed) (\<lambda>_. ret None) w))))"

definition run_claimed_review :: "('d, 'f) review_services \<Rightarrow> int \<Rightarrow> pystr \<Rightarrow> ('d, unit) ract" where
  "run_claimed_review sv i k =
     seq (catch (seq (review_body sv i k) (\<lambda>r. ret (Some r))) (review_except sv i k)) (\<lambda>r.
       case r of
         None \<Rightarrow> ret ()
       | Some (t, url) \<Rightarrow>
           notify_review sv (tc_id t) (tc_source_chat_id t) (review_label (tc_id t) @ MSG_COMPLETED @ url) RvCompleted)"

text \<open>\<open>run\<close>: the heartbeat runs beside it; its stop at the end changes nothing here.\<close>

definition enter_review :: "('d, unit) ract" where
  "enter_review w = (Inr (), w\<lparr>x_lost := False, x_state := RvPreparing, x_task := None\<rparr>)"

definition run_pr_review :: "('d, 'f) review_services \<Rightarrow> int \<Rightarrow> ('d, unit) ract" where
  "run_pr_review sv i =
     seq review_secret (\<lambda>token. seq review_secret (\<lambda>key. seq review_now (\<lambda>now.
     seq (rows_tx (\<lambda>rows. case claim_review i token key now rows of (c, rows') \<Rightarrow> (Inr c, rows'))) (\<lambda>c.
       case c of
         None \<Rightarrow> ret ()
       | Some k \<Rightarrow> seq enter_review (\<lambda>_. run_claimed_review sv i k)))))"

end
