(* ===== verification/Pr_Review_Settles.thy ===== *)
theory Pr_Review_Settles
  imports Pr_Review_Run
begin

text \<open>
  What a review run guarantees whatever happens around it: it settles its row, and it comments only while it holds
  the row and only on the revision recorded there.

  \<open>core i k\<close> is what row \<open>i\<close> says to the holder of the claim \<open>k\<close>.  \<open>stage i k st s A\<close> is the invariant between two
  steps: the row, if still held, has status \<open>st\<close> and satisfies \<open>A\<close>, and the local \<open>state\<close> is \<open>s\<close>.  \<open>keeps\<close> are
  the computations that preserve it; their rules are collected in \<open>keep\<close>.
\<close>

named_theorems keep \<open>computations that preserve the stage of a review\<close>

section \<open>The held row\<close>

type_synonym review_core =
  "review_status \<times> pystr option \<times> pystr option \<times> stored_review option \<times> pystr option"

definition row_core :: "review_row \<Rightarrow> review_core" where
  "row_core r = (pr_status r, pr_base_sha r, pr_head_sha r, pr_structured_result r, pr_review_key r)"

definition core :: "int \<Rightarrow> pystr \<Rightarrow> review_row list \<Rightarrow> review_core option" where
  "core i k rows =
     (case get_review i rows of
        None \<Rightarrow> None
      | Some r \<Rightarrow> if pr_claim_token r = Some k then Some (row_core r) else None)"

lemma core_Some:
  "core i k rows = Some c \<longleftrightarrow> (\<exists>r. get_review i rows = Some r \<and> pr_claim_token r = Some k \<and> c = row_core r)"
  by (auto simp: core_def split: option.splits)

lemma get_review_id: "get_review i rows = Some r \<Longrightarrow> pr_id r = i"
  unfolding get_review_def by (drule find_SomeD) simp

lemma get_review_update:
  assumes "\<And>r. pr_id (f r) = pr_id r"
  shows "get_review i (sql_update p f rows) = map_option (\<lambda>r. if p r then f r else r) (get_review i rows)"
  using assms unfolding get_review_def by (induction rows) auto

lemma get_review_count:
  assumes "distinct (map pr_id rows)" "\<And>r. p r \<Longrightarrow> pr_id r = i"
  shows "sql_count p rows = 1 \<longleftrightarrow> (\<exists>r. get_review i rows = Some r \<and> p r)"
proof -
  have "sql_count p rows = 1 \<longleftrightarrow> (\<exists>r \<in> set rows. p r)" by (rule sql_count_key_iff [OF assms])
  also have "\<dots> \<longleftrightarrow> (\<exists>r. get_review i rows = Some r \<and> p r)"
    using assms find_key_Some [OF assms(1), of _ "\<lambda>r. pr_id r = i" i]
    by (auto simp: get_review_def dest!: find_SomeD)
  finally show ?thesis .
qed

lemma distinct_update:
  "distinct (map pr_id rows) \<Longrightarrow> (\<And>r. pr_id (f r) = pr_id r) \<Longrightarrow> distinct (map pr_id (sql_update p f rows))"
  by (simp add: map_sql_update)

text \<open>An update that leaves tokens and core fields alone is invisible.\<close>

lemma core_update_same:
  assumes "\<And>r. pr_id (f r) = pr_id r \<and> pr_claim_token (f r) = pr_claim_token r \<and> row_core (f r) = row_core r"
  shows "core i k (sql_update p f rows) = core i k rows"
  using assms by (auto simp: core_def get_review_update split: option.splits)

section \<open>Comments on record\<close>

text \<open>
  A comment is in order if the row was then held with \<open>k\<close>, was commenting on a stored result, and the comment is
  the rendering of that result for the recorded revision, or the approval of the recorded head after an Agent
  run without findings.
\<close>

definition post_ok :: "pystr \<Rightarrow> review_post \<Rightarrow> bool" where
  "post_ok k p \<longleftrightarrow> (\<exists>r base head result key. po_row p = Some r \<and> pr_claim_token r = Some k
     \<and> row_core r = (RvCommenting, Some base, Some head, Some result, Some key)
     \<and> ((\<exists>q. ci_base_sha q = base \<and> ci_head_sha q = head \<and> ci_review_key q = key \<and> ci_pending q = sd_unlocated result
           \<and> (po_body p, po_marker p) = render_pr_comment q (sd_output result))
        \<or> ra_generated (sd_audit result) = 0 \<and> po_body p = LGTM_COMMENT @ [10] @ lgtm_marker head
           \<and> po_marker p = lgtm_marker head))"

definition stage ::
  "int \<Rightarrow> pystr \<Rightarrow> review_status \<Rightarrow> review_status \<Rightarrow> (pystr option \<times> pystr option \<times> stored_review option \<times> pystr option \<Rightarrow> bool)
    \<Rightarrow> 'd review_world \<Rightarrow> bool" where
  "stage i k st s A w \<longleftrightarrow> distinct (map pr_id (x_rows w)) \<and> x_state w = s
     \<and> (\<forall>c. core i k (x_rows w) = Some c \<longrightarrow> fst c = st \<and> A (snd c)) \<and> list_all (post_ok k) (x_posts w)"

text \<open>The claim is gone, or its loss has been reported: the lease has run out and recovery takes the row.\<close>

definition gone :: "int \<Rightarrow> pystr \<Rightarrow> 'd review_world \<Rightarrow> bool" where
  "gone i k w \<longleftrightarrow> core i k (x_rows w) = None \<or> x_lost w"

definition interrupted :: "int \<Rightarrow> pystr \<Rightarrow> review_status \<Rightarrow> (pystr option \<times> pystr option \<times> stored_review option \<times> pystr option \<Rightarrow> bool)
    \<Rightarrow> pyexc \<Rightarrow> 'd review_world \<Rightarrow> bool" where
  "interrupted i k s A e w \<longleftrightarrow> stage i k s s A w \<and> (isinstance e PRClaimLost \<longrightarrow> gone i k w)"

definition keeps :: "int \<Rightarrow> pystr \<Rightarrow> ('d, 'a) ract \<Rightarrow> bool" where
  "keeps i k m \<longleftrightarrow> (\<forall>s A. triple (stage i k s s A) m (\<lambda>_. stage i k s s A) (interrupted i k s A))"

lemma keepsD: "keeps i k m \<Longrightarrow> triple (stage i k s s A) m (\<lambda>_. stage i k s s A) (interrupted i k s A)"
  by (simp add: keeps_def)

lemma keepsI:
  "(\<And>s A w r w'. stage i k s s A w \<Longrightarrow> m w = (r, w') \<Longrightarrow>
      stage i k s s A w' \<and> (case r of Inl e \<Rightarrow> isinstance e PRClaimLost \<longrightarrow> gone i k w' | Inr _ \<Rightarrow> True)) \<Longrightarrow> keeps i k m"
  unfolding keeps_def interrupted_def by (intro allI tripleI) fastforce+

lemma stage_cong:
  "x_rows w' = x_rows w \<Longrightarrow> x_state w' = x_state w \<Longrightarrow> x_posts w' = x_posts w \<Longrightarrow>
     stage i k st s A w' = stage i k st s A w"
  by (simp add: stage_def)

lemma stage_weaken: "stage i k st s A w \<Longrightarrow> (\<And>c. A c \<Longrightarrow> B c) \<Longrightarrow> stage i k st s B w"
  by (auto simp: stage_def)

definition ordinary :: "pyexc \<Rightarrow> bool" where
  "ordinary e \<longleftrightarrow> \<not> isinstance e PRClaimLost"

lemma is_claim_lost: "isinstance e PRClaimLost \<longleftrightarrow> exc_cls e = PRClaimLost"
proof -
  have "PRClaimLost \<notin> set (bases c)" for c by (cases c) simp_all
  then have "(\<lambda>x y. y \<in> set (bases x))\<^sup>*\<^sup>* c PRClaimLost \<longleftrightarrow> c = PRClaimLost" for c
    by (metis rtranclp.cases rtranclp.rtrancl_refl)
  then show ?thesis by (simp add: isinstance_def issubclass_iff)
qed

lemma ordinary_raise [simp]: "ordinary (raise_exc c m) \<longleftrightarrow> c \<noteq> PRClaimLost"
  by (simp add: ordinary_def is_claim_lost)

subsection \<open>Rules\<close>

lemma keeps_seq [keep]: "keeps i k m \<Longrightarrow> (\<And>x. keeps i k (f x)) \<Longrightarrow> keeps i k (seq m f)"
  unfolding keeps_def by (blast intro: triple_seq)

lemma keeps_ret [keep]: "keeps i k (ret x)"
  by (rule keepsI) (auto simp: ret_def)

lemma keeps_throw: "ordinary e \<Longrightarrow> keeps i k (throw e)"
  by (rule keepsI) (auto simp: throw_def ordinary_def)

lemma keeps_lift: "raises_only ordinary r \<Longrightarrow> keeps i k (lift r)"
  by (rule keepsI) (auto simp: lift_def ordinary_def split: sum.splits)

lemma keeps_guard [keep]: "ordinary e \<Longrightarrow> keeps i k (guard_io b e)"
  by (simp add: guard_io_def keeps_throw keeps_ret)

lemma keeps_if: "(b \<Longrightarrow> keeps i k m) \<Longrightarrow> (\<not> b \<Longrightarrow> keeps i k n) \<Longrightarrow> keeps i k (if b then m else n)"
  by simp

lemma keeps_catch:
  fixes m :: "('d, 'a) ract"
  assumes m: "keeps i k m" and h: "\<And>e. h e = throw e \<or> keeps i k (h e)"
  shows "keeps i k (catch m h)"
proof (rule keepsI)
  fix s A and w :: "'d review_world" and r w'
  assume w: "stage i k s s A w" and run: "catch m h w = (r, w')"
  obtain r1 w1 where m1: "m w = (r1, w1)" by (cases "m w")
  show "stage i k s s A w' \<and> (case r of Inl e \<Rightarrow> isinstance e PRClaimLost \<longrightarrow> gone i k w' | Inr _ \<Rightarrow> True)"
  proof (cases r1)
    case (Inr x)
    with m1 run tripleD(2) [OF keepsD [OF m] w] show ?thesis by (auto simp: catch_def)
  next
    case (Inl e)
    have e: "interrupted i k s A e w1" using tripleD(1) [OF keepsD [OF m] w] m1 Inl by simp
    then have w1: "stage i k s s A w1" by (simp add: interrupted_def)
    have h1: "h e w1 = (r, w')" using run m1 Inl by (simp add: catch_def)
    show ?thesis
    proof (cases "h e = throw e")
      case True
      with h1 e show ?thesis by (auto simp: throw_def interrupted_def)
    next
      case False
      with h have "keeps i k (h e)" by blast
      from tripleD [OF keepsD [OF this] w1] h1 show ?thesis by (cases r) (auto simp: interrupted_def)
    qed
  qed
qed

lemma keeps_finally:
  fixes m :: "('d, 'a) ract"
  assumes m: "keeps i k m" and f: "\<And>w. \<exists>w'. f w = (Inr (), w') \<and> x_rows w' = x_rows w \<and> x_state w' = x_state w
    \<and> x_posts w' = x_posts w \<and> x_lost w' = x_lost w"
  shows "keeps i k (finally_do m f)"
proof (rule keepsI)
  fix s A and w :: "'d review_world" and r w'
  assume w: "stage i k s s A w" and run: "finally_do m f w = (r, w')"
  obtain w1 where m1: "m w = (r, w1)" and w1: "x_rows w' = x_rows w1 \<and> x_state w' = x_state w1
      \<and> x_posts w' = x_posts w1 \<and> x_lost w' = x_lost w1"
    using run f by (auto simp: finally_do_def split: prod.splits sum.splits) (metis Pair_inject old.sum.distinct(1))+
  have "stage i k s s A w' = stage i k s s A w1" using w1 by (intro stage_cong) simp_all
  moreover have "gone i k w' = gone i k w1" using w1 by (simp add: gone_def)
  ultimately show "stage i k s s A w' \<and> (case r of Inl e \<Rightarrow> isinstance e PRClaimLost \<longrightarrow> gone i k w' | Inr _ \<Rightarrow> True)"
    using tripleD [OF keepsD [OF m] w] m1 by (cases r) (auto simp: interrupted_def)
qed

text \<open>Computations that touch neither the rows nor the locals nor the log.\<close>

definition aside :: "('d, 'a) ract \<Rightarrow> bool" where
  "aside m \<longleftrightarrow> (\<forall>w r w'. m w = (r, w') \<longrightarrow> x_rows w' = x_rows w \<and> x_state w' = x_state w \<and> x_posts w' = x_posts w
     \<and> x_lost w' = x_lost w \<and> raises_only ordinary r)"

lemma keeps_aside:
  fixes m :: "('d, 'a) ract"
  assumes "aside m"
  shows "keeps i k m"
proof (rule keepsI)
  fix s A and w :: "'d review_world" and r w'
  assume "stage i k s s A w" "m w = (r, w')"
  with assms have "stage i k s s A w'" "raises_only ordinary r" unfolding aside_def by (metis stage_cong)+
  then show "stage i k s s A w' \<and> (case r of Inl e \<Rightarrow> isinstance e PRClaimLost \<longrightarrow> gone i k w' | Inr _ \<Rightarrow> True)"
    by (auto simp: raises_only_def ordinary_def split: sum.splits)
qed

lemma keeps_now [keep]: "keeps i k review_now"
  by (rule keeps_aside) (auto simp: aside_def review_now_def)

lemma keeps_secret [keep]: "keeps i k review_secret"
  by (rule keeps_aside) (auto simp: aside_def review_secret_def)

lemma keeps_take_error [keep]: "keeps i k (take_error sv token)"
  by (rule keeps_aside) (auto simp: aside_def take_error_def split: prod.splits if_splits)

lemma issue_token_ordinary: "issue_token digest token now q b = (r, b') \<Longrightarrow> raises_only ordinary r"
  by (auto simp: issue_token_def check_request_def Let_def split: if_splits)

lemma keeps_issue [keep]: "keeps i k (issue_review_token sv t)"
  unfolding issue_review_token_def
  by (intro keep keeps_aside) (auto simp: aside_def dest: issue_token_ordinary split: prod.splits)

lemma keeps_not_lost [keep]: "keeps i k assert_not_lost"
  by (rule keepsI) (auto simp: assert_not_lost_def gone_def split: if_splits)

section \<open>What the rest of the system may do\<close>

text \<open>
  While the run waits, others may do anything to the table except write a row on which the run still holds its
  claim (the fencing of \<open>Pr_Review_Store\<close>; the heartbeat moves only the expiry, a notification failure only the
  summary) and except take back the report that the claim is lost.
\<close>

definition polite :: "int \<Rightarrow> pystr \<Rightarrow> ('d, 'a) ract \<Rightarrow> bool" where
  "polite i k m \<longleftrightarrow> (\<forall>w r w'. distinct (map pr_id (x_rows w)) \<longrightarrow> m w = (r, w') \<longrightarrow>
     distinct (map pr_id (x_rows w')) \<and> core i k (x_rows w') \<in> {None, core i k (x_rows w)}
     \<and> x_state w' = x_state w \<and> x_posts w' = x_posts w \<and> (x_lost w \<longrightarrow> x_lost w') \<and> raises_only ordinary r)"

definition review_services_ok :: "('d, 'f) review_services \<Rightarrow> int \<Rightarrow> pystr \<Rightarrow> bool" where
  "review_services_ok sv i k \<longleftrightarrow>
     (\<forall>f o' n num. polite i k (rsv_get_pull_request sv f o' n num)) \<and> (\<forall>u r. polite i k (rsv_resolve_head sv u r))
     \<and> (\<forall>t d. polite i k (rsv_prepare sv t d)) \<and> (\<forall>ws b h. polite i k (rsv_review_input sv ws b h))
     \<and> (\<forall>ws h c. polite i k (rsv_assert_pristine sv ws h c)) \<and> (\<forall>spec. polite i k (rsv_run_agent sv spec))
     \<and> (\<forall>d. polite i k (rsv_sleep sv d)) \<and> polite i k (rsv_wait_lost sv)
     \<and> (\<forall>w w'. rsv_wait_lost sv w = (Inr True, w') \<longrightarrow> x_lost w')
     \<and> (\<forall>f o' n num body marker. polite i k (rsv_post sv f o' n num body marker))
     \<and> (\<forall>notify. rsv_notify sv = Some notify \<longrightarrow> (\<forall>chat message. polite i k (notify chat message)))
     \<and> (\<forall>material ws fallback m. raises_only ordinary (rsv_native sv material ws fallback m))"

lemma keeps_polite:
  fixes m :: "('d, 'a) ract"
  assumes p: "polite i k m"
  shows "keeps i k m"
proof (rule keepsI)
  fix s A and w :: "'d review_world" and r w'
  assume w: "stage i k s s A w" and m: "m w = (r, w')"
  have "distinct (map pr_id (x_rows w))" using w by (simp add: stage_def)
  with p m have "distinct (map pr_id (x_rows w')) \<and> core i k (x_rows w') \<in> {None, core i k (x_rows w)}
     \<and> x_state w' = x_state w \<and> x_posts w' = x_posts w \<and> raises_only ordinary r"
    unfolding polite_def by blast
  with w show "stage i k s s A w' \<and> (case r of Inl e \<Rightarrow> isinstance e PRClaimLost \<longrightarrow> gone i k w' | Inr _ \<Rightarrow> True)"
    by (auto simp: stage_def raises_only_def ordinary_def split: sum.splits)
qed

lemma services_keep:
  assumes "review_services_ok sv i k"
  shows "keeps i k (rsv_get_pull_request sv f o' n num)" "keeps i k (rsv_resolve_head sv u v)"
    "keeps i k (rsv_prepare sv t d)" "keeps i k (rsv_review_input sv ws b h)"
    "keeps i k (rsv_assert_pristine sv ws h c)" "keeps i k (rsv_run_agent sv spec)" "keeps i k (rsv_sleep sv x)"
  using assms by (simp_all add: review_services_ok_def keeps_polite)

section \<open>The parts that keep the stage\<close>

lemma keeps_note [keep]:
  "keeps i k (rows_tx (\<lambda>rows. (Inr (), record_notification_failure j expected kind rows)))"
proof (rule keepsI)
  fix s A w r w'
  assume w: "stage i k s s A w"
    and "rows_tx (\<lambda>rows. (Inr (), record_notification_failure j expected kind rows)) w = (r, w')"
  then have w': "w' = w\<lparr>x_rows := record_notification_failure j expected kind (x_rows w)\<rparr>" "r = Inr ()"
    by (auto simp: rows_tx_def)
  have "core i k (x_rows w') = core i k (x_rows w)"
    unfolding w' record_notification_failure_def Let_def
    by (simp add: core_update_same row_core_def)
  with w show "stage i k s s A w' \<and> (case r of Inl e \<Rightarrow> isinstance e PRClaimLost \<longrightarrow> gone i k w' | Inr _ \<Rightarrow> True)"
    by (simp add: stage_def w' record_notification_failure_def Let_def distinct_update)
qed

lemma keeps_notify [keep]:
  assumes "review_services_ok sv i k"
  shows "keeps i k (notify_review sv j chat message expected)"
proof -
  have ordinary: "ordinary e" if "\<not> isinstance e Exception" for e
  proof -
    have "issubclass PRClaimLost Exception" by (simp add: issubclass_def numeral_eq_Suc)
    with that show ?thesis unfolding ordinary_def is_claim_lost by (auto simp: isinstance_def)
  qed
  have "keeps i k (notify chat message)" if "rsv_notify sv = Some notify" for notify
    using assms that by (simp add: review_services_ok_def keeps_polite)
  then show ?thesis
    unfolding notify_review_def by (auto intro!: keep keeps_catch keeps_throw ordinary split: option.split)
qed

lemma keeps_wait [keep]:
  assumes "review_services_ok sv i k"
  shows "keeps i k (wait_upstream_retry sv)"
proof (rule keepsI)
  fix s A w r w'
  assume w: "stage i k s s A w" and run: "wait_upstream_retry sv w = (r, w')"
  have k: "keeps i k (rsv_wait_lost sv)" and lost: "\<And>w w'. rsv_wait_lost sv w = (Inr True, w') \<Longrightarrow> x_lost w'"
    using assms by (simp_all add: review_services_ok_def keeps_polite)
  obtain r1 w1 where m: "rsv_wait_lost sv w = (r1, w1)" by (cases "rsv_wait_lost sv w")
  show "stage i k s s A w' \<and> (case r of Inl e \<Rightarrow> isinstance e PRClaimLost \<longrightarrow> gone i k w' | Inr _ \<Rightarrow> True)"
    using run m tripleD [OF keepsD [OF k] w] lost [of w w1]
    by (cases r1) (auto simp: wait_upstream_retry_def seq_def guard_io_def throw_def ret_def gone_def interrupted_def
        split: if_splits)
qed

lemma retry_from_io:
  "retry_from op rs sl n b j =
     (if n < j then throw (raise_exc RuntimeError (U ''unreachable''))
      else catch op (\<lambda>e. if \<not> isinstance e RetryableAgentError \<or> j = n then throw e
        else seq rs (\<lambda>_. seq (sl (b * 2 ^ j)) (\<lambda>_. retry_from op rs sl n b (j + 1)))))"
  by (rule ext, subst retry_from.simps)
    (auto simp: throw_def catch_def seq_def split: prod.split sum.split)

lemma keeps_retry:
  assumes "keeps i k op" "keeps i k rs" "\<And>d. keeps i k (sl d)"
  shows "keeps i k (retry_agent_operation op rs sl n b)"
proof -
  have "keeps i k (retry_from op rs sl m b j)" for m j
  proof (induction "m + 1 - j" arbitrary: j)
    case 0
    then show ?case by (subst retry_from_io) (simp add: keeps_throw)
  next
    case (Suc x)
    then have "keeps i k (retry_from op rs sl m b (j + 1))" by simp
    with assms show ?case
      by (subst retry_from_io) (auto intro!: keeps_throw keeps_catch keep)
  qed
  moreover have "retry_agent_operation op rs sl n b =
     (if \<not> (0 \<le> n \<and> n \<le> 2) then throw (raise_exc ValueError (U ''max_retries must be between 0 and 2''))
      else if b < 0 then throw (raise_exc ValueError (U ''initial_backoff_seconds must not be negative''))
      else retry_from op rs sl (nat n) b 0)"
    by (rule ext) (simp add: retry_agent_operation_def throw_def)
  ultimately show ?thesis by (simp add: keeps_throw)
qed

lemma keeps_review_attempt:
  assumes "review_services_ok sv i k"
  shows "keeps i k (review_attempt sv t spec attempt)"
proof -
  have "keeps i k (run_review_agent sv spec)"
    unfolding run_review_agent_def by (intro keeps_retry keep services_keep [OF assms])
  then show ?thesis
    unfolding review_attempt_def Let_def
    by (intro keep keeps_if keeps_throw keeps_notify [OF assms] keeps_wait [OF assms])
      (simp_all add: upstream_exhausted_def agent_failure_def)
qed

lemma keeps_review_attempts:
  assumes "review_services_ok sv i k"
  shows "keeps i k (review_attempts sv t spec attempts)"
  by (induction attempts) (auto intro!: keep keeps_throw keeps_review_attempt [OF assms] split: option.split)

lemma job_spec_ordinary: "raises_only ordinary (job_spec s)"
  by (simp add: job_spec_def)

lemma parse_output_raises:
  assumes "\<And>m. raises_only ordinary (native m)"
  shows "raises_only ordinary (parse_review_output lib uni (Some (base, native)) s)"
proof -
  have fenced: "raises_only ordinary (extract_fenced_json lib p)" for p
    by (auto simp: extract_fenced_json_def output_error_def Let_def split: option.split list.split)
  have "extract_fenced_json lib p = Inl e \<Longrightarrow> ordinary e" for p e
    using fenced [of p] by simp
  then show ?thesis
    using assms by (auto simp: parse_review_output_def Let_def output_error_def split: option.split sum.split)
qed

lemma review_parsed_raises:
  assumes "review_services_ok sv i k"
  shows "raises_only ordinary (review_parsed sv ws material base s)"
proof -
  have "raises_only ordinary (parse_review_output (rsv_lib sv) (rsv_digits sv)
      (Some (base, rsv_native sv material ws (fallback_summary (ri_ranges material)))) s)"
    using assms by (intro parse_output_raises) (simp add: review_services_ok_def)
  then show ?thesis
    by (auto simp: review_parsed_def review_error_def raises_only_def split: sum.splits)
qed

lemma keeps_run_review:
  assumes "review_services_ok sv i k"
  shows "keeps i k (run_review sv t ws base head material)"
  unfolding run_review_def Let_def with_review_token_def
  by (intro keep keeps_if keeps_finally keeps_lift job_spec_ordinary review_parsed_raises [OF assms]
      keeps_review_attempts [OF assms]) (simp_all add: revoke_review_token_def)

lemma require_forge_ordinary: "raises_only ordinary (require_forge reg p)"
  by (auto simp: require_forge_def split: option.split)

lemma keeps_forge [keep]: "keeps i k (review_forge sv t)"
  unfolding review_forge_def by (intro keeps_lift require_forge_ordinary)

lemma keeps_details:
  assumes "review_services_ok sv i k"
  shows "keeps i k (get_details sv t)" "keeps i k (live_head sv d)" "keeps i k (live_base sv t d)"
  unfolding get_details_def live_head_def live_base_def by (intro keep services_keep [OF assms])+

lemma validate_pr_raises: "raises_only ordinary (validate_pr a b c d)"
  by (simp add: validate_pr_def review_error_def)

lemma keeps_recheck:
  assumes "review_services_ok sv i k"
  shows "keeps i k (recheck_revision sv t d api_head)"
  unfolding recheck_revision_def
  by (intro keep keeps_details [OF assms] keeps_lift validate_pr_raises)
    (auto intro!: keep simp: review_error_def split: option.split)

lemma redact_raises: "raises_only ordinary (redact_output secrets out)"
  "raises_only ordinary (redact_pending secrets summary pending)"
proof -
  show out: "raises_only ordinary (redact_output secrets out)" for out
    by (auto simp: redact_output_def split: option.split)
  have each: "raises_only ordinary (map_raise f xs)" if "\<And>x. raises_only ordinary (f x)" for f :: "review_finding \<times> pystr \<Rightarrow> pyexc + review_finding \<times> pystr" and xs
    using that by (induction xs) (auto intro!: raises_only_bind)
  show "raises_only ordinary (redact_pending secrets summary pending)"
    unfolding redact_pending_def by (rule each) (auto intro!: raises_only_bind out split: prod.split)
qed

section \<open>The steps that move the row\<close>

lemma renew_core:
  assumes "distinct (map pr_id rows)" "renew_review i k now rows = (ok, rows')"
  shows "distinct (map pr_id rows') \<and> core i k rows' = core i k rows \<and> (ok \<longrightarrow> core i k rows \<noteq> None)"
proof -
  let ?p = "lease_held review_lease_model i k now"
  have r: "ok \<longleftrightarrow> sql_count ?p rows = 1"
    "rows' = sql_update ?p (lm_set_expires_at review_lease_model (Some (now + seconds CLAIM_LEASE_SECONDS))) rows"
    using assms(2) by (auto simp: renew_review_def lease_renew_def)
  have "sql_count ?p rows = 1 \<longleftrightarrow> (\<exists>r. get_review i rows = Some r \<and> ?p r)"
    by (rule get_review_count [OF assms(1)]) (simp add: lease_held_def review_lease_model_def)
  then have "ok \<longrightarrow> core i k rows \<noteq> None"
    unfolding r(1) by (auto simp: core_def row_core_def lease_held_def review_lease_model_def)
  moreover have "core i k rows' = core i k rows"
    unfolding r(2) by (rule core_update_same) (simp add: review_lease_model_def row_core_def)
  moreover have "distinct (map pr_id rows')"
    unfolding r(2) by (rule distinct_update [OF assms(1)]) (simp add: review_lease_model_def)
  ultimately show ?thesis by blast
qed

definition holding :: "int \<Rightarrow> pystr \<Rightarrow> review_status \<Rightarrow> (pystr option \<times> pystr option \<times> stored_review option \<times> pystr option \<Rightarrow> bool)
    \<Rightarrow> 'd review_world \<Rightarrow> bool" where
  "holding i k s A w \<longleftrightarrow> stage i k s s A w \<and> core i k (x_rows w) \<noteq> None"

lemma assert_claim_triple:
  "triple (stage i k s s A) (assert_review_claim i k) (\<lambda>_. holding i k s A) (interrupted i k s A)"
proof -
  have step: "stage i k s s A w' \<and> (case r of
      Inl e \<Rightarrow> gone i k w' | Inr _ \<Rightarrow> core i k (x_rows w') \<noteq> None)"
    if w: "stage i k s s A w" and run: "assert_review_claim i k w = (r, w')" for w r w'
  proof -
    have d: "distinct (map pr_id (x_rows w))" using w by (simp add: stage_def)
    obtain ok rows' where ren: "renew_review i k (x_clock w (x_reads w)) (x_rows w) = (ok, rows')" by fastforce
    from renew_core [OF d ren] w run ren show ?thesis
      by (cases ok) (auto simp: assert_review_claim_def stage_def gone_def split: if_splits)
  qed
  show ?thesis
    by (rule tripleI) (auto simp: holding_def interrupted_def dest: step)
qed

lemma keeps_assert [keep]: "keeps i k (assert_review_claim i k)"
  unfolding keeps_def
  by (intro allI triple_weaken [OF assert_claim_triple]) (simp_all add: holding_def)

lemma expected_strong:
  assumes "\<And>r. pr_id (f r) = pr_id r"
    and "\<And>r. pr_status r = s \<Longrightarrow> A (snd (row_core r)) \<Longrightarrow>
      pr_claim_token (f r) = None \<or> pr_claim_token (f r) = pr_claim_token r \<and> fst (row_core (f r)) = st \<and> B (snd (row_core (f r)))"
  shows "triple (stage i k s s A) (state_tx (\<lambda>s. expected_update i s k f)) (\<lambda>_. stage i k st s B)
    (\<lambda>_. stage i k s s (\<lambda>_. False))"
proof -
  have step: "case r of Inl e \<Rightarrow> stage i k s s (\<lambda>_. False) w' | Inr _ \<Rightarrow> stage i k st s B w'"
    if w: "stage i k s s A w" and run: "state_tx (\<lambda>s. expected_update i s k f) w = (r, w')" for w r w'
  proof -
    let ?o = "owned_by i s k"
    have d: "distinct (map pr_id (x_rows w))" and s: "x_state w = s" using w by (simp_all add: stage_def)
    have held: "sql_count ?o (x_rows w) = 1 \<longleftrightarrow> (\<exists>r. get_review i (x_rows w) = Some r \<and> ?o r)"
      by (rule get_review_count [OF d]) (simp add: owned_by_def)
    have w': "w' = w\<lparr>x_rows := sql_update ?o f (x_rows w)\<rparr>"
      and r: "r = (if sql_count ?o (x_rows w) \<noteq> 1 then Inl (raise_exc PRClaimLost []) else Inr ())"
      using run s by (auto simp: state_tx_def rows_tx_def expected_update_def)
    note get = get_review_update [of f i ?o "x_rows w", OF assms(1)]
    show ?thesis
    proof (cases "sql_count ?o (x_rows w) = 1")
      case True
      with held obtain q where q: "get_review i (x_rows w) = Some q" "?o q" by blast
      then have "pr_status q = s" "A (snd (row_core q))"
        using w by (auto simp: stage_def core_def owned_by_def row_core_def)
      from assms(2) [OF this] q w True show ?thesis
        by (auto simp: r w' stage_def core_Some get distinct_update assms(1) owned_by_def)
    next
      case False
      have none: "core i k (x_rows w) = None"
      proof (rule ccontr)
        assume "core i k (x_rows w) \<noteq> None"
        then obtain q where "get_review i (x_rows w) = Some q" "pr_claim_token q = Some k" "pr_status q = s"
          using w by (auto simp: stage_def core_def row_core_def split: option.splits if_splits)
        moreover from this(1) have "pr_id q = i" by (rule get_review_id)
        ultimately have "\<exists>r. get_review i (x_rows w) = Some r \<and> ?o r" by (simp add: owned_by_def)
        with False held show False by blast
      qed
      have "sql_count ?o (x_rows w) = 0"
        using False sql_count_key_le [OF d, of ?o i] by (simp add: owned_by_def)
      with none w False show ?thesis by (simp add: r w' sql_update_none stage_def)
    qed
  qed
  show ?thesis by (rule tripleI) (auto dest: step)
qed

lemma released_interrupted: "stage i k s s (\<lambda>_. False) w \<Longrightarrow> interrupted i k s A e w"
  by (cases "core i k (x_rows w)") (auto simp: interrupted_def stage_def gone_def)

lemmas expected_triple = triple_exc [OF expected_strong released_interrupted]

lemma set_state_triple: "triple (stage i k st s A) (set_state st) (\<lambda>_. stage i k st st A) E"
  by (simp add: triple_def set_state_def stage_def)

section \<open>The run, step by step\<close>

text \<open>What the run knows of its row: the key, then the recorded revision, then the stored result.\<close>

definition keyed :: "task_context \<Rightarrow> pystr option \<times> pystr option \<times> stored_review option \<times> pystr option \<Rightarrow> bool" where
  "keyed t c \<longleftrightarrow> snd (snd (snd c)) = Some (tc_review_key t)"

definition revised :: "task_context \<Rightarrow> pull_details \<Rightarrow> pystr option \<times> pystr option \<times> stored_review option \<times> pystr option \<Rightarrow> bool" where
  "revised t d c \<longleftrightarrow> keyed t c \<and> fst c = Some (pd_base_sha d) \<and> fst (snd c) = Some (pd_head_sha d)"

definition resulted ::
  "task_context \<Rightarrow> pull_details \<Rightarrow> stored_review \<Rightarrow> pystr option \<times> pystr option \<times> stored_review option \<times> pystr option \<Rightarrow> bool" where
  "resulted t d result c \<longleftrightarrow> revised t d c \<and> fst (snd (snd c)) = Some result"

text \<open>An exception leaves the row in some stage.\<close>

definition broken :: "int \<Rightarrow> pystr \<Rightarrow> pyexc \<Rightarrow> 'd review_world \<Rightarrow> bool" where
  "broken i k e w \<longleftrightarrow> (\<exists>s. interrupted i k s (\<lambda>_. True) e w)"

lemma interrupted_broken: "interrupted i k s A e w \<Longrightarrow> broken i k e w"
  unfolding broken_def interrupted_def by (blast intro: stage_weaken)

definition leads ::
  "int \<Rightarrow> pystr \<Rightarrow> ('d review_world \<Rightarrow> bool) \<Rightarrow> ('d, 'a) ract \<Rightarrow> ('a \<Rightarrow> 'd review_world \<Rightarrow> bool) \<Rightarrow> bool" where
  "leads i k P m Q = triple P m Q (broken i k)"

lemma leadsI: "triple P m Q (interrupted i k s A) \<Longrightarrow> leads i k P m Q"
  unfolding leads_def by (erule triple_exc) (rule interrupted_broken)

lemma leads_seq: "leads i k P m R \<Longrightarrow> (\<And>x. leads i k (R x) (f x) Q) \<Longrightarrow> leads i k P (seq m f) Q"
  unfolding leads_def by (rule triple_seq)

lemma leads_pre: "leads i k P m Q \<Longrightarrow> (\<And>w. P' w \<Longrightarrow> P w) \<Longrightarrow> leads i k P' m Q"
  unfolding leads_def by (rule triple_pre)

lemma leads_post: "leads i k P m Q \<Longrightarrow> (\<And>x w. Q x w \<Longrightarrow> Q' x w) \<Longrightarrow> leads i k P m Q'"
  unfolding leads_def by (rule triple_post)

lemma leads_ret: "(\<And>w. P w \<Longrightarrow> Q x w) \<Longrightarrow> leads i k P (ret x) Q"
  unfolding leads_def by (rule triple_ret)

lemma leads_keeps: "keeps i k m \<Longrightarrow> leads i k (stage i k s s A) m (\<lambda>_. stage i k s s A)"
  by (rule leadsI) (erule keepsD)

lemma leads_then:
  "keeps i k m \<Longrightarrow> (\<And>x. leads i k (stage i k s s A) (f x) Q) \<Longrightarrow> leads i k (stage i k s s A) (seq m f) Q"
  by (rule leads_seq [OF leads_keeps])

lemma leads_throw: "ordinary e \<Longrightarrow> leads i k (stage i k s s A) (throw e) Q"
  unfolding leads_def
  by (rule triple_throw) (auto intro!: interrupted_broken simp: interrupted_def ordinary_def)

lemma leads_record:
  assumes "\<And>c. A c \<Longrightarrow> keyed t c"
  shows "leads i k (stage i k s s A) (record_details i k d) (\<lambda>_. stage i k s s (revised t d))"
  unfolding record_details_def record_revision_def
  using assms
  by (intro leadsI [OF expected_triple]) (auto simp: row_core_def revised_def keyed_def)

lemma leads_details:
  assumes "review_services_ok sv i k"
  shows "leads i k (stage i k s s (keyed t)) (live_details sv t i k) (\<lambda>(d, _). stage i k s s (revised t d))"
  unfolding live_details_def Let_def
  by (intro leads_then keeps_details [OF assms] leads_seq [OF leads_record] keeps_lift validate_pr_raises leads_ret)
    simp_all

lemma leads_prepare:
  assumes "review_services_ok sv i k"
  shows "leads i k (stage i k s s (revised t d)) (prepare_attempts n sv t i k d) (\<lambda>(_, d'). stage i k s s (revised t d'))"
proof (induction n arbitrary: d)
  case 0
  show ?case
    unfolding prepare_attempts.simps by (intro leads_then services_keep [OF assms] leads_ret) simp
next
  case (Suc n)
  let ?m = "seq (rsv_prepare sv t d) (\<lambda>ws. ret (ws, d))"
  have m: "triple (stage i k s s (revised t d)) ?m (\<lambda>(_, d'). stage i k s s (revised t d')) (interrupted i k s (revised t d))"
    by (rule triple_seq [OF keepsD [OF services_keep(3) [OF assms]] triple_ret]) simp
  have again: "leads i k (stage i k s s (revised t d))
      (seq (record_details i k d') (\<lambda>_. prepare_attempts n sv t i k d')) (\<lambda>(_, d'). stage i k s s (revised t d'))" for d'
    by (rule leads_seq [OF leads_record Suc.IH]) (simp add: revised_def)
  show ?case
    unfolding prepare_attempts.simps leads_def Let_def
  proof (rule triple_catch [OF m], rule triple_if)
    fix e assume "\<not> isinstance e RevisionChanged"
    show "triple (interrupted i k s (revised t d) e) (throw e) (\<lambda>(_, d'). stage i k s s (revised t d')) (broken i k)"
      by (rule triple_throw) (rule interrupted_broken)
  next
    fix e assume e: "\<not> \<not> isinstance e RevisionChanged"
    have "ordinary e" using e unfolding ordinary_def is_claim_lost
      by (auto simp: isinstance_def issubclass_def numeral_eq_Suc)
    then have "leads i k (stage i k s s (revised t d))
        (seq (assert_review_claim i k) (\<lambda>_. seq (live_base sv t d) (\<lambda>b. seq (live_head sv d) (\<lambda>h.
           if b = None \<or> h = None then throw e
           else seq (record_details i k (with_base b (with_head h d)))
                  (\<lambda>_. prepare_attempts n sv t i k (with_base b (with_head h d)))))))
        (\<lambda>(_, d'). stage i k s s (revised t d'))"
      using again by (auto intro!: leads_then keep keeps_details [OF assms] leads_throw)
    then show "triple (interrupted i k s (revised t d) e)
        (seq (assert_review_claim i k) (\<lambda>_. seq (live_base sv t d) (\<lambda>b. seq (live_head sv d) (\<lambda>h.
           if b = None \<or> h = None then throw e
           else seq (record_details i k (with_base b (with_head h d)))
                  (\<lambda>_. prepare_attempts n sv t i k (with_base b (with_head h d)))))))
        (\<lambda>(_, d'). stage i k s s (revised t d')) (broken i k)"
      unfolding leads_def by (rule triple_pre) (simp add: interrupted_def)
  qed
qed

lemma leads_pair:
  "(\<And>a b. leads i k (P a b) (f a b) Q) \<Longrightarrow> leads i k ((\<lambda>(a, b). P a b) x) ((\<lambda>(a, b). f a b) x) Q"
  by (cases x) simp

lemma leads_split: "(\<And>a b. leads i k P (f a b) Q) \<Longrightarrow> leads i k P (case x of (a, b) \<Rightarrow> f a b) Q"
  by (cases x) simp

lemma leads_output:
  assumes "review_services_ok sv i k"
  shows "leads i k (stage i k s s A) (review_output_of sv t i k ws d api_head)
    (\<lambda>(ranges, result, generated) w. stage i k s s A w \<and> ra_generated (sd_audit result) = length (ro_findings generated))"
proof -
  have last_step: "leads i k (stage i k s s A) (ret (ranges, review_record ranges comparison generated safe pending, generated))
      (\<lambda>(ranges, result, generated) w. stage i k s s A w \<and> ra_generated (sd_audit result) = length (ro_findings generated))"
    for ranges comparison generated safe pending
    by (rule leads_ret) (simp add: review_record_def)
  have body: "leads i k (stage i k s s A) (case c of None \<Rightarrow> throw (review_error MSG_NO_COMPARISON) | Some x \<Rightarrow> m x) Q"
    if "\<And>x. leads i k (stage i k s s A) (m x) Q" for c and m :: "pystr \<Rightarrow> ('d, 'e) ract" and Q
    using that by (cases c) (auto simp: review_error_def intro: leads_throw)
  show ?thesis
    unfolding review_output_of_def Let_def
    by (intro leads_then body leads_split keeps_assert services_keep [OF assms] keeps_run_review [OF assms]
        keeps_recheck [OF assms] keeps_lift redact_raises last_step)
qed

section \<open>Publishing\<close>

lemma held_core:
  assumes "holding i k s A w"
  obtains r where "get_review i (x_rows w) = Some r" "pr_claim_token r = Some k" "pr_status r = s" "A (snd (row_core r))"
  using assms by (auto simp: holding_def stage_def core_def row_core_def split: option.splits if_splits)

lemma leads_post_comment:
  fixes sv :: "('d, 'f) review_services"
  assumes "review_services_ok sv i k" "tc_id t = i"
    and "\<And>r. pr_claim_token r = Some k \<Longrightarrow> pr_status r = RvCommenting \<Longrightarrow> A (snd (row_core r)) \<Longrightarrow>
      post_ok k \<lparr>po_row = Some r, po_body = body, po_marker = marker\<rparr>"
  shows "leads i k (holding i k RvCommenting A) (post_comment sv t body marker) (\<lambda>_. stage i k RvCommenting RvCommenting A)"
  unfolding leads_def
proof (rule tripleI)
  let ?st = "stage i k RvCommenting RvCommenting A"
  have keep: "keeps i k (rsv_post sv forge o' n num body marker)" for forge o' n num
    using assms(1) by (simp add: review_services_ok_def keeps_polite)
  have logged: "?st (w\<lparr>x_posts := x_posts w @ [\<lparr>po_row = get_review (tc_id t) (x_rows w), po_body = body, po_marker = marker\<rparr>]\<rparr>)"
    if w: "holding i k RvCommenting A w" for w
  proof -
    obtain r where r: "get_review i (x_rows w) = Some r" "pr_claim_token r = Some k" "pr_status r = RvCommenting"
      "A (snd (row_core r))" using w by (rule held_core)
    from assms(3) [OF r(2-4)] r(1) w show ?thesis by (auto simp: holding_def stage_def assms(2))
  qed
  have st: "?st w" if "holding i k RvCommenting A w" for w using that by (simp add: holding_def)
  note raises = raises_onlyD [OF require_forge_ordinary]
  fix w w' :: "'d review_world"
  assume w: "holding i k RvCommenting A w"
  show "broken i k e w'" if "post_comment sv t body marker w = (Inl e, w')" for e
    using that tripleD(1) [OF keepsD [OF keep] logged [OF w]] st [OF w] raises
    by (fastforce simp: post_comment_def seq_def review_forge_def lift_def interrupted_def ordinary_def
        intro: interrupted_broken split: sum.splits)
  show "?st w'" if "post_comment sv t body marker w = (Inr x, w')" for x
    using that tripleD(2) [OF keepsD [OF keep] logged [OF w]]
    by (auto simp: post_comment_def seq_def review_forge_def lift_def split: sum.splits)
qed

lemma leads_assert: "leads i k (stage i k s s A) (assert_review_claim i k) (\<lambda>_. holding i k s A)"
  by (rule leadsI [OF assert_claim_triple])

lemma leads_post_review:
  assumes "review_services_ok sv i k" "tc_id t = i"
    and "ci_base_sha q = pd_base_sha d" "ci_head_sha q = pd_head_sha d" "ci_review_key q = tc_review_key t"
      "ci_pending q = sd_unlocated result" "none \<Longrightarrow> ra_generated (sd_audit result) = 0"
  shows "leads i k (stage i k RvCommenting RvCommenting (resulted t d result))
    (post_review sv t i k (pd_head_sha d) (render_pr_comment q (sd_output result)) none)
    (\<lambda>_. stage i k RvCommenting RvCommenting (resulted t d result))"
proof -
  have core: "row_core r = (RvCommenting, Some (pd_base_sha d), Some (pd_head_sha d), Some result, Some (tc_review_key t))"
    if "pr_status r = RvCommenting" "resulted t d result (snd (row_core r))" for r
    using that by (simp add: row_core_def resulted_def revised_def keyed_def)
  have review: "post_ok k \<lparr>po_row = Some r, po_body = fst (render_pr_comment q (sd_output result)),
      po_marker = snd (render_pr_comment q (sd_output result))\<rparr>"
    if "pr_claim_token r = Some k" "pr_status r = RvCommenting" "resulted t d result (snd (row_core r))" for r
    using that core [OF that(2,3)] assms(3-6) by (auto simp: post_ok_def)
  have lgtm: "post_ok k \<lparr>po_row = Some r, po_body = LGTM_COMMENT @ [10] @ lgtm_marker (pd_head_sha d),
      po_marker = lgtm_marker (pd_head_sha d)\<rparr>"
    if "none" "pr_claim_token r = Some k" "pr_status r = RvCommenting" "resulted t d result (snd (row_core r))" for r
    using that core [OF that(3,4)] assms(7) by (auto simp: post_ok_def)
  note post = leads_post_comment [OF assms(1,2)]
  show ?thesis
  proof (cases none)
    case True
    show ?thesis
      unfolding post_review_def if_P [OF True]
      by (intro leads_seq [OF leads_assert] leads_seq [OF post [OF review]] leads_seq [OF post [OF lgtm [OF True]]] leads_ret)
  next
    case False
    show ?thesis
      unfolding post_review_def if_not_P [OF False]
      by (intro leads_seq [OF leads_assert] leads_seq [OF post [OF review]] leads_ret)
  qed
qed

lemma leads_publish:
  assumes "review_services_ok sv i k" "tc_id t = i" "ra_generated (sd_audit result) = length (ro_findings generated)"
  shows "leads i k (stage i k RvReviewing RvReviewing (revised t d)) (publish_review sv t i k d ranges result generated)
    (\<lambda>_. stage i k RvCommenting RvCommenting (\<lambda>_. False))"
proof -
  have commenting: "leads i k (stage i k RvReviewing RvReviewing (revised t d)) (state_tx (\<lambda>s. set_commenting i s k result))
      (\<lambda>_. stage i k RvCommenting RvReviewing (resulted t d result))"
    unfolding set_commenting_def
    by (rule leadsI [OF expected_triple]) (auto simp: row_core_def resulted_def revised_def keyed_def)
  have entered: "leads i k (stage i k RvCommenting RvReviewing (resulted t d result)) (set_state RvCommenting)
      (\<lambda>_. stage i k RvCommenting RvCommenting (resulted t d result))"
    unfolding leads_def by (rule set_state_triple)
  have complete: "leads i k (stage i k RvCommenting RvCommenting (resulted t d result))
      (state_tx (\<lambda>s. complete_review i s k url now)) (\<lambda>_. stage i k RvCommenting RvCommenting (\<lambda>_. False))" for url now
    unfolding complete_review_def by (rule leadsI [OF expected_triple]) simp_all
  show ?thesis
    unfolding publish_review_def
    by (intro leads_seq [OF commenting] leads_seq [OF entered] leads_seq [OF leads_post_review [OF assms(1,2)]]
        leads_then keeps_now leads_seq [OF complete] leads_ret)
      (simp_all add: comment_input_of_def assms(3))
qed

lemma leads_load:
  "leads i k (stage i k s s A) (load_context i) (\<lambda>t w. stage i k s s (keyed t) w \<and> tc_id t = i)"
  unfolding leads_def
proof (rule tripleI)
  fix w w' :: "'d review_world"
  assume w: "stage i k s s A w"
  show "broken i k e w'" if "load_context i w = (Inl e, w')" for e
  proof -
    have "w' = w" "ordinary e"
      using that by (auto simp: load_context_def load_review_def split: option.splits sum.splits)
    with w show ?thesis by (auto intro!: interrupted_broken simp: interrupted_def ordinary_def)
  qed
  show "stage i k s s (keyed t) w' \<and> tc_id t = i" if "load_context i w = (Inr t, w')" for t
    using that w
    by (auto simp: load_context_def load_review_def stage_def keyed_def core_def row_core_def
        split: option.splits sum.splits if_splits dest: get_review_id)
qed

lemma leads_body:
  assumes "review_services_ok sv i k"
  shows "leads i k (stage i k RvPreparing RvPreparing A) (review_body sv i k)
    (\<lambda>_. stage i k RvCommenting RvCommenting (\<lambda>_. False))"
proof -
  have reviewing: "leads i k (stage i k RvPreparing RvPreparing (revised t d)) (state_tx (\<lambda>s. review_transition i s RvReviewing k))
      (\<lambda>_. stage i k RvReviewing RvPreparing (revised t d))" for t d
    unfolding review_transition_def
    by (rule leadsI [OF expected_triple]) (auto simp: row_core_def revised_def keyed_def)
  have entered: "leads i k (stage i k RvReviewing RvPreparing (revised t d)) (set_state RvReviewing)
      (\<lambda>_. stage i k RvReviewing RvReviewing (revised t d))" for t d
    unfolding leads_def by (rule set_state_triple)
  have publish: "leads i k (\<lambda>w. stage i k RvReviewing RvReviewing (revised t d) w
        \<and> ra_generated (sd_audit result) = length (ro_findings generated))
      (seq (publish_review sv t i k d ranges result generated) (\<lambda>url. ret (t, url)))
      (\<lambda>_. stage i k RvCommenting RvCommenting (\<lambda>_. False))" if "tc_id t = i" for t d ranges result generated
  proof (cases "ra_generated (sd_audit result) = length (ro_findings generated)")
    case True
    show ?thesis
      by (rule leads_pre [OF leads_seq [OF leads_publish [OF assms that True] leads_ret]]) simp_all
  qed (simp add: leads_def triple_def)
  have rest: "leads i k (stage i k RvPreparing RvPreparing (keyed t))
      (seq (assert_review_claim i k) (\<lambda>_. seq (live_details sv t i k) (\<lambda>(d, api_head). seq (assert_review_claim i k) (\<lambda>_.
       seq (prepare_attempts 2 sv t i k d) (\<lambda>(workspace, d').
       seq (state_tx (\<lambda>s. review_transition i s RvReviewing k)) (\<lambda>_. seq (set_state RvReviewing) (\<lambda>_.
       seq (review_output_of sv t i k workspace d' api_head) (\<lambda>(ranges, result, generated).
       seq (publish_review sv t i k d' ranges result generated) (\<lambda>url. ret (t, url))))))))))
      (\<lambda>_. stage i k RvCommenting RvCommenting (\<lambda>_. False))" if "tc_id t = i" for t
    by (intro leads_then keeps_assert leads_seq [OF leads_details [OF assms]] leads_seq [OF leads_prepare [OF assms]]
        leads_seq [OF reviewing] leads_seq [OF entered] leads_seq [OF leads_output [OF assms]] leads_pair publish that)
  have gate: "leads i k (\<lambda>w. stage i k RvPreparing RvPreparing (keyed t) w \<and> tc_id t = i) m Q"
    if "tc_id t = i \<Longrightarrow> leads i k (stage i k RvPreparing RvPreparing (keyed t)) m Q"
    for t and m :: "('d, 'e) ract" and Q
    using that by (cases "tc_id t = i") (simp_all add: leads_def triple_def)
  show ?thesis
    unfolding review_body_def by (intro leads_seq [OF leads_load] gate rest)
qed

section \<open>The end of a run\<close>

definition finished :: "int \<Rightarrow> pystr \<Rightarrow> 'd review_world \<Rightarrow> bool" where
  "finished i k w \<longleftrightarrow> gone i k w \<and> list_all (post_ok k) (x_posts w)"

definition aborted :: "pystr \<Rightarrow> pyexc \<Rightarrow> 'd review_world \<Rightarrow> bool" where
  "aborted k e w \<longleftrightarrow> \<not> isinstance e Exception \<and> list_all (post_ok k) (x_posts w)"

definition freed :: "int \<Rightarrow> pystr \<Rightarrow> 'd review_world \<Rightarrow> bool" where
  "freed i k w \<longleftrightarrow> (\<exists>s. stage i k s s (\<lambda>_. False) w)"

lemma freed_finished: "freed i k w \<Longrightarrow> finished i k w"
  by (cases "core i k (x_rows w)") (auto simp: freed_def finished_def stage_def gone_def)

lemma fail_triple:
  "triple (\<lambda>w. \<exists>s. stage i k s s (\<lambda>_. True) w)
     (state_tx (\<lambda>s rows. case fail_review i s k e summary now rows of (ok, rows') \<Rightarrow> (Inr ok, rows')))
     (\<lambda>_. freed i k) Q"
proof -
  let ?fail = "state_tx (\<lambda>s rows. case fail_review i s k e summary now rows of (ok, rows') \<Rightarrow> (Inr ok, rows'))"
  let ?f = "\<lambda>r. r\<lparr>pr_status := RvFailed, pr_claim_token := None, pr_claim_expires_at := None,
    pr_failure_code := Some (classify_exception e), pr_failure_summary := Some summary, pr_finished_at := Some now\<rparr>"
  have "\<exists>ok. ?fail w = (Inr ok, w') \<and> freed i k w'" if w: "stage i k s s (\<lambda>_. True) w"
    and w': "w' = w\<lparr>x_rows := sql_update (owned_by i s k) ?f (x_rows w)\<rparr>" for s and w w' :: "'d review_world"
  proof -
    have s: "x_state w = s" using w by (simp add: stage_def)
    have t: "triple (stage i k s s (\<lambda>_. True)) (state_tx (\<lambda>s. expected_update i s k ?f)) (\<lambda>_. stage i k s s (\<lambda>_. False))
       (\<lambda>_. stage i k s s (\<lambda>_. False))"
      by (rule expected_strong) simp_all
    obtain r1 where m: "state_tx (\<lambda>s. expected_update i s k ?f) w = (r1, w')"
      using s w' by (auto simp: state_tx_def rows_tx_def expected_update_def)
    have "stage i k s s (\<lambda>_. False) w'"
      using tripleD(1) [OF t w] tripleD(2) [OF t w] m by (cases r1) simp_all
    with s w' show ?thesis by (auto simp: state_tx_def rows_tx_def fail_review_def freed_def)
  qed
  then show ?thesis by (intro tripleI) fastforce+
qed

lemma notify_aborts:
  "notify_review sv j chat message expected w = (Inl e, w') \<Longrightarrow> \<not> isinstance e Exception"
  by (auto simp: notify_review_def ret_def catch_def throw_def rows_tx_def split: option.splits if_splits prod.splits sum.splits)

lemma notify_triple:
  fixes sv :: "('d, 'f) review_services"
  assumes "review_services_ok sv i k"
  shows "triple (freed i k) (notify_review sv j chat message expected) (\<lambda>_. finished i k) (aborted k)"
proof (rule tripleI)
  fix w w' :: "'d review_world" and e
  assume "freed i k w"
  then obtain s where s: "stage i k s s (\<lambda>_. False) w" by (auto simp: freed_def)
  note keep = tripleD [OF keepsD [OF keeps_notify [OF assms]] s]
  show "aborted k e w'" if "notify_review sv j chat message expected w = (Inl e, w')"
    using keep(1) [OF that] notify_aborts [OF that] by (simp add: aborted_def interrupted_def stage_def)
  show "finished i k w'" if "notify_review sv j chat message expected w = (Inr x, w')" for x
    using keep(2) [OF that] freed_finished by (auto simp: freed_def)
qed

lemma except_triple:
  assumes "review_services_ok sv i k"
  shows "triple (broken i k e) (review_except sv i k e) (\<lambda>r w. r = None \<and> finished i k w) (aborted k)"
proof -
  have posts: "list_all (post_ok k) (x_posts w)" "\<exists>s. stage i k s s (\<lambda>_. True) w" if "broken i k e w" for w :: "'d review_world"
    using that by (auto simp: broken_def interrupted_def stage_def)
  have lost: "triple (broken i k e) (ret None) (\<lambda>r w. r = None \<and> finished i k w) (aborted k)" if "isinstance e PRClaimLost"
    using that posts by (intro triple_ret) (auto simp: broken_def interrupted_def finished_def)
  have other: "triple (broken i k e) (throw e) Q (aborted k)" if "\<not> isinstance e Exception" for Q
    using that posts by (intro triple_throw) (simp add: aborted_def)
  have now: "triple (broken i k e) review_now (\<lambda>_ w. \<exists>s. stage i k s s (\<lambda>_. True) w) (aborted k)"
    using posts by (intro tripleI) (fastforce simp: review_now_def stage_def)+
  have told: "triple (freed i k) (\<lambda>w. case x_task w of None \<Rightarrow> (Inr None, w) | Some t \<Rightarrow>
      if \<not> ok then (Inr None, w)
      else seq (notify_review sv (tc_id t) (tc_source_chat_id t) (label t) RvFailed) (\<lambda>_. ret None) w)
      (\<lambda>r w. r = None \<and> finished i k w) (aborted k)" for ok label
  proof -
    have "triple (freed i k) (seq (notify_review sv (tc_id t) (tc_source_chat_id t) (label t) RvFailed) (\<lambda>_. ret None))
        (\<lambda>r w. r = None \<and> finished i k w) (aborted k)" for t
      by (rule triple_seq [OF notify_triple [OF assms] triple_ret]) simp
    then show ?thesis
      by (intro tripleI) (auto simp: freed_finished dest: tripleD split: option.splits if_splits)
  qed
  show ?thesis
    unfolding review_except_def
    by (intro triple_if lost other triple_seq [OF now] triple_seq [OF fail_triple] told)
qed

lemma run_claimed_review_triple:
  assumes "review_services_ok sv i k"
  shows "triple (stage i k RvPreparing RvPreparing (\<lambda>_. True)) (run_claimed_review sv i k) (\<lambda>_. finished i k) (aborted k)"
proof -
  let ?Q = "\<lambda>r w. (r \<noteq> None \<longrightarrow> freed i k w) \<and> (r = None \<longrightarrow> finished i k w)"
  have "triple (stage i k RvPreparing RvPreparing (\<lambda>_. True)) (seq (review_body sv i k) (\<lambda>r. ret (Some r))) ?Q (broken i k)"
    by (rule triple_seq [OF leads_body [OF assms, unfolded leads_def] triple_ret]) (auto simp: freed_def)
  moreover have "triple (broken i k e) (review_except sv i k e) ?Q (aborted k)" for e
    by (rule triple_post [OF except_triple [OF assms]]) simp
  ultimately have tried: "triple (stage i k RvPreparing RvPreparing (\<lambda>_. True))
      (catch (seq (review_body sv i k) (\<lambda>r. ret (Some r))) (review_except sv i k)) ?Q (aborted k)"
    by (rule triple_catch)
  have told: "triple (?Q r) (case r of None \<Rightarrow> ret () | Some (t, url) \<Rightarrow>
      notify_review sv (tc_id t) (tc_source_chat_id t) (review_label (tc_id t) @ MSG_COMPLETED @ url) RvCompleted)
      (\<lambda>_. finished i k) (aborted k)" for r
  proof (cases r)
    case None
    then show ?thesis by (auto intro: triple_ret)
  next
    case (Some p)
    then show ?thesis by (cases p) (auto intro: triple_pre [OF notify_triple [OF assms]])
  qed
  show ?thesis unfolding run_claimed_review_def by (rule triple_seq [OF tried told])
qed

lemma claimed_stage:
  assumes "distinct (map pr_id (x_rows w))" "list_all (post_ok k) (x_posts w)"
    and "claim_review i k key now (x_rows w) = (c, rows)"
  shows "if \<exists>q. get_review i (x_rows w) = Some q \<and> pr_status q = RvQueued
    then c = Some k \<and> stage i k RvPreparing RvPreparing (\<lambda>_. True) (w\<lparr>x_rows := rows, x_state := RvPreparing\<rparr>)
    else c = None \<and> rows = x_rows w"
proof -
  let ?p = "\<lambda>r. pr_id r = i \<and> pr_status r = RvQueued"
  have one: "sql_count ?p (x_rows w) = 1 \<longleftrightarrow> (\<exists>q. get_review i (x_rows w) = Some q \<and> pr_status q = RvQueued)"
    using get_review_count [OF assms(1), of ?p i] by (auto dest: get_review_id)
  show ?thesis
  proof (cases "sql_count ?p (x_rows w) = 1")
    case True
    then obtain q where "get_review i (x_rows w) = Some q" "pr_status q = RvQueued" using one by blast
    moreover from this(1) have "pr_id q = i" by (rule get_review_id)
    ultimately show ?thesis
      using True assms
      by (auto simp: claim_review_def stage_def get_review_update distinct_update core_Some row_core_def)
  next
    case False
    then have "sql_count ?p (x_rows w) = 0" using sql_count_key_le [OF assms(1), of ?p i] by simp
    with False one assms(3) show ?thesis by (auto simp: claim_review_def sql_update_none)
  qed
qed

section \<open>Properties\<close>

text \<open>
  C37: a review run settles its row and comments only on what it reviewed.  If the review was queued, the run
  ends without an exception with the claim given up or its loss reported (then recovery queues the row again),
  or with an exception that is not an \<open>Exception\<close> (cancellation).  If it was not queued, nothing happens.  And
  every comment is posted while the run holds the row with status \<open>commenting\<close>, renders the stored result for
  the recorded base and head, and approves only after an Agent run without any finding.
\<close>

theorem review_run_settles_and_comments_safely:
  assumes "k = x_secrets w (x_reads w)" "review_services_ok sv i k" "distinct (map pr_id (x_rows w))"
    "x_posts w = []" "run_pr_review sv i w = (r, w')"
  shows "list_all (post_ok k) (x_posts w') \<and>
    (if \<exists>q. get_review i (x_rows w) = Some q \<and> pr_status q = RvQueued
     then case r of Inr _ \<Rightarrow> gone i k w' | Inl e \<Rightarrow> \<not> isinstance e Exception
     else r = Inr () \<and> x_rows w' = x_rows w)"
proof -
  let ?n = "x_reads w"
  define w1 where "w1 = w\<lparr>x_reads := ?n + 3\<rparr>"
  obtain c rows where claim: "claim_review i k (x_secrets w (?n + 1)) (x_clock w (?n + 2)) (x_rows w) = (c, rows)"
    by fastforce
  have run: "run_pr_review sv i w = (case c of None \<Rightarrow> (Inr (), w1\<lparr>x_rows := rows\<rparr>)
      | Some k' \<Rightarrow> run_claimed_review sv i k' (w1\<lparr>x_rows := rows, x_lost := False, x_state := RvPreparing, x_task := None\<rparr>))"
    by (simp add: run_pr_review_def seq_def review_secret_def review_now_def rows_tx_def enter_review_def ret_def
        claim [unfolded assms(1) Suc_eq_plus1 [symmetric] add_2_eq_Suc'] w1_def numeral_3_eq_3 split: option.split)
  note claimed = claimed_stage [OF assms(3) _ claim]
  show ?thesis
  proof (cases "\<exists>q. get_review i (x_rows w) = Some q \<and> pr_status q = RvQueued")
    case True
    let ?w = "w1\<lparr>x_rows := rows, x_lost := False, x_state := RvPreparing, x_task := None\<rparr>"
    have c: "c = Some k" and st: "stage i k RvPreparing RvPreparing (\<lambda>_. True) ?w"
      using True claimed assms(4) by (auto simp: w1_def stage_def)
    from assms(5) run c have "run_claimed_review sv i k ?w = (r, w')" by simp
    with tripleD [OF run_claimed_review_triple [OF assms(2)] st] True show ?thesis
      by (cases r) (auto simp: finished_def aborted_def)
  next
    case False
    then have "c = None" "rows = x_rows w" using claimed assms(4) by auto
    with False assms(4,5) run show ?thesis by (auto simp: w1_def)
  qed
qed

definition dead :: "('d, 'a) ract" where
  "dead = throw (raise_exc ConnectionError [])"

lemma polite_dead: "polite i k dead"
  by (auto simp: polite_def dead_def throw_def)

definition dead_services :: "(nat, nat) review_services" where
  "dead_services =
     \<lparr>rsv_lib = table_lib [], rsv_digits = (\<lambda>_. NoDigit), rsv_classes = \<lparr>uc_alnum = (\<lambda>_. False), uc_decimal = (\<lambda>_. False)\<rparr>,
      rsv_digest = length, rsv_has_broker = False, rsv_forges = (\<lambda>_. None), rsv_stage_timeout = 60,
      rsv_model_secrets = [], rsv_schema = [], rsv_resolve = (\<lambda>p. p),
      rsv_native = (\<lambda>_ _ _ _. Inl (raise_exc ReviewOutputError [])), rsv_get_pull_request = (\<lambda>_ _ _ _. dead),
      rsv_resolve_head = (\<lambda>_ _. dead), rsv_prepare = (\<lambda>_ _. dead), rsv_review_input = (\<lambda>_ _ _. dead),
      rsv_assert_pristine = (\<lambda>_ _ _. dead), rsv_run_agent = (\<lambda>_. dead), rsv_sleep = (\<lambda>_. dead),
      rsv_wait_lost = ret False, rsv_post = (\<lambda>_ _ _ _ _ _. dead), rsv_notify = None\<rparr>"

definition queued_world :: "nat review_world" where
  "queued_world =
     \<lparr>x_db = empty_db, x_rows = [sample_review], x_broker = \<lparr>br_model = [109], br_default_ttl = 300, br_leases = [], br_usage = []\<rparr>,
      x_lost = False, x_state = RvQueued, x_task = None, x_posts = [], x_clock = (\<lambda>_. 5), x_secrets = (\<lambda>_. [7]), x_reads = 0\<rparr>"

theorem review_run_settles_and_comments_safely_witness:
  "\<exists>r w'. run_pr_review dead_services 1 queued_world = (r, w') \<and> list_all (post_ok [7]) (x_posts w')
     \<and> (case r of Inr _ \<Rightarrow> gone 1 [7] w' | Inl e \<Rightarrow> \<not> isinstance e Exception)"
proof -
  have "polite 1 [7] (ret False :: (nat, bool) ract)" by (auto simp: polite_def ret_def)
  then have ok: "review_services_ok dead_services 1 [7]"
    by (simp add: review_services_ok_def dead_services_def polite_dead) (simp add: ret_def)
  have row: "get_review 1 (x_rows queued_world) = Some sample_review" "pr_status sample_review = RvQueued"
    by (simp_all add: queued_world_def get_review_def sample_review_def new_review_def)
  obtain r w' where run: "run_pr_review dead_services 1 queued_world = (r, w')" by fastforce
  have "[7] = x_secrets queued_world (x_reads queued_world)" "distinct (map pr_id (x_rows queued_world))"
    "x_posts queued_world = []" by (simp_all add: queued_world_def)
  from review_run_settles_and_comments_safely [OF this(1) ok this(2,3) run] row run
  show ?thesis by auto
qed

end
