(* ===== verification/Limited_Runner.thy ===== *)
theory Limited_Runner
  imports Runner_Protocol
begin

text \<open>
  \<open>LimitedRunner\<close> (\<open>workflow/limited_runner.py\<close>): at most \<open>limit\<close> Agents at a time.

  A call of \<open>run\<close> creates a task that acquires the semaphore, waits for it together with the cancel event, and
  gives the slot back in its \<open>finally\<close> block, also when the acquisition completes only there.  The block awaits
  the acquisition before it releases, so a cancellation that arrives at that point skips the release.  The step relation
  interleaves any number of calls.  The semaphore is a counter of free slots (\<open>asyncio.Semaphore\<close>): a waiting
  acquisition may be granted while the counter is positive, a release adds one.
\<close>

section \<open>One call\<close>

definition waiting_result :: "job_spec \<Rightarrow> job_status \<Rightarrow> rat \<Rightarrow> job_result" where
  "waiting_result spec status duration =
     \<lparr>jr_job_id = js_job_id spec, jr_status = status, jr_exit_code = None, jr_stdout = [],
      jr_stderr = (if status = JobCancelled then U ''cancelled while waiting for an Agent slot''
                   else U ''timed out while waiting for an Agent slot''),
      jr_output_truncated = False, jr_duration_seconds = duration\<rparr>"

text \<open>What \<open>run\<close> does when \<open>asyncio.wait\<close> returns: give up with a status, or call the runner.\<close>

datatype decision = GiveUp job_status | CallRunner rat

definition after_wait :: "bool \<Rightarrow> bool \<Rightarrow> bool \<Rightarrow> rat \<Rightarrow> decision" where
  "after_wait cancel_done acquire_done cancel_set remaining =
     (if cancel_done then GiveUp JobCancelled
      else if \<not> acquire_done then GiveUp JobTimedOut
      else if cancel_set then GiveUp JobCancelled
      else if remaining \<le> 0 then GiveUp JobTimedOut
      else CallRunner remaining)"

text \<open>
  A call is waiting, has been granted its slot but has not resumed, is in the runner with the time that was left,
  is at the \<open>await\<close> of its \<open>finally\<close> block (with or without a slot), has ended (with a result of its own, or with
  what the runner returned or raised), or has ended without giving its slot back.
\<close>

datatype call_state = Waiting | Granted | InRunner rat | Leaving bool "job_status option" | Ended "job_status option" | Lost

record limiter =
  li_free :: nat
  li_calls :: "call_state list"

definition new_limiter :: "int \<Rightarrow> pyexc + limiter" where
  "new_limiter limit =
     (if limit < 1 then Inl (raise_exc ValueError (U ''runner limit must be positive''))
      else Inr \<lparr>li_free = nat limit, li_calls = []\<rparr>)"

definition set_call :: "nat \<Rightarrow> call_state \<Rightarrow> limiter \<Rightarrow> limiter" where
  "set_call n c l = l\<lparr>li_calls := (li_calls l)[n := c]\<rparr>"

definition release_slot :: "limiter \<Rightarrow> limiter" where
  "release_slot l = l\<lparr>li_free := li_free l + 1\<rparr>"

text \<open>\<open>run\<close> up to the wait: a cancel event that is already set ends the call at once.\<close>

definition enter_call :: "bool \<Rightarrow> limiter \<Rightarrow> limiter" where
  "enter_call cancel_set l =
     l\<lparr>li_calls := li_calls l @ [if cancel_set then Ended (Some JobCancelled) else Waiting]\<rparr>"

text \<open>The semaphore hands a slot to a waiting acquisition.\<close>

definition grant :: "nat \<Rightarrow> limiter \<Rightarrow> limiter" where
  "grant n l = (set_call n Granted l)\<lparr>li_free := li_free l - 1\<rparr>"

text \<open>
  The \<open>finally\<close> block: \<open>begin_leave\<close> cancels an acquisition that is not done and awaits it, \<open>leave_call\<close> releases
  the slot the call has, or got while it was leaving.  A cancellation at the \<open>await\<close> is \<open>abandon_call\<close>.
\<close>

definition begin_leave :: "nat \<Rightarrow> job_status option \<Rightarrow> limiter \<Rightarrow> limiter" where
  "begin_leave n r l = set_call n (Leaving (li_calls l ! n \<noteq> Waiting) r) l"

definition leave_call :: "nat \<Rightarrow> bool \<Rightarrow> job_status option \<Rightarrow> limiter \<Rightarrow> limiter" where
  "leave_call n acquired r l = set_call n (Ended r) (if acquired then release_slot l else l)"

definition abandon_call :: "nat \<Rightarrow> bool \<Rightarrow> limiter \<Rightarrow> limiter" where
  "abandon_call n acquired l = set_call n (if acquired then Lost else Ended None) l"

text \<open>\<open>run\<close> from the return of the wait to its end or to the call of the runner.\<close>

definition resume_call :: "nat \<Rightarrow> bool \<Rightarrow> bool \<Rightarrow> bool \<Rightarrow> rat \<Rightarrow> limiter \<Rightarrow> limiter" where
  "resume_call n cancel_done acquire_done cancel_set remaining l =
     (case after_wait cancel_done acquire_done cancel_set remaining of
        GiveUp status \<Rightarrow> begin_leave n (Some status) l
      | CallRunner time \<Rightarrow> set_call n (InRunner time) l)"

section \<open>Calls in any order\<close>

text \<open>
  \<open>acquire_done\<close> can only be seen of a granted call.  A call may also be cancelled from outside while it waits
  (\<open>Ended None\<close>), and the runner may return or raise.
\<close>

inductive limiter_step :: "limiter \<Rightarrow> limiter \<Rightarrow> bool" where
  enter: "limiter_step l (enter_call cancel_set l)"
| granted: "n < length (li_calls l) \<Longrightarrow> li_calls l ! n = Waiting \<Longrightarrow> 0 < li_free l \<Longrightarrow> limiter_step l (grant n l)"
| resume: "n < length (li_calls l) \<Longrightarrow> li_calls l ! n \<in> {Waiting, Granted} \<Longrightarrow>
    acquire_done \<longrightarrow> li_calls l ! n = Granted \<Longrightarrow>
    limiter_step l (resume_call n cancel_done acquire_done cancel_set remaining l)"
| cancelled: "n < length (li_calls l) \<Longrightarrow> li_calls l ! n \<in> {Waiting, Granted} \<Longrightarrow> limiter_step l (begin_leave n None l)"
| returned: "n < length (li_calls l) \<Longrightarrow> li_calls l ! n = InRunner time \<Longrightarrow> limiter_step l (begin_leave n r l)"
| left: "n < length (li_calls l) \<Longrightarrow> li_calls l ! n = Leaving b r \<Longrightarrow> limiter_step l (leave_call n b r l)"
| abandoned: "n < length (li_calls l) \<Longrightarrow> li_calls l ! n = Leaving b r \<Longrightarrow> limiter_step l (abandon_call n b l)"

definition has_slot :: "call_state \<Rightarrow> bool" where
  "has_slot c = (case c of Granted \<Rightarrow> True | InRunner _ \<Rightarrow> True | Leaving b _ \<Rightarrow> b | _ \<Rightarrow> False)"

definition in_runner :: "call_state \<Rightarrow> bool" where
  "in_runner c = (case c of InRunner _ \<Rightarrow> True | _ \<Rightarrow> False)"

definition slots_ok :: "nat \<Rightarrow> limiter \<Rightarrow> bool" where
  "slots_ok limit l \<longleftrightarrow> li_free l + length (filter has_slot (li_calls l)) + length (filter (\<lambda>c. c = Lost) (li_calls l)) = limit
     \<and> list_all (\<lambda>c. case c of InRunner time \<Rightarrow> 0 < time | _ \<Rightarrow> True) (li_calls l)"

lemma has_slot_simps [simp]:
  "\<not> has_slot Waiting" "has_slot Granted" "has_slot (InRunner t)" "\<not> has_slot (Ended r)"
  "has_slot (Leaving b r) = b" "\<not> has_slot Lost"
  by (simp_all add: has_slot_def)

lemma length_filter_update:
  "n < length xs \<Longrightarrow> length (filter p (xs[n := x])) + (if p (xs ! n) then 1 else 0) = length (filter p xs) + (if p x then 1 else 0)"
proof (induction xs arbitrary: n)
  case (Cons y ys)
  then show ?case by (cases n) (auto split: if_splits)
qed simp

lemma list_all_set_call: "list_all p xs \<Longrightarrow> p x \<Longrightarrow> list_all p (xs[n := x])"
  by (auto simp: list_all_iff dest: set_update_subset_insert [THEN subsetD])

lemmas slot_defs = slots_ok_def enter_call_def grant_def set_call_def release_slot_def begin_leave_def leave_call_def
  abandon_call_def

text \<open>Replacing a call moves the account by what the two states hold.\<close>

lemma slots_replace:
  assumes "n < length (li_calls l)"
  shows "length (filter has_slot ((li_calls l)[n := c])) + (if has_slot (li_calls l ! n) then 1 else 0)
      = length (filter has_slot (li_calls l)) + (if has_slot c then 1 else 0)"
    "length (filter (\<lambda>c. c = Lost) ((li_calls l)[n := c])) + (if li_calls l ! n = Lost then 1 else 0)
      = length (filter (\<lambda>c. c = Lost) (li_calls l)) + (if c = Lost then 1 else 0)"
  using assms by (rule length_filter_update)+

lemma slots_begin_leave:
  assumes "slots_ok limit l" "n < length (li_calls l)" "li_calls l ! n \<in> {Waiting, Granted} \<or> in_runner (li_calls l ! n)"
  shows "slots_ok limit (begin_leave n r l)"
  using assms slots_replace [OF assms(2), of "Leaving (li_calls l ! n \<noteq> Waiting) r"]
  by (cases "li_calls l ! n") (auto simp: slot_defs in_runner_def list_all_set_call)

lemma slots_step: "limiter_step l l' \<Longrightarrow> slots_ok limit l \<Longrightarrow> slots_ok limit l'"
proof (induction rule: limiter_step.induct)
  case (enter l cancel_set)
  then show ?case by (simp add: slot_defs)
next
  case (granted n l)
  with slots_replace [OF granted(1), of Granted] show ?case by (auto simp: slot_defs list_all_set_call)
next
  case (resume n l acquire_done cancel_done cancel_set remaining)
  show ?case
  proof (cases "after_wait cancel_done acquire_done cancel_set remaining")
    case (GiveUp status)
    with resume slots_begin_leave [OF resume.prems resume(1)] show ?thesis by (simp add: resume_call_def)
  next
    case (CallRunner time)
    then have "acquire_done" "0 < time" by (auto simp: after_wait_def split: if_splits)
    with resume have "li_calls l ! n = Granted" by simp
    with CallRunner resume.prems \<open>0 < time\<close> slots_replace [OF resume(1), of "InRunner time"]
    show ?thesis by (auto simp: slot_defs resume_call_def list_all_set_call)
  qed
next
  case (left n l b r)
  with slots_replace [OF left(1), of "Ended r"] show ?case by (auto simp: slot_defs list_all_set_call)
next
  case (abandoned n l b r)
  with slots_replace [OF abandoned(1), of "if b then Lost else Ended None"] show ?case
    by (auto simp: slot_defs list_all_set_call split: if_splits)
qed (simp_all add: slots_begin_leave in_runner_def)

lemma in_runner_has_slot: "length (filter in_runner cs) \<le> length (filter has_slot cs)"
  by (induction cs) (auto simp: in_runner_def has_slot_def split: call_state.splits)

section \<open>Properties\<close>



text \<open>A cancellation inside the \<open>finally\<close> block does lose the slot: with one slot the runner never runs again.\<close>

lemma cancelled_leave_loses_slot:
  "limiter_step\<^sup>*\<^sup>* \<lparr>li_free = 0, li_calls = [Granted]\<rparr> \<lparr>li_free = 0, li_calls = [Lost]\<rparr>"
proof -
  have "limiter_step \<lparr>li_free = 0, li_calls = [Granted]\<rparr> \<lparr>li_free = 0, li_calls = [Leaving True None]\<rparr>"
    using limiter_step.cancelled [of 0 "\<lparr>li_free = 0, li_calls = [Granted]\<rparr>"] by (simp add: begin_leave_def set_call_def)
  moreover have "limiter_step \<lparr>li_free = 0, li_calls = [Leaving True None]\<rparr> \<lparr>li_free = 0, li_calls = [Lost]\<rparr>"
    using limiter_step.abandoned [of 0 "\<lparr>li_free = 0, li_calls = [Leaving True None]\<rparr>" True None]
    by (simp add: abandon_call_def set_call_def)
  ultimately show ?thesis by (meson converse_rtranclp_into_rtranclp rtranclp.rtrancl_refl)
qed

end
