(* ===== verification/Git_Path.thy ===== *)
theory Git_Path
  imports Review_Models Py_Text
begin

text \<open>
  \<open>coderus/pr_review/workspace.py\<close>: the paths in the \<open>---\<close> and \<open>+++\<close> lines of a diff.  Git quotes an unusual
  path like a C string, with octal escapes for the bytes outside ASCII; \<open>git_quoted\<close> below is that documented
  notation (\<open>core.quotePath\<close>), and \<open>decode_git_quoted\<close> shows that the program reads it back.
\<close>

section \<open>UTF-8\<close>

definition surrogate :: "nat \<Rightarrow> bool" where
  "surrogate c = (55296 \<le> c \<and> c \<le> 57343)"

text \<open>\<open>character.encode("utf-8")\<close>; a surrogate raises \<open>UnicodeEncodeError\<close>, which is a \<open>ValueError\<close>.\<close>

definition encode_char :: "nat \<Rightarrow> pyexc + nat list" where
  "encode_char c = (if surrogate c then Inl (raise_exc ValueError []) else Inr (utf8 c))"

definition continuation :: "nat \<Rightarrow> bool" where
  "continuation b = (128 \<le> b \<and> b \<le> 191)"

text \<open>\<open>bytes.decode("utf-8")\<close>, strict: overlong forms, surrogates and values beyond U+10FFFF are refused.\<close>

fun utf8_decode :: "nat list \<Rightarrow> pystr option" where
  "utf8_decode [] = Some []"
| "utf8_decode (a # rest) =
     (if a < 128 then map_option (Cons a) (utf8_decode rest)
      else case rest of
        [] \<Rightarrow> None
      | b # rest2 \<Rightarrow>
        if \<not> continuation b then None
        else if 194 \<le> a \<and> a \<le> 223
          then map_option (Cons ((a - 192) * 64 + (b - 128))) (utf8_decode rest2)
        else case rest2 of
          [] \<Rightarrow> None
        | c # rest3 \<Rightarrow>
          if \<not> continuation c then None
          else if 224 \<le> a \<and> a \<le> 239
            then (let v = (a - 224) * 4096 + (b - 128) * 64 + (c - 128)
                  in if v < 2048 \<or> surrogate v then None else map_option (Cons v) (utf8_decode rest3))
          else case rest3 of
            [] \<Rightarrow> None
          | d # rest4 \<Rightarrow>
            if \<not> continuation d \<or> \<not> (240 \<le> a \<and> a \<le> 244) then None
            else (let v = (a - 240) * 262144 + (b - 128) * 4096 + (c - 128) * 64 + (d - 128)
                  in if v < 65536 \<or> 1114111 < v then None else map_option (Cons v) (utf8_decode rest4)))"

definition scalar :: "nat \<Rightarrow> bool" where
  "scalar c \<longleftrightarrow> c \<le> 1114111 \<and> \<not> surrogate c"

lemma continuation_mod: "continuation (128 + n mod 64)"
  by (simp add: continuation_def less_Suc_eq_le [symmetric])

lemma utf8_decode_char:
  assumes "scalar c"
  shows "utf8_decode (utf8 c @ bs) = map_option (Cons c) (utf8_decode bs)"
proof -
  have c: "c \<le> 1114111" "\<not> surrogate c" using assms by (simp_all add: scalar_def)
  have dm: "n mod 64 + n div 64 * 64 = n" for n :: nat by simp
  consider "c < 128" | "128 \<le> c" "c < 2048" | "2048 \<le> c" "c < 65536" | "65536 \<le> c" by linarith
  then show ?thesis
  proof cases
    case 1
    then show ?thesis by (simp add: utf8_def)
  next
    case 2
    have "c div 64 < 32" "2 \<le> c div 64" using 2 by simp_all
    then have "194 \<le> 192 + c div 64" "192 + c div 64 \<le> 223" by simp_all
    with 2 continuation_mod [of c] dm [of c] show ?thesis by (simp add: utf8_def)
  next
    case 3
    have a: "c div 4096 < 16" using 3(2) by simp
    have "c div 64 div 64 = c div 4096" by (simp add: div_mult2_eq [symmetric])
    with dm [of c] dm [of "c div 64"] have "c div 4096 * 4096 + c div 64 mod 64 * 64 + c mod 64 = c"
      by linarith
    moreover from a have "224 \<le> 224 + c div 4096 \<and> 224 + c div 4096 \<le> 239" by simp
    ultimately show ?thesis
      using 3 c(2) continuation_mod [of c] continuation_mod [of "c div 64"] by (simp add: utf8_def)
  next
    case 4
    have a: "c div 262144 \<le> 4" using c(1) by simp
    have "c div 64 div 64 = c div 4096" "c div 4096 div 64 = c div 262144" by (simp_all add: div_mult2_eq [symmetric])
    with dm [of c] dm [of "c div 64"] dm [of "c div 4096"]
    have "c div 262144 * 262144 + c div 4096 mod 64 * 4096 + c div 64 mod 64 * 64 + c mod 64 = c"
      by linarith
    moreover have "c div 262144 mod 8 = c div 262144" using a by simp
    moreover from a have "240 \<le> 240 + c div 262144 \<and> 240 + c div 262144 \<le> 244" by simp
    ultimately show ?thesis
      using 4 c continuation_mod [of c] continuation_mod [of "c div 64"] continuation_mod [of "c div 4096"]
      by (simp add: utf8_def)
  qed
qed

lemma utf8_decode_encode: "list_all scalar s \<Longrightarrow> utf8_decode (concat (map utf8 s)) = Some s"
  by (induction s) (simp_all add: utf8_decode_char)

section \<open>Quoted paths\<close>

text \<open>The table \<open>escapes\<close>, by the character after the backslash.\<close>

definition ESCAPES :: "(nat \<times> nat) list" where
  "ESCAPES = [(34, 34), (92, 92), (97, 7), (98, 8), (102, 12), (110, 10), (114, 13), (116, 9), (118, 11)]"

definition octal :: "nat \<Rightarrow> bool" where
  "octal c = (48 \<le> c \<and> c \<le> 55)"

definition octal_value :: "pystr \<Rightarrow> nat" where
  "octal_value ds = foldl (\<lambda>n c. 8 * n + (c - 48)) 0 ds"

text \<open>
  The loop over the text between the quotes: the bytes, \<open>None\<close> for a malformed escape, or an exception of
  \<open>encode\<close> or of \<open>bytearray.append\<close> (a value above 255).
\<close>

definition prepend_bytes :: "nat list \<Rightarrow> pyexc + nat list option \<Rightarrow> pyexc + nat list option" where
  "prepend_bytes bs r = and_then r (\<lambda>x. Inr (map_option (append bs) x))"

function decode_bytes :: "pystr \<Rightarrow> pyexc + nat list option" where
  "decode_bytes [] = Inr (Some [])"
| "decode_bytes (c # cs) =
     (if c \<noteq> 92 then and_then (encode_char c) (\<lambda>bs. prepend_bytes bs (decode_bytes cs))
      else case cs of
        [] \<Rightarrow> Inr None
      | d # ds \<Rightarrow>
        (case map_of ESCAPES d of
           Some b \<Rightarrow> prepend_bytes [b] (decode_bytes ds)
         | None \<Rightarrow>
           if \<not> octal d then Inr None
           else (let digits = takeWhile octal (take 3 cs)
                 in and_then (guard_raise (255 < octal_value digits) (raise_exc ValueError []))
                      (\<lambda>_. prepend_bytes [octal_value digits] (decode_bytes (drop (length digits) cs))))))"
  by pat_completeness auto

termination
  by (relation "measure length") auto

definition decode_git_path :: "pystr \<Rightarrow> pyexc + pystr option" where
  "decode_git_path value =
     (if \<not> startswith value [34] then Inr (Some value)
      else if length value < 2 \<or> \<not> endswith value [34] then Inr None
      else and_then (decode_bytes (butlast (drop 1 value))) (\<lambda>r. Inr (Option.bind r utf8_decode)))"

definition parse_diff_path :: "pystr \<Rightarrow> pystr \<Rightarrow> pyexc + pystr option" where
  "parse_diff_path value pre =
     and_then (decode_git_path value) (\<lambda>p. Inr (case p of
        None \<Rightarrow> None
      | Some path \<Rightarrow>
          if path = U ''/dev/null'' then None
          else if \<not> startswith path pre then None
          else normalize_repository_path (removeprefix path pre)))"

subsection \<open>Git's notation\<close>

definition octal3 :: "nat \<Rightarrow> pystr" where
  "octal3 b = [48 + b div 64, 48 + b div 8 mod 8, 48 + b mod 8]"

definition quoted_byte :: "nat \<Rightarrow> pystr" where
  "quoted_byte b =
     (case map_of (map (\<lambda>(x, y). (y, x)) ESCAPES) b of
        Some x \<Rightarrow> [92, x]
      | None \<Rightarrow> if b < 32 \<or> 127 \<le> b then 92 # octal3 b else [b])"

definition must_quote :: "nat \<Rightarrow> bool" where
  "must_quote b = (b < 32 \<or> 127 \<le> b \<or> b = 34 \<or> b = 92)"

definition git_quoted :: "pystr \<Rightarrow> pystr" where
  "git_quoted path =
     (let bytes = concat (map utf8 path)
      in if list_ex must_quote bytes then 34 # concat (map quoted_byte bytes) @ [34] else path)"

lemma octal3_octal: "b < 256 \<Longrightarrow> list_all octal (octal3 b)"
  by (auto simp: octal3_def octal_def)

lemma octal3_value: "octal_value (octal3 b) = b"
proof -
  have "b = 8 * (8 * (b div 64) + b div 8 mod 8) + b mod 8"
    using div_mult2_eq [of b 8 8] mult_div_mod_eq [of 8 b] mult_div_mod_eq [of 8 "b div 8"] by simp
  then show ?thesis by (simp add: octal_value_def octal3_def)
qed

lemma decode_octal:
  assumes "b < 256"
  shows "decode_bytes (92 # octal3 b @ s) = prepend_bytes [b] (decode_bytes s)"
proof -
  have o: "list_all octal (octal3 b)" by (rule octal3_octal [OF assms])
  have three: "takeWhile octal (take 3 (octal3 b @ s)) = octal3 b"
    using o by (simp add: octal3_def)
  have "octal (48 + b div 64)" using o by (simp add: octal3_def)
  then have "map_of ESCAPES (48 + b div 64) = None"
    by (auto simp: octal_def ESCAPES_def)
  moreover have "drop (length (octal3 b)) (octal3 b @ s) = s" by simp
  moreover have "octal3 b @ s = (48 + b div 64) # [48 + b div 8 mod 8, 48 + b mod 8] @ s"
    by (simp add: octal3_def)
  ultimately show ?thesis
    using three octal3_value [of b] assms \<open>octal (48 + b div 64)\<close>
    by (simp add: Let_def)
qed

lemma decode_plain: "b < 128 \<Longrightarrow> b \<noteq> 92 \<Longrightarrow> decode_bytes (b # s) = prepend_bytes [b] (decode_bytes s)"
  by (simp add: encode_char_def surrogate_def utf8_def)

lemma decode_quoted_byte:
  assumes "b < 256"
  shows "decode_bytes (quoted_byte b @ s) = prepend_bytes [b] (decode_bytes s)"
proof (cases "map_of (map (\<lambda>(x, y). (y, x)) ESCAPES) b")
  case None
  then have "b \<noteq> 92" by (auto simp: ESCAPES_def)
  with None assms decode_octal [OF assms] decode_plain [of b] show ?thesis
    by (simp add: quoted_byte_def)
next
  case (Some x)
  then have "b \<in> {34, 92, 7, 8, 12, 10, 13, 9, 11}" by (simp add: ESCAPES_def split: if_splits)
  then show ?thesis
    by (elim insertE emptyE; simp only:) (simp_all add: quoted_byte_def ESCAPES_def)
qed

lemma prepend_bytes_Inr [simp]: "prepend_bytes bs (Inr (Some xs)) = Inr (Some (bs @ xs))"
  by (simp add: prepend_bytes_def)

lemma decode_quoted: "list_all (\<lambda>b. b < 256) bs \<Longrightarrow> decode_bytes (concat (map quoted_byte bs)) = Inr (Some bs)"
  by (induction bs) (simp_all add: decode_quoted_byte)

lemma utf8_high: "128 \<le> c \<Longrightarrow> scalar c \<Longrightarrow> list_ex must_quote (utf8 c)"
  by (auto simp: utf8_def must_quote_def)

lemma hd_unquoted:
  assumes "list_all scalar path" "\<not> list_ex must_quote (concat (map utf8 path))"
  shows "\<not> startswith path [34]"
proof (cases path)
  case (Cons c cs)
  then have "\<not> list_ex must_quote (utf8 c)" using assms(2) by (auto simp: list_ex_iff)
  moreover have "utf8 34 = [34]" by (simp add: utf8_def)
  ultimately have "c \<noteq> 34" by (auto simp: must_quote_def)
  with Cons show ?thesis by (simp add: startswith_def)
qed (simp add: startswith_def)

lemma decode_git_quoted:
  assumes "list_all scalar path"
  shows "decode_git_path (git_quoted path) = Inr (Some path)"
proof (cases "list_ex must_quote (concat (map utf8 path))")
  case True
  let ?bs = "concat (map utf8 path)"
  have "list_all (\<lambda>b. b < 256) ?bs" using utf8_byte by (auto simp: list_all_iff)
  note d = decode_quoted [OF this]
  have "endswith (34 # concat (map quoted_byte ?bs) @ [34]) [34]" by (auto simp: endswith_iff)
  with True d utf8_decode_encode [OF assms] show ?thesis
    by (simp add: git_quoted_def Let_def decode_git_path_def startswith_def)
next
  case False
  then show ?thesis
    using hd_unquoted [OF assms False] by (simp only: git_quoted_def Let_def if_False decode_git_path_def if_True simp_thms)
qed

text \<open>The prefix \<open>a/\<close> or \<open>b/\<close> is quoted with the path.\<close>

lemma parse_git_path:
  assumes "list_all scalar path" "safe_path path" "pre = U ''a/'' \<or> pre = U ''b/''"
  shows "parse_diff_path (git_quoted (pre @ path)) pre = Inr (Some path)"
proof -
  have "list_all scalar (pre @ path)"
    using assms(1,3) by (auto simp: U_def scalar_def surrogate_def)
  note d = decode_git_quoted [OF this]
  have "pre @ path \<noteq> U ''/dev/null''" using assms(3) by (auto simp: U_def)
  moreover have "normalize_repository_path path = Some path"
    using assms(2) by (simp add: normalize_Some to_slashes_id safe_path_def)
  ultimately show ?thesis
    using d by (simp add: parse_diff_path_def startswith_iff)
qed

lemma parse_dev_null: "parse_diff_path (U ''/dev/null'') pre = Inr None"
  by (simp add: parse_diff_path_def decode_git_path_def startswith_def U_def)

text \<open>
  Git writes a tab after a path that holds a blank.  The program keeps it, so that the changed lines of such a
  file are recorded under another path; a quoted path followed by a tab is not recorded at all.
\<close>

lemma blank_path_keeps_tab:
  "parse_diff_path (U ''a/my file'' @ [9]) (U ''a/'') = Inr (Some (U ''my file'' @ [9]))"
  by code_simp

lemma quoted_path_with_tab: "parse_diff_path (34 # U ''a/my'' @ [92, 116] @ U '' file'' @ [34, 9]) (U ''a/'') = Inr None"
  by code_simp

end
