(* ===== verification/Diff_Ranges.thy ===== *)
theory Diff_Ranges
  imports Git_Path "HOL-Library.AList"
begin

text \<open>
  \<open>_parse_changed_ranges\<close> of \<open>coderus/pr_review/workspace.py\<close>: which lines a pull request changes.  The ranges
  decide which findings of a review may be published as located, so the theorem at the end compares the parser
  with the diff that was printed: a \<open>diff_file\<close> is what Git compares, \<open>diff_text\<close> its unified output.
\<close>

section \<open>The parser\<close>

datatype diff_state = Outside | InHeader | OldPath | Ready | InHunk

record diff_scan =
  ds_ranges :: "((pystr \<times> pystr) \<times> (int \<times> int) list) list"
  ds_files :: int
  ds_additions :: int
  ds_deletions :: int
  ds_old_path :: "pystr option"
  ds_new_path :: "pystr option"
  ds_old_line :: int
  ds_new_line :: int
  ds_state :: diff_state

definition new_scan :: diff_scan where
  "new_scan = \<lparr>ds_ranges = [], ds_files = 0, ds_additions = 0, ds_deletions = 0, ds_old_path = None,
     ds_new_path = None, ds_old_line = 0, ds_new_line = 0, ds_state = Outside\<rparr>"

fun is_decimal :: "digit_kind \<Rightarrow> bool" where
  "is_decimal (Decimal _) = True"
| "is_decimal _ = False"

text \<open>
  \<open>_HUNK_HEADER.match(line)\<close>: the groups 1 and 3.  A number takes all the digits there are, since a comma, a
  blank or nothing must follow it.
\<close>

definition digits_of :: "(nat \<Rightarrow> digit_kind) \<Rightarrow> pystr \<Rightarrow> pystr \<times> pystr" where
  "digits_of uni s =
     (takeWhile (\<lambda>c. is_decimal (digit_of uni c)) s, dropWhile (\<lambda>c. is_decimal (digit_of uni c)) s)"

definition skip_count :: "(nat \<Rightarrow> digit_kind) \<Rightarrow> pystr \<Rightarrow> pystr" where
  "skip_count uni s =
     (let (ds, rest) = digits_of uni (drop 1 s) in if startswith s [44] \<and> ds \<noteq> [] then rest else s)"

definition hunk_header :: "(nat \<Rightarrow> digit_kind) \<Rightarrow> pystr \<Rightarrow> (pystr \<times> pystr) option" where
  "hunk_header uni line =
     (if \<not> startswith line (U ''@@ -'') then None
      else (let (old, r1) = digits_of uni (drop 4 line); r2 = skip_count uni r1
            in if old = [] \<or> \<not> startswith r2 (U '' +'') then None
               else (let (new, r3) = digits_of uni (drop 2 r2); r4 = skip_count uni r3
                     in if new = [] \<or> \<not> startswith r4 (U '' @@'') then None else Some (old, new))))"

text \<open>\<open>record(path, side, line_number)\<close>.\<close>

definition add_line :: "(int \<times> int) list \<Rightarrow> int \<Rightarrow> (int \<times> int) list" where
  "add_line xs n =
     (if xs \<noteq> [] \<and> n \<le> snd (last xs) + 1 then butlast xs @ [(fst (last xs), max (snd (last xs)) n)]
      else xs @ [(n, n)])"

definition record_line ::
  "pystr option \<Rightarrow> pystr \<Rightarrow> int \<Rightarrow> ((pystr \<times> pystr) \<times> (int \<times> int) list) list
    \<Rightarrow> ((pystr \<times> pystr) \<times> (int \<times> int) list) list" where
  "record_line path side n ranges =
     (case path of
        None \<Rightarrow> ranges
      | Some p \<Rightarrow>
          if n < 1 then ranges
          else AList.update (p, side)
                 (add_line (case map_of ranges (p, side) of None \<Rightarrow> [] | Some xs \<Rightarrow> xs) n) ranges)"

definition diff_body_line :: "pystr \<Rightarrow> diff_scan \<Rightarrow> diff_scan" where
  "diff_body_line line s =
     (if startswith line (U ''-'')
        then s\<lparr>ds_ranges := record_line (ds_old_path s) (U ''LEFT'') (ds_old_line s) (ds_ranges s),
               ds_old_line := ds_old_line s + 1, ds_deletions := ds_deletions s + 1\<rparr>
      else if startswith line (U ''+'')
        then s\<lparr>ds_ranges := record_line (ds_new_path s) (U ''RIGHT'') (ds_new_line s) (ds_ranges s),
               ds_new_line := ds_new_line s + 1, ds_additions := ds_additions s + 1\<rparr>
      else if startswith line (U '' '')
        then s\<lparr>ds_old_line := ds_old_line s + 1, ds_new_line := ds_new_line s + 1\<rparr>
      else s)"

definition diff_line :: "(nat \<Rightarrow> digit_kind) \<Rightarrow> pystr \<Rightarrow> diff_scan \<Rightarrow> pyexc + diff_scan" where
  "diff_line uni line s =
     (if startswith line (U ''diff --git '')
        then Inr (s\<lparr>ds_files := ds_files s + 1, ds_old_path := None, ds_new_path := None, ds_state := InHeader\<rparr>)
      else if ds_state s = InHeader \<and> startswith line (U ''--- '')
        then and_then (parse_diff_path (drop 4 line) (U ''a/''))
               (\<lambda>p. Inr (s\<lparr>ds_old_path := p, ds_state := OldPath\<rparr>))
      else if ds_state s = OldPath \<and> startswith line (U ''+++ '')
        then and_then (parse_diff_path (drop 4 line) (U ''b/''))
               (\<lambda>p. Inr (s\<lparr>ds_new_path := p, ds_state := Ready\<rparr>))
      else case (if ds_state s \<in> {Ready, InHunk} then hunk_header uni line else None) of
        Some (old, new) \<Rightarrow>
          and_then (int_of_digits uni old) (\<lambda>o_line. and_then (int_of_digits uni new) (\<lambda>n_line.
            Inr (s\<lparr>ds_old_line := o_line, ds_new_line := n_line, ds_state := InHunk\<rparr>)))
      | None \<Rightarrow> if ds_state s \<noteq> InHunk \<or> line = [] then Inr s else Inr (diff_body_line line s))"

fun scan_lines :: "(nat \<Rightarrow> digit_kind) \<Rightarrow> pystr list \<Rightarrow> diff_scan \<Rightarrow> pyexc + diff_scan" where
  "scan_lines uni [] s = Inr s"
| "scan_lines uni (l # ls) s = and_then (diff_line uni l s) (scan_lines uni ls)"

definition parse_changed_ranges :: "(nat \<Rightarrow> digit_kind) \<Rightarrow> pystr \<Rightarrow> pyexc + changed_ranges" where
  "parse_changed_ranges uni diff =
     and_then (scan_lines uni (splitlines diff) new_scan) (\<lambda>s.
       Inr \<lparr>cr_ranges = ds_ranges s, cr_comparison_sha = None, cr_changed_file_count = ds_files s,
            cr_additions = ds_additions s, cr_deletions = ds_deletions s\<rparr>)"

section \<open>Diffs\<close>

text \<open>
  A line of a hunk, a hunk and the comparison of one file.  A path is \<open>None\<close> for \<open>/dev/null\<close>; \<open>df_header\<close> are
  the extended header lines (modes, renames, object names); a file without hunks has no \<open>---\<close> line.
\<close>

datatype diff_op = Context pystr | Deleted pystr | Added pystr | NoNewline

record diff_hunk =
  dh_old :: nat
  dh_old_count :: "nat option"
  dh_new :: nat
  dh_new_count :: "nat option"
  dh_section :: pystr
  dh_ops :: "diff_op list"

record diff_file =
  df_name :: pystr
  df_header :: "pystr list"
  df_old :: "pystr option"
  df_new :: "pystr option"
  df_hunks :: "diff_hunk list"

fun op_text :: "diff_op \<Rightarrow> pystr" where
  "op_text (Context s) = 32 # s"
| "op_text (Deleted s) = 45 # s"
| "op_text (Added s) = 43 # s"
| "op_text NoNewline = 92 # U '' No newline at end of file''"

definition count_text :: "nat option \<Rightarrow> pystr" where
  "count_text c = (case c of None \<Rightarrow> [] | Some n \<Rightarrow> 44 # nat_str n)"

definition hunk_text :: "diff_hunk \<Rightarrow> pystr" where
  "hunk_text h = U ''@@ -'' @ nat_str (dh_old h) @ count_text (dh_old_count h) @ U '' +''
     @ nat_str (dh_new h) @ count_text (dh_new_count h) @ U '' @@'' @ dh_section h"

definition path_text :: "pystr \<Rightarrow> pystr option \<Rightarrow> pystr" where
  "path_text pre p = (case p of None \<Rightarrow> U ''/dev/null'' | Some path \<Rightarrow> git_quoted (pre @ path))"

definition hunk_lines :: "diff_hunk \<Rightarrow> pystr list" where
  "hunk_lines h = hunk_text h # map op_text (dh_ops h)"

definition file_lines :: "diff_file \<Rightarrow> pystr list" where
  "file_lines f =
     (U ''diff --git '' @ df_name f) # df_header f
     @ (if df_hunks f = [] then []
        else (U ''--- '' @ path_text (U ''a/'') (df_old f)) # (U ''+++ '' @ path_text (U ''b/'') (df_new f))
             # concat (map hunk_lines (df_hunks f)))"

definition diff_text :: "diff_file list \<Rightarrow> pystr" where
  "diff_text fs = concat (map (\<lambda>l. l @ [10]) (concat (map file_lines fs)))"

text \<open>The numbers of the deleted and of the added lines.\<close>

fun deleted_from :: "int \<Rightarrow> diff_op list \<Rightarrow> int list" where
  "deleted_from n [] = []"
| "deleted_from n (Deleted s # ops) = n # deleted_from (n + 1) ops"
| "deleted_from n (Context s # ops) = deleted_from (n + 1) ops"
| "deleted_from n (_ # ops) = deleted_from n ops"

fun added_from :: "int \<Rightarrow> diff_op list \<Rightarrow> int list" where
  "added_from n [] = []"
| "added_from n (Added s # ops) = n # added_from (n + 1) ops"
| "added_from n (Context s # ops) = added_from (n + 1) ops"
| "added_from n (_ # ops) = added_from n ops"

definition deleted_lines :: "diff_file \<Rightarrow> int list" where
  "deleted_lines f = concat (map (\<lambda>h. deleted_from (int (dh_old h)) (dh_ops h)) (df_hunks f))"

definition added_lines :: "diff_file \<Rightarrow> int list" where
  "added_lines f = concat (map (\<lambda>h. added_from (int (dh_new h)) (dh_ops h)) (df_hunks f))"

section \<open>Recording lines\<close>

definition covered :: "(int \<times> int) list \<Rightarrow> int \<Rightarrow> bool" where
  "covered xs n \<longleftrightarrow> (\<exists>(a, b) \<in> set xs. a \<le> n \<and> n \<le> b)"

text \<open>Intervals in order, none empty, with a gap between any two.\<close>

definition separated :: "(int \<times> int) list \<Rightarrow> bool" where
  "separated xs \<longleftrightarrow> sorted_wrt (\<lambda>x y. snd x + 1 < fst y) xs \<and> list_all (\<lambda>x. fst x \<le> snd x) xs"

lemma covered_simps [simp]:
  "\<not> covered [] n" "covered (x # xs) n \<longleftrightarrow> fst x \<le> n \<and> n \<le> snd x \<or> covered xs n"
  "covered (xs @ ys) n \<longleftrightarrow> covered xs n \<or> covered ys n"
  by (auto simp: covered_def split_beta)

lemma separated_snoc:
  "separated (xs @ [x]) \<longleftrightarrow> separated xs \<and> fst x \<le> snd x \<and> (\<forall>y \<in> set xs. snd y + 1 < fst x)"
  by (auto simp: separated_def sorted_wrt_append)

lemma add_line_facts:
  assumes "separated xs" "\<forall>x \<in> set xs. snd x < n"
  shows "separated (add_line xs n)" "covered (add_line xs n) m \<longleftrightarrow> covered xs m \<or> m = n"
    "\<forall>x \<in> set (add_line xs n). snd x \<le> n"
proof -
  have "separated (add_line xs n) \<and> (covered (add_line xs n) m \<longleftrightarrow> covered xs m \<or> m = n)
      \<and> (\<forall>x \<in> set (add_line xs n). snd x \<le> n)"
  proof (cases xs rule: rev_cases)
    case Nil
    then show ?thesis by (auto simp: add_line_def separated_def)
  next
    case (snoc ys x)
    have *: "snd x < n" "\<forall>y \<in> set ys. snd y + 1 < fst x" "fst x \<le> snd x" "separated ys"
      using assms by (auto simp: snoc separated_snoc)
    show ?thesis
    proof (cases "n \<le> snd x + 1")
      case True
      with * show ?thesis by (auto simp: snoc add_line_def separated_snoc max_def)
    next
      case False
      then have "add_line xs n = ys @ [x, (n, n)]" by (simp add: snoc add_line_def)
      moreover have "separated ((ys @ [x]) @ [(n, n)])"
        unfolding separated_snoc [of "ys @ [x]"] using False assms(1) * by (auto simp: snoc)
      ultimately show ?thesis using * by (auto simp: snoc)
    qed
  qed
  then show "separated (add_line xs n)" "covered (add_line xs n) m \<longleftrightarrow> covered xs m \<or> m = n"
    "\<forall>x \<in> set (add_line xs n). snd x \<le> n" by blast+
qed

lemma fold_add_line:
  "separated xs \<Longrightarrow> sorted_wrt (<) ns \<Longrightarrow> \<forall>n \<in> set ns. \<forall>x \<in> set xs. snd x < n \<Longrightarrow>
     separated (foldl add_line xs ns) \<and> (\<forall>m. covered (foldl add_line xs ns) m \<longleftrightarrow> covered xs m \<or> m \<in> set ns)"
proof (induction ns arbitrary: xs)
  case (Cons n ns)
  have before_n: "\<forall>x \<in> set xs. snd x < n" using Cons.prems(3) by simp
  note A = add_line_facts [OF Cons.prems(1) before_n]
  have "\<forall>k \<in> set ns. \<forall>x \<in> set (add_line xs n). snd x < k"
    using A(3) Cons.prems(2) by fastforce
  with Cons.IH [OF A(1)] Cons.prems(2) A(2) show ?case by auto
qed simp

text \<open>A range of lines is contained exactly when every line of it is covered.\<close>

lemma separated_interval:
  assumes "separated xs" "(a, b) \<in> set xs" "(c, d) \<in> set xs" "(a, b) \<noteq> (c, d)"
  shows "b + 1 < c \<or> d + 1 < a"
  using assms
proof (induction xs)
  case (Cons x xs)
  have "\<And>y. y \<in> set xs \<Longrightarrow> snd x + 1 < fst y" "separated xs"
    using Cons.prems(1) by (auto simp: separated_def)
  with Cons show ?case by fastforce
qed simp

lemma covered_range:
  assumes "separated xs" "a \<le> b" "\<And>n. a \<le> n \<Longrightarrow> n \<le> b \<Longrightarrow> covered xs n"
  obtains c d where "(c, d) \<in> set xs" "c \<le> a" "b \<le> d"
proof -
  obtain c d where cd: "(c, d) \<in> set xs" "c \<le> a" "a \<le> d"
    using assms(3) [of a] assms(2) by (auto simp: covered_def)
  have "b \<le> d"
  proof (rule ccontr)
    assume "\<not> b \<le> d"
    with cd(3) have "covered xs (d + 1)" by (intro assms(3)) simp_all
    then obtain c' d' where "(c', d') \<in> set xs" "c' \<le> d + 1" "d + 1 \<le> d'" by (auto simp: covered_def)
    with separated_interval [OF assms(1) cd(1), of c' d'] cd show False by auto
  qed
  with cd that show ?thesis by blast
qed

lemma overlaps_separated:
  assumes "separated xs" "a \<le> b"
  shows "set (overlaps a b xs) = {(a, b)} \<longleftrightarrow> (\<forall>n. a \<le> n \<and> n \<le> b \<longrightarrow> covered xs n)"
proof
  assume "set (overlaps a b xs) = {(a, b)}"
  then have "(a, b) \<in> set (overlaps a b xs)" by simp
  then obtain c d where "(c, d) \<in> set xs" "a = max a c" "b = min b d" by (auto simp: overlaps_mem)
  then have "covered xs n" if "a \<le> n" "n \<le> b" for n
    unfolding covered_def using that by (intro bexI [of _ "(c, d)"]) auto
  then show "\<forall>n. a \<le> n \<and> n \<le> b \<longrightarrow> covered xs n" by blast
next
  assume "\<forall>n. a \<le> n \<and> n \<le> b \<longrightarrow> covered xs n"
  then obtain c d where cd: "(c, d) \<in> set xs" "c \<le> a" "b \<le> d"
    using covered_range [OF assms] by metis
  have "(max a c', min b d') = (a, b)" if "(c', d') \<in> set xs" "max a c' \<le> min b d'" for c' d'
    using separated_interval [OF assms(1) cd(1) that(1)] that cd by (cases "(c, d) = (c', d')") auto
  moreover have "(a, b) \<in> set (overlaps a b xs)"
    unfolding overlaps_mem using cd assms(2) by (intro exI [of _ c] exI [of _ d]) auto
  ultimately show "set (overlaps a b xs) = {(a, b)}"
    by (intro subset_antisym subsetI) (auto simp only: overlaps_mem singleton_iff empty_subsetI insert_subset)
qed

section \<open>The lines of a diff\<close>

definition chomp :: "pystr \<Rightarrow> pystr" where
  "chomp l = (if l \<noteq> [] \<and> last l = 13 then butlast l else l)"

text \<open>A line the program reads as one line: no character \<open>splitlines\<close> breaks at, but for a final CR.\<close>

definition one_line :: "pystr \<Rightarrow> bool" where
  "one_line l \<longleftrightarrow> list_all (\<lambda>c. \<not> line_break c) (chomp l)"

lemma splitlines_acc_plain:
  "list_all (\<lambda>c. \<not> line_break c) x \<Longrightarrow> splitlines_acc acc (x @ r) = splitlines_acc (rev x @ acc) r"
proof (induction x arbitrary: acc)
  case (Cons c x)
  then have "c \<noteq> 13" by (auto simp: line_break_def)
  with Cons show ?case by simp
qed simp

lemma splitlines_acc_line:
  assumes "one_line l"
  shows "splitlines_acc acc (l @ 10 # r) = (rev acc @ chomp l) # splitlines_acc [] r"
proof (cases "l \<noteq> [] \<and> last l = 13")
  case True
  then have l: "l = chomp l @ [13]" unfolding chomp_def by (metis append_butlast_last_id)
  have "splitlines_acc acc (chomp l @ 13 # 10 # r) = (rev acc @ chomp l) # splitlines_acc [] r"
    unfolding splitlines_acc_plain [OF assms [unfolded one_line_def]] by (simp add: drop_lf_def)
  then show ?thesis by (subst l) simp
next
  case False
  then have "chomp l = l" by (auto simp: chomp_def)
  with assms splitlines_acc_plain [of l acc "10 # r"] show ?thesis
    by (simp add: one_line_def line_break_def)
qed

lemma splitlines_text: "list_all one_line ls \<Longrightarrow> splitlines (concat (map (\<lambda>l. l @ [10]) ls)) = map chomp ls"
  by (induction ls) (simp_all add: splitlines_def splitlines_acc_line)

lemma chomp_Cons: "c \<noteq> 13 \<Longrightarrow> chomp (c # s) = c # chomp s"
  by (cases s) (simp_all add: chomp_def)

lemma chomp_append: "13 \<notin> set p \<Longrightarrow> chomp (p @ s) = p @ chomp s"
  by (induction p) (simp_all add: chomp_Cons)

lemma chomp_startswith: "startswith (chomp l) p \<Longrightarrow> startswith l p"
  by (auto simp: startswith_iff chomp_def split: if_splits) (metis append_butlast_last_id append_assoc)

lemma one_line_append: "list_all (\<lambda>c. \<not> line_break c) p \<Longrightarrow> one_line s \<Longrightarrow> one_line (p @ s)"
proof -
  assume p: "list_all (\<lambda>c. \<not> line_break c) p" and "one_line s"
  have "line_break 13" by (simp add: line_break_def)
  with p have "13 \<notin> set p" by (auto simp: list_all_iff)
  with p \<open>one_line s\<close> show ?thesis by (simp add: one_line_def chomp_append)
qed

section \<open>Reading a printed diff\<close>

text \<open>What a diff must satisfy; the first four are about its text, the last about its numbers.\<close>

fun op_ok :: "diff_op \<Rightarrow> bool" where
  "op_ok (Context s) = one_line s"
| "op_ok (Deleted s) = one_line s"
| "op_ok (Added s) = one_line s"
| "op_ok NoNewline = True"

definition hunk_ok :: "diff_hunk \<Rightarrow> bool" where
  "hunk_ok h \<longleftrightarrow> one_line (dh_section h) \<and> list_all op_ok (dh_ops h)
     \<and> length (nat_str (dh_old h)) \<le> 4300 \<and> length (nat_str (dh_new h)) \<le> 4300"

definition header_ok :: "pystr \<Rightarrow> bool" where
  "header_ok l \<longleftrightarrow> one_line l \<and> \<not> startswith l (U ''--- '') \<and> \<not> startswith l (U ''diff --git '')"

text \<open>A path without blanks (for those see \<open>blank_path_keeps_tab\<close>).\<close>

definition path_ok :: "pystr option \<Rightarrow> bool" where
  "path_ok p = (case p of None \<Rightarrow> True | Some x \<Rightarrow> safe_path x \<and> list_all scalar x \<and> 32 \<notin> set x)"

definition diff_file_ok :: "diff_file \<Rightarrow> bool" where
  "diff_file_ok f \<longleftrightarrow> one_line (df_name f) \<and> list_all header_ok (df_header f) \<and> path_ok (df_old f)
     \<and> path_ok (df_new f) \<and> list_all hunk_ok (df_hunks f)
     \<and> sorted_wrt (<) (0 # deleted_lines f) \<and> sorted_wrt (<) (0 # added_lines f)"

subsection \<open>Hunk headers\<close>

lemma digits_of_nat:
  assumes "r = [] \<or> hd r < 128 \<and> \<not> (48 \<le> hd r \<and> hd r \<le> 57)"
  shows "digits_of uni (nat_str n @ r) = (nat_str n, r)"
proof -
  have "list_all (\<lambda>c. is_decimal (digit_of uni c)) (nat_str n)"
    using nat_str_digits [of n] by (auto simp: list_all_iff digit_of_def)
  moreover have "takeWhile (\<lambda>c. is_decimal (digit_of uni c)) r = []" "dropWhile (\<lambda>c. is_decimal (digit_of uni c)) r = r"
    using assms by (cases r; auto simp: digit_of_def)+
  ultimately show ?thesis by (simp add: digits_of_def takeWhile_append2 dropWhile_append2 list_all_iff)
qed

lemma skip_count_text: "skip_count uni (count_text c @ 32 # r) = 32 # r"
  by (cases c) (simp_all add: count_text_def skip_count_def startswith_def digits_of_nat split: prod.split)

lemma count_text_hd: "hd (count_text c @ 32 # r) < 128 \<and> \<not> (48 \<le> hd (count_text c @ 32 # r) \<and> hd (count_text c @ 32 # r) \<le> 57)"
  by (cases c) (simp_all add: count_text_def)

lemma U_blank: "U '' +'' = [32, 43]" "U '' @@'' = [32, 64, 64]" "U ''@@ -'' = [64, 64, 32, 45]"
  by (simp_all add: U_def)

lemma hunk_header_text: "hunk_header uni (hunk_text h) = Some (nat_str (dh_old h), nat_str (dh_new h))"
proof -
  let ?r3 = "count_text (dh_new_count h) @ 32 # 64 # 64 # dh_section h"
  let ?r1 = "count_text (dh_old_count h) @ 32 # 43 # nat_str (dh_new h) @ ?r3"
  have eq: "hunk_text h = [64, 64, 32, 45] @ nat_str (dh_old h) @ ?r1"
    by (simp add: hunk_text_def U_blank)
  have "digits_of uni (nat_str (dh_old h) @ ?r1) = (nat_str (dh_old h), ?r1)"
    "digits_of uni (nat_str (dh_new h) @ ?r3) = (nat_str (dh_new h), ?r3)"
    using count_text_hd by (intro digits_of_nat disjI2; blast)+
  moreover have "skip_count uni ?r1 = 32 # 43 # nat_str (dh_new h) @ ?r3" "skip_count uni ?r3 = 32 # 64 # 64 # dh_section h"
    by (rule skip_count_text)+
  ultimately show ?thesis
    by (simp add: eq hunk_header_def U_blank startswith_def)
qed

lemma hunk_text_chomp: "chomp (hunk_text h) = hunk_text (h\<lparr>dh_section := chomp (dh_section h)\<rparr>)"
proof -
  let ?p = "U ''@@ -'' @ nat_str (dh_old h) @ count_text (dh_old_count h) @ U '' +''
     @ nat_str (dh_new h) @ count_text (dh_new_count h) @ U '' @@''"
  have "13 \<notin> set (nat_str n)" for n using nat_str_digits [of n] by auto
  then have "13 \<notin> set ?p" by (auto simp: U_blank count_text_def split: option.splits)
  from chomp_append [OF this, of "dh_section h"] show ?thesis by (simp add: hunk_text_def)
qed

lemma hunk_text_line: "hunk_ok h \<Longrightarrow> one_line (hunk_text h)"
proof -
  assume "hunk_ok h"
  let ?p = "U ''@@ -'' @ nat_str (dh_old h) @ count_text (dh_old_count h) @ U '' +''
     @ nat_str (dh_new h) @ count_text (dh_new_count h) @ U '' @@''"
  have "list_all (\<lambda>c. \<not> line_break c) (nat_str n)" for n
    using nat_str_digits [of n] by (auto simp: list_all_iff line_break_def)
  then have "list_all (\<lambda>c. \<not> line_break c) ?p"
    by (auto simp: U_blank count_text_def line_break_def split: option.splits)
  with \<open>hunk_ok h\<close> have "one_line (?p @ dh_section h)" by (intro one_line_append) (simp_all add: hunk_ok_def)
  then show ?thesis by (simp add: hunk_text_def)
qed

subsection \<open>Paths\<close>

lemma quoted_byte_plain: "b < 256 \<Longrightarrow> list_all (\<lambda>c. 32 \<le> c \<and> c < 127) (quoted_byte b)"
proof (cases "map_of (map (\<lambda>(x, y). (y, x)) ESCAPES) b")
  case None
  assume "b < 256"
  from octal3_octal [OF this] have "list_all (\<lambda>c. 32 \<le> c \<and> c < 127) (octal3 b)"
    by (simp add: octal3_def octal_def)
  with None show ?thesis by (simp add: quoted_byte_def)
next
  case (Some x)
  then have "x \<in> set (map fst ESCAPES)" by (auto simp: ESCAPES_def split: if_splits)
  then have "32 \<le> x \<and> x < 127" by (simp add: ESCAPES_def) auto
  with Some show ?thesis by (simp add: quoted_byte_def)
qed

lemma git_quoted_plain:
  assumes "list_all scalar path"
  shows "list_all (\<lambda>c. 32 \<le> c \<and> c < 127) (git_quoted path)"
proof (cases "list_ex must_quote (concat (map utf8 path))")
  case True
  have "list_all (\<lambda>b. b < 256) (concat (map utf8 path))" using utf8_byte by (auto simp: list_all_iff)
  then have "list_all (\<lambda>c. 32 \<le> c \<and> c < 127) (concat (map quoted_byte bs))" if "bs = concat (map utf8 path)" for bs
    unfolding that [symmetric] by (induction bs) (simp_all add: quoted_byte_plain)
  with True show ?thesis by (simp add: git_quoted_def Let_def)
next
  case False
  have "32 \<le> c \<and> c < 127" if "c \<in> set path" for c
  proof -
    have no: "\<not> list_ex must_quote (utf8 c)" using False that by (auto simp: list_ex_iff)
    have "scalar c" using assms that by (simp add: list_all_iff)
    with no utf8_high [of c] have "c < 128" by (meson not_less)
    with no show ?thesis by (simp add: utf8_def must_quote_def)
  qed
  with False show ?thesis by (simp add: git_quoted_def Let_def list_all_iff)
qed

lemma path_text_plain:
  assumes "path_ok p" "pre = U ''a/'' \<or> pre = U ''b/''"
  shows "list_all (\<lambda>c. 32 \<le> c \<and> c < 127) (path_text pre p)"
proof (cases p)
  case None
  then show ?thesis by (simp add: path_text_def U_def)
next
  case (Some x)
  with assms have "list_all scalar (pre @ x)" by (auto simp: path_ok_def U_def scalar_def surrogate_def)
  with Some git_quoted_plain show ?thesis by (simp add: path_text_def)
qed

lemma plain_line:
  assumes "list_all (\<lambda>c. 32 \<le> c \<and> c < 127) s"
  shows "one_line s" "chomp s = s"
proof -
  have "13 \<notin> set s" using assms by (auto simp: list_all_iff)
  then show c: "chomp s = s" using chomp_append [of s "[]"] by (simp add: chomp_def)
  show "one_line s" unfolding one_line_def c
    using assms by (rule list.pred_mono_strong) (auto simp: line_break_def)
qed

lemma parse_path_text:
  assumes "path_ok p" "pre = U ''a/'' \<or> pre = U ''b/''"
  shows "parse_diff_path (path_text pre p) pre = Inr p"
  using assms parse_git_path [of _ pre]
  by (cases p) (simp_all add: path_text_def path_ok_def parse_dev_null)

subsection \<open>The recorded lines\<close>

text \<open>What \<open>record\<close> is called with for the lines of a hunk.\<close>

fun op_events :: "pystr option \<Rightarrow> pystr option \<Rightarrow> int \<Rightarrow> int \<Rightarrow> diff_op list \<Rightarrow> (pystr option \<times> pystr \<times> int) list" where
  "op_events old new l r [] = []"
| "op_events old new l r (Context s # ops) = op_events old new (l + 1) (r + 1) ops"
| "op_events old new l r (Deleted s # ops) = (old, U ''LEFT'', l) # op_events old new (l + 1) r ops"
| "op_events old new l r (Added s # ops) = (new, U ''RIGHT'', r) # op_events old new l (r + 1) ops"
| "op_events old new l r (NoNewline # ops) = op_events old new l r ops"

definition hunk_events :: "diff_file \<Rightarrow> (pystr option \<times> pystr \<times> int) list" where
  "hunk_events f = concat (map (\<lambda>h. op_events (df_old f) (df_new f) (int (dh_old h)) (int (dh_new h)) (dh_ops h)) (df_hunks f))"

definition record_all ::
  "(pystr option \<times> pystr \<times> int) list \<Rightarrow> ((pystr \<times> pystr) \<times> (int \<times> int) list) list
    \<Rightarrow> ((pystr \<times> pystr) \<times> (int \<times> int) list) list" where
  "record_all evs ranges = foldl (\<lambda>r (p, side, n). record_line p side n r) ranges evs"

lemma record_all_simps [simp]:
  "record_all [] r = r" "record_all ((p, side, n) # evs) r = record_all evs (record_line p side n r)"
  "record_all (evs @ evs') r = record_all evs' (record_all evs r)"
  by (simp_all add: record_all_def)

text \<open>The scan of the lines of a hunk.\<close>

lemma body_line:
  assumes "ds_state s = InHunk" "c \<noteq> 100" "c \<noteq> 64"
  shows "diff_line uni (c # x) s = Inr (diff_body_line (c # x) s)"
proof -
  have "\<not> startswith (c # x) (U ''diff --git '')" "\<not> startswith (c # x) (U ''@@ -'')"
    using assms(2,3) by (simp_all add: startswith_def U_def)
  with assms(1) show ?thesis by (simp add: diff_line_def hunk_header_def)
qed

fun op_scan :: "diff_op \<Rightarrow> diff_scan \<Rightarrow> diff_scan" where
  "op_scan (Context x) s = s\<lparr>ds_old_line := ds_old_line s + 1, ds_new_line := ds_new_line s + 1\<rparr>"
| "op_scan (Deleted x) s = s\<lparr>ds_ranges := record_line (ds_old_path s) (U ''LEFT'') (ds_old_line s) (ds_ranges s),
     ds_old_line := ds_old_line s + 1, ds_deletions := ds_deletions s + 1\<rparr>"
| "op_scan (Added x) s = s\<lparr>ds_ranges := record_line (ds_new_path s) (U ''RIGHT'') (ds_new_line s) (ds_ranges s),
     ds_new_line := ds_new_line s + 1, ds_additions := ds_additions s + 1\<rparr>"
| "op_scan NoNewline s = s"

lemma op_line:
  assumes "ds_state s = InHunk"
  shows "diff_line uni (chomp (op_text op)) s = Inr (op_scan op s)"
  by (cases op) (simp_all add: chomp_Cons body_line [OF assms], simp_all add: diff_body_line_def startswith_def U_def)

lemma op_scan_state [simp]: "ds_state (op_scan op s) = ds_state s"
  by (cases op) simp_all

definition scanned ::
  "diff_scan \<Rightarrow> diff_scan \<Rightarrow> (pystr option \<times> pystr \<times> int) list \<Rightarrow> int \<Rightarrow> int \<Rightarrow> bool" where
  "scanned s s' evs added deleted \<longleftrightarrow> ds_ranges s' = record_all evs (ds_ranges s)
     \<and> ds_additions s' = ds_additions s + added \<and> ds_deletions s' = ds_deletions s + deleted
     \<and> ds_old_path s' = ds_old_path s \<and> ds_new_path s' = ds_new_path s \<and> ds_files s' = ds_files s
     \<and> ds_state s' = InHunk"

lemma scan_ops:
  assumes "ds_state s = InHunk"
  shows "\<exists>s'. scan_lines uni (map (\<lambda>op. chomp (op_text op)) ops) s = Inr s'
    \<and> scanned s s' (op_events (ds_old_path s) (ds_new_path s) (ds_old_line s) (ds_new_line s) ops)
        (int (length (added_from (ds_new_line s) ops))) (int (length (deleted_from (ds_old_line s) ops)))"
  using assms
proof (induction ops arbitrary: s)
  case (Cons op ops)
  let ?t = "op_scan op s"
  have "ds_state ?t = InHunk" using Cons.prems by simp
  then obtain s' where s': "scan_lines uni (map (\<lambda>op. chomp (op_text op)) ops) ?t = Inr s'"
    "scanned ?t s' (op_events (ds_old_path ?t) (ds_new_path ?t) (ds_old_line ?t) (ds_new_line ?t) ops)
        (int (length (added_from (ds_new_line ?t) ops))) (int (length (deleted_from (ds_old_line ?t) ops)))"
    using Cons.IH by blast
  have "scanned s s' (op_events (ds_old_path s) (ds_new_path s) (ds_old_line s) (ds_new_line s) (op # ops))
        (int (length (added_from (ds_new_line s) (op # ops)))) (int (length (deleted_from (ds_old_line s) (op # ops))))"
    using s'(2) by (cases op) (simp_all add: scanned_def)
  with s'(1) show ?case by (simp add: op_line [OF Cons.prems])
qed (simp add: scanned_def)

lemma scan_append: "scan_lines uni (xs @ ys) s = and_then (scan_lines uni xs s) (scan_lines uni ys)"
proof (induction xs arbitrary: s)
  case (Cons x xs)
  then show ?case by (cases "diff_line uni x s") simp_all
qed simp

lemma hunk_line:
  assumes "hunk_ok h" "ds_state s \<in> {Ready, InHunk}"
  shows "diff_line uni (chomp (hunk_text h)) s =
    Inr (s\<lparr>ds_old_line := int (dh_old h), ds_new_line := int (dh_new h), ds_state := InHunk\<rparr>)"
proof -
  let ?h = "h\<lparr>dh_section := chomp (dh_section h)\<rparr>"
  have "\<not> startswith (hunk_text ?h) (U ''diff --git '')"
    by (simp add: hunk_text_def startswith_def U_def)
  moreover have "hunk_header uni (hunk_text ?h) = Some (nat_str (dh_old h), nat_str (dh_new h))"
    using hunk_header_text [of uni ?h] by simp
  moreover have "ds_state s \<noteq> InHeader" "ds_state s \<noteq> OldPath" using assms(2) by auto
  ultimately show ?thesis
    using assms by (simp add: hunk_text_chomp diff_line_def hunk_ok_def)
qed

lemma scan_hunks:
  assumes "list_all hunk_ok hs" "ds_state s \<in> {Ready, InHunk}"
  shows "\<exists>s'. scan_lines uni (map chomp (concat (map hunk_lines hs))) s = Inr s'
    \<and> ds_ranges s' = record_all (concat (map (\<lambda>h. op_events (ds_old_path s) (ds_new_path s)
          (int (dh_old h)) (int (dh_new h)) (dh_ops h)) hs)) (ds_ranges s)
    \<and> ds_additions s' = ds_additions s + int (length (concat (map (\<lambda>h. added_from (int (dh_new h)) (dh_ops h)) hs)))
    \<and> ds_deletions s' = ds_deletions s + int (length (concat (map (\<lambda>h. deleted_from (int (dh_old h)) (dh_ops h)) hs)))
    \<and> ds_files s' = ds_files s"
  using assms
proof (induction hs arbitrary: s)
  case (Cons h hs)
  let ?t = "s\<lparr>ds_old_line := int (dh_old h), ds_new_line := int (dh_new h), ds_state := InHunk\<rparr>"
  obtain u where u: "scan_lines uni (map (\<lambda>op. chomp (op_text op)) (dh_ops h)) ?t = Inr u"
    "scanned ?t u (op_events (ds_old_path s) (ds_new_path s) (int (dh_old h)) (int (dh_new h)) (dh_ops h))
        (int (length (added_from (int (dh_new h)) (dh_ops h)))) (int (length (deleted_from (int (dh_old h)) (dh_ops h))))"
    using scan_ops [of ?t uni "dh_ops h"] by auto
  have "scan_lines uni (map chomp (hunk_lines h)) s = Inr u"
    using hunk_line [of h s uni] Cons.prems u(1) by (simp add: hunk_lines_def comp_def)
  moreover have "ds_state u \<in> {Ready, InHunk}" using u(2) by (simp add: scanned_def)
  ultimately show ?case
    using Cons.IH [of u] Cons.prems(1) u(2) by (auto simp: scan_append scanned_def)
qed simp

lemma header_lines:
  assumes "list_all header_ok ls" "ds_state s = InHeader"
  shows "scan_lines uni (map chomp ls) s = Inr s"
  using assms(1)
proof (induction ls)
  case (Cons l ls)
  then have "\<not> startswith (chomp l) (U ''--- '')" "\<not> startswith (chomp l) (U ''diff --git '')"
    by (auto simp: header_ok_def dest: chomp_startswith)
  with assms(2) have "diff_line uni (chomp l) s = Inr s" by (simp add: diff_line_def)
  with Cons show ?case by simp
qed simp

lemma startswith_append [simp]: "startswith (p @ s) p"
  by (simp add: startswith_def)

lemma path_lines:
  assumes "path_ok old" "path_ok new" "ds_state s = InHeader"
  shows "scan_lines uni (map chomp [U ''--- '' @ path_text (U ''a/'') old, U ''+++ '' @ path_text (U ''b/'') new]) s
    = Inr (s\<lparr>ds_old_path := old, ds_new_path := new, ds_state := Ready\<rparr>)"
proof -
  have eq: "chomp (U ''--- '' @ path_text (U ''a/'') old) = U ''--- '' @ path_text (U ''a/'') old"
    "chomp (U ''+++ '' @ path_text (U ''b/'') new) = U ''+++ '' @ path_text (U ''b/'') new"
    using plain_line(2) [OF path_text_plain [OF assms(1), of "U ''a/''"]]
      plain_line(2) [OF path_text_plain [OF assms(2), of "U ''b/''"]]
      chomp_append [of "U ''--- ''"] chomp_append [of "U ''+++ ''"] by (simp_all add: U_def)
  have no: "\<not> startswith (U ''--- '' @ x) (U ''diff --git '')" "\<not> startswith (U ''+++ '' @ x) (U ''diff --git '')"
    "drop 4 (U ''--- '' @ x) = x" "drop 4 (U ''+++ '' @ x) = x" for x
    by (simp_all add: startswith_def U_def)
  from assms show ?thesis
    by (simp add: eq no diff_line_def parse_path_text del: drop_append)
qed

lemma scan_file:
  assumes "diff_file_ok f"
  shows "\<exists>s'. scan_lines uni (map chomp (file_lines f)) s = Inr s'
    \<and> ds_ranges s' = record_all (hunk_events f) (ds_ranges s)
    \<and> ds_additions s' = ds_additions s + int (length (added_lines f))
    \<and> ds_deletions s' = ds_deletions s + int (length (deleted_lines f)) \<and> ds_files s' = ds_files s + 1"
proof -
  let ?s1 = "s\<lparr>ds_files := ds_files s + 1, ds_old_path := None, ds_new_path := None, ds_state := InHeader\<rparr>"
  have "chomp (U ''diff --git '' @ df_name f) = U ''diff --git '' @ chomp (df_name f)"
    by (rule chomp_append) (simp add: U_def)
  then have first: "diff_line uni (chomp (U ''diff --git '' @ df_name f)) s = Inr ?s1" by (simp add: diff_line_def)
  have header: "scan_lines uni (map chomp (df_header f)) ?s1 = Inr ?s1"
    using assms by (intro header_lines) (simp_all add: diff_file_ok_def)
  show ?thesis
  proof (cases "df_hunks f = []")
    case True
    with first header show ?thesis
      by (simp add: file_lines_def hunk_events_def added_lines_def deleted_lines_def)
  next
    case False
    let ?s2 = "?s1\<lparr>ds_old_path := df_old f, ds_new_path := df_new f, ds_state := Ready\<rparr>"
    have paths: "scan_lines uni (map chomp [U ''--- '' @ path_text (U ''a/'') (df_old f),
        U ''+++ '' @ path_text (U ''b/'') (df_new f)]) ?s1 = Inr ?s2"
      using assms path_lines [of "df_old f" "df_new f" ?s1 uni] by (simp add: diff_file_ok_def)
    have hunks: "list_all hunk_ok (df_hunks f)" using assms by (simp add: diff_file_ok_def)
    have eq: "map chomp (file_lines f) = [chomp (U ''diff --git '' @ df_name f)] @ map chomp (df_header f)
      @ map chomp [U ''--- '' @ path_text (U ''a/'') (df_old f), U ''+++ '' @ path_text (U ''b/'') (df_new f)]
      @ map chomp (concat (map hunk_lines (df_hunks f)))"
      using False by (simp add: file_lines_def)
    obtain s' where "scan_lines uni (map chomp (concat (map hunk_lines (df_hunks f)))) ?s2 = Inr s'"
      "ds_ranges s' = record_all (hunk_events f) (ds_ranges s)"
      "ds_additions s' = ds_additions s + int (length (added_lines f))"
      "ds_deletions s' = ds_deletions s + int (length (deleted_lines f))" "ds_files s' = ds_files s + 1"
      using scan_hunks [OF hunks, of ?s2 uni] by (auto simp: hunk_events_def added_lines_def deleted_lines_def)
    then show ?thesis
      by (simp only: eq scan_append header paths and_then.simps scan_lines.simps first) auto
  qed
qed

lemma scan_files:
  assumes "list_all diff_file_ok fs"
  shows "\<exists>s'. scan_lines uni (map chomp (concat (map file_lines fs))) s = Inr s'
    \<and> ds_ranges s' = record_all (concat (map hunk_events fs)) (ds_ranges s)
    \<and> ds_additions s' = ds_additions s + int (length (concat (map added_lines fs)))
    \<and> ds_deletions s' = ds_deletions s + int (length (concat (map deleted_lines fs)))
    \<and> ds_files s' = ds_files s + int (length fs)"
  using assms
proof (induction fs arbitrary: s)
  case (Cons f fs)
  obtain u where u: "scan_lines uni (map chomp (file_lines f)) s = Inr u"
    "ds_ranges u = record_all (hunk_events f) (ds_ranges s)"
    "ds_additions u = ds_additions s + int (length (added_lines f))"
    "ds_deletions u = ds_deletions s + int (length (deleted_lines f))" "ds_files u = ds_files s + 1"
    using scan_file [of f uni s] Cons.prems by auto
  show ?case using Cons.IH [of u] Cons.prems u by (auto simp: scan_append)
qed simp

lemma op_text_line: "op_ok op \<Longrightarrow> one_line (op_text op)"
proof -
  have "one_line (c # s)" if "one_line s" "\<not> line_break c" for c s
    using one_line_append [of "[c]" s] that by simp
  then show "op_ok op \<Longrightarrow> one_line (op_text op)"
    by (cases op) (simp_all add: line_break_def, rule plain_line(1), simp add: U_def)
qed

lemma file_lines_one:
  assumes "diff_file_ok f"
  shows "list_all one_line (file_lines f)"
proof -
  have f: "one_line (df_name f)" "list_all header_ok (df_header f)" "path_ok (df_old f)" "path_ok (df_new f)"
    "list_all hunk_ok (df_hunks f)"
    using assms by (simp_all add: diff_file_ok_def)
  have "one_line (U ''diff --git '' @ df_name f)"
    using f(1) by (rule one_line_append [rotated]) (simp add: U_def line_break_def)
  moreover have "one_line (U ''--- '' @ path_text (U ''a/'') (df_old f))" "one_line (U ''+++ '' @ path_text (U ''b/'') (df_new f))"
    using path_text_plain [OF f(3), of "U ''a/''"] path_text_plain [OF f(4), of "U ''b/''"]
    by (intro plain_line(1); simp add: U_def)+
  moreover have "list_all one_line (df_header f)"
    using f(2) by (rule list.pred_mono_strong) (simp add: header_ok_def)
  moreover have "list_all one_line (concat (map hunk_lines (df_hunks f)))"
    using f(5) hunk_text_line op_text_line by (auto simp: list_all_iff hunk_lines_def hunk_ok_def)
  ultimately show ?thesis by (simp add: file_lines_def)
qed

lemma parse_diff_text:
  assumes "list_all diff_file_ok fs"
  obtains r where "parse_changed_ranges uni (diff_text fs) = Inr r"
    "cr_ranges r = record_all (concat (map hunk_events fs)) []" "cr_changed_file_count r = int (length fs)"
    "cr_additions r = int (length (concat (map added_lines fs)))"
    "cr_deletions r = int (length (concat (map deleted_lines fs)))"
proof -
  have "list_all one_line (concat (map file_lines fs))"
    using assms file_lines_one by (auto simp: list_all_iff)
  from splitlines_text [OF this] have "splitlines (diff_text fs) = map chomp (concat (map file_lines fs))"
    by (simp add: diff_text_def)
  with scan_files [OF assms, of uni new_scan] show ?thesis
    by (auto simp: parse_changed_ranges_def new_scan_def intro!: that)
qed

section \<open>The parser finds exactly the changed lines\<close>

definition changed_lines :: "diff_file list \<Rightarrow> pystr \<Rightarrow> pystr \<Rightarrow> int list" where
  "changed_lines fs path side =
     concat (map (\<lambda>f. if side = U ''LEFT'' \<and> df_old f = Some path then deleted_lines f
                     else if side = U ''RIGHT'' \<and> df_new f = Some path then added_lines f else []) fs)"

text \<open>The numbers recorded for a path and a side.\<close>

definition lines_of :: "pystr \<Rightarrow> pystr \<Rightarrow> (pystr option \<times> pystr \<times> int) list \<Rightarrow> int list" where
  "lines_of path side evs =
     map (\<lambda>(_, _, n). n) (filter (\<lambda>(p, s, n). p = Some path \<and> s = side \<and> 1 \<le> n) evs)"

definition ranges_at :: "((pystr \<times> pystr) \<times> (int \<times> int) list) list \<Rightarrow> pystr \<times> pystr \<Rightarrow> (int \<times> int) list" where
  "ranges_at ranges k = (case map_of ranges k of None \<Rightarrow> [] | Some xs \<Rightarrow> xs)"

lemma ranges_at_record:
  "ranges_at (record_line p side n ranges) k =
     (if p = Some (fst k) \<and> side = snd k \<and> 1 \<le> n then add_line (ranges_at ranges k) n else ranges_at ranges k)"
  by (cases p; cases k) (auto simp: record_line_def ranges_at_def update_conv')

lemma lines_of_simps [simp]:
  "lines_of p s [] = []" "lines_of p s (xs @ ys) = lines_of p s xs @ lines_of p s ys"
  "lines_of p s ((q, t, n) # xs) = (if q = Some p \<and> t = s \<and> 1 \<le> n then n # lines_of p s xs else lines_of p s xs)"
  by (simp_all add: lines_of_def)

lemma ranges_at_all: "ranges_at (record_all evs ranges) k = foldl add_line (ranges_at ranges k) (lines_of (fst k) (snd k) evs)"
proof (induction evs arbitrary: ranges)
  case (Cons e evs)
  obtain p s n where "e = (p, s, n)" by (metis prod_cases3)
  with Cons show ?case by (simp add: ranges_at_record)
qed simp

lemma sides [simp]: "U ''LEFT'' \<noteq> U ''RIGHT''" "U ''RIGHT'' \<noteq> U ''LEFT''"
  by (simp_all add: U_def)

lemma lines_of_ops:
  "lines_of p s (op_events old new l r ops) =
     filter (\<lambda>n. 1 \<le> n) (if s = U ''LEFT'' \<and> old = Some p then deleted_from l ops
       else if s = U ''RIGHT'' \<and> new = Some p then added_from r ops else [])"
  by (induction old new l r ops rule: op_events.induct) auto

lemma lines_of_file:
  "lines_of p s (hunk_events f) =
     filter (\<lambda>n. 1 \<le> n) (if s = U ''LEFT'' \<and> df_old f = Some p then deleted_lines f
       else if s = U ''RIGHT'' \<and> df_new f = Some p then added_lines f else [])"
proof -
  have "lines_of p s (concat (map (\<lambda>h. op_events old new (int (dh_old h)) (int (dh_new h)) (dh_ops h)) hs)) =
     filter (\<lambda>n. 1 \<le> n) (if s = U ''LEFT'' \<and> old = Some p then concat (map (\<lambda>h. deleted_from (int (dh_old h)) (dh_ops h)) hs)
       else if s = U ''RIGHT'' \<and> new = Some p then concat (map (\<lambda>h. added_from (int (dh_new h)) (dh_ops h)) hs) else [])"
    for old new hs
    by (induction hs) (auto simp: lines_of_ops)
  then show ?thesis unfolding hunk_events_def deleted_lines_def added_lines_def .
qed

lemma positive_lines:
  assumes "diff_file_ok f"
  shows "filter (\<lambda>n. 1 \<le> n) (deleted_lines f) = deleted_lines f" "filter (\<lambda>n. 1 \<le> n) (added_lines f) = added_lines f"
  using assms by (auto simp: diff_file_ok_def filter_id_conv)

lemma lines_of_files: "list_all diff_file_ok fs \<Longrightarrow> lines_of p s (concat (map hunk_events fs)) = changed_lines fs p s"
  by (induction fs) (auto simp: changed_lines_def lines_of_file positive_lines)

text \<open>No path occurs twice on a side.\<close>

definition distinct_paths :: "diff_file list \<Rightarrow> bool" where
  "distinct_paths fs \<longleftrightarrow> distinct (filter (\<lambda>p. p \<noteq> None) (map df_old fs))
     \<and> distinct (filter (\<lambda>p. p \<noteq> None) (map df_new fs))"

lemma distinct_paths_other:
  assumes "distinct_paths (f # fs)" "g \<in> set fs"
  shows "df_old f = Some p \<Longrightarrow> df_old g \<noteq> Some p" "df_new f = Some p \<Longrightarrow> df_new g \<noteq> Some p"
  using assms by (auto simp: distinct_paths_def) (metis imageI)+

lemma changed_lines_one:
  assumes "distinct_paths fs" "list_all diff_file_ok fs"
  shows "sorted_wrt (<) (0 # changed_lines fs p s)"
  using assms
proof (induction fs)
  case (Cons f fs)
  have rest: "sorted_wrt (<) (0 # changed_lines fs p s)"
    using Cons by (simp add: distinct_paths_def split: if_splits)
  have other: "changed_lines fs p s = []"
    if "s = U ''LEFT'' \<and> df_old f = Some p \<or> s = U ''RIGHT'' \<and> df_new f = Some p"
    using that distinct_paths_other [OF Cons.prems(1)] by (auto simp: changed_lines_def)
  have "sorted_wrt (<) (0 # deleted_lines f)" "sorted_wrt (<) (0 # added_lines f)"
    using Cons.prems(2) by (simp_all add: diff_file_ok_def)
  have eq: "changed_lines (f # fs) p s =
      (if s = U ''LEFT'' \<and> df_old f = Some p then deleted_lines f
       else if s = U ''RIGHT'' \<and> df_new f = Some p then added_lines f else []) @ changed_lines fs p s"
    by (simp only: changed_lines_def list.map concat.simps)
  consider "s = U ''LEFT'' \<and> df_old f = Some p"
    | "\<not> (s = U ''LEFT'' \<and> df_old f = Some p)" "s = U ''RIGHT'' \<and> df_new f = Some p"
    | "\<not> (s = U ''LEFT'' \<and> df_old f = Some p)" "\<not> (s = U ''RIGHT'' \<and> df_new f = Some p)"
    by blast
  then show ?case
  proof cases
    case 1
    have "changed_lines (f # fs) p s = deleted_lines f"
      unfolding eq if_P [OF 1] other [OF disjI1 [OF 1]] by simp
    with \<open>sorted_wrt (<) (0 # deleted_lines f)\<close> show ?thesis by (simp only:)
  next
    case 2
    have "changed_lines (f # fs) p s = added_lines f"
      unfolding eq if_not_P [OF 2(1)] if_P [OF 2(2)] other [OF disjI2 [OF 2(2)]] by simp
    with \<open>sorted_wrt (<) (0 # added_lines f)\<close> show ?thesis by (simp only:)
  next
    case 3
    have "changed_lines (f # fs) p s = changed_lines fs p s"
      unfolding eq if_not_P [OF 3(1)] if_not_P [OF 3(2)] by simp
    with rest show ?thesis by (simp only:)
  qed
qed (simp add: changed_lines_def)

lemma changed_lines_path:
  assumes "n \<in> set (changed_lines fs p s)" "list_all diff_file_ok fs"
  shows "safe_path p" "s \<in> set SIDES"
  using assms by (auto simp: changed_lines_def diff_file_ok_def path_ok_def SIDES_def list_all_iff split: if_splits)

lemma contains_separated:
  assumes "\<And>p. separated (intervals r p side)"
  shows "contains r path side a b \<longleftrightarrow> safe_path (to_slashes path) \<and> side \<in> set SIDES \<and> 1 \<le> a \<and> a \<le> b
    \<and> (\<forall>n. a \<le> n \<and> n \<le> b \<longrightarrow> covered (intervals r (to_slashes path) side) n)"
  using overlaps_separated [OF assms, of a b] by (auto simp: contains_def clip_Some_iff normalize_Some)

text \<open>
  C39: The diff of a pull request is read exactly.  For every comparison of files, printed as Git prints it with
  quoted paths, hunk headers, CRLF line ends and missing final newlines, the parser succeeds; the lines it records
  for a path and a side are exactly the added or deleted lines of that file, in intervals that are in order and
  never touch; it counts files, additions and deletions right; and a finding's range of lines is accepted as it
  stands exactly when every line of it is changed.  The hypotheses say that no changed line holds a character at
  which \<open>splitlines\<close> breaks a line, and that paths hold no blank: see \<open>form_feed_moves_lines\<close> and
  \<open>blank_path_keeps_tab\<close>.
\<close>

theorem changed_ranges_are_exact:
  assumes "list_all diff_file_ok fs" "distinct_paths fs"
  shows "\<exists>r. parse_changed_ranges uni (diff_text fs) = Inr r
    \<and> (\<forall>path side n. covered (intervals r path side) n \<longleftrightarrow> n \<in> set (changed_lines fs path side))
    \<and> (\<forall>path side. separated (intervals r path side))
    \<and> cr_changed_file_count r = int (length fs)
    \<and> cr_additions r = int (length (concat (map added_lines fs)))
    \<and> cr_deletions r = int (length (concat (map deleted_lines fs)))
    \<and> (\<forall>path side a b. contains r path side a b \<longleftrightarrow>
         a \<le> b \<and> {a..b} \<subseteq> set (changed_lines fs (to_slashes path) side))"
proof -
  obtain r where r: "parse_changed_ranges uni (diff_text fs) = Inr r"
    "cr_ranges r = record_all (concat (map hunk_events fs)) []" "cr_changed_file_count r = int (length fs)"
    "cr_additions r = int (length (concat (map added_lines fs)))"
    "cr_deletions r = int (length (concat (map deleted_lines fs)))"
    using parse_diff_text [OF assms(1)] .
  have at: "intervals r path side = foldl add_line [] (changed_lines fs path side)" for path side
    using ranges_at_all [of "concat (map hunk_events fs)" "[]" "(path, side)"] lines_of_files [OF assms(1)]
    by (simp add: intervals_def r(2) ranges_at_def)
  have sorted: "sorted_wrt (<) (0 # changed_lines fs path side)" for path side
    by (rule changed_lines_one [OF assms(2,1)])
  then have facts: "separated (intervals r path side)
      \<and> (\<forall>n. covered (intervals r path side) n \<longleftrightarrow> n \<in> set (changed_lines fs path side))" for path side
    using fold_add_line [of "[]" "changed_lines fs path side"] by (simp add: at separated_def)
  have "contains r path side a b \<longleftrightarrow> a \<le> b \<and> {a..b} \<subseteq> set (changed_lines fs (to_slashes path) side)"
    for path side a b
  proof -
    have "1 \<le> a" "safe_path (to_slashes path)" "side \<in> set SIDES"
      if "a \<in> set (changed_lines fs (to_slashes path) side)"
      using sorted [of "to_slashes path" side] changed_lines_path [OF that assms(1)] that by auto
    then show ?thesis
      using facts by (auto simp: contains_separated [of r side path a b])
  qed
  with r facts show ?thesis by blast
qed

definition sample_diff :: "diff_file list" where
  "sample_diff =
     [\<lparr>df_name = U ''a/src/a.py b/src/a.py'', df_header = [U ''index 1..2 100644''],
       df_old = Some (U ''src/a.py''), df_new = Some (U ''src/a.py''),
       df_hunks = [\<lparr>dh_old = 1, dh_old_count = Some 2, dh_new = 1, dh_new_count = Some 4, dh_section = [],
         dh_ops = [Context (U ''x''), Added (U ''y''), Added (U ''z'' @ [13]), Deleted [], Added [], NoNewline]\<rparr>]\<rparr>]"

lemma nat_str_1: "nat_str (Suc 0) = [49]"
  by (subst nat_str.simps) simp

lemma sample_diff_ok: "list_all diff_file_ok sample_diff" "distinct_paths sample_diff"
  by (simp_all add: sample_diff_def diff_file_ok_def distinct_paths_def header_ok_def path_ok_def hunk_ok_def
      one_line_def chomp_def U_def startswith_def line_break_def nat_str_1 scalar_def surrogate_def safe_path_def
      windows_absolute_def deleted_lines_def added_lines_def)

theorem changed_ranges_are_exact_witness:
  "\<exists>r. parse_changed_ranges (\<lambda>_. NoDigit) (diff_text sample_diff) = Inr r \<and> cr_additions r = 3
     \<and> contains r (U ''src/a.py'') (U ''RIGHT'') 2 4 \<and> \<not> contains r (U ''src/a.py'') (U ''RIGHT'') 1 4"
proof -
  have lines: "changed_lines sample_diff (to_slashes (U ''src/a.py'')) (U ''RIGHT'') = [2, 3, 4]"
    "concat (map added_lines sample_diff) = [2, 3, 4]"
    by (simp_all add: sample_diff_def changed_lines_def added_lines_def to_slashes_def U_def)
  obtain r where r: "parse_changed_ranges (\<lambda>_. NoDigit) (diff_text sample_diff) = Inr r"
    "cr_additions r = int (length (concat (map added_lines sample_diff)))"
    "\<And>path side a b. contains r path side a b \<longleftrightarrow>
       a \<le> b \<and> {a..b} \<subseteq> set (changed_lines sample_diff (to_slashes path) side)"
    using changed_ranges_are_exact [OF sample_diff_ok, of "\<lambda>_. NoDigit"] by auto
  have "{2..4} \<subseteq> set [2, 3, 4::int]" "1 \<notin> set [2, 3, 4::int]" "1 \<in> {1..4::int}" by (auto simp: subset_iff)
  then have "contains r (U ''src/a.py'') (U ''RIGHT'') 2 4" "\<not> contains r (U ''src/a.py'') (U ''RIGHT'') 1 4"
    unfolding r(3) lines(1) by (simp, blast)
  with r(1,2) lines(2) show ?thesis by auto
qed

text \<open>
  A form feed inside an added line splits it: the part after it counts as a line of context, and every later line
  of the hunk is recorded one too far down.
\<close>

definition form_feed_diff :: diff_file where
  "form_feed_diff =
     \<lparr>df_name = U ''a/a b/a'', df_header = [], df_old = None, df_new = Some (U ''a''),
       df_hunks = [\<lparr>dh_old = 0, dh_old_count = Some 0, dh_new = 1, dh_new_count = Some 2, dh_section = [],
         dh_ops = [Added ([120, 12] @ U '' y''), Added (U ''z'')]\<rparr>]\<rparr>"

lemma form_feed_moves_lines:
  "added_lines form_feed_diff = [1, 2]"
  "\<exists>r. parse_changed_ranges uni (diff_text [form_feed_diff]) = Inr r
     \<and> cr_ranges r = [((U ''a'', U ''RIGHT''), [(1, 1), (3, 3)])]"
proof -
  show "added_lines form_feed_diff = [1, 2]" by (simp add: form_feed_diff_def added_lines_def)
  have lines: "splitlines (diff_text [form_feed_diff]) =
    [U ''diff --git a/a b/a'', U ''--- /dev/null'', U ''+++ b/a'', hunk_text (hd (df_hunks form_feed_diff)),
     43 # U ''x'', U '' y'', 43 # U ''z'']"
    by (simp add: form_feed_diff_def diff_text_def file_lines_def hunk_lines_def hunk_text_def path_text_def
        git_quoted_def utf8_def must_quote_def count_text_def nat_str.simps splitlines_def line_break_def U_def)
  let ?s1 = "new_scan\<lparr>ds_files := 1, ds_state := InHeader\<rparr>"
  let ?s2 = "?s1\<lparr>ds_new_path := Some (U ''a''), ds_state := Ready\<rparr>"
  let ?s3 = "?s2\<lparr>ds_old_line := 0, ds_new_line := 1, ds_state := InHunk\<rparr>"
  have "diff_line uni (U ''diff --git a/a b/a'') new_scan = Inr ?s1"
    by (simp add: diff_line_def startswith_def U_def new_scan_def)
  moreover have "diff_line uni (U ''--- /dev/null'') ?s1 = Inr (?s1\<lparr>ds_state := OldPath\<rparr>)"
    using parse_dev_null [of "U ''a/''"] by (simp add: diff_line_def startswith_def U_def new_scan_def)
  moreover have "parse_diff_path (U ''b/a'') (U ''b/'') = Inr (Some (U ''a''))" by code_simp
  then have "diff_line uni (U ''+++ b/a'') (?s1\<lparr>ds_state := OldPath\<rparr>) = Inr ?s2"
    by (simp add: diff_line_def startswith_def U_def new_scan_def)
  moreover have "diff_line uni (hunk_text (hd (df_hunks form_feed_diff))) ?s2 = Inr ?s3"
    using hunk_line [of "(hd (df_hunks form_feed_diff))\<lparr>dh_ops := []\<rparr>" ?s2 uni]
    by (simp add: form_feed_diff_def hunk_ok_def one_line_def chomp_def nat_str.simps U_def line_break_def hunk_text_chomp hunk_text_def)
  moreover have "\<exists>s'. scan_lines uni [43 # U ''x'', U '' y'', 43 # U ''z''] ?s3 = Inr s'
      \<and> ds_ranges s' = [((U ''a'', U ''RIGHT''), [(1, 1), (3, 3)])]"
    by (simp add: body_line diff_body_line_def startswith_def U_def record_line_def add_line_def new_scan_def)
  ultimately show "\<exists>r. parse_changed_ranges uni (diff_text [form_feed_diff]) = Inr r
     \<and> cr_ranges r = [((U ''a'', U ''RIGHT''), [(1, 1), (3, 3)])]"
    by (auto simp: parse_changed_ranges_def lines)
qed

end
