(* ===== verification/Review_Workspace.thy ===== *)
theory Review_Workspace
  imports Pr_Review_Run Diff_Ranges Forge_Urls
begin

text \<open>
  The rest of \<open>coderus/pr_review/workspace.py\<close>: the isolated checkout of a pull request and the Git commands run
  in it.  Git, the file system and the clock are the fields of \<open>git_env\<close>, computations on an arbitrary state.
  Absolute resolved paths are the lists of their parts.  The checks of types are left out: arguments have the
  annotated types.  Logging is left out.
\<close>

section \<open>Text of the git program\<close>

text \<open>
  \<open>bytes.decode("utf-8", errors="replace")\<close>: each maximal ill-formed part becomes one U+FFFD.  \<open>utf8_lead\<close> gives
  the number of bytes that must follow and the range of the first of them.
\<close>

definition utf8_lead :: "nat \<Rightarrow> (nat \<times> nat \<times> nat) option" where
  "utf8_lead a =
     (if 194 \<le> a \<and> a \<le> 223 then Some (1, 128, 191)
      else if a = 224 then Some (2, 160, 191)
      else if a = 237 then Some (2, 128, 159)
      else if 225 \<le> a \<and> a \<le> 239 then Some (2, 128, 191)
      else if a = 240 then Some (3, 144, 191)
      else if 241 \<le> a \<and> a \<le> 243 then Some (3, 128, 191)
      else if a = 244 then Some (3, 128, 143)
      else None)"

definition utf8_good :: "nat \<Rightarrow> nat \<Rightarrow> nat \<Rightarrow> nat list \<Rightarrow> nat" where
  "utf8_good n lo hi rest =
     (case rest of
        [] \<Rightarrow> 0
      | b # bs \<Rightarrow> if lo \<le> b \<and> b \<le> hi then 1 + length (takeWhile continuation (take (n - 1) bs)) else 0)"

definition utf8_value :: "nat \<Rightarrow> nat \<Rightarrow> nat list \<Rightarrow> nat" where
  "utf8_value n a bs = foldl (\<lambda>v b. v * 64 + (b - 128)) (a - (if n = 1 then 192 else if n = 2 then 224 else 240)) bs"

function utf8_replace :: "nat list \<Rightarrow> pystr" where
  "utf8_replace [] = []"
| "utf8_replace (a # rest) =
     (if a < 128 then a # utf8_replace rest
      else case utf8_lead a of
        None \<Rightarrow> 65533 # utf8_replace rest
      | Some (n, lo, hi) \<Rightarrow>
          (let k = utf8_good n lo hi rest
           in (if k = n then utf8_value n a (take n rest) else 65533) # utf8_replace (drop k rest)))"
  by pat_completeness auto

termination
  by (relation "measure length") auto

text \<open>\<open>str.lower\<close> and \<open>str.upper\<close>; the images of the characters beyond ASCII are an argument.\<close>

definition py_lower :: "(nat \<Rightarrow> pystr) \<Rightarrow> pystr \<Rightarrow> pystr" where
  "py_lower uni s = concat (map (\<lambda>c. if c < 128 then ascii_lower [c] else uni c) s)"

definition py_upper :: "(nat \<Rightarrow> pystr) \<Rightarrow> pystr \<Rightarrow> pystr" where
  "py_upper uni s = concat (map (\<lambda>c. if c < 128 then [if 97 \<le> c \<and> c \<le> 122 then c - 32 else c] else uni c) s)"

definition NETWORK_SIGNATURES :: "pystr list" where
  "NETWORK_SIGNATURES =
     [U ''could not resolve host'', U ''name resolution'', U ''connection reset'', U ''early eof'',
      U ''rpc failed'', U ''ssl'', U ''tls'', U ''failed to connect'', U ''connection refused'',
      U ''timed out'', U ''remote end hung up'', U ''http/2 stream'', U ''transfer closed'',
      U ''502'', U ''503'', U ''504'']"

definition PERMANENT_SIGNATURES :: "(pystr list \<times> pystr) list" where
  "PERMANENT_SIGNATURES =
     [([U ''authentication failed'', U ''could not read username'', U ''401'', U ''403''], U ''authentication''),
      ([U ''no space left''], U ''disk_full''),
      ([U (''couldn'' @ [CHR 39] @ ''t find remote ref''), U ''not our ref'', U ''repository not found''],
       U ''missing_ref'')]"

definition marker_label :: "(pystr list \<times> pystr) list \<Rightarrow> pystr \<Rightarrow> pystr option" where
  "marker_label table t =
     map_option snd (find (\<lambda>(markers, _). list_ex (\<lambda>m. contains_str m t) markers) table)"

definition git_diagnostics :: "(nat \<Rightarrow> pystr) \<Rightarrow> nat list \<Rightarrow> pystr \<times> bool" where
  "git_diagnostics uni stderr =
     (let t = py_lower uni (utf8_replace stderr)
      in case marker_label PERMANENT_SIGNATURES t of
        Some label \<Rightarrow> (label, False)
      | None \<Rightarrow>
          (let found = filter (\<lambda>m. contains_str m t) NETWORK_SIGNATURES
           in if found \<noteq> [] then (join_with (U '', '') found, True) else (U ''unclassified'', False)))"

definition FAILURE_REASONS :: "(pystr list \<times> pystr) list" where
  "FAILURE_REASONS =
     [([U ''could not resolve host'', U ''name resolution''], [20195, 30721, 20179, 24211, 22495,
      21517, 35299, 26512, 22833, 36133]),
      ([U ''connection reset'', U ''early eof'', U ''rpc failed'', U ''ssl'', U ''tls'', U ''failed to connect'',
        U ''connection refused'', U ''timed out''], [20195, 30721, 20179, 24211, 32593, 32476,
         36830, 25509, 22833, 36133, 25110, 20256, 36755, 20013, 26029]),
      ([U ''authentication failed'', U ''could not read username'', U ''403'', U ''401''],
       [20195, 30721, 20179, 24211, 35748, 35777, 25110, 35775, 38382, 26435, 38480, 19981, 36275]),
      ([U ''no space left''], [30913, 30424, 31354, 38388, 19981, 36275]),
      ([U (''couldn'' @ [CHR 39] @ ''t find remote ref''), U ''not our ref''], [30446, 26631, 20998,
       25903, 25110, 25552, 20132, 24050, 19981, 23384, 22312])]"

definition git_failure_reason :: "(nat \<Rightarrow> pystr) \<Rightarrow> nat list \<Rightarrow> pystr" where
  "git_failure_reason uni stderr =
     (case marker_label FAILURE_REASONS (py_lower uni (utf8_replace stderr)) of
        Some message \<Rightarrow> message
      | None \<Rightarrow> U ''Git '' @ [21629, 20196, 25191, 34892, 22833, 36133])"

lemma apostrophe: "hd (U [CHR 39]) = 39"
  by (simp add: U_def)

section \<open>Checks of the arguments\<close>

definition sha_ok :: "pystr \<Rightarrow> bool" where
  "sha_ok s = (length s = 40 \<and> list_all is_hex s)"

definition invalid_ref_character :: "nat \<Rightarrow> bool" where
  "invalid_ref_character c = (c \<le> 32 \<or> c \<in> {127, 126, 94, 58, 63, 42, 91, 92})"

definition is_safe_ref :: "pystr \<Rightarrow> bool" where
  "is_safe_ref r =
     (if r = [] \<or> startswith r (U ''-'') \<or> startswith r (U ''+'') \<or> startswith r (U ''/'')
         \<or> endswith r (U ''.'') \<or> endswith r (U ''/'') \<or> r = U ''@'' \<or> contains_str (U ''..'') r
         \<or> contains_str [64, 123] r \<or> list_ex invalid_ref_character r
      then False
      else list_all (\<lambda>c. c \<noteq> [] \<and> \<not> startswith c (U ''.'') \<and> \<not> endswith c (U ''.lock'')) (split_on 47 r))"

definition validate_revisions :: "pystr \<Rightarrow> pystr \<Rightarrow> pyexc + unit" where
  "validate_revisions base_sha head_sha =
     and_then (guard_raise (\<not> sha_ok base_sha)
                (raise_exc ValueError (U ''base_sha must be a 40-character hexadecimal SHA'')))
     (\<lambda>_. guard_raise (\<not> sha_ok head_sha)
                (raise_exc ValueError (U ''head_sha must be a 40-character hexadecimal SHA'')))"

definition unsafe_url :: pyexc where
  "unsafe_url = raise_exc ValueError (U ''head_repository_url must be a safe Git URL'')"

definition validate_head_repository_url :: "(pystr \<Rightarrow> bool) \<Rightarrow> pystr \<Rightarrow> pyexc + unit" where
  "validate_head_repository_url bad url =
     (if url = [] \<or> startswith url (U ''-'') then Inl unsafe_url
      else case urlsplit bad url of
        Inl _ \<Rightarrow> Inl unsafe_url
      | Inr parsed \<Rightarrow>
        (case url_port parsed of
           Inl _ \<Rightarrow> Inl unsafe_url
         | Inr port \<Rightarrow>
           if su_scheme parsed \<noteq> U ''https''
              \<or> url_hostname parsed \<notin> {Some (U ''github.com''), Some (U ''gitcode.com'')}
              \<or> url_has_user parsed \<or> port \<noteq> None \<or> su_query parsed \<noteq> [] \<or> su_fragment parsed \<noteq> []
              \<or> 37 \<in> set url \<or> 92 \<in> set url
           then Inl unsafe_url
           else case parse_repository_url bad (removesuffix url (U ''.git'')) None of
             Inl e \<Rightarrow> if isinstance e InvalidProviderUrl then Inl unsafe_url else Inl e
           | Inr repository \<Rightarrow>
               guard_raise (url \<noteq> fr_canonical_url repository \<and> url \<noteq> fr_canonical_url repository @ U ''.git'')
                 unsafe_url))"

record prepare_args =
  pa_task_id :: int
  pa_repository_url :: pystr
  pa_pr_number :: int
  pa_base_ref :: pystr
  pa_base_sha :: pystr
  pa_head_sha :: pystr
  pa_head_ref :: pystr
  pa_head_repository_url :: pystr

definition validate_prepare_inputs :: "(pystr \<Rightarrow> bool) \<Rightarrow> prepare_args \<Rightarrow> pyexc + unit" where
  "validate_prepare_inputs bad a =
     and_then (guard_raise (pa_task_id a \<le> 0) (raise_exc ValueError (U ''task_id must be a positive integer''))) (\<lambda>_.
     and_then (guard_raise (pa_pr_number a \<le> 0) (raise_exc ValueError (U ''pr_number must be a positive integer''))) (\<lambda>_.
     and_then (guard_raise (pa_repository_url a = [] \<or> startswith (pa_repository_url a) (U ''-''))
                (raise_exc ValueError (U ''repository_url must not be a Git option''))) (\<lambda>_.
     and_then (guard_raise (\<not> is_safe_ref (pa_base_ref a))
                (raise_exc ValueError (U ''base_ref must be a single safe Git ref''))) (\<lambda>_.
     and_then (guard_raise (\<not> is_safe_ref (pa_head_ref a))
                (raise_exc ValueError (U ''head_ref must be a single safe Git ref''))) (\<lambda>_.
     and_then (validate_head_repository_url bad (pa_head_repository_url a)) (\<lambda>_.
       validate_revisions (pa_base_sha a) (pa_head_sha a)))))))"

section \<open>Running git\<close>

type_synonym path = "pystr list"

definition path_str :: "path \<Rightarrow> pystr" where
  "path_str p = 47 # join_with [47] p"

definition parent_of :: "path \<Rightarrow> path" where
  "parent_of p = butlast p"

definition name_of :: "path \<Rightarrow> pystr" where
  "name_of p = (if p = [] then [] else last p)"

record process_result =
  pr_returncode :: int
  pr_stdout :: "nat list"
  pr_stderr :: "nat list"

text \<open>
  \<open>ge_process\<close> is \<open>run_process(command, cwd, env, timeout_seconds, watch_path, max_path_bytes)\<close>; \<open>ge_linked\<close> tells
  whether a path is a symbolic link or junction (false when there is nothing), \<open>ge_tempdir\<close> and \<open>ge_mkdtemp\<close>
  create temporary directories.
\<close>

record 's git_env =
  ge_bad_netloc :: "pystr \<Rightarrow> bool"
  ge_lower :: "nat \<Rightarrow> pystr"
  ge_upper :: "nat \<Rightarrow> pystr"
  ge_digits :: "nat \<Rightarrow> digit_kind"
  ge_environ :: "(pystr \<times> pystr) list"
  ge_root :: path
  ge_staging :: path
  ge_command_timeout :: rat
  ge_transfer_timeout :: rat
  ge_max_bytes :: int
  ge_uid :: int
  ge_process :: "pystr list \<Rightarrow> path \<Rightarrow> (pystr \<times> pystr) list \<Rightarrow> rat \<Rightarrow> path \<Rightarrow> int \<Rightarrow> ('s, process_result) io"
  ge_size_exceeds :: "path \<Rightarrow> int \<Rightarrow> ('s, bool) io"
  ge_tempdir :: "('s, path) io"
  ge_mkdtemp :: "pystr \<Rightarrow> path \<Rightarrow> ('s, path) io"
  ge_mkdir :: "path \<Rightarrow> ('s, unit) io"
  ge_resolve :: "path \<Rightarrow> ('s, path) io"
  ge_resolve_str :: "pystr \<Rightarrow> ('s, path) io"
  ge_resolve_strict :: "path \<Rightarrow> ('s, path) io"
  ge_exists :: "path \<Rightarrow> ('s, bool) io"
  ge_is_dir :: "path \<Rightarrow> ('s, bool) io"
  ge_linked :: "path \<Rightarrow> ('s, bool) io"
  ge_owner :: "path \<Rightarrow> ('s, int) io"
  ge_chmod :: "path \<Rightarrow> nat \<Rightarrow> ('s, unit) io"
  ge_rmtree :: "path \<Rightarrow> ('s, unit) io"
  ge_rmtree_quiet :: "path \<Rightarrow> ('s, unit) io"
  ge_move :: "path \<Rightarrow> path \<Rightarrow> ('s, unit) io"
  ge_sleep :: "int \<Rightarrow> ('s, unit) io"

definition SYSTEM_ENVIRONMENT_KEYS :: "pystr list" where
  "SYSTEM_ENVIRONMENT_KEYS =
     [U ''COMSPEC'', U ''HOME'', U ''LANG'', U ''PATH'', U ''PATHEXT'', U ''SYSTEMROOT'', U ''TEMP'', U ''TMP'',
      U ''USERPROFILE'', U ''WINDIR'']"

definition git_environment :: "'s git_env \<Rightarrow> path \<Rightarrow> (pystr \<times> pystr) list" where
  "git_environment env home =
     foldl (\<lambda>d (k, v). AList.update k v d)
       (filter (\<lambda>(k, _). py_upper (ge_upper env) k \<in> set SYSTEM_ENVIRONMENT_KEYS) (ge_environ env))
       [(U ''HOME'', path_str home), (U ''USERPROFILE'', path_str home),
        (U ''XDG_CONFIG_HOME'', path_str (home @ [U ''.config''])), (U ''GIT_CONFIG_NOSYSTEM'', U ''1''),
        (U ''GIT_CONFIG_GLOBAL'', U ''/dev/null''), (U ''GIT_TERMINAL_PROMPT'', U ''0''),
        (U ''GIT_PAGER'', U ''cat''), (U ''GCM_INTERACTIVE'', U ''Never'')]"

text \<open>The second word of a command; every caller gives one.\<close>

definition operation_of :: "pystr list \<Rightarrow> pystr" where
  "operation_of command = (case command of _ # op # _ \<Rightarrow> op | _ \<Rightarrow> [])"

definition timeout_for :: "'s git_env \<Rightarrow> pystr list \<Rightarrow> rat" where
  "timeout_for env command =
     (if operation_of command \<in> {U ''clone'', U ''fetch'', U ''checkout''} then ge_transfer_timeout env
      else ge_command_timeout env)"

definition hardened :: "path \<Rightarrow> pystr list \<Rightarrow> pystr list" where
  "hardened home command =
     [U ''git'', U ''-c'', U ''core.hooksPath='' @ path_str (home @ [U ''hooks'']), U ''-c'', U ''core.fsmonitor=false'',
      U ''-c'', U ''credential.helper=''] @ drop 1 command"

definition network_class :: "pystr \<Rightarrow> bool \<Rightarrow> exc_class" where
  "network_class op retryable =
     (if retryable \<and> op \<in> {U ''clone'', U ''fetch''} then GitNetworkError else PRWorkspaceError)"

definition MSG_RETRY_LATER :: pystr where
  "MSG_RETRY_LATER = [65292, 35831, 31245, 21518, 37325, 26032, 35302, 21457, 26816, 35270]"

text \<open>The \<open>try\<close> statement of \<open>_run\<close>: the process and the check of the size afterwards.\<close>

definition watched_process :: "'s git_env \<Rightarrow> pystr list \<Rightarrow> path \<Rightarrow> path \<Rightarrow> ('s, process_result) io" where
  "watched_process env command cwd home =
     catch
       (seq (if 2 < length command \<and> operation_of command = U ''clone''
             then ge_resolve_str env (last command) else ret cwd) (\<lambda>watch.
        seq (ge_process env (hardened home command) cwd (git_environment env home) (timeout_for env command)
               watch (ge_max_bytes env)) (\<lambda>result.
        seq (ge_size_exceeds env watch (ge_max_bytes env)) (\<lambda>exceeded.
        if exceeded then throw (raise_exc CommandResourceLimitExceeded (U ''command path size limit exceeded''))
        else ret result))))
       (\<lambda>e. if isinstance e CommandTimedOut
             then throw (raise_exc (network_class (operation_of command) True)
                    (U ''Git '' @ operation_of command @ [32, 36229, 26102] @ MSG_RETRY_LATER))
             else if isinstance e CommandResourceLimitExceeded
             then throw (raise_exc PRWorkspaceError (U ''PR workspace size limit exceeded''))
             else throw e)"

definition run_git :: "'s git_env \<Rightarrow> pystr list \<Rightarrow> path \<Rightarrow> ('s, pystr) io" where
  "run_git env command cwd =
     (if command = [] \<or> hd command \<noteq> U ''git''
      then throw (raise_exc ValueError (U ''PRWorkspace only permits Git commands''))
      else
        seq (ge_tempdir env) (\<lambda>home.
        seq (finally_do (seq (ge_mkdir env (home @ [U ''hooks''])) (\<lambda>_. watched_process env command cwd home))
               (ge_rmtree_quiet env home)) (\<lambda>result.
        if pr_returncode result \<noteq> 0
        then (let reason = git_failure_reason (ge_lower env) (pr_stderr result);
                  retryable = snd (git_diagnostics (ge_lower env) (pr_stderr result))
              in throw (raise_exc (network_class (operation_of command) retryable)
                   (U ''Git '' @ operation_of command @ [32, 22833, 36133, 65306] @ reason @ MSG_RETRY_LATER)))
        else ret (utf8_replace (pr_stdout result)))))"

section \<open>The checkout\<close>

definition git_op :: "'s git_env \<Rightarrow> pystr list \<Rightarrow> path \<Rightarrow> ('s, pystr) io" where
  "git_op env args cwd = run_git env (U ''git'' # args) cwd"

text \<open>\<open>_reject_symlink_components\<close> goes from the root of the file system downwards.\<close>

fun reject_links :: "'s git_env \<Rightarrow> path list \<Rightarrow> ('s, unit) io" where
  "reject_links env [] = ret ()"
| "reject_links env (p # ps) =
     seq (ge_linked env p) (\<lambda>linked.
       if linked then throw (raise_exc RuntimeError (U ''PR staging root must not contain symlink components''))
       else reject_links env ps)"

definition reject_symlink_components :: "'s git_env \<Rightarrow> path \<Rightarrow> ('s, unit) io" where
  "reject_symlink_components env p = reject_links env (map (\<lambda>n. take n p) [0..<length p + 1])"

definition validated_staging_root :: "'s git_env \<Rightarrow> ('s, path) io" where
  "validated_staging_root env =
     seq (reject_symlink_components env (ge_staging env)) (\<lambda>_.
     seq (ge_mkdir env (ge_staging env)) (\<lambda>_.
     seq (reject_symlink_components env (ge_staging env)) (\<lambda>_.
     seq (ge_resolve_strict env (ge_staging env)) (\<lambda>resolved.
     seq (guard_io (take (length (ge_root env)) resolved = ge_root env)
            (raise_exc RuntimeError (U ''PR staging root must be outside the analysis workspace root''))) (\<lambda>_.
     seq (ge_is_dir env resolved) (\<lambda>is_dir.
     seq (guard_io (\<not> is_dir) (raise_exc RuntimeError (U ''PR staging root must be a directory''))) (\<lambda>_.
     seq (ge_owner env resolved) (\<lambda>owner.
     seq (guard_io (owner \<noteq> ge_uid env)
            (raise_exc RuntimeError (U ''PR staging root must be owned by the manager user''))) (\<lambda>_.
     seq (ge_chmod env resolved 448) (\<lambda>_. ret resolved))))))))))"

definition remove_stale_workspace :: "'s git_env \<Rightarrow> path \<Rightarrow> pystr \<Rightarrow> ('s, unit) io" where
  "remove_stale_workspace env workspace expected =
     seq (catch (ge_resolve_strict env workspace)
            (\<lambda>e. if isinstance e OSError \<or> isinstance e RuntimeError
                  then throw (raise_exc RuntimeError (U ''unable to resolve stale PR workspace'')) else throw e)) (\<lambda>resolved.
     seq (guard_io (parent_of resolved \<noteq> ge_root env \<or> name_of resolved \<noteq> expected)
            (raise_exc RuntimeError (U ''refusing to delete a path outside the workspace root''))) (\<lambda>_.
     seq (ge_is_dir env resolved) (\<lambda>is_dir.
     seq (guard_io (\<not> is_dir) (raise_exc RuntimeError (U ''stale PR workspace is not a directory''))) (\<lambda>_.
       ge_rmtree env resolved))))"

definition MSG_BASE_CHANGED :: pystr where
  "MSG_BASE_CHANGED = [30446, 26631, 20998, 25903, 32, 98, 97, 115, 101, 32, 83, 72, 65, 32, 22312,
   20934, 22791, 26399, 38388, 21464, 21270, 65292, 35831, 31245, 21518, 37325, 26032, 35302, 21457,
   26816, 35270]"

definition MSG_SOURCE_CHANGED :: pystr where
  "MSG_SOURCE_CHANGED = [80, 82, 32, 28304, 20998, 25903, 32, 104, 101, 97, 100, 32, 83, 72, 65, 32,
   22312, 20934, 22791, 26399, 38388, 21464, 21270, 65292, 35831, 31245, 21518, 37325, 26032, 35302,
   21457, 26816, 35270]"

definition MSG_GIT_RETRIES :: pystr where
  "MSG_GIT_RETRIES = [71, 105, 116, 32, 32593, 32476, 36830, 25509, 25110, 20256, 36755, 22833,
   36133, 65292, 33258, 21160, 37325, 35797, 32, 50, 32, 27425, 21518, 20173, 22833, 36133, 65292,
   35831, 31245, 21518, 37325, 26032, 35302, 21457, 26816, 35270]"

definition rev_parse :: "'s git_env \<Rightarrow> pystr \<Rightarrow> path \<Rightarrow> ('s, pystr) io" where
  "rev_parse env r cwd = seq (git_op env [U ''rev-parse'', r @ U ''^{commit}''] cwd) (\<lambda>out. ret (strip out))"

definition differ :: "'s git_env \<Rightarrow> pystr \<Rightarrow> pystr \<Rightarrow> bool" where
  "differ env a b = (py_lower (ge_lower env) a \<noteq> py_lower (ge_lower env) b)"

text \<open>The body of the \<open>try\<close> statement, in a fresh staging directory.\<close>

definition fill_checkout :: "'s git_env \<Rightarrow> prepare_args \<Rightarrow> path \<Rightarrow> path \<Rightarrow> path \<Rightarrow> ('s, unit) io" where
  "fill_checkout env a staging_root checkout workspace =
     seq (git_op env [U ''clone'', U ''--no-checkout'', U ''--no-tags'', U ''--single-branch'', U ''--origin'',
            U ''upstream'', U ''--'', pa_repository_url a, path_str checkout] staging_root) (\<lambda>_.
     seq (git_op env [U ''fetch'', U ''--force'', U ''--no-tags'', U ''--'', U ''upstream'',
            U ''refs/heads/'' @ pa_base_ref a] checkout) (\<lambda>_.
     seq (rev_parse env (U ''FETCH_HEAD'') checkout) (\<lambda>base.
     seq (guard_io (differ env base (pa_base_sha a)) (raise_exc BaseRevisionChanged MSG_BASE_CHANGED)) (\<lambda>_.
     seq (git_op env [U ''fetch'', U ''--force'', U ''--no-tags'', U ''--'', pa_head_repository_url a,
            U ''refs/heads/'' @ pa_head_ref a] checkout) (\<lambda>_.
     seq (rev_parse env (U ''FETCH_HEAD'') checkout) (\<lambda>head.
     seq (guard_io (differ env head (pa_head_sha a)) (raise_exc RevisionChanged MSG_SOURCE_CHANGED)) (\<lambda>_.
     seq (git_op env [U ''checkout'', U ''--detach'', pa_head_sha a] checkout) (\<lambda>_.
       ge_move env checkout workspace))))))))"

definition prepare_once :: "'s git_env \<Rightarrow> prepare_args \<Rightarrow> ('s, path) io" where
  "prepare_once env a =
     seq (lift (validate_prepare_inputs (ge_bad_netloc env) a)) (\<lambda>_.
     seq (ge_mkdir env (ge_root env)) (\<lambda>_.
     (let name = U ''pr-review-'' @ int_str (pa_task_id a)
      in seq (ge_resolve env (ge_root env @ [name])) (\<lambda>workspace.
         seq (guard_io (parent_of workspace \<noteq> ge_root env \<or> name_of workspace \<noteq> name)
                (raise_exc RuntimeError (U ''PR workspace escapes workspace root''))) (\<lambda>_.
         seq (ge_exists env workspace) (\<lambda>exists.
         seq (if exists then remove_stale_workspace env workspace name else ret ()) (\<lambda>_.
         seq (validated_staging_root env) (\<lambda>staging_root.
         seq (ge_mkdtemp env (U ''pr-'' @ int_str (pa_task_id a) @ U ''-'') staging_root) (\<lambda>staging.
         seq (finally_do (fill_checkout env a staging_root (staging @ [U ''checkout'']) workspace)
                (ge_rmtree_quiet env staging)) (\<lambda>_.
         seq (ge_chmod env workspace 448) (\<lambda>_. ret workspace)))))))))))"

text \<open>\<open>for attempt in range(3)\<close>, with the delays before the attempts that are left.\<close>

fun prepare_loop :: "('s, 'a) io \<Rightarrow> (int \<Rightarrow> ('s, unit) io) \<Rightarrow> int list \<Rightarrow> ('s, 'a) io" where
  "prepare_loop once sleep [] =
     catch once (\<lambda>e. throw (if isinstance e GitNetworkError then raise_exc GitNetworkError MSG_GIT_RETRIES else e))"
| "prepare_loop once sleep (d # ds) =
     catch once (\<lambda>e. if isinstance e GitNetworkError then seq (sleep d) (\<lambda>_. prepare_loop once sleep ds) else throw e)"

definition prepare :: "'s git_env \<Rightarrow> prepare_args \<Rightarrow> ('s, path) io" where
  "prepare env a = prepare_loop (prepare_once env a) (ge_sleep env) [5, 15]"

section \<open>Branches, input and the final check\<close>

definition remote_line :: "'s git_env \<Rightarrow> pystr \<Rightarrow> pystr \<Rightarrow> pystr option" where
  "remote_line env ref line =
     (let sha = py_lower (ge_lower env) (strip (before 9 line))
      in if strip (after 9 line) = U ''refs/heads/'' @ ref \<and> sha_ok sha then Some sha else None)"

fun first_some :: "('a \<Rightarrow> 'b option) \<Rightarrow> 'a list \<Rightarrow> 'b option" where
  "first_some f [] = None"
| "first_some f (x # xs) = (case f x of Some y \<Rightarrow> Some y | None \<Rightarrow> first_some f xs)"

definition resolve_remote_head :: "'s git_env \<Rightarrow> pystr \<Rightarrow> pystr \<Rightarrow> ('s, pystr option) io" where
  "resolve_remote_head env url ref =
     seq (lift (validate_head_repository_url (ge_bad_netloc env) url)) (\<lambda>_.
     seq (guard_io (\<not> is_safe_ref ref) (raise_exc ValueError (U ''ref must be a single safe Git ref''))) (\<lambda>_.
     seq (ge_mkdir env (ge_root env)) (\<lambda>_.
     seq (catch (seq (git_op env [U ''ls-remote'', U ''--'', url, U ''refs/heads/'' @ ref] (ge_root env)) (\<lambda>out. ret (Some out)))
            (\<lambda>e. if isinstance e RuntimeError then ret None else throw e)) (\<lambda>out.
     ret (Option.bind out (\<lambda>t. first_some (remote_line env ref) (splitlines t)))))))"

definition REVIEW_BASE :: pystr where
  "REVIEW_BASE = U ''coderus-review-base''"

definition workspace_error :: "pystr \<Rightarrow> pyexc" where
  "workspace_error msg = raise_exc RuntimeError msg"

definition review_input_of :: "'s git_env \<Rightarrow> path \<Rightarrow> pystr \<Rightarrow> pystr \<Rightarrow> ('s, review_input) io" where
  "review_input_of env ws base_sha head_sha =
     seq (lift (validate_revisions base_sha head_sha)) (\<lambda>_.
     seq (rev_parse env (U ''HEAD'') ws) (\<lambda>head.
     seq (guard_io (differ env head head_sha) (workspace_error (U ''PR review checkout revision does not match''))) (\<lambda>_.
     seq (catch (git_op env [U ''cat-file'', U ''-e'', base_sha @ U ''^{commit}''] ws)
            (\<lambda>e. throw (if isinstance e RuntimeError
                         then workspace_error (U ''PR review base revision is unavailable'') else e))) (\<lambda>_.
     seq (git_op env [U ''merge-base'', base_sha, head_sha] ws) (\<lambda>out.
     (let comparison = strip out
      in seq (guard_io (\<not> sha_ok comparison) (workspace_error (U ''PR review merge base is unavailable''))) (\<lambda>_.
         seq (git_op env [U ''update-ref'', U ''refs/heads/'' @ REVIEW_BASE, comparison] ws) (\<lambda>_.
         seq (git_op env [U ''diff'', U ''--no-ext-diff'', U ''--no-color'', U ''--full-index'', U ''--find-renames'',
                U ''--unified=5'', U ''--end-of-options'', comparison, head_sha, U ''--''] ws) (\<lambda>diff.
         seq (lift (parse_changed_ranges (ge_digits env) diff)) (\<lambda>parsed.
         ret \<lparr>ri_ranges = parsed\<lparr>cr_comparison_sha := Some comparison\<rparr>, ri_unified_diff = diff,
              ri_review_base = REVIEW_BASE\<rparr>))))))))))"

definition assert_pristine :: "'s git_env \<Rightarrow> path \<Rightarrow> pystr \<Rightarrow> pystr \<Rightarrow> ('s, unit) io" where
  "assert_pristine env ws head_sha comparison_sha =
     seq (lift (validate_revisions comparison_sha head_sha)) (\<lambda>_.
     seq (rev_parse env (U ''HEAD'') ws) (\<lambda>head.
     seq (rev_parse env (U ''refs/heads/'' @ REVIEW_BASE) ws) (\<lambda>base.
     seq (guard_io (differ env head head_sha \<or> differ env base comparison_sha)
            (workspace_error (U ''PR review workspace revision changed during review''))) (\<lambda>_.
     seq (git_op env [U ''status'', U ''--porcelain=v1'', U ''--untracked-files=all''] ws) (\<lambda>status.
     guard_io (status \<noteq> []) (workspace_error (U ''PR review workspace was modified during review'')))))))"

section \<open>Every command is hardened\<close>

text \<open>
  The options the program itself gives to git; no other argument may begin with a dash, so nothing that comes from
  a pull request is taken as an option.
\<close>

definition FIXED_OPTIONS :: "pystr list" where
  "FIXED_OPTIONS =
     [U ''--no-checkout'', U ''--no-tags'', U ''--single-branch'', U ''--origin'', U ''--'', U ''--force'',
      U ''--detach'', U ''-e'', U ''--no-ext-diff'', U ''--no-color'', U ''--full-index'', U ''--find-renames'',
      U ''--unified=5'', U ''--end-of-options'', U ''--porcelain=v1'', U ''--untracked-files=all'']"

definition fixed_options :: "pystr list \<Rightarrow> bool" where
  "fixed_options args = list_all (\<lambda>x. startswith x (U ''-'') \<longrightarrow> x \<in> set FIXED_OPTIONS) args"

definition hardened_call :: "'s git_env \<Rightarrow> pystr list \<Rightarrow> (pystr \<times> pystr) list \<Rightarrow> bool" where
  "hardened_call env command e \<longleftrightarrow>
     (\<exists>home args. command = hardened home (U ''git'' # args) \<and> fixed_options args \<and> e = git_environment env home)"

lemma fixed_options_simps [simp]:
  "fixed_options []"
  "fixed_options (x # xs) \<longleftrightarrow> (startswith x (U ''-'') \<longrightarrow> x \<in> set FIXED_OPTIONS) \<and> fixed_options xs"
  by (simp_all add: fixed_options_def)

lemma no_dash:
  "\<not> startswith (U ''refs/heads/'' @ x) (U ''-'')" "\<not> startswith (path_str p) (U ''-'')"
  "\<not> startswith (U ''FETCH_HEAD'' @ x) (U ''-'')" "\<not> startswith (U ''HEAD'' @ x) (U ''-'')"
  by (simp_all add: U_def startswith_def path_str_def)

lemma sha_no_dash: "sha_ok s \<Longrightarrow> \<not> startswith s (U ''-'')" "sha_ok s \<Longrightarrow> \<not> startswith (s @ x) (U ''-'')"
  by (cases s; auto simp: sha_ok_def is_hex_def U_def startswith_def)+

lemma validated_inputs:
  assumes "validate_prepare_inputs bad a = Inr u"
  shows "\<not> startswith (pa_repository_url a) (U ''-'')" "\<not> startswith (pa_head_repository_url a) (U ''-'')"
    "sha_ok (pa_head_sha a)"
  using assms
  by (auto simp: validate_prepare_inputs_def validate_revisions_def validate_head_repository_url_def and_then_Inr
      split: if_splits)

text \<open>Two environments that differ only in what other commands would do.\<close>

definition agrees :: "'s git_env \<Rightarrow> 's git_env \<Rightarrow> bool" where
  "agrees env env' \<longleftrightarrow> (\<exists>f. env' = env\<lparr>ge_process := f\<rparr>
     \<and> (\<forall>c cwd e t w n. hardened_call env c e \<longrightarrow> f c cwd e t w n = ge_process env c cwd e t w n))"

lemma agrees_fields:
  assumes "agrees env env'"
  shows "ge_bad_netloc env' = ge_bad_netloc env" "ge_lower env' = ge_lower env" "ge_digits env' = ge_digits env"
    "ge_root env' = ge_root env" "ge_staging env' = ge_staging env" "ge_uid env' = ge_uid env"
    "ge_max_bytes env' = ge_max_bytes env"
    "ge_size_exceeds env' = ge_size_exceeds env" "ge_tempdir env' = ge_tempdir env" "ge_mkdtemp env' = ge_mkdtemp env"
    "ge_mkdir env' = ge_mkdir env" "ge_resolve env' = ge_resolve env" "ge_resolve_str env' = ge_resolve_str env"
    "ge_resolve_strict env' = ge_resolve_strict env" "ge_exists env' = ge_exists env" "ge_is_dir env' = ge_is_dir env"
    "ge_linked env' = ge_linked env" "ge_owner env' = ge_owner env" "ge_chmod env' = ge_chmod env"
    "ge_rmtree env' = ge_rmtree env" "ge_rmtree_quiet env' = ge_rmtree_quiet env" "ge_move env' = ge_move env"
    "ge_sleep env' = ge_sleep env" "git_environment env' = git_environment env" "timeout_for env' = timeout_for env"
  using assms by (auto simp: agrees_def git_environment_def timeout_for_def fun_eq_iff)

lemma agrees_process:
  assumes "agrees env env'" "fixed_options args"
  shows "ge_process env' (hardened home (U ''git'' # args)) cwd (git_environment env home) t w n =
    ge_process env (hardened home (U ''git'' # args)) cwd (git_environment env home) t w n"
proof -
  have "hardened_call env (hardened home (U ''git'' # args)) (git_environment env home)"
    using assms(2) by (auto simp: hardened_call_def)
  with assms(1) show ?thesis by (auto simp: agrees_def)
qed

lemma same_git:
  assumes "agrees env env'" "fixed_options args"
  shows "git_op env' args cwd = git_op env args cwd"
  unfolding git_op_def run_git_def watched_process_def agrees_fields [OF assms(1)] agrees_process [OF assms]
  by (rule refl)

lemma same_rev_parse:
  assumes "agrees env env'" "\<not> startswith r (U ''-'')"
  shows "rev_parse env' r cwd = rev_parse env r cwd"
proof -
  have "\<not> startswith (r @ U ''^{commit}'') (U ''-'')" "\<not> startswith (U ''rev-parse'') (U ''-'')"
    using assms(2) by (cases r; simp add: U_def startswith_def)+
  then show ?thesis unfolding rev_parse_def by (subst same_git [OF assms(1)]) simp_all
qed

text \<open>The operations that run no git command of their own.\<close>

lemma same_links: "agrees env env' \<Longrightarrow> reject_links env' ps = reject_links env ps"
  by (induction ps) (simp_all add: agrees_fields cong: if_cong)

lemma same_staging: "agrees env env' \<Longrightarrow> validated_staging_root env' = validated_staging_root env"
  unfolding validated_staging_root_def reject_symlink_components_def
  by (simp only: agrees_fields same_links)

lemma same_stale: "agrees env env' \<Longrightarrow> remove_stale_workspace env' w n = remove_stale_workspace env w n"
  unfolding remove_stale_workspace_def by (simp only: agrees_fields)

lemma same_differ: "agrees env env' \<Longrightarrow> differ env' = differ env"
  by (simp add: differ_def fun_eq_iff agrees_fields)

lemma option_words:
  "startswith (U ''clone'') (U ''-'') = False" "startswith (U ''fetch'') (U ''-'') = False"
  "startswith (U ''upstream'') (U ''-'') = False" "startswith (U ''checkout'') (U ''-'') = False"
  "startswith (U ''ls-remote'') (U ''-'') = False" "startswith (U ''cat-file'') (U ''-'') = False"
  "startswith (U ''merge-base'') (U ''-'') = False" "startswith (U ''update-ref'') (U ''-'') = False"
  "startswith (U ''diff'') (U ''-'') = False" "startswith (U ''status'') (U ''-'') = False"
  by (simp_all add: U_def startswith_def)

lemma option_members:
  "U ''--no-checkout'' \<in> set FIXED_OPTIONS" "U ''--no-tags'' \<in> set FIXED_OPTIONS"
  "U ''--single-branch'' \<in> set FIXED_OPTIONS" "U ''--origin'' \<in> set FIXED_OPTIONS" "U ''--'' \<in> set FIXED_OPTIONS"
  "U ''--force'' \<in> set FIXED_OPTIONS" "U ''--detach'' \<in> set FIXED_OPTIONS" "U ''-e'' \<in> set FIXED_OPTIONS"
  "U ''--no-ext-diff'' \<in> set FIXED_OPTIONS" "U ''--no-color'' \<in> set FIXED_OPTIONS"
  "U ''--full-index'' \<in> set FIXED_OPTIONS" "U ''--find-renames'' \<in> set FIXED_OPTIONS"
  "U ''--unified=5'' \<in> set FIXED_OPTIONS" "U ''--end-of-options'' \<in> set FIXED_OPTIONS"
  "U ''--porcelain=v1'' \<in> set FIXED_OPTIONS" "U ''--untracked-files=all'' \<in> set FIXED_OPTIONS"
  by (simp_all only: FIXED_OPTIONS_def list.set insert_iff simp_thms)

lemmas fixed_words = fixed_options_simps option_words option_members no_dash simp_thms

lemma head_no_dash: "\<not> startswith (U ''FETCH_HEAD'') (U ''-'')" "\<not> startswith (U ''HEAD'') (U ''-'')"
  using no_dash(3,4) [of "[]"] by simp_all

lemma same_fill:
  assumes "agrees env env'" "validate_prepare_inputs bad a = Inr u"
  shows "fill_checkout env' a sr co ws = fill_checkout env a sr co ws"
proof -
  note no = validated_inputs [OF assms(2)] sha_no_dash(1)
  have "fixed_options [U ''clone'', U ''--no-checkout'', U ''--no-tags'', U ''--single-branch'', U ''--origin'',
            U ''upstream'', U ''--'', pa_repository_url a, path_str co]"
    "fixed_options [U ''fetch'', U ''--force'', U ''--no-tags'', U ''--'', U ''upstream'', U ''refs/heads/'' @ pa_base_ref a]"
    "fixed_options [U ''fetch'', U ''--force'', U ''--no-tags'', U ''--'', pa_head_repository_url a,
       U ''refs/heads/'' @ pa_head_ref a]"
    "fixed_options [U ''checkout'', U ''--detach'', pa_head_sha a]"
    using no by (simp_all only: fixed_words)
  note git = this [THEN same_git [OF assms(1)]]
  show ?thesis
    unfolding fill_checkout_def git same_rev_parse [OF assms(1) head_no_dash(1)] same_differ [OF assms(1)]
      agrees_fields [OF assms(1)] by (rule refl)
qed

lemma same_prepare:
  assumes "agrees env env'"
  shows "prepare env' a = prepare env a"
proof -
  have "prepare_once env' a = prepare_once env a"
  proof (cases "validate_prepare_inputs (ge_bad_netloc env) a")
    case (Inl e)
    then show ?thesis by (simp add: prepare_once_def seq_lift agrees_fields [OF assms])
  next
    case (Inr u)
    show ?thesis
      unfolding prepare_once_def Let_def same_staging [OF assms] same_stale [OF assms] same_fill [OF assms Inr]
        agrees_fields [OF assms] by (rule refl)
  qed
  then show ?thesis by (simp add: prepare_def agrees_fields [OF assms])
qed

lemma same_remote_head:
  assumes "agrees env env'"
  shows "resolve_remote_head env' url r = resolve_remote_head env url r"
proof (cases "validate_head_repository_url (ge_bad_netloc env) url")
  case (Inl e)
  then show ?thesis by (simp add: resolve_remote_head_def seq_lift agrees_fields [OF assms])
next
  case (Inr u)
  then have "\<not> startswith url (U ''-'')" by (auto simp: validate_head_repository_url_def split: if_splits)
  then have git: "git_op env' [U ''ls-remote'', U ''--'', url, U ''refs/heads/'' @ r] cwd =
      git_op env [U ''ls-remote'', U ''--'', url, U ''refs/heads/'' @ r] cwd" for cwd
    by (intro same_git [OF assms]) (simp only: fixed_words)
  have line: "remote_line env' = remote_line env" by (simp add: remote_line_def fun_eq_iff agrees_fields [OF assms])
  show ?thesis unfolding resolve_remote_head_def git line agrees_fields [OF assms] by (rule refl)
qed

lemma validated_revisions:
  assumes "validate_revisions b h = Inr u"
  shows "sha_ok b" "sha_ok h"
  using assms by (auto simp: validate_revisions_def and_then_Inr)

lemma same_review_input:
  assumes "agrees env env'"
  shows "review_input_of env' ws b h = review_input_of env ws b h"
proof (cases "validate_revisions b h")
  case (Inl e)
  then show ?thesis by (simp add: review_input_of_def seq_lift)
next
  case (Inr u)
  note sha = validated_revisions [OF Inr, THEN sha_no_dash(1)] validated_revisions [OF Inr, THEN sha_no_dash(2)]
  have "fixed_options [U ''cat-file'', U ''-e'', b @ U ''^{commit}'']" "fixed_options [U ''merge-base'', b, h]"
    using sha by (simp_all only: fixed_words)
  note git = this [THEN same_git [OF assms]]
  have later: "git_op env' [U ''update-ref'', U ''refs/heads/'' @ REVIEW_BASE, c] cwd =
        git_op env [U ''update-ref'', U ''refs/heads/'' @ REVIEW_BASE, c] cwd"
    "git_op env' [U ''diff'', U ''--no-ext-diff'', U ''--no-color'', U ''--full-index'', U ''--find-renames'',
                U ''--unified=5'', U ''--end-of-options'', c, h, U ''--''] cwd =
     git_op env [U ''diff'', U ''--no-ext-diff'', U ''--no-color'', U ''--full-index'', U ''--find-renames'',
                U ''--unified=5'', U ''--end-of-options'', c, h, U ''--''] cwd" if "sha_ok c" for c cwd
    using sha sha_no_dash(1) [OF that] by (intro same_git [OF assms]; simp only: fixed_words)+
  show ?thesis
    unfolding review_input_of_def git same_rev_parse [OF assms head_no_dash(2)] same_differ [OF assms]
      agrees_fields [OF assms] seq_guard Let_def
    by (intro seq_ext if_ext refl) (simp_all add: later)
qed

lemma same_pristine:
  assumes "agrees env env'"
  shows "assert_pristine env' ws h c = assert_pristine env ws h c"
proof -
  have "fixed_options [U ''status'', U ''--porcelain=v1'', U ''--untracked-files=all'']" by (simp only: fixed_words)
  note git = same_git [OF assms this]
  show ?thesis
    unfolding assert_pristine_def git same_rev_parse [OF assms head_no_dash(2)] same_rev_parse [OF assms no_dash(1)]
      same_differ [OF assms] by (rule refl)
qed


definition sample_process ::
  "pystr list \<Rightarrow> path \<Rightarrow> (pystr \<times> pystr) list \<Rightarrow> rat \<Rightarrow> path \<Rightarrow> int \<Rightarrow> (unit, process_result) io" where
  "sample_process c cwd e t w n = ret \<lparr>pr_returncode = 0, pr_stdout = replicate 40 97, pr_stderr = []\<rparr>"

definition sample_env :: "unit git_env" where
  "sample_env = \<lparr>ge_bad_netloc = (\<lambda>_. False), ge_lower = (\<lambda>c. [c]), ge_upper = (\<lambda>c. [c]), ge_digits = (\<lambda>_. NoDigit),
     ge_environ = [], ge_root = [U ''work''], ge_staging = [U ''tmp''], ge_command_timeout = 120,
     ge_transfer_timeout = 1800, ge_max_bytes = 1000, ge_uid = 1, ge_process = sample_process,
     ge_size_exceeds = (\<lambda>_ _. ret False), ge_tempdir = ret [U ''tmp'', U ''home''],
     ge_mkdtemp = (\<lambda>n p. ret (p @ [n])), ge_mkdir = (\<lambda>_. ret ()), ge_resolve = ret,
     ge_resolve_str = (\<lambda>_. ret []), ge_resolve_strict = ret, ge_exists = (\<lambda>_. ret False),
     ge_is_dir = (\<lambda>_. ret True), ge_linked = (\<lambda>_. ret False), ge_owner = (\<lambda>_. ret 1),
     ge_chmod = (\<lambda>_ _. ret ()), ge_rmtree = (\<lambda>_. ret ()), ge_rmtree_quiet = (\<lambda>_. ret ()),
     ge_move = (\<lambda>_ _. ret ()), ge_sleep = (\<lambda>_. ret ())\<rparr>"

definition sample_args :: prepare_args where
  "sample_args = \<lparr>pa_task_id = 7, pa_repository_url = U ''https://github.com/o/n'', pa_pr_number = 1,
     pa_base_ref = U ''main'', pa_base_sha = replicate 40 97, pa_head_sha = replicate 40 65,
     pa_head_ref = U ''fix'', pa_head_repository_url = U ''https://github.com/o/n.git''\<rparr>"

text \<open>A process that fails for every command that does not begin like a hardened one.\<close>

definition picky_process ::
  "pystr list \<Rightarrow> path \<Rightarrow> (pystr \<times> pystr) list \<Rightarrow> rat \<Rightarrow> path \<Rightarrow> int \<Rightarrow> (unit, process_result) io" where
  "picky_process c cwd e t w n =
     (if take 2 c = [U ''git'', U ''-c''] \<and> fixed_options (drop 7 c) then sample_process c cwd e t w n
      else throw (raise_exc OSError []))"


end
