(* ===== verification/Github_Publisher.thy ===== *)
theory Github_Publisher
  imports Review_Workspace Http Repository_Commands
begin

text \<open>
  \<open>coderus/forge/github/pulls.py\<close>: forks, pull requests and comments on GitHub.  The HTTP client, the Git pusher,
  the file system and the clock are the fields of \<open>github\<close>: computations on an arbitrary state.  \<open>gp_observe\<close>
  gives what the rounds of one GET with backoff see (\<open>Http.request_with_backoff\<close> decides on it), \<open>gp_send\<close> is one
  POST.  The tests of the types of arguments are left out: arguments have the annotated types.
\<close>

section \<open>Names, branches and URLs\<close>

record 's github =
  gp_lib :: pylib
  gp_bad_netloc :: "pystr \<Rightarrow> bool"
  gp_digits :: "nat \<Rightarrow> digit_kind"
  gp_lower :: "nat \<Rightarrow> pystr"
  gp_parse_float :: "pystr \<Rightarrow> float_text"
  gp_token :: pystr
  gp_forks :: "((pystr \<times> pystr) \<times> pystr) list"
  gp_policy :: retry_policy
  gp_poll_attempts :: nat
  gp_poll_interval :: rat
  gp_observe :: "pystr \<Rightarrow> (pystr \<times> pystr) list \<Rightarrow> (pystr \<times> json) list \<Rightarrow> ('s, http_world) io"
  gp_send :: "pystr \<Rightarrow> (pystr \<times> pystr) list \<Rightarrow> json \<Rightarrow> ('s, http_response) io"
  gp_sleep :: "rat \<Rightarrow> ('s, unit) io"
  gp_is_dir :: "pystr \<Rightarrow> ('s, bool) io"
  gp_push :: "pystr \<Rightarrow> pystr \<Rightarrow> pystr \<Rightarrow> ('s, unit) io"

definition invalid_input :: "pystr \<Rightarrow> pyexc" where
  "invalid_input msg = raise_exc InvalidPublisherInput msg"

definition remote_failure :: "pystr \<Rightarrow> pyexc" where
  "remote_failure msg = raise_exc PublisherRemoteError msg"

definition fork_mismatch :: "pystr \<Rightarrow> pyexc" where
  "fork_mismatch msg = raise_exc RegisteredForkMismatch msg"

definition INVALID_RESPONSE :: pyexc where
  "INVALID_RESPONSE = remote_failure (U ''github returned an invalid response'')"

definition INVALID_PAGINATION :: pyexc where
  "INVALID_PAGINATION = remote_failure (U ''github returned invalid pagination'')"

definition INVALID_PULL :: pyexc where
  "INVALID_PULL = remote_failure (U ''github returned an invalid pull request'')"

definition INVALID_COMMENT :: pyexc where
  "INVALID_COMMENT = remote_failure (U ''github returned an invalid pull request comment'')"

text \<open>\<open>_NAME_PATTERN.fullmatch\<close>.\<close>

fun publisher_name :: "pystr \<Rightarrow> bool" where
  "publisher_name [] = False"
| "publisher_name (c # cs) = (is_alnum c \<and> list_all name_char cs \<and> length cs \<le> 99)"

definition validate_name :: "pystr \<Rightarrow> pystr \<Rightarrow> pyexc + unit" where
  "validate_name s label = guard_raise (\<not> publisher_name s) (invalid_input (U ''invalid '' @ label))"

definition validate_pr_number :: "int \<Rightarrow> pyexc + unit" where
  "validate_pr_number n = guard_raise (n < 1) (invalid_input (U ''pull request number must be positive''))"

definition validate_branch :: "pystr \<Rightarrow> pyexc + unit" where
  "validate_branch b =
     guard_raise
       (b = [] \<or> b = U ''@'' \<or> startswith b (U ''-'') \<or> startswith b (U ''/'') \<or> endswith b (U ''/'')
        \<or> endswith b (U ''.'') \<or> contains_str (U ''..'') b \<or> contains_str [64, 123] b \<or> contains_str (U ''//'') b
        \<or> list_ex invalid_ref_character b
        \<or> list_ex (\<lambda>part. startswith part (U ''.'') \<or> endswith part (U ''.lock'')) (split_on 47 b))
       (invalid_input (U ''invalid git branch name''))"

definition github_clone_url :: "pystr \<Rightarrow> pystr \<Rightarrow> pystr" where
  "github_clone_url owner name = U ''https://github.com/'' @ owner @ [47] @ name @ U ''.git''"

definition normalize_github_url :: "(pystr \<Rightarrow> bool) \<Rightarrow> pystr \<Rightarrow> pyexc + pystr" where
  "normalize_github_url bad url =
     (let invalid = invalid_input (U ''invalid github fork URL'')
      in case urlsplit bad url of
        Inl _ \<Rightarrow> Inl invalid
      | Inr parsed \<Rightarrow>
        (case url_port parsed of
           Inl _ \<Rightarrow> Inl invalid
         | Inr port \<Rightarrow>
           if url_hostname parsed \<noteq> None \<and> url_hostname parsed \<noteq> Some (U ''github.com'')
             then Inl (raise_exc UnsupportedPublisher (U ''only github.com publishing is supported''))
           else if su_scheme parsed \<noteq> U ''https'' \<or> url_hostname parsed = None \<or> url_has_user parsed
               \<or> port \<noteq> None \<or> su_query parsed \<noteq> [] \<or> su_fragment parsed \<noteq> []
             then Inl invalid
           else case two_parts (filter (\<lambda>part. part \<noteq> []) (split_on 47 (su_path parsed))) of
             None \<Rightarrow> Inl invalid
           | Some (owner, name) \<Rightarrow>
               (let name = removesuffix name (U ''.git'')
                in and_then (validate_name owner (U ''fork owner'')) (\<lambda>_.
                   and_then (validate_name name (U ''fork repository name'')) (\<lambda>_.
                     Inr (github_clone_url owner name))))))"

text \<open>
  \<open>urlsplit\<close> of a JSON value: what is not a string raises a \<open>TypeError\<close> (an unhashable value), gives an empty
  result (a false value), or raises an \<open>AttributeError\<close> that nobody catches.
\<close>

definition normalize_github_json :: "(pystr \<Rightarrow> bool) \<Rightarrow> json \<Rightarrow> pyexc + pystr" where
  "normalize_github_json bad v =
     (case v of
        JStr url \<Rightarrow> normalize_github_url bad url
      | JList _ \<Rightarrow> Inl (invalid_input (U ''invalid github fork URL''))
      | JObj _ \<Rightarrow> Inl (invalid_input (U ''invalid github fork URL''))
      | JNull \<Rightarrow> Inl (invalid_input (U ''invalid github fork URL''))
      | JBool b \<Rightarrow> Inl (if b then raise_exc AttributeError [] else invalid_input (U ''invalid github fork URL''))
      | JInt i \<Rightarrow> Inl (if i \<noteq> 0 then raise_exc AttributeError [] else invalid_input (U ''invalid github fork URL''))
      | JFloat f \<Rightarrow> Inl (if f \<notin> {U ''0.0'', U ''-0.0''} then raise_exc AttributeError []
                         else invalid_input (U ''invalid github fork URL'')))"

text \<open>The dict of registered forks the constructor builds.\<close>

fun register_forks ::
  "(nat \<Rightarrow> pystr) \<Rightarrow> (pystr \<Rightarrow> bool) \<Rightarrow> ((pystr \<times> pystr) \<times> pystr) list \<Rightarrow> ((pystr \<times> pystr) \<times> pystr) list
    \<Rightarrow> pyexc + ((pystr \<times> pystr) \<times> pystr) list" where
  "register_forks lower bad d [] = Inr d"
| "register_forks lower bad d (((owner, name), url) # rest) =
     and_then (normalize_github_url bad url) (\<lambda>u.
       register_forks lower bad (AList.update (py_lower lower owner, py_lower lower name) u d) rest)"

section \<open>Requests\<close>

definition api :: "pystr \<Rightarrow> pystr" where
  "api rest = U ''https://api.github.com/'' @ rest"

definition repo_url :: "pystr \<Rightarrow> pystr \<Rightarrow> pystr \<Rightarrow> pystr" where
  "repo_url owner name rest = api (U ''repos/'' @ owner @ [47] @ name @ rest)"

definition headers_of :: "'s github \<Rightarrow> (pystr \<times> pystr) list" where
  "headers_of gp = [(U ''Accept'', U ''application/vnd.github+json''),
     (U ''Authorization'', U ''Bearer '' @ gp_token gp), (U ''X-GitHub-Api-Version'', U ''2022-11-28'')]"

definition get_response :: "'s github \<Rightarrow> pystr \<Rightarrow> (pystr \<times> json) list \<Rightarrow> ('s, http_response) io" where
  "get_response gp url params =
     seq (gp_observe gp url (headers_of gp) params) (\<lambda>w.
       lift (case fst (request_with_backoff (gp_parse_float gp) (U ''github'') (gp_policy gp) w) of
               Inl e \<Rightarrow> Inl (if isinstance e ProviderRemoteError then remote_failure (exc_str e) else e)
             | Inr r \<Rightarrow> Inr r))"

definition post_response :: "'s github \<Rightarrow> pystr \<Rightarrow> json \<Rightarrow> ('s, http_response) io" where
  "post_response gp url payload =
     catch (gp_send gp url (headers_of gp) payload)
       (\<lambda>e. throw (if isinstance e Exception then remote_failure (U ''github request failed'') else e))"

definition bad_status :: "http_response \<Rightarrow> pyexc" where
  "bad_status r = remote_failure (U ''github request failed with status '' @ int_str (hr_status r))"

definition response_json :: "http_response \<Rightarrow> pyexc + json" where
  "response_json r = (case hr_json r of None \<Rightarrow> Inl INVALID_RESPONSE | Some j \<Rightarrow> Inr j)"

definition response_dict :: "http_response \<Rightarrow> pyexc + (pystr \<times> json) list" where
  "response_dict r = and_then (response_json r) (\<lambda>j. case j of JObj d \<Rightarrow> Inr d | _ \<Rightarrow> Inl INVALID_RESPONSE)"

fun dicts_of :: "json list \<Rightarrow> (pystr \<times> json) list list option" where
  "dicts_of [] = Some []"
| "dicts_of (JObj d # js) = map_option (Cons d) (dicts_of js)"
| "dicts_of (_ # js) = None"

definition response_dicts :: "http_response \<Rightarrow> pyexc + (pystr \<times> json) list list" where
  "response_dicts r =
     and_then (response_json r) (\<lambda>j. case j of
        JList js \<Rightarrow> (case dicts_of js of Some ds \<Rightarrow> Inr ds | None \<Rightarrow> Inl INVALID_RESPONSE)
      | _ \<Rightarrow> Inl INVALID_RESPONSE)"

definition get_dict :: "'s github \<Rightarrow> pystr \<Rightarrow> ('s, (pystr \<times> json) list) io" where
  "get_dict gp url =
     seq (get_response gp url []) (\<lambda>r.
     seq (guard_io (hr_status r \<noteq> 200) (bad_status r)) (\<lambda>_. lift (response_dict r)))"

definition get_optional_dict :: "'s github \<Rightarrow> pystr \<Rightarrow> ('s, (pystr \<times> json) list option) io" where
  "get_optional_dict gp url =
     seq (get_response gp url []) (\<lambda>r.
       if hr_status r = 404 then ret None
       else seq (guard_io (hr_status r \<noteq> 200) (bad_status r)) (\<lambda>_. lift (and_then (response_dict r) (\<lambda>d. Inr (Some d)))))"

definition get_list :: "'s github \<Rightarrow> pystr \<Rightarrow> (pystr \<times> json) list \<Rightarrow> ('s, (pystr \<times> json) list list) io" where
  "get_list gp url params =
     seq (get_response gp url params) (\<lambda>r.
     seq (guard_io (hr_status r \<noteq> 200) (bad_status r)) (\<lambda>_. lift (response_dicts r)))"

definition post_dict :: "'s github \<Rightarrow> pystr \<Rightarrow> json \<Rightarrow> ('s, (pystr \<times> json) list) io" where
  "post_dict gp url payload =
     seq (post_response gp url payload) (\<lambda>r.
     seq (guard_io (\<not> (200 \<le> hr_status r \<and> hr_status r < 300)) (bad_status r)) (\<lambda>_. lift (response_dict r)))"

section \<open>Pagination\<close>

text \<open>
  \<open>urllib.parse.unquote\<close>: percent escapes within runs of ASCII characters are bytes, which are decoded as UTF-8
  with replacement.
\<close>

definition hex_value :: "nat \<Rightarrow> nat" where
  "hex_value c = (if c \<le> 57 then c - 48 else if c \<le> 70 then c - 55 else c - 87)"

fun percent_bytes :: "pystr \<Rightarrow> nat list" where
  "percent_bytes (c # h # l # s) =
     (if c = 37 \<and> is_hex h \<and> is_hex l then (16 * hex_value h + hex_value l) # percent_bytes s
      else c # percent_bytes (h # l # s))"
| "percent_bytes s = s"

function unquote_runs :: "pystr \<Rightarrow> pystr" where
  "unquote_runs [] = []"
| "unquote_runs (c # s) =
     (if 128 \<le> c then c # unquote_runs s
      else utf8_replace (percent_bytes (takeWhile (\<lambda>x. x < 128) (c # s)))
           @ unquote_runs (dropWhile (\<lambda>x. x < 128) (c # s)))"
  by pat_completeness auto

termination
  by (relation "measure length") (auto intro: le_less_trans [OF length_dropWhile_le])

definition unquote_plus :: "pystr \<Rightarrow> pystr" where
  "unquote_plus s =
     (let t = map (\<lambda>c. if c = 43 then 32 else c) s in if 37 \<in> set t then unquote_runs t else t)"

text \<open>\<open>parse_qs(query, keep_blank_values=True).get(key, [None])[0]\<close>.\<close>

definition query_value :: "pystr \<Rightarrow> pystr \<Rightarrow> pystr option" where
  "query_value key query =
     map_option (\<lambda>p. unquote_plus (after 61 p))
       (find (\<lambda>p. unquote_plus (before 61 p) = key) (filter (\<lambda>p. p \<noteq> []) (split_on 38 query)))"

text \<open>\<open>s.find(c, start)\<close>.\<close>

definition find_char :: "nat \<Rightarrow> nat \<Rightarrow> pystr \<Rightarrow> nat option" where
  "find_char c start s =
     (let k = length (takeWhile (\<lambda>x. x \<noteq> c) (drop start s)) in if c \<in> set (drop start s) then Some (start + k) else None)"

definition next_target :: "pystr \<Rightarrow> pyexc + pystr" where
  "next_target link =
     (case find_char 60 0 link of
        None \<Rightarrow> Inl INVALID_PAGINATION
      | Some i \<Rightarrow> (case find_char 62 (i + 1) link of
          None \<Rightarrow> Inl INVALID_PAGINATION
        | Some j \<Rightarrow> Inr (drop (i + 1) (take j link))))"

definition next_page :: "'s github \<Rightarrow> http_response \<Rightarrow> pystr \<Rightarrow> int \<Rightarrow> pyexc + int option" where
  "next_page gp r expected_url current =
     (let link_header = (case header (U ''link'') r of None \<Rightarrow> [] | Some v \<Rightarrow> v);
          links = filter (contains_str (U ''rel='' @ [34] @ U ''next'' @ [34])) (split_on 44 link_header)
      in case links of
        [] \<Rightarrow> Inr None
      | [link] \<Rightarrow>
          and_then (next_target link) (\<lambda>target.
            case urlsplit (gp_bad_netloc gp) target of
              Inl _ \<Rightarrow> Inl INVALID_PAGINATION
            | Inr parsed \<Rightarrow>
                and_then (urlsplit (gp_bad_netloc gp) expected_url) (\<lambda>expected.
                if su_scheme parsed \<noteq> U ''https'' \<or> su_netloc parsed \<noteq> U ''api.github.com''
                   \<or> su_path parsed \<noteq> su_path expected \<or> url_has_user parsed
                then Inl INVALID_PAGINATION
                else and_then (url_port parsed) (\<lambda>port.
                  case query_value (U ''page'') (su_query parsed) of
                    None \<Rightarrow> Inl INVALID_PAGINATION
                  | Some raw \<Rightarrow>
                      if port \<noteq> None \<or> su_fragment parsed \<noteq> [] \<or> \<not> isdigit (gp_digits gp) raw
                      then Inl INVALID_PAGINATION
                      else and_then (int_of_digits (gp_digits gp) raw) (\<lambda>n.
                             if n \<le> current then Inl INVALID_PAGINATION else Inr (Some n)))))
      | _ \<Rightarrow> Inl INVALID_PAGINATION)"

definition MAX_PAGES :: nat where
  "MAX_PAGES = 1000"

text \<open>
  \<open>for page in self._get_list_pages(url, params={})\<close> with the body \<open>visit\<close>: \<open>Inl\<close> leaves the loop with a value,
  \<open>Inr\<close> goes on.  The first argument counts the pages that may still be read.
\<close>

fun each_page ::
  "nat \<Rightarrow> 's github \<Rightarrow> pystr \<Rightarrow> int list \<Rightarrow> int \<Rightarrow> ('b \<Rightarrow> (pystr \<times> json) list list \<Rightarrow> pyexc + 'c + 'b) \<Rightarrow> 'b
    \<Rightarrow> ('s, 'c + 'b) io" where
  "each_page 0 gp url visited page visit acc = throw INVALID_PAGINATION"
| "each_page (Suc n) gp url visited page visit acc =
     (if page \<in> set visited then throw INVALID_PAGINATION
      else
        seq (get_response gp url [(U ''per_page'', JInt 100), (U ''page'', JInt page)]) (\<lambda>r.
        seq (guard_io (hr_status r \<noteq> 200) (bad_status r)) (\<lambda>_.
        seq (lift (response_dicts r)) (\<lambda>payload.
        seq (lift (visit acc payload)) (\<lambda>out.
          case out of
            Inl value \<Rightarrow> ret (Inl value)
          | Inr acc' \<Rightarrow>
              seq (lift (next_page gp r url page)) (\<lambda>next.
                case (if next = None \<and> length payload = 100 then Some (page + 1) else next) of
                  None \<Rightarrow> ret (Inr acc')
                | Some p \<Rightarrow> each_page n gp url (page # visited) p visit acc'))))))"

definition all_pages ::
  "'s github \<Rightarrow> pystr \<Rightarrow> ('b \<Rightarrow> (pystr \<times> json) list list \<Rightarrow> pyexc + 'c + 'b) \<Rightarrow> 'b \<Rightarrow> ('s, 'c + 'b) io" where
  "all_pages gp url visit acc = each_page MAX_PAGES gp url [] 1 visit acc"

section \<open>Answers\<close>

definition jget :: "(pystr \<times> json) list \<Rightarrow> pystr \<Rightarrow> json" where
  "jget d k = dict_get_default d k JNull"

text \<open>\<open>value in {..}\<close> for a set of strings raises a \<open>TypeError\<close> for a list or a dict.\<close>

definition in_strings :: "json \<Rightarrow> pystr list \<Rightarrow> pyexc + bool" where
  "in_strings v xs =
     (case v of
        JList _ \<Rightarrow> Inl (raise_exc TypeError [])
      | JObj _ \<Rightarrow> Inl (raise_exc TypeError [])
      | JStr s \<Rightarrow> Inr (s \<in> set xs)
      | _ \<Rightarrow> Inr False)"

fun str_of :: "json \<Rightarrow> pystr option" where
  "str_of (JStr s) = Some s"
| "str_of _ = None"

fun int_of :: "json \<Rightarrow> int option" where
  "int_of (JInt i) = Some i"
| "int_of _ = None"

fun dict_of :: "json \<Rightarrow> (pystr \<times> json) list option" where
  "dict_of (JObj d) = Some d"
| "dict_of _ = None"

definition login_of :: "(pystr \<times> json) list \<Rightarrow> pyexc + pystr" where
  "login_of payload =
     (case str_of (jget payload (U ''login'')) of
        Some login \<Rightarrow> if publisher_name login then Inr login else Inl INVALID_RESPONSE
      | None \<Rightarrow> Inl INVALID_RESPONSE)"

text \<open>\<open>payload.get(key, {}).get(inner, default)\<close>: a value that is no dict has no \<open>get\<close>.\<close>

definition nested_get :: "(pystr \<times> json) list \<Rightarrow> pystr \<Rightarrow> pystr \<Rightarrow> json \<Rightarrow> pyexc + json" where
  "nested_get d key inner dflt =
     (case dict_get_default d key (JObj []) of
        JObj e \<Rightarrow> Inr (dict_get_default e inner dflt)
      | _ \<Rightarrow> Inl (raise_exc AttributeError []))"

definition FORK_MISMATCH :: pyexc where
  "FORK_MISMATCH = fork_mismatch (U ''github repository is not the expected fork'')"

definition check_fork :: "'s github \<Rightarrow> pystr \<Rightarrow> pystr \<Rightarrow> pystr \<Rightarrow> bool \<Rightarrow> (pystr \<times> json) list \<Rightarrow> pyexc + fork_result" where
  "check_fork gp login owner name created payload =
     (let lower = py_lower (gp_lower gp)
      in and_then (guard_raise (jget payload (U ''fork'') \<noteq> JBool True) FORK_MISMATCH) (\<lambda>_.
         and_then (nested_get payload (U ''owner'') (U ''login'') JNull) (\<lambda>fork_owner.
         and_then (guard_raise (fork_owner \<noteq> JStr login) FORK_MISMATCH) (\<lambda>_.
         and_then (nested_get payload (U ''parent'') (U ''full_name'') (JStr [])) (\<lambda>parent.
         and_then (guard_raise (lower (py_str (gp_lib gp) parent) \<noteq> lower (owner @ [47] @ name)) FORK_MISMATCH) (\<lambda>_.
         (case str_of (jget payload (U ''clone_url'')) of
            None \<Rightarrow> Inl INVALID_RESPONSE
          | Some clone_url \<Rightarrow>
              and_then (normalize_github_url (gp_bad_netloc gp) clone_url) (\<lambda>url.
              and_then (normalize_github_url (gp_bad_netloc gp) (github_clone_url login name)) (\<lambda>expected.
              and_then (guard_raise (lower url \<noteq> lower expected) FORK_MISMATCH) (\<lambda>_.
                Inr \<lparr>fk_url = url, fk_owner = login, fk_created = created\<rparr>))))))))))"

record publish_result =
  pu_url :: pystr
  pu_number :: int
  pu_state :: pystr
  pu_fork_url :: pystr
  pu_branch :: pystr
  pu_created :: bool

definition publish_result_of :: "(pystr \<times> json) list \<Rightarrow> pystr \<Rightarrow> pystr \<Rightarrow> bool \<Rightarrow> pyexc + publish_result" where
  "publish_result_of payload fork_url branch created =
     (case (str_of (jget payload (U ''html_url'')), int_of (jget payload (U ''number''))) of
        (Some url, Some number) \<Rightarrow>
          if number < 1 then Inl INVALID_RESPONSE
          else and_then (in_strings (jget payload (U ''state'')) [U ''open'', U ''closed'']) (\<lambda>known.
            case str_of (jget payload (U ''state'')) of
              Some state \<Rightarrow>
                if known then Inr \<lparr>pu_url = url, pu_number = number, pu_state = state, pu_fork_url = fork_url,
                                 pu_branch = branch, pu_created = created\<rparr>
                else Inl INVALID_RESPONSE
            | None \<Rightarrow> Inl INVALID_RESPONSE)
      | _ \<Rightarrow> Inl INVALID_RESPONSE)"

definition pull_details_of ::
  "'s github \<Rightarrow> (pystr \<times> json) list \<Rightarrow> pystr \<Rightarrow> pystr \<Rightarrow> int \<Rightarrow> pyexc + pull_details" where
  "pull_details_of gp payload owner name number =
     (let get = jget payload
      in case (int_of (get (U ''number'')), str_of (get (U ''html_url'')), str_of (get (U ''state'')),
               get (U ''merged''), dict_of (get (U ''base'')), dict_of (get (U ''head''))) of
        (Some n, Some url, Some state, JBool merged, Some base, Some head) \<Rightarrow>
          if n \<noteq> number
             \<or> url \<noteq> U ''https://github.com/'' @ owner @ [47] @ name @ U ''/pull/'' @ int_str number
             \<or> state \<notin> {U ''open'', U ''closed''}
          then Inl INVALID_PULL
          else (case (str_of (jget base (U ''sha'')), str_of (jget head (U ''sha'')), str_of (jget base (U ''ref'')),
                      str_of (jget head (U ''ref'')), dict_of (jget head (U ''repo''))) of
            (Some base_sha, Some head_sha, Some base_ref, Some head_ref, Some head_repo) \<Rightarrow>
              if \<not> sha_ok base_sha \<or> \<not> sha_ok head_sha then Inl INVALID_PULL
              else (case and_then (validate_branch base_ref) (\<lambda>_. and_then (validate_branch head_ref) (\<lambda>_.
                           normalize_github_json (gp_bad_netloc gp) (jget head_repo (U ''clone_url'')))) of
                Inl e \<Rightarrow> Inl (if isinstance e InvalidPublisherInput \<or> isinstance e UnsupportedPublisher then INVALID_PULL else e)
              | Inr head_url \<Rightarrow>
                  if py_lower (gp_lower gp) (py_str (gp_lib gp) (dict_get_default head_repo (U ''full_name'') (JStr [])))
                     \<noteq> py_lower (gp_lower gp) (removesuffix (removeprefix head_url (U ''https://github.com/'')) (U ''.git''))
                  then Inl INVALID_PULL
                  else Inr \<lparr>pd_number = n, pd_url = url, pd_state = state, pd_merged = merged,
                         pd_base_sha = py_lower (gp_lower gp) base_sha, pd_head_sha = py_lower (gp_lower gp) head_sha,
                         pd_base_ref = base_ref, pd_head_ref = head_ref, pd_head_repository_url = head_url\<rparr>)
          | _ \<Rightarrow> Inl INVALID_PULL)
      | _ \<Rightarrow> Inl INVALID_PULL)"

definition feedback_item_of :: "pystr \<Rightarrow> (pystr \<times> json) list \<Rightarrow> pyexc + feedback_item option" where
  "feedback_item_of kind payload =
     (let invalid = remote_failure (U ''github returned invalid pull request feedback'')
      in and_then (in_strings (jget payload (U ''body'')) [[]]) (\<lambda>empty.
         if empty \<or> jget payload (U ''body'') = JNull then Inr None
         else case (int_of (jget payload (U ''id'')), str_of (jget payload (U ''body'')), str_of (jget payload (U ''html_url'')),
                    Option.bind (dict_of (jget payload (U ''user''))) (\<lambda>u. str_of (jget u (U ''login''))),
                    str_of (jget payload (U ''author_association''))) of
           (Some i, Some body, Some url, Some login, Some association) \<Rightarrow>
             if kind \<notin> {U ''issue_comment'', U ''review'', U ''review_comment''} then Inl invalid
             else Inr (Some \<lparr>fbi_provider_id = kind @ [58] @ int_str i, fbi_kind = kind, fbi_author = login,
                    fbi_author_association = association, fbi_body = body, fbi_url = url,
                    fbi_path = str_of (jget payload (U ''path'')), fbi_line = int_of (jget payload (U ''line''))\<rparr>)
         | _ \<Rightarrow> Inl invalid))"

definition comment_url :: "'s github \<Rightarrow> json \<Rightarrow> pystr \<Rightarrow> pystr \<Rightarrow> int \<Rightarrow> pyexc + pystr" where
  "comment_url gp v owner name number =
     (case str_of v of
        None \<Rightarrow> Inl INVALID_COMMENT
      | Some s \<Rightarrow>
        (case urlsplit (gp_bad_netloc gp) s of
           Inl _ \<Rightarrow> Inl INVALID_COMMENT
         | Inr parsed \<Rightarrow>
           (case url_port parsed of
              Inl _ \<Rightarrow> Inl INVALID_COMMENT
            | Inr port \<Rightarrow>
                (let f = su_fragment parsed; digits = removeprefix f (U ''issuecomment-'')
                 in if su_scheme parsed \<noteq> U ''https'' \<or> url_hostname parsed \<noteq> Some (U ''github.com'')
                       \<or> url_has_user parsed \<or> port \<noteq> None \<or> su_query parsed \<noteq> []
                       \<or> su_path parsed \<noteq> [47] @ owner @ [47] @ name @ U ''/pull/'' @ int_str number
                       \<or> \<not> startswith f (U ''issuecomment-'') \<or> digits = []
                       \<or> \<not> list_all (\<lambda>c. 48 \<le> c \<and> c \<le> 57) digits
                    then Inl INVALID_COMMENT else Inr s))))"

section \<open>Operations\<close>

text \<open>The loop that waits for a new fork: the argument counts the polls left; no poll succeeded is an error.\<close>

fun poll_fork :: "'s github \<Rightarrow> pystr \<Rightarrow> nat \<Rightarrow> ('s, (pystr \<times> json) list) io" where
  "poll_fork gp url 0 = throw (raise_exc ForkNotReady (U ''github fork did not become available''))"
| "poll_fork gp url (Suc n) =
     seq (gp_sleep gp (gp_poll_interval gp)) (\<lambda>_.
     seq (get_optional_dict gp url) (\<lambda>payload.
       case payload of Some d \<Rightarrow> ret d | None \<Rightarrow> poll_fork gp url n))"

definition validate_names :: "pystr \<Rightarrow> pystr \<Rightarrow> pyexc + unit" where
  "validate_names owner name =
     and_then (validate_name owner (U ''upstream owner'')) (\<lambda>_. validate_name name (U ''repository name''))"

definition ensure_fork :: "'s github \<Rightarrow> pystr \<Rightarrow> pystr \<Rightarrow> ('s, fork_result) io" where
  "ensure_fork gp owner name =
     seq (lift (validate_names owner name)) (\<lambda>_.
     seq (get_dict gp (api (U ''user''))) (\<lambda>user.
     seq (lift (login_of user)) (\<lambda>login.
     (let fork_url = repo_url login name []
      in seq (get_optional_dict gp fork_url) (\<lambda>found.
         case found of
           Some payload \<Rightarrow> lift (check_fork gp login owner name False payload)
         | None \<Rightarrow>
             seq (post_response gp (repo_url owner name (U ''/forks'')) (JObj [])) (\<lambda>r.
             seq (guard_io (\<not> (200 \<le> hr_status r \<and> hr_status r < 300)) (bad_status r)) (\<lambda>_.
             seq (poll_fork gp fork_url (gp_poll_attempts gp)) (\<lambda>payload.
               lift (check_fork gp login owner name True payload)))))))))"

definition pull_payload :: "pystr \<Rightarrow> pystr \<Rightarrow> pystr \<Rightarrow> pystr \<Rightarrow> json" where
  "pull_payload title head base body =
     JObj [(U ''title'', JStr (strip title)), (U ''head'', JStr head), (U ''base'', JStr base), (U ''body'', JStr body),
           (U ''draft'', JBool False)]"

definition validate_publication :: "pystr \<Rightarrow> pystr \<Rightarrow> pystr \<Rightarrow> pystr \<Rightarrow> pystr \<Rightarrow> pyexc + unit" where
  "validate_publication owner name base branch title =
     and_then (validate_names owner name) (\<lambda>_.
     and_then (validate_branch base) (\<lambda>_.
     and_then (validate_branch branch) (\<lambda>_.
       guard_raise (strip title = []) (invalid_input (U ''pull request title must not be empty'')))))"

text \<open>\<open>publish\<close> from the lookup of the fork on, and before it.\<close>

definition publish_registered ::
  "'s github \<Rightarrow> pystr \<Rightarrow> pystr \<Rightarrow> pystr \<Rightarrow> pystr \<Rightarrow> pystr \<Rightarrow> pystr \<Rightarrow> pystr \<Rightarrow> pystr \<Rightarrow> ('s, publish_result) io" where
  "publish_registered gp workspace owner name base branch title body registered =
     seq (ensure_fork gp owner name) (\<lambda>fork.
     seq (guard_io (fk_url fork \<noteq> registered)
            (fork_mismatch (U ''github fork does not match the registered fork URL''))) (\<lambda>_.
     seq (gp_push gp workspace registered branch) (\<lambda>_.
     (let head = fk_owner fork @ [58] @ branch; pulls = repo_url owner name (U ''/pulls'')
      in seq (get_list gp pulls [(U ''state'', JStr (U ''all'')), (U ''head'', JStr head), (U ''base'', JStr base),
                (U ''per_page'', JInt 100)]) (\<lambda>existing.
         case existing of
           d # _ \<Rightarrow> lift (publish_result_of d registered branch False)
         | [] \<Rightarrow>
             seq (post_dict gp pulls (pull_payload title head base body)) (\<lambda>payload.
               lift (publish_result_of payload registered branch True)))))))"

definition publish_pull ::
  "'s github \<Rightarrow> pystr \<Rightarrow> pystr \<Rightarrow> pystr \<Rightarrow> pystr \<Rightarrow> pystr \<Rightarrow> pystr \<Rightarrow> pystr \<Rightarrow> ('s, publish_result) io" where
  "publish_pull gp workspace owner name base branch title body =
     seq (lift (validate_publication owner name base branch title)) (\<lambda>_.
     seq (gp_is_dir gp workspace) (\<lambda>is_dir.
     seq (guard_io (\<not> is_dir) (invalid_input (U ''publish workspace must be an existing directory''))) (\<lambda>_.
     (case map_of (gp_forks gp) (py_lower (gp_lower gp) owner, py_lower (gp_lower gp) name) of
        None \<Rightarrow> throw (fork_mismatch (U ''no fork is registered for the upstream repository''))
      | Some registered \<Rightarrow> publish_registered gp workspace owner name base branch title body registered))))"

definition collect_feedback ::
  "pystr \<Rightarrow> feedback_item list \<Rightarrow> (pystr \<times> json) list list \<Rightarrow> pyexc + unit + feedback_item list" where
  "collect_feedback kind acc payload =
     and_then (map_raise (feedback_item_of kind) payload) (\<lambda>items. Inr (Inr (acc @ List.map_filter id items)))"

fun feedback_pages :: "'s github \<Rightarrow> (pystr \<times> pystr) list \<Rightarrow> feedback_item list \<Rightarrow> ('s, feedback_item list) io" where
  "feedback_pages gp [] acc = ret acc"
| "feedback_pages gp ((kind, url) # rest) acc =
     seq (all_pages gp url (collect_feedback kind) acc) (\<lambda>out.
       case out of Inl _ \<Rightarrow> ret acc | Inr acc' \<Rightarrow> feedback_pages gp rest acc')"

definition validate_pull :: "pystr \<Rightarrow> pystr \<Rightarrow> int \<Rightarrow> pyexc + unit" where
  "validate_pull owner name number = and_then (validate_names owner name) (\<lambda>_. validate_pr_number number)"

definition list_pr_feedback :: "'s github \<Rightarrow> pystr \<Rightarrow> pystr \<Rightarrow> int \<Rightarrow> ('s, feedback_item list) io" where
  "list_pr_feedback gp owner name number =
     seq (lift (validate_pull owner name number)) (\<lambda>_.
       feedback_pages gp
         [(U ''issue_comment'', repo_url owner name (U ''/issues/'' @ int_str number @ U ''/comments'')),
          (U ''review'', repo_url owner name (U ''/pulls/'' @ int_str number @ U ''/reviews'')),
          (U ''review_comment'', repo_url owner name (U ''/pulls/'' @ int_str number @ U ''/comments''))] [])"

definition get_pr_status :: "'s github \<Rightarrow> pystr \<Rightarrow> pystr \<Rightarrow> int \<Rightarrow> ('s, pystr) io" where
  "get_pr_status gp owner name number =
     seq (lift (validate_pull owner name number)) (\<lambda>_.
     seq (get_dict gp (repo_url owner name (U ''/pulls/'' @ int_str number))) (\<lambda>payload.
     seq (lift (in_strings (jget payload (U ''state'')) [U ''open'', U ''closed''])) (\<lambda>known.
       case (str_of (jget payload (U ''state'')), jget payload (U ''merged'')) of
         (Some state, JBool merged) \<Rightarrow>
           if known then ret (if merged then U ''merged'' else state)
           else throw (remote_failure (U ''github returned an invalid pull request status''))
       | _ \<Rightarrow> throw (remote_failure (U ''github returned an invalid pull request status'')))))"

definition get_pull_request :: "'s github \<Rightarrow> pystr \<Rightarrow> pystr \<Rightarrow> int \<Rightarrow> ('s, pull_details) io" where
  "get_pull_request gp owner name number =
     seq (lift (validate_pull owner name number)) (\<lambda>_.
     seq (get_dict gp (repo_url owner name (U ''/pulls/'' @ int_str number))) (\<lambda>payload.
       lift (pull_details_of gp payload owner name number)))"

text \<open>The search for a comment of the account that ends with the marker.\<close>

definition own_comment :: "pystr \<Rightarrow> pystr \<Rightarrow> (pystr \<times> json) list \<Rightarrow> bool" where
  "own_comment login marker d =
     (case (str_of (jget d (U ''body'')), dict_of (jget d (U ''user''))) of
        (Some body, Some user) \<Rightarrow> endswith body marker \<and> jget user (U ''login'') = JStr login
      | _ \<Rightarrow> False)"

definition find_comment ::
  "'s github \<Rightarrow> pystr \<Rightarrow> pystr \<Rightarrow> pystr \<Rightarrow> pystr \<Rightarrow> int \<Rightarrow> unit \<Rightarrow> (pystr \<times> json) list list \<Rightarrow> pyexc + pystr + unit" where
  "find_comment gp login marker owner name number _ comments =
     (case find (own_comment login marker) comments of
        None \<Rightarrow> Inr (Inr ())
      | Some d \<Rightarrow> and_then (comment_url gp (jget d (U ''html_url'')) owner name number) (\<lambda>url. Inr (Inl url)))"

definition comments_url :: "pystr \<Rightarrow> pystr \<Rightarrow> int \<Rightarrow> pystr" where
  "comments_url owner name number = repo_url owner name (U ''/issues/'' @ int_str number @ U ''/comments'')"

record comment_result =
  co_url :: pystr
  co_created :: bool

definition publish_pr_comment ::
  "'s github \<Rightarrow> pystr \<Rightarrow> pystr \<Rightarrow> int \<Rightarrow> pystr \<Rightarrow> pystr \<Rightarrow> ('s, comment_result) io" where
  "publish_pr_comment gp owner name number body marker =
     seq (lift (validate_pull owner name number)) (\<lambda>_.
     seq (guard_io (marker = []) (invalid_input (U ''pull request comment marker must not be empty''))) (\<lambda>_.
     seq (guard_io (\<not> endswith body marker)
            (invalid_input (U ''pull request comment body must end with its marker''))) (\<lambda>_.
     seq (get_dict gp (api (U ''user''))) (\<lambda>user.
     seq (lift (login_of user)) (\<lambda>login.
     seq (all_pages gp (comments_url owner name number) (find_comment gp login marker owner name number) ()) (\<lambda>found.
       case found of
         Inl url \<Rightarrow> ret \<lparr>co_url = url, co_created = False\<rparr>
       | Inr _ \<Rightarrow>
           seq (post_dict gp (comments_url owner name number) (JObj [(U ''body'', JStr body)])) (\<lambda>payload.
           seq (lift (comment_url gp (jget payload (U ''html_url'')) owner name number)) (\<lambda>url.
             ret \<lparr>co_url = url, co_created = True\<rparr>))))))))"

section \<open>What is written to the platform\<close>

datatype platform_write = Sent pystr json | Pushed pystr pystr pystr

text \<open>
  \<open>wr\<close> reads off a state what was sent and pushed so far; a request counts when it is made, also when it fails.
\<close>

definition logs_writes :: "'s github \<Rightarrow> ('s \<Rightarrow> platform_write list) \<Rightarrow> bool" where
  "logs_writes gp wr \<longleftrightarrow>
     (\<forall>u h p s. wr (snd (gp_observe gp u h p s)) = wr s) \<and> (\<forall>d s. wr (snd (gp_sleep gp d s)) = wr s)
     \<and> (\<forall>w s. wr (snd (gp_is_dir gp w s)) = wr s)
     \<and> (\<forall>u h j s. wr (snd (gp_send gp u h j s)) = wr s @ [Sent u j])
     \<and> (\<forall>w u b s. wr (snd (gp_push gp w u b s)) = wr s @ [Pushed w u b])"

definition reads :: "('s \<Rightarrow> platform_write list) \<Rightarrow> ('s, 'a) io \<Rightarrow> bool" where
  "reads wr m \<longleftrightarrow> (\<forall>s. wr (snd (m s)) = wr s)"

named_theorems reads_rules \<open>computations that write nothing\<close>

lemma reads_basic [reads_rules]:
  "reads wr (ret x)" "reads wr (throw e)" "reads wr (lift r)" "reads wr (guard_io b e)"
  by (simp_all add: reads_def ret_def throw_def lift_def guard_io_def)

lemma reads_seq [reads_rules]: "reads wr m \<Longrightarrow> (\<And>x. reads wr (f x)) \<Longrightarrow> reads wr (seq m f)"
  by (auto simp: reads_def seq_def split: prod.split sum.split) (metis snd_conv)+

lemma reads_if [reads_rules]: "reads wr m \<Longrightarrow> reads wr n \<Longrightarrow> reads wr (if b then m else n)"
  by simp

lemma reads_option [reads_rules]: "reads wr m \<Longrightarrow> (\<And>x. reads wr (f x)) \<Longrightarrow> reads wr (case v of None \<Rightarrow> m | Some x \<Rightarrow> f x)"
  by (cases v) simp_all

lemma reads_sum [reads_rules]: "(\<And>x. reads wr (f x)) \<Longrightarrow> (\<And>x. reads wr (g x)) \<Longrightarrow> reads wr (case v of Inl x \<Rightarrow> f x | Inr x \<Rightarrow> g x)"
  by (cases v) simp_all

lemma reads_triple: "reads wr m \<Longrightarrow> triple (\<lambda>s. R (wr s)) m (\<lambda>_ s. R (wr s)) (\<lambda>_ s. R (wr s))"
  unfolding reads_def by (rule tripleI) (metis snd_conv)+

lemma reads_get: "logs_writes gp wr \<Longrightarrow> reads wr (get_response gp url params)"
  unfolding get_response_def by (intro reads_rules) (simp add: reads_def logs_writes_def)

lemma reads_requests [reads_rules]:
  assumes "logs_writes gp wr"
  shows "reads wr (get_dict gp url)" "reads wr (get_optional_dict gp url)" "reads wr (get_list gp url params)"
    "reads wr (gp_is_dir gp w)" "reads wr (gp_sleep gp d)"
  unfolding get_dict_def get_optional_dict_def get_list_def
  using assms by (intro reads_rules reads_get | simp add: reads_def logs_writes_def)+

lemma reads_pages:
  assumes "logs_writes gp wr"
  shows "reads wr (each_page n gp url visited page visit acc)"
proof (induction n arbitrary: visited page acc)
  case (Suc n)
  show ?case unfolding each_page.simps by (intro reads_rules reads_get [OF assms] Suc.IH)
qed (simp add: reads_rules)

lemma reads_poll: "logs_writes gp wr \<Longrightarrow> reads wr (poll_fork gp url n)"
  by (induction n) (auto intro!: reads_rules)

lemma post_response_log:
  assumes "logs_writes gp wr"
  shows "triple (\<lambda>s. wr s = X) (post_response gp url j) (\<lambda>_ s. wr s = X @ [Sent url j]) (\<lambda>_ s. wr s = X @ [Sent url j])"
proof -
  have "wr (snd (post_response gp url j s)) = wr s @ [Sent url j]" for s
    using assms by (auto simp: post_response_def catch_def throw_def logs_writes_def split: prod.split sum.split)
      (metis snd_conv)+
  then show ?thesis by (intro tripleI) (metis snd_conv)+
qed

lemma post_dict_log:
  assumes "logs_writes gp wr"
  shows "triple (\<lambda>s. wr s = X) (post_dict gp url j) (\<lambda>_ s. wr s = X @ [Sent url j]) (\<lambda>_ s. wr s = X @ [Sent url j])"
  unfolding post_dict_def
proof (rule triple_seq [OF post_response_log [OF assms]])
  fix r
  have "reads wr (seq (guard_io (\<not> (200 \<le> hr_status r \<and> hr_status r < 300)) (bad_status r)) (\<lambda>_. lift (response_dict r)))"
    by (intro reads_rules)
  from reads_triple [OF this]
  show "triple (\<lambda>s. wr s = X @ [Sent url j])
      (seq (guard_io (\<not> (200 \<le> hr_status r \<and> hr_status r < 300)) (bad_status r)) (\<lambda>_. lift (response_dict r)))
      (\<lambda>_ s. wr s = X @ [Sent url j]) (\<lambda>_ s. wr s = X @ [Sent url j])" .
qed

lemma reads_keep:
  "reads wr m \<Longrightarrow> (\<And>e s. wr s = Y \<Longrightarrow> E e s) \<Longrightarrow> triple (\<lambda>s. wr s = Y) m (\<lambda>_ s. wr s = Y) E"
  by (rule triple_exc [OF reads_triple [of wr m "\<lambda>l. l = Y"]])

text \<open>The writes of \<open>ensure_fork\<close>, by whether it asks for a new fork.\<close>

definition fork_writes :: "pystr \<Rightarrow> pystr \<Rightarrow> bool \<Rightarrow> platform_write list" where
  "fork_writes owner name c = (if c then [Sent (repo_url owner name (U ''/forks'')) (JObj [])] else [])"

lemma fork_writes_simps [simp]: "fork_writes owner name False = []"
  by (simp add: fork_writes_def)

lemma check_fork_created: "check_fork gp l owner name c payload = Inr f \<Longrightarrow> fk_created f = c"
  by (auto simp: check_fork_def Let_def and_then_Inr split: option.splits)

lemma ensure_fork_writes:
  assumes "logs_writes gp wr"
  shows "triple (\<lambda>s. wr s = X) (ensure_fork gp owner name)
    (\<lambda>f s. wr s = X @ fork_writes owner name (fk_created f)) (\<lambda>_ s. \<exists>c. wr s = X @ fork_writes owner name c)"
    (is "triple _ _ ?Q ?E")
proof -
  have exc: "\<exists>c. l = X @ fork_writes owner name c" if "l = X @ fork_writes owner name d" for l d
    using that by blast
  have none: "\<exists>c. l = X @ fork_writes owner name c" if "l = X" for l
    using exc [of l False] that by simp
  have check: "triple (\<lambda>s. wr s = X @ fork_writes owner name c) (lift (check_fork gp l owner name c payload)) ?Q ?E"
    for l c payload
    by (rule triple_lift) (auto dest: check_fork_created)
  have create: "triple (\<lambda>s. wr s = X)
      (seq (post_response gp (repo_url owner name (U ''/forks'')) (JObj [])) (\<lambda>r.
       seq (guard_io (\<not> (200 \<le> hr_status r \<and> hr_status r < 300)) (bad_status r)) (\<lambda>_.
       seq (poll_fork gp url (gp_poll_attempts gp)) (\<lambda>payload.
         lift (check_fork gp l owner name True payload))))) ?Q ?E" for url l
  proof (rule triple_seq)
    show "triple (\<lambda>s. wr s = X) (post_response gp (repo_url owner name (U ''/forks'')) (JObj []))
        (\<lambda>_ s. wr s = X @ fork_writes owner name True) ?E"
      by (rule triple_weaken [OF post_response_log [OF assms]]) (auto simp: fork_writes_def)
    show "triple (\<lambda>s. wr s = X @ fork_writes owner name True)
       (seq (guard_io (\<not> (200 \<le> hr_status r \<and> hr_status r < 300)) (bad_status r)) (\<lambda>_.
        seq (poll_fork gp url (gp_poll_attempts gp)) (\<lambda>payload.
         lift (check_fork gp l owner name True payload)))) ?Q ?E" for r
      by (rule triple_seq [OF reads_keep], intro reads_rules, erule exc,
          rule triple_seq [OF reads_keep [OF reads_poll [OF assms]]], erule exc, rule check)
  qed
  show ?thesis
    unfolding ensure_fork_def Let_def
    by (rule triple_seq [OF reads_keep], intro reads_rules, erule none,
        rule triple_seq [OF reads_keep], intro reads_rules assms, erule none,
        rule triple_seq [OF reads_keep], intro reads_rules, erule none,
        rule triple_seq [OF reads_keep], intro reads_rules assms, erule none)
      (use create check [of False] in \<open>auto split: option.split\<close>)
qed

definition pull_writes :: "pystr \<Rightarrow> pystr \<Rightarrow> pystr \<Rightarrow> pystr \<Rightarrow> pystr \<Rightarrow> pystr \<Rightarrow> bool \<Rightarrow> platform_write list" where
  "pull_writes owner name title head base body c =
     (if c then [Sent (repo_url owner name (U ''/pulls'')) (pull_payload title head base body)] else [])"

lemma publish_result_fields:
  "publish_result_of payload u b c = Inr res \<Longrightarrow>
     pu_fork_url res = u \<and> pu_branch res = b \<and> pu_created res = c \<and> 1 \<le> pu_number res
     \<and> pu_state res \<in> {U ''open'', U ''closed''}"
  by (auto simp: publish_result_of_def in_strings_def and_then_Inr split: option.splits if_splits json.splits)

text \<open>What \<open>publish\<close> writes up to the point where it stops, and all it writes when it succeeds.\<close>

definition publication_writes ::
  "'s github \<Rightarrow> pystr \<Rightarrow> pystr \<Rightarrow> pystr \<Rightarrow> pystr \<Rightarrow> pystr \<Rightarrow> pystr \<Rightarrow> pystr \<Rightarrow> bool \<Rightarrow> pystr \<Rightarrow> bool
    \<Rightarrow> platform_write list option" where
  "publication_writes gp workspace owner name base branch title body forked fork_owner created =
     map_option (\<lambda>registered. fork_writes owner name forked @ [Pushed workspace registered branch]
         @ pull_writes owner name title (fork_owner @ [58] @ branch) base body created)
       (map_of (gp_forks gp) (py_lower (gp_lower gp) owner, py_lower (gp_lower gp) name))"

definition publication_stopped ::
  "'s github \<Rightarrow> pystr \<Rightarrow> pystr \<Rightarrow> pystr \<Rightarrow> pystr \<Rightarrow> pystr \<Rightarrow> pystr \<Rightarrow> pystr \<Rightarrow> platform_write list \<Rightarrow> bool" where
  "publication_stopped gp workspace owner name base branch title body ws \<longleftrightarrow> ws = []
     \<or> (\<exists>forked fork_owner all. publication_writes gp workspace owner name base branch title body forked fork_owner True = Some all
          \<and> prefix ws all)"

lemma publish_pull_writes:
  assumes "logs_writes gp wr"
  shows "triple (\<lambda>s. wr s = X) (publish_pull gp workspace owner name base branch title body)
    (\<lambda>res s. \<exists>forked fork_owner all. wr s = X @ all
       \<and> publication_writes gp workspace owner name base branch title body forked fork_owner (pu_created res) = Some all
       \<and> map_of (gp_forks gp) (py_lower (gp_lower gp) owner, py_lower (gp_lower gp) name) = Some (pu_fork_url res)
       \<and> pu_branch res = branch \<and> 1 \<le> pu_number res \<and> pu_state res \<in> {U ''open'', U ''closed''})
    (\<lambda>_ s. \<exists>ws. wr s = X @ ws \<and> publication_stopped gp workspace owner name base branch title body ws)"
    (is "triple _ _ ?Q ?E")
proof -
  let ?key = "(py_lower (gp_lower gp) owner, py_lower (gp_lower gp) name)"
  have none: "\<exists>ws. l = X @ ws \<and> publication_stopped gp workspace owner name base branch title body ws" if "l = X" for l
    using that by (simp add: publication_stopped_def)
  have registered: "triple (\<lambda>s. wr s = X) (publish_registered gp workspace owner name base branch title body u) ?Q ?E"
    if u: "map_of (gp_forks gp) ?key = Some u" for u
  proof -
    let ?all = "\<lambda>c fo d. fork_writes owner name c @ [Pushed workspace u branch]
      @ pull_writes owner name title (fo @ [58] @ branch) base body d"
    have stop: "\<exists>ws. l = X @ ws \<and> publication_stopped gp workspace owner name base branch title body ws"
      if "l = X @ ws" "prefix ws (?all c fo True)" for l ws c fo
    proof (intro exI conjI)
      show "publication_stopped gp workspace owner name base branch title body ws"
        unfolding publication_stopped_def publication_writes_def using u that(2) by auto
    qed (rule that)
    have stop_fork: "\<exists>ws. l = X @ ws \<and> publication_stopped gp workspace owner name base branch title body ws"
      if "l = X @ fork_writes owner name c" for l c
      by (rule stop [OF that, of c "[]"]) simp
    have stop_push: "\<exists>ws. l = X @ ws \<and> publication_stopped gp workspace owner name base branch title body ws"
      if "l = X @ fork_writes owner name c @ [Pushed workspace u branch]" for l c
      by (rule stop [OF that, of c "[]"]) simp
    have stop_all: "\<exists>ws. l = X @ ws \<and> publication_stopped gp workspace owner name base branch title body ws"
      if "l = X @ ?all c fo d" for l c fo d
      by (rule stop [OF that, of c fo]) (simp add: pull_writes_def)
    have result: "triple (\<lambda>s. wr s = X @ ?all c fo d) (lift (publish_result_of payload u branch d)) ?Q ?E" for c fo d payload
    proof (rule triple_lift)
      fix s res assume "wr s = X @ ?all c fo d" "publish_result_of payload u branch d = Inr res"
      with publish_result_fields [OF this(2)] u show "?Q res s"
        by (intro exI [of _ c] exI [of _ fo] exI [of _ "?all c fo d"]) (simp add: publication_writes_def)
    qed (erule stop_all)
    show ?thesis
      unfolding publish_registered_def Let_def
    proof (rule triple_seq)
      show "triple (\<lambda>s. wr s = X) (ensure_fork gp owner name)
          (\<lambda>f s. wr s = X @ fork_writes owner name (fk_created f)) ?E"
        by (rule triple_exc [OF ensure_fork_writes [OF assms]]) (auto intro: stop_fork)
      fix fork
      let ?c = "fk_created fork"
      have push: "triple (\<lambda>s. wr s = X @ fork_writes owner name ?c) (gp_push gp workspace u branch)
          (\<lambda>_ s. wr s = X @ fork_writes owner name ?c @ [Pushed workspace u branch]) ?E"
      proof -
        have "wr (snd (gp_push gp workspace u branch s)) = wr s @ [Pushed workspace u branch]" for s
          using assms by (simp add: logs_writes_def)
        then have after: "wr s' = wr s @ [Pushed workspace u branch]" if "gp_push gp workspace u branch s = (r, s')" for r s s'
          using that by (metis snd_conv)
        show ?thesis
          by (rule tripleI, rule stop_push [of _ ?c]) (simp_all add: after)
      qed
      have pull: "triple (\<lambda>s. wr s = X @ fork_writes owner name ?c @ [Pushed workspace u branch])
          (post_dict gp (repo_url owner name (U ''/pulls'')) (pull_payload title (fk_owner fork @ [58] @ branch) base body))
          (\<lambda>_ s. wr s = X @ ?all ?c (fk_owner fork) True) ?E"
        by (rule triple_weaken [OF post_dict_log [OF assms, of _ _ _ ]])
          (auto simp: pull_writes_def intro!: stop_all [of _ ?c "fk_owner fork" True])
      have existing: "triple (\<lambda>s. wr s = X @ fork_writes owner name ?c @ [Pushed workspace u branch])
          (lift (publish_result_of d u branch False)) ?Q ?E" for d
        using result [of ?c "[]" False d] by (simp add: pull_writes_def)
      show "triple (\<lambda>s. wr s = X @ fork_writes owner name ?c)
        (seq (guard_io (fk_url fork \<noteq> u) (fork_mismatch (U ''github fork does not match the registered fork URL''))) (\<lambda>_.
         seq (gp_push gp workspace u branch) (\<lambda>_.
         seq (get_list gp (repo_url owner name (U ''/pulls'')) [(U ''state'', JStr (U ''all'')),
              (U ''head'', JStr (fk_owner fork @ [58] @ branch)), (U ''base'', JStr base), (U ''per_page'', JInt 100)]) (\<lambda>existing.
         case existing of
           d # _ \<Rightarrow> lift (publish_result_of d u branch False)
         | [] \<Rightarrow>
             seq (post_dict gp (repo_url owner name (U ''/pulls'')) (pull_payload title (fk_owner fork @ [58] @ branch) base body)) (\<lambda>payload.
               lift (publish_result_of payload u branch True)))))) ?Q ?E"
        by (rule triple_seq [OF reads_keep], intro reads_rules, erule stop_fork, rule triple_seq [OF push],
            rule triple_seq [OF reads_keep], intro reads_rules assms, erule stop_push)
          (use existing triple_seq [OF pull result] in \<open>auto split: list.split\<close>)
    qed
  qed
  show ?thesis
    unfolding publish_pull_def
    by (rule triple_seq [OF reads_keep], intro reads_rules, erule none,
        rule triple_seq [OF reads_keep], intro reads_rules assms, erule none,
        rule triple_seq [OF reads_keep], intro reads_rules, erule none)
      (use registered none in \<open>auto intro!: triple_throw split: option.split\<close>)
qed

subsection \<open>Comments\<close>

definition comment_writes :: "pystr \<Rightarrow> pystr \<Rightarrow> int \<Rightarrow> pystr \<Rightarrow> bool \<Rightarrow> platform_write list" where
  "comment_writes owner name number body c =
     (if c then [Sent (comments_url owner name number) (JObj [(U ''body'', JStr body)])] else [])"

lemma comment_log:
  assumes "logs_writes gp wr"
  shows "triple (\<lambda>s. wr s = X) (publish_pr_comment gp owner name number body marker)
    (\<lambda>res s. wr s = X @ comment_writes owner name number body (co_created res))
    (\<lambda>_ s. \<exists>c. wr s = X @ comment_writes owner name number body c)"
    (is "triple _ _ ?Q ?E")
proof -
  have exc: "\<exists>c. l = X @ comment_writes owner name number body c" if "l = X @ comment_writes owner name number body d" for l d
    using that by blast
  have none: "\<exists>c. l = X @ comment_writes owner name number body c" if "l = X" for l
    using exc [of l False] that by (simp add: comment_writes_def)
  have found: "triple (\<lambda>s. wr s = X) (ret \<lparr>co_url = url, co_created = False\<rparr>) ?Q ?E" for url
    by (rule triple_ret) (simp add: comment_writes_def)
  have create: "triple (\<lambda>s. wr s = X)
      (seq (post_dict gp (comments_url owner name number) (JObj [(U ''body'', JStr body)])) (\<lambda>payload.
       seq (lift (comment_url gp (jget payload (U ''html_url'')) owner name number)) (\<lambda>url.
         ret \<lparr>co_url = url, co_created = True\<rparr>))) ?Q ?E"
  proof (rule triple_seq)
    show "triple (\<lambda>s. wr s = X) (post_dict gp (comments_url owner name number) (JObj [(U ''body'', JStr body)]))
        (\<lambda>_ s. wr s = X @ comment_writes owner name number body True) ?E"
      by (rule triple_weaken [OF post_dict_log [OF assms]]) (auto simp: comment_writes_def)
    show "triple (\<lambda>s. wr s = X @ comment_writes owner name number body True)
       (seq (lift (comment_url gp (jget payload (U ''html_url'')) owner name number)) (\<lambda>url.
         ret \<lparr>co_url = url, co_created = True\<rparr>)) ?Q ?E" for payload
      by (rule triple_seq [OF reads_keep], intro reads_rules, erule exc, rule triple_ret) simp
  qed
  show ?thesis
    unfolding publish_pr_comment_def all_pages_def
    by (rule triple_seq [OF reads_keep], intro reads_rules, erule none,
        rule triple_seq [OF reads_keep], intro reads_rules, erule none,
        rule triple_seq [OF reads_keep], intro reads_rules, erule none,
        rule triple_seq [OF reads_keep], intro reads_rules assms, erule none,
        rule triple_seq [OF reads_keep], intro reads_rules, erule none,
        rule triple_seq [OF reads_keep], rule reads_pages [OF assms], erule none)
      (use found create in \<open>auto split: sum.split\<close>)
qed

text \<open>All items of all pages.\<close>

definition gather :: "(pystr \<times> json) list list \<Rightarrow> (pystr \<times> json) list list \<Rightarrow> pyexc + unit + (pystr \<times> json) list list" where
  "gather acc payload = Inr (Inr (acc @ payload))"

lemma sum_at:
  "(case v of Inl x \<Rightarrow> f x | Inr y \<Rightarrow> g y) s = r \<longleftrightarrow> (\<exists>x. v = Inl x \<and> f x s = r) \<or> (\<exists>y. v = Inr y \<and> g y s = r)"
  by (cases v) auto

lemma find_comment_none:
  "find_comment gp login marker owner name number u payload = Inr (Inr v) \<Longrightarrow> list_all (\<lambda>d. \<not> own_comment login marker d) payload"
  by (auto simp: find_comment_def and_then_Inr find_None_iff list_all_iff split: option.splits)

lemma each_page_gather:
  assumes "each_page n gp url visited page (find_comment gp login marker owner name number) u s = (Inr (Inr v), s')"
  shows "\<exists>cs. each_page n gp url visited page gather acc s = (Inr (Inr (acc @ cs)), s')
    \<and> list_all (\<lambda>d. \<not> own_comment login marker d) cs"
  using assms
proof (induction n arbitrary: visited page u s acc)
  case 0
  then show ?case by (simp add: throw_def)
next
  case (Suc n)
  let ?F = "find_comment gp login marker owner name number"
  define k where "k = (\<lambda>(payload :: (pystr \<times> json) list list) p acc'.
    case (if p = None \<and> length payload = 100 then Some (page + 1) else p) of
      None \<Rightarrow> ret (Inr acc') | Some q \<Rightarrow> each_page n gp url (page # visited) q ?F acc')"
  have "each_page (Suc n) gp url visited page ?F u =
     (if page \<in> set visited then throw INVALID_PAGINATION
      else
        seq (get_response gp url [(U ''per_page'', JInt 100), (U ''page'', JInt page)]) (\<lambda>r.
        seq (guard_io (hr_status r \<noteq> 200) (bad_status r)) (\<lambda>_.
        seq (lift (response_dicts r)) (\<lambda>payload.
        seq (lift (?F u payload)) (\<lambda>out.
          case out of Inl value \<Rightarrow> ret (Inl value)
          | Inr acc' \<Rightarrow> seq (lift (next_page gp r url page)) (\<lambda>next. k payload next acc'))))))"
    unfolding each_page.simps k_def by (rule refl)
  with Suc.prems obtain r t payload u' p where *: "page \<notin> set visited"
    "get_response gp url [(U ''per_page'', JInt 100), (U ''page'', JInt page)] s = (Inr r, t)"
    "\<not> hr_status r \<noteq> 200" "response_dicts r = Inr payload"
    "?F u payload = Inr (Inr u')" "next_page gp r url page = Inr p" and last_step: "k payload p u' t = (Inr (Inr v), s')"
    by (auto simp: seq_Inr lift_Inr guard_Inr sum_at throw_def ret_def split: if_split_asm)
  have cont: "(case (if p = None \<and> length payload = 100 then Some (page + 1) else p) of
      None \<Rightarrow> ret (Inr u') | Some q \<Rightarrow> each_page n gp url (page # visited) q ?F u') t = (Inr (Inr v), s')"
    using last_step unfolding k_def .
  note none = find_comment_none [OF *(5)]
  have step: "each_page (Suc n) gp url visited page gather acc s =
      (case (if p = None \<and> length payload = 100 then Some (page + 1) else p) of
          None \<Rightarrow> ret (Inr (acc @ payload))
        | Some q \<Rightarrow> each_page n gp url (page # visited) q gather (acc @ payload)) t"
    using * by (simp add: seq_def lift_def guard_io_def ret_def gather_def)
  show ?case
  proof (cases "if p = None \<and> length payload = 100 then Some (page + 1) else p")
    case None
    with cont have "s' = t" by (simp add: ret_def)
    with None none show ?thesis unfolding step by (intro exI [of _ payload]) (simp add: ret_def)
  next
    case (Some q)
    with cont have "each_page n gp url (page # visited) q (find_comment gp login marker owner name number) u' t = (Inr (Inr v), s')"
      by simp
    from Suc.IH [OF this, of "acc @ payload"] obtain cs where
      "each_page n gp url (page # visited) q gather (acc @ payload) t = (Inr (Inr (acc @ payload @ cs)), s')"
      "list_all (\<lambda>d. \<not> own_comment login marker d) cs" by auto
    with Some none show ?thesis unfolding step by (intro exI [of _ "payload @ cs"]) simp
  qed
qed

lemma comment_created_new:
  assumes "publish_pr_comment gp owner name number body marker s = (Inr res, s')" "co_created res"
  obtains user t login cs t' where "get_dict gp (api (U ''user'')) s = (Inr user, t)" "login_of user = Inr login"
    "all_pages gp (comments_url owner name number) gather [] t = (Inr (Inr cs), t')"
    "\<not> list_ex (own_comment login marker) cs"
proof -
  from assms obtain user t login v t' where
    "get_dict gp (api (U ''user'')) s = (Inr user, t)" "login_of user = Inr login"
    "all_pages gp (comments_url owner name number) (find_comment gp login marker owner name number) () t = (Inr (Inr v), t')"
    by (auto simp: publish_pr_comment_def seq_Inr lift_Inr guard_Inr sum_at ret_def)
  with each_page_gather [of MAX_PAGES gp "comments_url owner name number" "[]" 1 login marker owner name number "()" t v t' "[]"]
  show ?thesis by (auto simp: all_pages_def list_ex_iff list_all_iff intro!: that)
qed

section \<open>Nothing is published twice\<close>

text \<open>
  C40: What is written to GitHub, whatever it answers and wherever a call fails.  A successful publication is at most
  one request for a fork, then exactly one push of the branch to the registered fork, then a pull request exactly
  when the result says it was created; a failed one stopped somewhere within that sequence, so a retry never finds
  more than one push and one pull request of its predecessor.  Publishing a comment sends at most one comment; it is
  reported as created exactly when it was sent, and it is sent only after the listing of all comments of the pull
  request showed none of the account's own that ends with the marker.
\<close>

theorem platform_writes_are_single:
  assumes "logs_writes gp wr"
  shows "(case publish_pull gp workspace owner name base branch title body s of
      (Inr res, s') \<Rightarrow> \<exists>forked fork_owner all. wr s' = wr s @ all
         \<and> publication_writes gp workspace owner name base branch title body forked fork_owner (pu_created res) = Some all
         \<and> map_of (gp_forks gp) (py_lower (gp_lower gp) owner, py_lower (gp_lower gp) name) = Some (pu_fork_url res)
         \<and> pu_branch res = branch \<and> 1 \<le> pu_number res \<and> pu_state res \<in> {U ''open'', U ''closed''}
    | (Inl e, s') \<Rightarrow>
        \<exists>ws. wr s' = wr s @ ws \<and> publication_stopped gp workspace owner name base branch title body ws)
    \<and> (case publish_pr_comment gp owner name number text_body marker s of
      (Inr res, s') \<Rightarrow> wr s' = wr s @ comment_writes owner name number text_body (co_created res)
         \<and> (co_created res \<longrightarrow> (\<exists>user t login cs t'. get_dict gp (api (U ''user'')) s = (Inr user, t)
              \<and> login_of user = Inr login \<and> all_pages gp (comments_url owner name number) gather [] t = (Inr (Inr cs), t')
              \<and> \<not> list_ex (own_comment login marker) cs))
    | (Inl e, s') \<Rightarrow> \<exists>c. wr s' = wr s @ comment_writes owner name number text_body c)"
    (is "?P \<and> ?C")
proof
  obtain r s' where run: "publish_pull gp workspace owner name base branch title body s = (r, s')" by fastforce
  note T = publish_pull_writes [OF assms, of "wr s" workspace owner name base branch title body]
  show ?P
  proof (cases r)
    case (Inl e)
    from tripleD(1) [OF T refl, of e s'] run Inl show ?thesis by simp
  next
    case (Inr res)
    from tripleD(2) [OF T refl, of res s'] run Inr show ?thesis by simp
  qed
  obtain c t where comment: "publish_pr_comment gp owner name number text_body marker s = (c, t)" by fastforce
  note T = comment_log [OF assms, of "wr s" owner name number text_body marker]
  show ?C
  proof (cases c)
    case (Inl e)
    from tripleD(1) [OF T refl, of e t] comment Inl show ?thesis by simp
  next
    case (Inr res)
    have "co_created res \<longrightarrow> (\<exists>user t login cs t'. get_dict gp (api (U ''user'')) s = (Inr user, t)
        \<and> login_of user = Inr login \<and> all_pages gp (comments_url owner name number) gather [] t = (Inr (Inr cs), t')
        \<and> \<not> list_ex (own_comment login marker) cs)"
      using comment_created_new [OF comment [unfolded Inr]] by metis
    with tripleD(2) [OF T refl, of res t] comment Inr show ?thesis by simp
  qed
qed

text \<open>A platform with one account and no comments yet; its state is the list of writes.\<close>

definition sample_answer :: "json \<Rightarrow> http_world" where
  "sample_answer j = \<lparr>hw_outcome = (\<lambda>_. Some \<lparr>hr_status = 200, hr_headers = [], hr_json = Some j\<rparr>),
     hw_start = 0, hw_head = (\<lambda>_. 0), hw_after = (\<lambda>_. 0), hw_random = (\<lambda>_. 0)\<rparr>"

definition sample_github :: "platform_write list github" where
  "sample_github = \<lparr>gp_lib = table_lib [], gp_bad_netloc = (\<lambda>_. False), gp_digits = (\<lambda>_. NoDigit), gp_lower = (\<lambda>c. [c]),
     gp_parse_float = (\<lambda>_. BadFloat), gp_token = [], gp_forks = [], gp_policy = DEFAULT_RETRY_POLICY,
     gp_poll_attempts = 10, gp_poll_interval = 1,
     gp_observe = (\<lambda>u h p. ret (sample_answer (if p = [] then JObj [(U ''login'', JStr (U ''bot''))] else JList []))),
     gp_send = (\<lambda>u h j s. (Inr \<lparr>hr_status = 201, hr_headers = [], hr_json = Some (JObj [(U ''html_url'',
        JStr (U ''https://github.com/o/n/pull/1#issuecomment-5''))])\<rparr>, s @ [Sent u j])),
     gp_sleep = (\<lambda>_. ret ()), gp_is_dir = (\<lambda>_. ret True), gp_push = (\<lambda>w u b s. (Inr (), s @ [Pushed w u b]))\<rparr>"

lemma sample_logs: "logs_writes sample_github (\<lambda>s. s)"
  by (simp add: logs_writes_def sample_github_def ret_def)

lemma sample_comment:
  "fst (publish_pr_comment sample_github (U ''o'') (U ''n'') 1 (U ''hi'') (U ''i'') []) =
     Inr \<lparr>co_url = U ''https://github.com/o/n/pull/1#issuecomment-5'', co_created = True\<rparr>"
  by code_simp


theorem platform_writes_are_single_witness:
  "publish_pr_comment sample_github (U ''o'') (U ''n'') 1 (U ''hi'') (U ''i'') [] =
     (Inr \<lparr>co_url = U ''https://github.com/o/n/pull/1#issuecomment-5'', co_created = True\<rparr>,
      comment_writes (U ''o'') (U ''n'') 1 (U ''hi'') True)"
proof -
  obtain s' where run: "publish_pr_comment sample_github (U ''o'') (U ''n'') 1 (U ''hi'') (U ''i'') [] =
      (Inr \<lparr>co_url = U ''https://github.com/o/n/pull/1#issuecomment-5'', co_created = True\<rparr>, s')"
    using sample_comment by (metis prod.collapse)
  from platform_writes_are_single [where owner = "U ''o''" and name = "U ''n''" and number = 1
      and text_body = "U ''hi''" and marker = "U ''i''" and s = "[]", OF sample_logs, THEN conjunct2]
  have "s' = comment_writes (U ''o'') (U ''n'') 1 (U ''hi'') True"
    unfolding run by simp
  with run show ?thesis by simp
qed

end
