(* ===== verification/Spec2Isabelle.thy ===== *)
theory Spec2Isabelle
  imports Workflow_Settles Model_Proxy Http Pr_Review_Settles Limited_Runner System Repository_Commands Github_Publisher
begin

text \<open>
  Coderus is a service that works on issues of code platforms.  A user dispatches an issue; a scheduler claims the
  task and starts a worker; the worker lets an Agent fix the issue in a checkout, lets two reviewing Agents look at
  the result, lets the first Agent revise it once, and publishes a pull request.  Independently, a user may ask for
  the review of a pull request, which ends in one comment below it.  All state is in a database; the Agents reach
  their model only through a proxy with short-lived tokens.

  The model follows the sources under \<open>src/coderus\<close> function by function.  Names are the source's, with prefixes
  on record fields; conditions and early returns are in the source's order; every exception is a value of type
  \<open>pyexc\<close> with its class.

  The base.  \<open>Prelude\<close>: Python values and the three SQL operations on a table (a list of rows).  \<open>Exceptions\<close>:
  the class hierarchy, \<open>isinstance\<close> and \<open>tasks/error_codes.py\<close>.  \<open>Io\<close>: computations that change a state and end
  with a value or an exception, with Hoare triples.  \<open>Py_Str\<close>, \<open>Py_Text\<close>, \<open>Py_Url\<close>, \<open>Py_Re\<close>, \<open>Json\<close>: the part of
  Python's library the program uses (\<open>strip\<close>, \<open>splitlines\<close>, \<open>quote\<close>, \<open>shlex\<close>, \<open>urlsplit\<close>, regular expressions,
  JSON values).  The Unicode database, \<open>json.loads\<close>, \<open>repr\<close> and the like are arguments.  \<open>Schema\<close>: the rows of
  \<open>models.py\<close> and the quotas.

  Tasks.  \<open>Task_State\<close> (\<open>workflow/task_state.py\<close>): compare-and-set of a status together with its audit row, and
  the claim under the global and per-user limits (C1, C2).  \<open>Lease\<close> (\<open>tasks/lease.py\<close>): renewal and the heartbeat
  worker, in a locale over the table it leases (C3, C4).  \<open>Task_Scheduler\<close> (\<open>workflow/scheduler.py\<close>): recovery of
  interrupted tasks and one tick (C5, C6).  \<open>Task_Lifecycle\<close> is the abstract specification: the statuses and the
  steps between them.  \<open>System\<close> puts the operations together as a step relation on the database and proves the
  global invariant (C30) and the simulation of the lifecycle (C31).

  Workers.  \<open>Agent_Output\<close>: developer reports, reviewer results and the last message of an Agent (C7 to C9).
  \<open>Prompts\<close>: the texts sent to the Agents.  \<open>Runner_Protocol\<close>: jobs, results and the retry of Agent operations
  (C32).  \<open>Limited_Runner\<close> (\<open>workflow/limited_runner.py\<close>): the slots as a step relation over waiting and running
  calls (C38).  \<open>Workflow_Writes\<close>: every write of \<open>workflow/orchestrator.py\<close> and \<open>workflow/publication.py\<close>, all
  guarded by the claim (C10, C11).  \<open>Workflow_Run\<close>: the whole of a run, with stages, the review cycle, revisions
  and publication, over a record of services (git, forges, runner, clock); awaiting lets the database and the
  cancellation flags change in any way another party could change them.  \<open>Workflow_Settles\<close>: whatever the services
  do, a run settles its task, and a worker without the claim publishes nothing (C33, C34).

  Commands.  \<open>Task_Commands\<close> (\<open>application/tasks.py\<close>, the toggle of \<open>web/routes/users.py\<close>, \<open>workflow/pr_status.py\<close>;
  C14 to C18), \<open>Feedback\<close> (\<open>workflow/feedback.py\<close>; C13), \<open>Issue_Service\<close> (\<open>issues\<close>, \<open>application/issues.py\<close>;
  C21, C22), \<open>Repository_Commands\<close>.

  Platforms.  \<open>Forge_Registry\<close>: which platforms are configured, with a locale for the lookup the clients rely on.
   \<open>Forge_Urls\<close>: the URLs users may name (C19, C20).  \<open>Http\<close> (\<open>forge/http.py\<close>): bounded retries (C25).
  \<open>Github_Publisher\<close> (\<open>forge/github/pulls.py\<close>): forks, publication, feedback and comments over an abstract
  HTTP client; nothing is pushed, opened or commented twice (C40).

  The model proxy.  \<open>Broker\<close> (\<open>model_proxy/broker.py\<close>): stage tokens, permits and budgets (C23, C24).
  \<open>Model_Proxy\<close> (\<open>model_proxy/proxy.py\<close>): the handler of a request, its checks and the return of permits (C26).

  Reviews of pull requests.  \<open>Git_Path\<close> and \<open>Diff_Ranges\<close> (\<open>pr_review/workspace.py\<close>): the changed lines of a
  unified diff (C39).  \<open>Review_Workspace\<close>: the checkout of a pull request and its git commands (C12).
  \<open>Review_Models\<close> (\<open>pr_review/models.py\<close>): clipping of findings and validation (C27).  \<open>Review_Result\<close> and
  \<open>Review_Comment\<close> (\<open>pr_review/result.py\<close>): parsing of the Agent's output and the published comment (C28, C29).
  \<open>Redaction\<close> (\<open>upstream_errors.py\<close> and the redaction of the orchestrator; C36).  \<open>Review_Instructions\<close>: the
  prompt.  \<open>Pr_Review_Store\<close>: the writes and the scheduler (C35).  \<open>Pr_Review_Run\<close> and \<open>Pr_Review_Settles\<close>
  (\<open>pr_review/orchestrator.py\<close>): a review from claim to comment (C37).

  Fuel and bounds.  \<open>issubclass\<close> searches to depth 8; the longest chain has six classes.  The greedy repetition of
  \<open>Py_Re\<close> has the length of the text as fuel, and every round consumes a character.  The retry loops count the
  attempts the code allows; the pages of a listing are bounded by the code's own \<open>_MAX_PAGES\<close>.  All other recursions are structural or have a measure.  Python's integers are
  unbounded, so there is no wrap-around; \<open>int()\<close> of more than 4300 digits raises.  Floating point numbers are
  rationals.

  Not modelled: processes, signals, Landlock and the file system (\<open>runner/local.py\<close>, \<open>runner/landlock.py\<close>,
  \<open>processes.py\<close>, \<open>workflow/workspace_git.py\<close>, \<open>forge/git_transport.py\<close>), which are effects of the operating system and
  of git and appear as services; the REST client of GitCode and the
  listing of issues; the Feishu
  integration, the web pages and the assistant, which format texts around the modelled commands; cryptography and
  credential storage; configuration, migrations, the command line, the offline evaluation, and the release scripts.
\<close>

end
